(* ===== verification/Prelude.thy ===== *)
theory Prelude
  imports Main "HOL-Library.Product_Lexorder" "HOL-Library.List_Lexorder" "HOL-Library.Char_ord"
begin

text \<open>
  What every component shares: failing computations as sums, database transactions, SQL's
  filtered update, Python's text helpers on the code points below 256, and time.

  A Python exception is an \<open>Inl\<close>; \<open>bindR\<close> is the sequencing of statements that an
  exception cuts short.  A use case that runs inside \<open>async with self._sessions() as session,
  session.begin()\<close> is a function \<open>'s \<Rightarrow> 'e + ('a \<times> 's)\<close>, and \<open>transact\<close> commits it or, on an
  exception, rolls it back.  Instants are integers counting microseconds since the Unix epoch
  (the resolution of Python's \<open>datetime\<close>); Korea Standard Time is UTC+9, which is what the IANA
  zone \<open>Asia/Seoul\<close> has been since 1988.
\<close>

named_theorems active_simps "how each operation changes the set of active participants"
named_theorems frame_simps "fields an operation leaves alone"

section \<open>Results and exceptions\<close>

fun bindR :: "'e + 'a \<Rightarrow> ('a \<Rightarrow> 'e + 'b) \<Rightarrow> 'e + 'b" where
  "bindR (Inl e) k = Inl e"
| "bindR (Inr a) k = k a"

definition ensure :: "bool \<Rightarrow> 'e \<Rightarrow> 'e + unit" where
  "ensure ok e = (if ok then Inr () else Inl e)"

lemma bindR_Inr_iff [simp]: "bindR r k = Inr b \<longleftrightarrow> (\<exists>a. r = Inr a \<and> k a = Inr b)"
  by (cases r) auto

lemma bindR_Inl_iff: "bindR r k = Inl e \<longleftrightarrow> r = Inl e \<or> (\<exists>a. r = Inr a \<and> k a = Inl e)"
  by (cases r) auto

lemma ensure_Inr_iff [simp]: "ensure ok e = Inr u \<longleftrightarrow> ok"
  by (simp add: ensure_def)

lemma ensure_Inl_iff [simp]: "ensure ok e = Inl e' \<longleftrightarrow> \<not> ok \<and> e = e'"
  by (auto simp: ensure_def)

lemma ensure_True [simp]: "ensure True e = Inr ()"
  by (simp add: ensure_def)

lemma ensure_False [simp]: "ensure False e = Inl e"
  by (simp add: ensure_def)

fun mapR :: "('a \<Rightarrow> 'e + 'b) \<Rightarrow> 'a list \<Rightarrow> 'e + 'b list" where
  "mapR f [] = Inr []"
| "mapR f (x # xs) = bindR (f x) (\<lambda>y. bindR (mapR f xs) (\<lambda>ys. Inr (y # ys)))"

lemma mapR_Inr_iff: "mapR f xs = Inr ys \<longleftrightarrow> list_all2 (\<lambda>x y. f x = Inr y) xs ys"
proof (induction xs arbitrary: ys)
  case Nil
  then show ?case by auto
next
  case (Cons x xs)
  then show ?case by (cases ys) auto
qed

lemma mapR_pure: "(\<And>x. x \<in> set xs \<Longrightarrow> f x = Inr (g x)) \<Longrightarrow> mapR f xs = Inr (map g xs)"
  by (induction xs) auto

section \<open>Transactions\<close>

text \<open>An exception inside the block rolls the session back, so the state is the one before it.\<close>

definition transact :: "('s \<Rightarrow> 'e + ('a \<times> 's)) \<Rightarrow> 's \<Rightarrow> ('e + 'a) \<times> 's" where
  "transact t s = (case t s of Inl e \<Rightarrow> (Inl e, s) | Inr (a, s') \<Rightarrow> (Inr a, s'))"

lemma transact_Inl: "t s = Inl e \<Longrightarrow> transact t s = (Inl e, s)"
  by (simp add: transact_def)

lemma transact_Inr: "t s = Inr (a, s') \<Longrightarrow> transact t s = (Inr a, s')"
  by (simp add: transact_def)

lemma snd_transact_cases:
  obtains "snd (transact t s) = s" | a s' where "t s = Inr (a, s')" "snd (transact t s) = s'"
  by (cases "t s") (auto simp: transact_def)

section \<open>Tables\<close>

text \<open>\<open>UPDATE ... SET f WHERE P\<close> on a table kept in insertion order.\<close>

definition update_where :: "('r \<Rightarrow> bool) \<Rightarrow> ('r \<Rightarrow> 'r) \<Rightarrow> 'r list \<Rightarrow> 'r list" where
  "update_where P f rows = map (\<lambda>r. if P r then f r else r) rows"

lemma set_update_where:
  "set (update_where P f rows) = f ` {r \<in> set rows. P r} \<union> {r \<in> set rows. \<not> P r}"
  by (auto simp: update_where_def)

lemma length_update_where [simp]: "length (update_where P f rows) = length rows"
  by (simp add: update_where_def)

lemma update_where_Nil [simp]: "update_where P f [] = []"
  by (simp add: update_where_def)

lemma update_where_Cons [simp]:
  "update_where P f (r # rows) = (if P r then f r else r) # update_where P f rows"
  by (simp add: update_where_def)

lemma map_update_where_frame: "(\<And>r. g (f r) = g r) \<Longrightarrow> map g (update_where P f rows) = map g rows"
  by (simp add: update_where_def)

lemma filter_update_where_same:
  "(\<And>r. r \<in> set rows \<Longrightarrow> P r \<Longrightarrow> \<not> Q r \<and> \<not> Q (f r)) \<Longrightarrow>
    filter Q (update_where P f rows) = filter Q rows"
  by (induction rows) auto

lemma filter_update_where_drop:
  "(\<And>r. \<not> Q (f r)) \<Longrightarrow> filter Q (update_where P f rows) = filter (\<lambda>r. \<not> P r) (filter Q rows)"
  by (induction rows) auto

lemma ball_update_where:
  "(\<And>r. Q (f r) = Q r) \<Longrightarrow> (\<forall>r\<in>set (update_where P f rows). Q r) = (\<forall>r\<in>set rows. Q r)"
  by (induction rows) auto

lemma bex_update_where:
  "(\<And>r. Q (f r) = Q r) \<Longrightarrow> (\<exists>r\<in>set (update_where P f rows). Q r) = (\<exists>r\<in>set rows. Q r)"
  by (induction rows) auto

lemma find_Some_set: "find P xs = Some x \<Longrightarrow> x \<in> set xs \<and> P x"
  by (induction xs) (auto split: if_splits)

lemma find_eq_None: "find P xs = None \<longleftrightarrow> (\<forall>x\<in>set xs. \<not> P x)"
  by (induction xs) auto

lemma find_update_where:
  "(\<And>r. k (f r) = k r) \<Longrightarrow> find (\<lambda>r. k r = i) (update_where (\<lambda>r. k r = j) f rows) =
    map_option (\<lambda>r. if i = j then f r else r) (find (\<lambda>r. k r = i) rows)"
  by (induction rows) auto

lemma find_distinct_key:
  "distinct (map k rows) \<Longrightarrow> r \<in> set rows \<Longrightarrow> find (\<lambda>x. k x = k r) rows = Some r"
  by (induction rows) (auto simp: rev_image_eqI)

lemma distinct_map_eq:
  "distinct (map k rows) \<Longrightarrow> x \<in> set rows \<Longrightarrow> y \<in> set rows \<Longrightarrow> k x = k y \<Longrightarrow> x = y"
  by (induction rows) (auto simp: rev_image_eqI)

lemma length_filter_split:
  "length (filter P xs) = length (filter P (filter Q xs)) + length (filter P (filter (\<lambda>x. \<not> Q x) xs))"
  by (induction xs) auto

lemma length_filter_remove_key:
  "distinct (map k xs) \<Longrightarrow> x \<in> set xs \<Longrightarrow> length (filter (\<lambda>y. k y \<noteq> k x) xs) = length xs - 1"
proof (induction xs)
  case Nil
  then show ?case by simp
next
  case (Cons a xs)
  show ?case
  proof (cases "a = x")
    case True
    with Cons.prems(1) have "\<forall>y\<in>set xs. k y \<noteq> k x" by (auto simp: rev_image_eqI)
    then show ?thesis using True by simp
  next
    case False
    with Cons.prems have "x \<in> set xs" and "k a \<noteq> k x" by (auto simp: rev_image_eqI)
    moreover from this have "xs \<noteq> []" by auto
    ultimately show ?thesis using Cons by (cases xs) auto
  qed
qed

lemma find_append: "find P (xs @ ys) = (case find P xs of None \<Rightarrow> find P ys | Some x \<Rightarrow> Some x)"
  by (induction xs) auto

lemma find_filter_key: "find (\<lambda>r. k r = i) (filter (\<lambda>r. k r \<noteq> j) rows) = (if i = j then None else find (\<lambda>r. k r = i) rows)"
  by (induction rows) auto

lemma find_filter_weaker: "(\<And>r. Q r \<Longrightarrow> P r) \<Longrightarrow> find Q (filter P rows) = find Q rows"
  by (induction rows) auto

text \<open>\<open>ORDER BY\<close>: a mapped list is sorted by the key of what it maps, and a row with the least key comes first.\<close>

lemma sort_key_map: "sort_key k (map f xs) = map f (sort_key (k \<circ> f) xs)"
proof -
  have "map f (insort_key (k \<circ> f) x ys) = insort_key k (f x) (map f ys)" for x ys
    by (induction ys) auto
  then show ?thesis by (induction xs) (simp_all add: sort_key_def)
qed

lemma sort_key_last_least: "(\<And>y. y \<in> set xs \<Longrightarrow> k x < k y) \<Longrightarrow> sort_key k (xs @ [x]) = x # sort_key k xs"
proof (induction xs)
  case (Cons a xs)
  have "\<not> k a \<le> k x" using Cons.prems [of a] by simp
  moreover have "sort_key k (xs @ [x]) = x # sort_key k xs" using Cons by simp
  ultimately show ?case by simp
qed simp

section \<open>Text\<close>

text \<open>
  Python text is modelled by \<open>string\<close> read as code points below 256.  \<open>str.strip\<close> removes the
  characters \<open>str.isspace\<close> accepts; \<open>str.casefold\<close> and \<open>str.lower\<close> agree on the ASCII letters,
  which is all an RPCN username may hold.
\<close>

definition is_space :: "char \<Rightarrow> bool" where
  "is_space c = (let n = (of_char c :: nat) in (9 \<le> n \<and> n \<le> 13) \<or> (28 \<le> n \<and> n \<le> 32) \<or> n = 133 \<or> n = 160)"

definition strip :: "string \<Rightarrow> string" where
  "strip s = rev (dropWhile is_space (rev (dropWhile is_space s)))"

definition lower_char :: "char \<Rightarrow> char" where
  "lower_char c = (let n = (of_char c :: nat) in if 65 \<le> n \<and> n \<le> 90 then char_of (n + 32) else c)"

definition casefold :: "string \<Rightarrow> string" where
  "casefold s = map lower_char s"

lemma lower_char_idem [simp]: "lower_char (lower_char c) = lower_char c"
  by (simp add: lower_char_def Let_def)

lemma casefold_idem [simp]: "casefold (casefold s) = casefold s"
  by (simp add: casefold_def)

lemma length_casefold [simp]: "length (casefold s) = length s"
  by (simp add: casefold_def)

lemma length_strip: "length (strip s) \<le> length s"
  unfolding strip_def by (metis length_dropWhile_le length_rev le_trans)

text \<open>Decimal text, as \<open>str\<close> writes a natural number.\<close>

fun decimal :: "nat \<Rightarrow> string" where
  "decimal n = (if n < 10 then [char_of (48 + n)] else decimal (n div 10) @ [char_of (48 + n mod 10)])"

declare decimal.simps [simp del]

lemma decimal_value: "fold (\<lambda>c n. 10 * n + (of_char c - 48)) (decimal n) 0 = (n :: nat)"
proof (induction n rule: decimal.induct)
  case (1 n)
  show ?case
  proof (cases "n < 10")
    case True
    then show ?thesis by (simp add: decimal.simps [of n])
  next
    case False
    then show ?thesis using 1 by (simp add: decimal.simps [of n])
  qed
qed

lemma decimal_inj [simp]: "decimal a = decimal b \<longleftrightarrow> a = b"
  by (metis decimal_value)

section \<open>Time\<close>

type_synonym instant = int

abbreviation second :: int where "second \<equiv> 1000000"
abbreviation minute :: int where "minute \<equiv> 60000000"
abbreviation hour :: int where "hour \<equiv> 3600000000"
abbreviation day :: int where "day \<equiv> 86400000000"

text \<open>The wall clock in Seoul, as microseconds since the epoch's midnight there.\<close>

definition kst_wall :: "instant \<Rightarrow> int" where
  "kst_wall t = t + 9 * hour"

definition from_kst_wall :: "int \<Rightarrow> instant" where
  "from_kst_wall w = w - 9 * hour"

lemma kst_wall_inverse [simp]: "from_kst_wall (kst_wall t) = t" "kst_wall (from_kst_wall w) = w"
  by (simp_all add: kst_wall_def from_kst_wall_def)

text \<open>\<open>datetime.replace(hour=h, minute=0, second=0, microsecond=0)\<close> on a wall-clock value.\<close>

definition at_hour :: "int \<Rightarrow> int \<Rightarrow> int" where
  "at_hour h wall = wall div day * day + h * hour"

lemma day_split: "(w :: int) div day * day + w mod day = w" "0 \<le> w mod day" "w mod day < day"
  by simp_all

lemma day_unique:
  assumes "(w :: int) mod day = w' mod day" and "w \<le> w'" and "w' < w + day"
  shows "w' = w"
proof -
  have "day dvd w' - w" using assms(1) by (metis mod_eq_dvd_iff)
  then obtain q where d: "w' - w = day * q" by (auto elim: dvdE)
  have "0 \<le> w' - w" "w' - w < day" using assms(2,3) by simp_all
  with d have "q = 0" by linarith
  with d show ?thesis by simp
qed

lemma mod_day_shift [simp]: "((w :: int) + day) mod day = w mod day"
  by simp

end
