(* ===== verification/Errors.thy ===== *)
theory Errors
  imports Prelude
begin

text \<open>
  The domain exceptions of \<open>shared/exceptions.py\<close> and the HTTP status
  \<open>shared/error_handlers.py\<close> answers each with.  Every component maps its own exceptions to
  one of these bases, as its \<open>exceptions.py\<close> does by subclassing.
\<close>

datatype domain_error =
    NotFoundError
  | UnauthorizedError
  | ForbiddenError
  | ValidationError
  | ConflictError
  | UnprocessableError
  | RateLimitedError
  | ServiceUnavailableError

text \<open>\<open>_STATUS\<close>, and 401 from \<open>_unauthorized\<close>.\<close>

fun status_code :: "domain_error \<Rightarrow> int" where
  "status_code NotFoundError = 404"
| "status_code ForbiddenError = 403"
| "status_code ValidationError = 400"
| "status_code ConflictError = 409"
| "status_code UnprocessableError = 422"
| "status_code RateLimitedError = 429"
| "status_code ServiceUnavailableError = 502"
| "status_code UnauthorizedError = 401"

text \<open>Only 401 says how to authenticate.\<close>

definition authenticate_header :: "domain_error \<Rightarrow> string option" where
  "authenticate_header e = (if e = UnauthorizedError then Some ''Bearer'' else None)"

lemma status_code_inj: "status_code a = status_code b \<Longrightarrow> a = b"
  by (cases a; cases b) auto

lemma status_code_client_or_gateway: "400 \<le> status_code e \<and> status_code e < 500 \<or> status_code e = 502"
  by (cases e) auto

end
