(* ===== verification/Idempotency.thy ===== *)
theory Idempotency
  imports Errors
begin

text \<open>
  \<open>src/idempotency\<close>: run a write at most once per key.  The key row, the write and the stored
  answer live in one transaction, so the state of a transaction pairs the key table with the
  application's own tables.  \<open>to_jsonable_python\<close> (pydantic) and the digest of the canonical
  request are parameters: they are code outside the repository.
\<close>

section \<open>The key table\<close>

record 'j idem_row =
  ik_subject :: string
  ik_key :: string
  ik_fingerprint :: string
  ik_response :: "'j option"

record ('j, 'd) txstate =
  idem_rows :: "'j idem_row list"
  app :: 'd

datatype 'e idem_error = IdempotencyKeyReusedError | WriteError 'e

definition key_of :: "'j idem_row \<Rightarrow> string \<times> string" where
  "key_of r = (ik_subject r, ik_key r)"

text \<open>
  \<open>INSERT ... ON CONFLICT DO NOTHING\<close>: a row of the key, when there is one, blocks the insert
  and is read back; its fingerprint decides.
\<close>

definition pg_claim ::
  "string \<Rightarrow> string \<Rightarrow> string \<Rightarrow> ('j, 'd) txstate \<Rightarrow> 'e idem_error + ('j option \<times> ('j, 'd) txstate)" where
  "pg_claim subject key fp s =
     (case find (\<lambda>r. key_of r = (subject, key)) (idem_rows s) of
        None \<Rightarrow> Inr (None, s\<lparr>idem_rows := idem_rows s @
                  [\<lparr>ik_subject = subject, ik_key = key, ik_fingerprint = fp, ik_response = None\<rparr>]\<rparr>)
      | Some r \<Rightarrow> if ik_fingerprint r \<noteq> fp then Inl IdempotencyKeyReusedError
                  else Inr (ik_response r, s))"

lemma key_of_response [simp]: "key_of (r\<lparr>ik_response := x\<rparr>) = key_of r"
  by (simp add: key_of_def)

definition pg_complete :: "string \<Rightarrow> string \<Rightarrow> 'j \<Rightarrow> ('j, 'd) txstate \<Rightarrow> ('j, 'd) txstate" where
  "pg_complete subject key response s =
     s\<lparr>idem_rows := update_where (\<lambda>r. key_of r = (subject, key)) (\<lambda>r. r\<lparr>ik_response := Some response\<rparr>)
                      (idem_rows s)\<rparr>"

section \<open>The service\<close>

text \<open>\<open>fingerprint(scope, request)\<close>: a digest of the canonical text of both.\<close>

definition fingerprint :: "(string \<Rightarrow> string) \<Rightarrow> (string \<Rightarrow> 'q \<Rightarrow> string) \<Rightarrow> string \<Rightarrow> 'q \<Rightarrow> string" where
  "fingerprint sha256 canonical scope request = sha256 (canonical scope request)"

definition run_once ::
  "(string \<Rightarrow> string \<Rightarrow> string \<Rightarrow> 's \<Rightarrow> 'e idem_error + ('j option \<times> 's)) \<Rightarrow>
   (string \<Rightarrow> string \<Rightarrow> 'j \<Rightarrow> 's \<Rightarrow> 's) \<Rightarrow> ('a \<Rightarrow> 'j) \<Rightarrow>
   string \<Rightarrow> string \<Rightarrow> string \<Rightarrow> ('s \<Rightarrow> 'e + ('a \<times> 's)) \<Rightarrow> 's \<Rightarrow> 'e idem_error + ('j \<times> 's)" where
  "run_once claim complete jsonable subject key fp write s =
     bindR (claim subject key fp s) (\<lambda>(stored, s1).
       case stored of
         Some answer \<Rightarrow> Inr (answer, s1)
       | None \<Rightarrow>
           (case write s1 of
              Inl e \<Rightarrow> Inl (WriteError e)
            | Inr (a, s2) \<Rightarrow> Inr (jsonable a, complete subject key (jsonable a) s2)))"

text \<open>A write that touches only the application's tables.\<close>

definition on_app :: "('d \<Rightarrow> 'e + ('a \<times> 'd)) \<Rightarrow> ('j, 'd) txstate \<Rightarrow> 'e + ('a \<times> ('j, 'd) txstate)" where
  "on_app w s = (case w (app s) of Inl e \<Rightarrow> Inl e | Inr (a, d) \<Rightarrow> Inr (a, s\<lparr>app := d\<rparr>))"

section \<open>The store's contract\<close>

text \<open>
  \<open>IdempotencyStore\<close>: \<open>stored s\<close> is what the store holds, the fingerprint and the answer kept
  under each key.  A claim takes a free key, returns the answer of the same request, and refuses
  a different one; completing keeps the answer under the key.
\<close>

locale idempotency_store =
  fixes claim :: "string \<Rightarrow> string \<Rightarrow> string \<Rightarrow> 's \<Rightarrow> 'e idem_error + ('j option \<times> 's)"
    and complete :: "string \<Rightarrow> string \<Rightarrow> 'j \<Rightarrow> 's \<Rightarrow> 's"
    and stored :: "'s \<Rightarrow> string \<times> string \<Rightarrow> (string \<times> 'j option) option"
  assumes claim_free: "stored s (sub, k) = None \<Longrightarrow>
      \<exists>s'. claim sub k fp s = Inr (None, s') \<and> stored s' = (stored s)((sub, k) \<mapsto> (fp, None))"
    and claim_same: "stored s (sub, k) = Some (fp, resp) \<Longrightarrow> claim sub k fp s = Inr (resp, s)"
    and claim_other: "stored s (sub, k) = Some (fp', resp) \<Longrightarrow> fp' \<noteq> fp \<Longrightarrow>
      claim sub k fp s = Inl IdempotencyKeyReusedError"
    and complete_stored: "stored s (sub, k) = Some (fp, resp) \<Longrightarrow>
      stored (complete sub k j s) = (stored s)((sub, k) \<mapsto> (fp, Some j))"
begin

text \<open>The writes the service runs leave the keys alone.\<close>

definition keeps_keys :: "('s \<Rightarrow> 'f + ('a \<times> 's)) \<Rightarrow> bool" where
  "keeps_keys w \<longleftrightarrow> (\<forall>s a s'. w s = Inr (a, s') \<longrightarrow> stored s' = stored s)"

text \<open>Outside a transaction every key has its answer.\<close>

definition settled :: "'s \<Rightarrow> bool" where
  "settled s \<longleftrightarrow> (\<forall>k fp. stored s k \<noteq> Some (fp, None))"

lemma run_once_answered:
  assumes "stored s (sub, k) = Some (fp, Some j)"
  shows "run_once claim complete jsonable sub k fp w s = Inr (j, s)"
  using assms claim_same [OF assms] by (simp add: run_once_def)

lemma run_once_reused:
  assumes "stored s (sub, k) = Some (fp', resp)" and "fp' \<noteq> fp"
  shows "run_once claim complete jsonable sub k fp w s = Inl IdempotencyKeyReusedError"
  using claim_other [OF assms] by (simp add: run_once_def)

lemma run_once_first:
  assumes free: "stored s (sub, k) = None" and keep: "keeps_keys w"
    and run: "run_once claim complete jsonable sub k fp w s = Inr (j, s')"
  shows "stored s' = (stored s)((sub, k) \<mapsto> (fp, Some j))"
proof -
  obtain s1 where c: "claim sub k fp s = Inr (None, s1)"
    and s1: "stored s1 = (stored s)((sub, k) \<mapsto> (fp, None))"
    using claim_free [OF free] by blast
  from run c obtain a s2 where w: "w s1 = Inr (a, s2)" and j: "j = jsonable a"
    and s': "s' = complete sub k (jsonable a) s2"
    by (auto simp: run_once_def split: sum.splits prod.splits)
  from w keep s1 have "stored s2 = (stored s)((sub, k) \<mapsto> (fp, None))"
    by (auto simp: keeps_keys_def)
  then have "stored s2 (sub, k) = Some (fp, None)"
    and "(stored s2)((sub, k) \<mapsto> (fp, Some j)) = (stored s)((sub, k) \<mapsto> (fp, Some j))" by simp_all
  with s' j show ?thesis using complete_stored by metis
qed

text \<open>After any successful call the key holds the answer returned.\<close>

lemma run_once_stores:
  assumes "settled s" and "keeps_keys w"
    and "run_once claim complete jsonable sub k fp w s = Inr (j, s')"
  shows "stored s' (sub, k) = Some (fp, Some j) \<and>
    (\<forall>q v. stored s q = Some v \<longrightarrow> stored s' q = Some v) \<and> settled s'"
proof (cases "stored s (sub, k)")
  case None
  from run_once_first [OF None assms(2,3)] None assms(1) show ?thesis
    by (auto simp: settled_def)
next
  case (Some v)
  obtain fp' resp where v: "v = (fp', resp)" by (cases v)
  have "fp' = fp"
  proof (rule ccontr)
    assume "fp' \<noteq> fp"
    with assms(3) show False by (simp add: run_once_reused [OF Some [unfolded v]])
  qed
  moreover from Some v assms(1) obtain j' where "resp = Some j'"
    by (cases resp) (auto simp: settled_def)
  ultimately have st: "stored s (sub, k) = Some (fp, Some j')" using Some v by simp
  with assms show ?thesis by (simp add: run_once_answered [OF st])
qed

text \<open>A retry answers what the first call answered, and writes nothing.\<close>

lemma run_once_retry:
  assumes "settled s" and "keeps_keys w"
    and "run_once claim complete jsonable sub k fp w s = Inr (j, s')"
    and "\<forall>q v. stored s' q = Some v \<longrightarrow> stored t q = Some v"
  shows "run_once claim complete jsonable sub k fp w' t = Inr (j, t)"
proof -
  from run_once_stores [OF assms(1-3)] assms(4) have "stored t (sub, k) = Some (fp, Some j)" by blast
  then show ?thesis by (rule run_once_answered)
qed

end

section \<open>PostgreSQL keeps the contract\<close>

definition stored_keys :: "('j, 'd) txstate \<Rightarrow> string \<times> string \<Rightarrow> (string \<times> 'j option) option" where
  "stored_keys s k = map_option (\<lambda>r. (ik_fingerprint r, ik_response r)) (find (\<lambda>r. key_of r = k) (idem_rows s))"

lemma find_update_where_key:
  assumes "\<And>r. key_of (f r) = key_of r"
  shows "find (\<lambda>r. key_of r = q) (update_where (\<lambda>r. key_of r = k) f rows) =
    map_option (\<lambda>r. if q = k then f r else r) (find (\<lambda>r. key_of r = q) rows)"
  by (induction rows) (auto simp: assms)

lemma stored_keys_claim:
  "stored_keys s (sub, k) = None \<Longrightarrow>
    \<exists>s'. pg_claim sub k fp s = Inr (None, s') \<and> stored_keys s' = (stored_keys s)((sub, k) \<mapsto> (fp, None))"
  by (auto simp: stored_keys_def pg_claim_def find_append key_of_def fun_eq_iff split: option.splits)

lemma stored_keys_complete:
  assumes "stored_keys s (sub, k) = Some (fp, resp)"
  shows "stored_keys (pg_complete sub k j s) = (stored_keys s)((sub, k) \<mapsto> (fp, Some j))"
proof
  fix q
  show "stored_keys (pg_complete sub k j s) q = ((stored_keys s)((sub, k) \<mapsto> (fp, Some j))) q"
    using assms by (auto simp: stored_keys_def pg_complete_def find_update_where_key option.map_ident)
qed

interpretation pg: idempotency_store pg_claim pg_complete stored_keys
proof unfold_locales
  show "stored_keys s (sub, k) = Some (fp, resp) \<Longrightarrow> pg_claim sub k fp s = Inr (resp, s)"
    for s :: "('a, 'b) txstate" and sub k fp resp
    by (auto simp: stored_keys_def pg_claim_def)
  show "stored_keys s (sub, k) = Some (fp', resp) \<Longrightarrow> fp' \<noteq> fp \<Longrightarrow>
      pg_claim sub k fp s = Inl IdempotencyKeyReusedError"
    for s :: "('a, 'b) txstate" and sub k fp fp' resp
    by (auto simp: stored_keys_def pg_claim_def)
qed (auto simp: stored_keys_claim stored_keys_complete)

lemma on_app_keeps_keys: "pg.keeps_keys (on_app w)"
  by (auto simp: pg.keeps_keys_def on_app_def stored_keys_def split: sum.splits)

end
