(* ===== verification/Cache.thy ===== *)
theory Cache
  imports Prelude "HOL-Library.Sublist"
begin

text \<open>
  \<open>src/shared/cache.py\<close>: the cache's interface, its in-process implementation \<open>DictCache\<close>, the Redis
  one as far as the repository writes it, and the read-through every service builds on it.

  The cache stores JSON text; the value \<open>'j\<close> is the JSON value that text stands for;
  \<open>Cache_Json\<close> says which values \<open>json.dumps\<close> and \<open>json.loads\<close> carry unchanged.  \<open>time.monotonic\<close> is an argument.  The patterns the
  services pass hold no bracket, so the bracket classes of \<open>fnmatch\<close> are not modelled.
\<close>

section \<open>Patterns\<close>

function fnmatch :: "string \<Rightarrow> string \<Rightarrow> bool" where
  "fnmatch [] key \<longleftrightarrow> key = []"
| "fnmatch (p # ps) key \<longleftrightarrow>
     (if p = CHR ''*'' then fnmatch ps key \<or> (case key of [] \<Rightarrow> False | _ # cs \<Rightarrow> fnmatch (p # ps) cs)
      else (case key of [] \<Rightarrow> False | c # cs \<Rightarrow> (p = CHR ''?'' \<or> p = c) \<and> fnmatch ps cs))"
  by pat_completeness auto
termination by (relation "measure (\<lambda>(p, k). length p + length k)") auto

lemma fnmatch_star: "fnmatch ''*'' key"
  by (induction key) simp_all

lemma fnmatch_prefix:
  "\<forall>c\<in>set pre. c \<noteq> CHR ''*'' \<and> c \<noteq> CHR ''?'' \<Longrightarrow> fnmatch (pre @ ''*'') key \<longleftrightarrow> prefix pre key"
proof (induction pre arbitrary: key)
  case Nil
  then show ?case using fnmatch_star [of key] by simp
next
  case (Cons p pre)
  then show ?case by (cases key) auto
qed

section \<open>The in-process cache\<close>

type_synonym 'j dict_cache = "string \<rightharpoonup> ('j \<times> instant)"

definition dict_get :: "string \<Rightarrow> instant \<Rightarrow> 'j dict_cache \<Rightarrow> 'j option \<times> 'j dict_cache" where
  "dict_get key now c =
     (case c key of
        None \<Rightarrow> (None, c)
      | Some (v, expire_at) \<Rightarrow> if now \<ge> expire_at then (None, c(key := None)) else (Some v, c))"

definition dict_set :: "string \<Rightarrow> 'j \<Rightarrow> int \<Rightarrow> instant \<Rightarrow> 'j dict_cache \<Rightarrow> 'j dict_cache" where
  "dict_set key v ttl now c = c(key \<mapsto> (v, now + ttl * second))"

definition dict_delete :: "string \<Rightarrow> 'j dict_cache \<Rightarrow> 'j dict_cache" where
  "dict_delete key c = c(key := None)"

text \<open>
  The keys are read under the lock, matched outside it and removed under it again: \<open>seen\<close> is the
  cache as it was at the first step, \<open>c\<close> as it is at the second.
\<close>

definition dict_sweep :: "string \<Rightarrow> 'j dict_cache \<Rightarrow> 'j dict_cache \<Rightarrow> 'j dict_cache" where
  "dict_sweep pat seen c = (\<lambda>key. if seen key \<noteq> None \<and> fnmatch pat key then None else c key)"

definition dict_delete_pattern :: "string \<Rightarrow> 'j dict_cache \<Rightarrow> 'j dict_cache" where
  "dict_delete_pattern pat c = dict_sweep pat c c"

lemma dict_delete_pattern_eq: "dict_delete_pattern pat c key = (if fnmatch pat key then None else c key)"
  by (cases "c key") (auto simp: dict_delete_pattern_def dict_sweep_def)

section \<open>Redis\<close>

text \<open>
  The client is a parameter: a command answers or raises, and \<open>loads\<close> raises on text that is not
  JSON.  Every exception ends as a miss or as nothing done.
\<close>

definition redis_get :: "('r \<Rightarrow> string \<Rightarrow> 'x + string option) \<Rightarrow> (string \<Rightarrow> 'x + 'j) \<Rightarrow> string \<Rightarrow> 'r \<Rightarrow> 'j option" where
  "redis_get client_get loads key r =
     (case bindR (client_get r key) (\<lambda>raw.
         (case raw of None \<Rightarrow> Inr None
          | Some txt \<Rightarrow> if txt = [] then Inr None else bindR (loads txt) (\<lambda>v. Inr (Some v)))) of
        Inl _ \<Rightarrow> None
      | Inr v \<Rightarrow> v)"

definition redis_write :: "('r \<Rightarrow> 'x + 'r) \<Rightarrow> 'r \<Rightarrow> 'r" where
  "redis_write command r = (case command r of Inl _ \<Rightarrow> r | Inr r' \<Rightarrow> r')"

text \<open>
  \<open>redis_health_check\<close>: ping until an answer or the deadline.  Each attempt is its ping's outcome and
  the clock reading after a failed one; the result is the number of attempts, or the last exception.
  The list is the outside world's answers, and \<open>None\<close> says it ended before the loop did.
\<close>

fun ping_until :: "instant \<Rightarrow> nat \<Rightarrow> (('x + unit) \<times> instant) list \<Rightarrow> ('x + nat) option" where
  "ping_until deadline attempt [] = None"
| "ping_until deadline attempt ((Inr u, now) # rest) = Some (Inr (attempt + 1))"
| "ping_until deadline attempt ((Inl e, now) # rest) =
     (if deadline - now \<le> 0 then Some (Inl e) else ping_until deadline (attempt + 1) rest)"

definition redis_health_check :: "bool \<Rightarrow> instant \<Rightarrow> instant \<Rightarrow> (('x + unit) \<times> instant) list \<Rightarrow> ('x + nat) option" where
  "redis_health_check redis_url_set start timeout outcomes =
     (if \<not> redis_url_set then Some (Inr 0) else ping_until (start + timeout) 0 outcomes)"

lemma ping_until_returns: "(o1, now) \<in> set outcomes \<Longrightarrow> deadline \<le> now \<Longrightarrow> ping_until deadline n outcomes \<noteq> None"
  by (induction deadline n outcomes rule: ping_until.induct) auto

lemma redis_health_check_returns:
  "(o1, now) \<in> set outcomes \<Longrightarrow> start + timeout \<le> now \<Longrightarrow> redis_health_check url start timeout outcomes \<noteq> None"
  using ping_until_returns [of o1 now outcomes "start + timeout" 0] by (simp add: redis_health_check_def)

section \<open>Read-through\<close>

text \<open>
  \<open>if cached := cache_get(key): return cached\<close>, else load and store.  \<open>hit\<close> says whether a cached value
  counts: services that test the value for truth let an empty list miss, those that test \<open>is not None\<close>
  do not.  A load that raises stores nothing.
\<close>

definition read_through ::
  "(string \<Rightarrow> instant \<Rightarrow> 'c \<Rightarrow> 'j option \<times> 'c) \<Rightarrow> (string \<Rightarrow> 'j \<Rightarrow> int \<Rightarrow> instant \<Rightarrow> 'c \<Rightarrow> 'c) \<Rightarrow>
   ('j \<Rightarrow> bool) \<Rightarrow> string \<Rightarrow> int \<Rightarrow> instant \<Rightarrow> 'e + 'j \<Rightarrow> 'c \<Rightarrow> ('e + 'j) \<times> 'c" where
  "read_through cget cset hit key ttl now load c =
     (let (cached, c1) = cget key now c in
      case cached of
        Some v \<Rightarrow> if hit v then (Inr v, c1)
                  else (case load of Inl e \<Rightarrow> (Inl e, c1) | Inr w \<Rightarrow> (Inr w, cset key w ttl now c1))
      | None \<Rightarrow> (case load of Inl e \<Rightarrow> (Inl e, c1) | Inr w \<Rightarrow> (Inr w, cset key w ttl now c1)))"

section \<open>What a cache should answer\<close>

text \<open>
  The calls made on a cache, latest first, and the value a key should then have: the latest set, unless its
  time is up or the key has been deleted since.
\<close>

datatype 'j cache_op =
    Set_Op string 'j int instant
  | Get_Op string instant
  | Delete_Op string
  | Pattern_Op string

fun cache_step ::
  "(string \<Rightarrow> instant \<Rightarrow> 'c \<Rightarrow> 'j option \<times> 'c) \<Rightarrow> (string \<Rightarrow> 'j \<Rightarrow> int \<Rightarrow> instant \<Rightarrow> 'c \<Rightarrow> 'c) \<Rightarrow> (string \<Rightarrow> 'c \<Rightarrow> 'c) \<Rightarrow>
   (string \<Rightarrow> 'c \<Rightarrow> 'c) \<Rightarrow> 'j cache_op \<Rightarrow> 'c \<Rightarrow> 'c" where
  "cache_step cget cset cdel cdelp (Set_Op key v ttl t) c = cset key v ttl t c"
| "cache_step cget cset cdel cdelp (Get_Op key t) c = snd (cget key t c)"
| "cache_step cget cset cdel cdelp (Delete_Op key) c = cdel key c"
| "cache_step cget cset cdel cdelp (Pattern_Op pat) c = cdelp pat c"

fun latest :: "'j cache_op list \<Rightarrow> string \<Rightarrow> instant \<Rightarrow> 'j option" where
  "latest [] key now = None"
| "latest (Set_Op k v ttl t # ops) key now =
     (if k = key then (if now < t + ttl * second then Some v else None) else latest ops key now)"
| "latest (Get_Op k t # ops) key now = latest ops key now"
| "latest (Delete_Op k # ops) key now = (if k = key then None else latest ops key now)"
| "latest (Pattern_Op pat # ops) key now = (if fnmatch pat key then None else latest ops key now)"

definition asked_before :: "instant \<Rightarrow> 'j cache_op list \<Rightarrow> bool" where
  "asked_before now ops \<longleftrightarrow> (\<forall>op\<in>set ops. case op of Get_Op k t \<Rightarrow> t \<le> now | _ \<Rightarrow> True)"

section \<open>The interface\<close>

locale cache_backend =
  fixes cget :: "string \<Rightarrow> instant \<Rightarrow> 'c \<Rightarrow> 'j option \<times> 'c"
    and cset :: "string \<Rightarrow> 'j \<Rightarrow> int \<Rightarrow> instant \<Rightarrow> 'c \<Rightarrow> 'c"
    and cdel :: "string \<Rightarrow> 'c \<Rightarrow> 'c"
    and cdel_pattern :: "string \<Rightarrow> 'c \<Rightarrow> 'c"
  assumes get_after_set: "fst (cget key now' (cset key v ttl now c)) = (if now' < now + ttl * second then Some v else None)"
    and get_set_other: "key' \<noteq> key \<Longrightarrow> fst (cget key' now' (cset key v ttl now c)) = fst (cget key' now' c)"
    and get_after_get: "now \<le> now' \<Longrightarrow> fst (cget key' now' (snd (cget key now c))) = fst (cget key' now' c)"
    and get_expires: "fst (cget key now' c) = Some v \<Longrightarrow> now \<le> now' \<Longrightarrow> fst (cget key now c) = Some v"
    and get_after_delete: "fst (cget key' now (cdel key c)) = (if key' = key then None else fst (cget key' now c))"
    and get_after_pattern: "fst (cget key now (cdel_pattern pat c)) = (if fnmatch pat key then None else fst (cget key now c))"
begin

lemma read_cases:
  "read_through cget cset hit key ttl now load c =
     (case fst (cget key now c) of
        Some v \<Rightarrow> if hit v then (Inr v, snd (cget key now c)) else
          (case load of Inl e \<Rightarrow> (Inl e, snd (cget key now c)) | Inr w \<Rightarrow> (Inr w, cset key w ttl now (snd (cget key now c))))
      | None \<Rightarrow>
          (case load of Inl e \<Rightarrow> (Inl e, snd (cget key now c)) | Inr w \<Rightarrow> (Inr w, cset key w ttl now (snd (cget key now c)))))"
  by (simp add: read_through_def split_beta)

lemma read_miss: "fst (cget key now c) = None \<Longrightarrow> fst (read_through cget cset hit key ttl now load c) = load"
  by (cases load) (simp_all add: read_cases)

lemma read_hit:
  "fst (cget key now c) = Some v \<Longrightarrow> hit v \<Longrightarrow>
    read_through cget cset hit key ttl now load c = (Inr v, snd (cget key now c))"
  by (simp add: read_cases)

text \<open>After an invalidation the next read sees the source.\<close>

lemma read_after_delete: "fst (read_through cget cset hit key ttl now load (cdel key c)) = load"
  by (rule read_miss) (simp add: get_after_delete)

lemma read_after_pattern:
  "fnmatch pat key \<Longrightarrow> fst (read_through cget cset hit key ttl now load (cdel_pattern pat c)) = load"
  by (rule read_miss) (simp add: get_after_pattern)

text \<open>What a read leaves in the cache under its own key.\<close>

lemma get_after_read:
  assumes "now \<le> now'" and w: "fst (cget key now' (snd (read_through cget cset hit key ttl now load c))) = Some w"
  shows "fst (read_through cget cset hit key ttl now load c) = Inr w \<or>
    (\<exists>e. load = Inl e) \<and> fst (cget key now' c) = Some w"
proof -
  have later: "fst (cget key now' (snd (cget key now c))) = fst (cget key now' c)"
    by (rule get_after_get [OF assms(1)])
  show ?thesis
  proof (cases "\<exists>v. fst (cget key now c) = Some v \<and> hit v")
    case True
    then obtain v where v: "fst (cget key now c) = Some v" "hit v" by blast
    then show ?thesis using w later get_expires [of key now' c w now] assms(1) by (simp add: read_cases)
  next
    case False
    then show ?thesis using w later
      by (cases load; cases "fst (cget key now c)") (auto simp: read_cases get_after_set split: if_splits)
  qed
qed

text \<open>A stored value is served until its time is up, whatever the source says meanwhile, and not after.\<close>

lemma read_twice:
  assumes "fst (cget key now c) = None" and "hit w" and "now \<le> now'"
  shows "fst (read_through cget cset hit key ttl now' load' (snd (read_through cget cset hit key ttl now (Inr w) c))) =
    (if now' < now + ttl * second then Inr w else load')"
proof -
  have e: "snd (read_through cget cset hit key ttl now (Inr w) c) = cset key w ttl now (snd (cget key now c))"
    using assms(1) by (simp add: read_cases)
  show ?thesis
  proof (cases "now' < now + ttl * second")
    case True
    then show ?thesis unfolding e by (subst read_hit) (simp_all add: get_after_set assms(2))
  next
    case False
    then show ?thesis unfolding e by (simp add: read_miss get_after_set)
  qed
qed

lemma read_other:
  "key' \<noteq> key \<Longrightarrow> now \<le> now' \<Longrightarrow>
    fst (cget key' now' (snd (read_through cget cset hit key ttl now load c))) = fst (cget key' now' c)"
  using get_after_get [of now now' key' key c]
  by (cases load; cases "fst (cget key now c)") (simp_all add: read_cases get_set_other)

lemma answers_latest:
  assumes "\<And>key now. fst (cget key now c0) = None" and "asked_before now ops"
  shows "fst (cget key now (foldr (cache_step cget cset cdel cdel_pattern) ops c0)) = latest ops key now"
  using assms(2)
proof (induction ops)
  case Nil
  then show ?case by (simp add: assms(1))
next
  case (Cons op ops)
  have IH: "fst (cget key now (foldr (cache_step cget cset cdel cdel_pattern) ops c0)) = latest ops key now"
    using Cons by (simp add: asked_before_def)
  show ?case
  proof (cases op)
    case (Set_Op k v ttl t)
    then show ?thesis using IH by (cases "k = key") (simp_all add: get_after_set get_set_other)
  next
    case (Get_Op k t)
    then have "t \<le> now" using Cons.prems by (simp add: asked_before_def)
    then show ?thesis using IH Get_Op by (simp add: get_after_get)
  next
    case (Delete_Op k)
    then show ?thesis using IH by (simp add: get_after_delete)
  next
    case (Pattern_Op pat)
    then show ?thesis using IH by (simp add: get_after_pattern)
  qed
qed

end

interpretation dict: cache_backend dict_get dict_set dict_delete dict_delete_pattern
  by unfold_locales
    (auto simp: dict_get_def dict_set_def dict_delete_def dict_delete_pattern_eq split: option.splits if_splits prod.splits)

section \<open>Properties\<close>

text \<open>The in-memory cache is an expiring map: after any calls on it, a key is answered with the value last set
  under it, exactly while its time to live lasts and no deletion of the key or of a pattern it matches has come since.\<close>

theorem dict_answers_latest:
  assumes "asked_before now ops"
  shows "fst (dict_get key now (foldr (cache_step dict_get dict_set dict_delete dict_delete_pattern) ops Map.empty)) =
    latest ops key now"
  by (rule dict.answers_latest [OF _ assms]) (simp add: dict_get_def)

theorem dict_answers_latest_witness:
  "fst (dict_get ''ab'' 5 (foldr (cache_step dict_get dict_set dict_delete dict_delete_pattern)
     [Pattern_Op ''b*'', Get_Op ''ab'' 4, Set_Op ''ab'' True 60 3, Pattern_Op ''a*'', Set_Op ''ab'' False 60 1] Map.empty)) = Some True"
proof -
  let ?ops = "[Pattern_Op ''b*'', Get_Op ''ab'' 4, Set_Op ''ab'' True 60 3, Pattern_Op ''a*'', Set_Op ''ab'' False 60 1]"
  have "asked_before 5 ?ops" by (simp add: asked_before_def)
  moreover have "latest ?ops ''ab'' 5 = Some True" by code_simp
  ultimately show ?thesis using dict_answers_latest [of 5 ?ops "''ab''"] by simp
qed

text \<open>The health check at start-up always ends: as soon as one failed ping is answered after the deadline, and at
  the first ping that succeeds.\<close>

theorem health_check_ends:
  assumes "(r, now) \<in> set outcomes" and "start + timeout \<le> now \<or> r = Inr ()"
  shows "\<exists>answer. redis_health_check url start timeout outcomes = Some answer"
proof -
  have "ping_until deadline n outcomes \<noteq> None" if "(Inr (), now) \<in> set outcomes" for deadline n
    using that by (induction deadline n outcomes rule: ping_until.induct) auto
  then show ?thesis
    using assms redis_health_check_returns [of r now outcomes start timeout url] by (auto simp: redis_health_check_def)
qed

theorem health_check_ends_witness:
  "\<exists>answer. redis_health_check True 0 10 [(Inl (), 4), (Inl (), 11)] = Some (answer :: unit + nat)"
  by (rule health_check_ends [of "Inl ()" 11]) simp_all

end
