(* ===== verification/Reservation_Domain.thy ===== *)
theory Reservation_Domain
  imports Errors
begin

text \<open>
  \<open>src/reservation/domain.py\<close>, \<open>exceptions.py\<close> and the request models of \<open>models.py\<close>: the
  reservation's types, the rules a reservation obeys, and the two clock rules, the far edge of
  the booking window and the instant a picked time of day denotes.  Each user-facing message is
  a constructor of the reason of its exception.
\<close>

section \<open>Types\<close>

datatype match_type = RANK | PLAYER | ANY

datatype reservation_status = OPEN | MATCHED | CANCELLED | ENDED

datatype access_reason = EditByHostOnly | DeleteByAuthorOnly | NotParticipating | CancelByHostOnly | CancelTooLate

datatype state_reason =
    TooSoon | PastDawn | RankWithoutRanks | RankCapacity | PlayerWithRanks | OwnReservation
  | AlreadyJoined | NotJoinable | FullyBooked | AlreadyOver | AlreadyStarted | HasParticipants
  | CommentOnCancelled

datatype missing = NoReservation | NoComment

datatype reservation_error =
    ReservationNotFoundError missing
  | ReservationAccessError access_reason
  | ReservationStateError state_reason

fun reservation_error_base :: "reservation_error \<Rightarrow> domain_error" where
  "reservation_error_base (ReservationNotFoundError _) = NotFoundError"
| "reservation_error_base (ReservationAccessError _) = ForbiddenError"
| "reservation_error_base (ReservationStateError _) = ValidationError"

record participant_summary =
  ps_id :: nat
  ps_display_name :: string
  ps_username :: "string option"

record reservation =
  res_id :: nat
  res_start_at :: instant
  res_host_display_name :: string
  res_host_ranks :: "string list"
  res_match_type :: match_type
  res_capacity :: int
  res_memo :: string
  res_status :: reservation_status
  res_participant_count :: int
  res_created_at :: instant
  res_participants :: "participant_summary list"
  res_host_username :: "string option"

record comment =
  com_id :: nat
  com_reservation_id :: nat
  com_author :: string
  com_body :: string
  com_created_at :: instant
  com_author_username :: "string option"

record participant =
  part_id :: nat
  part_reservation_id :: nat
  part_display_name :: string
  part_ranks :: "string list"
  part_joined_at :: instant

definition live_statuses :: "reservation_status list" where
  "live_statuses = [OPEN, MATCHED]"

abbreviation live :: "reservation_status \<Rightarrow> bool" where
  "live s \<equiv> s \<in> set live_statuses"

abbreviation lead_time :: int where "lead_time \<equiv> 10 * minute"
abbreviation listing_grace :: int where "listing_grace \<equiv> hour"

lemma live_iff: "live s \<longleftrightarrow> s = OPEN \<or> s = MATCHED"
  by (auto simp: live_statuses_def)

section \<open>The booking window\<close>

text \<open>The next 06:00 in Seoul strictly after \<open>now\<close>.\<close>

definition window_end :: "instant \<Rightarrow> instant" where
  "window_end now =
     (let kst_now = kst_wall now;
          dawn = at_hour 6 kst_now
      in from_kst_wall (if kst_now \<ge> dawn then dawn + day else dawn))"

text \<open>A time of day is a \<open>datetime.time\<close>: microseconds since midnight.\<close>

definition time_of_day :: "int \<Rightarrow> bool" where
  "time_of_day st \<longleftrightarrow> 0 \<le> st \<and> st < day"

definition start_at_from :: "int \<Rightarrow> instant \<Rightarrow> reservation_error + instant" where
  "start_at_from start_time now =
     (let today = from_kst_wall (at_hour 0 (kst_wall now) + start_time);
          start = (if today < now then today + day else today)
      in bindR (ensure (\<not> start < now + lead_time) (ReservationStateError TooSoon)) (\<lambda>_.
         bindR (ensure (\<not> start \<ge> window_end now) (ReservationStateError PastDawn)) (\<lambda>_.
         Inr start)))"

lemma window_end_bounds: "now < window_end now" "window_end now \<le> now + day"
  using day_split [of "kst_wall now"]
  by (auto simp: window_end_def at_hour_def Let_def from_kst_wall_def kst_wall_def)

lemma window_end_dawn: "kst_wall (window_end now) mod day = 6 * hour"
proof -
  have "kst_wall (window_end now) = kst_wall now div day * day + 6 * hour
      \<or> kst_wall (window_end now) = (kst_wall now div day + 1) * day + 6 * hour"
    by (simp add: window_end_def at_hour_def Let_def algebra_simps)
  moreover have "(q * day + 6 * hour) mod day = 6 * hour" for q :: int by simp
  ultimately show ?thesis by metis
qed

text \<open>The candidate a time of day resolves to: its first occurrence from \<open>now\<close> on.\<close>

lemma next_occurrence:
  fixes now :: instant
  assumes "time_of_day st"
  defines "t \<equiv> from_kst_wall (at_hour 0 (kst_wall now) + st)"
  defines "s \<equiv> (if t < now then t + day else t)"
  shows "now \<le> s" "s < now + day" "kst_wall s mod day = st"
proof -
  have t: "kst_wall t = kst_wall now div day * day + st" by (simp add: t_def at_hour_def)
  then have "kst_wall t mod day = st" using assms(1) by (simp add: time_of_day_def)
  moreover have "kst_wall (t + day) = kst_wall t + day" by (simp add: kst_wall_def)
  ultimately show "kst_wall s mod day = st" by (simp add: s_def)
  have "kst_wall t - kst_wall now = t - now" by (simp add: kst_wall_def)
  with t show "now \<le> s" "s < now + day"
    using assms(1) day_split [of "kst_wall now"] by (auto simp: s_def time_of_day_def)
qed

lemma start_at_from_Inr:
  assumes "time_of_day st"
  shows "start_at_from st now = Inr s \<longleftrightarrow>
    now + lead_time \<le> s \<and> s < window_end now \<and> kst_wall s mod day = st"
proof -
  define t where "t = from_kst_wall (at_hour 0 (kst_wall now) + st)"
  define c where "c = (if t < now then t + day else t)"
  have c: "now \<le> c" "c < now + day" "kst_wall c mod day = st"
    unfolding c_def t_def by (rule next_occurrence [OF assms])+
  have eq: "start_at_from st now = Inr s \<longleftrightarrow> now + lead_time \<le> c \<and> c < window_end now \<and> s = c"
    by (auto simp: start_at_from_def Let_def t_def [symmetric] c_def [symmetric])
  have "s = c" if "now + lead_time \<le> s" "s < window_end now" "kst_wall s mod day = st"
  proof -
    have "now \<le> s" "s < now + day" using that window_end_bounds [of now] by linarith+
    with c that have "kst_wall s = kst_wall c"
      using day_unique [of "kst_wall s" "kst_wall c"] day_unique [of "kst_wall c" "kst_wall s"]
      by (cases "s \<le> c") (simp_all add: kst_wall_def)
    then show ?thesis by (simp add: kst_wall_def)
  qed
  with eq c show ?thesis by blast
qed

section \<open>Rules\<close>

definition ensure_conditions_valid :: "match_type \<Rightarrow> string list \<Rightarrow> int \<Rightarrow> reservation_error + unit" where
  "ensure_conditions_valid mt ranks capacity =
     (if mt = RANK then
        bindR (ensure (ranks \<noteq> []) (ReservationStateError RankWithoutRanks)) (\<lambda>_.
        ensure (capacity = 1) (ReservationStateError RankCapacity))
      else ensure (\<not> (mt = PLAYER \<and> ranks \<noteq> [])) (ReservationStateError PlayerWithRanks))"

text \<open>What the rule is for: the conditions a reservation may carry.\<close>

definition conditions_coherent :: "match_type \<Rightarrow> string list \<Rightarrow> int \<Rightarrow> bool" where
  "conditions_coherent mt ranks capacity \<longleftrightarrow>
     (mt = RANK \<longrightarrow> ranks \<noteq> [] \<and> capacity = 1) \<and> (mt = PLAYER \<longrightarrow> ranks = [])"

lemma ensure_conditions_valid_Inr:
  "ensure_conditions_valid mt ranks capacity = Inr u \<longleftrightarrow> conditions_coherent mt ranks capacity"
  by (cases mt) (auto simp: ensure_conditions_valid_def conditions_coherent_def)

definition ends_at :: "instant \<Rightarrow> instant" where
  "ends_at start = start + listing_grace"

definition status_for :: "int \<Rightarrow> int \<Rightarrow> reservation_status" where
  "status_for participant_count capacity = (if participant_count \<ge> capacity then MATCHED else OPEN)"

definition ensure_joinable_by :: "string option \<Rightarrow> string \<Rightarrow> bool \<Rightarrow> reservation_error + unit" where
  "ensure_joinable_by host_subject subject already_joined =
     bindR (ensure (host_subject \<noteq> Some subject) (ReservationStateError OwnReservation)) (\<lambda>_.
     ensure (\<not> already_joined) (ReservationStateError AlreadyJoined))"

definition ensure_joinable ::
  "reservation_status \<Rightarrow> instant \<Rightarrow> int \<Rightarrow> int \<Rightarrow> instant \<Rightarrow> reservation_error + unit" where
  "ensure_joinable status start participant_count capacity now =
     bindR (ensure (\<not> (status \<noteq> OPEN \<or> start \<le> now)) (ReservationStateError NotJoinable)) (\<lambda>_.
     ensure (\<not> participant_count \<ge> capacity) (ReservationStateError FullyBooked))"

definition ensure_edited_by_host :: "string option \<Rightarrow> string \<Rightarrow> reservation_error + unit" where
  "ensure_edited_by_host host_subject subject =
     ensure (host_subject = Some subject) (ReservationAccessError EditByHostOnly)"

definition ensure_editable :: "reservation_status \<Rightarrow> instant \<Rightarrow> int \<Rightarrow> instant \<Rightarrow> reservation_error + unit" where
  "ensure_editable status start participant_count now =
     bindR (ensure (live status) (ReservationStateError AlreadyOver)) (\<lambda>_.
     bindR (ensure (\<not> start \<le> now) (ReservationStateError AlreadyStarted)) (\<lambda>_.
     ensure (\<not> participant_count > 0) (ReservationStateError HasParticipants)))"

definition ensure_commentable :: "reservation_status \<Rightarrow> reservation_error + unit" where
  "ensure_commentable status = ensure (status \<noteq> CANCELLED) (ReservationStateError CommentOnCancelled)"

definition ensure_comment_deletable_by :: "string option \<Rightarrow> string \<Rightarrow> bool \<Rightarrow> reservation_error + unit" where
  "ensure_comment_deletable_by author_subject subject admin =
     ensure (\<not> (author_subject \<noteq> Some subject \<and> \<not> admin)) (ReservationAccessError DeleteByAuthorOnly)"

definition ensure_participation_cancellable ::
  "reservation_status \<Rightarrow> instant \<Rightarrow> instant \<Rightarrow> bool \<Rightarrow> reservation_error + unit" where
  "ensure_participation_cancellable status start now participating =
     bindR (ensure (live status) (ReservationStateError AlreadyOver)) (\<lambda>_.
     bindR (ensure (\<not> start \<le> now) (ReservationStateError AlreadyStarted)) (\<lambda>_.
     ensure participating (ReservationAccessError NotParticipating)))"

definition ensure_cancellable ::
  "string option \<Rightarrow> string \<Rightarrow> reservation_status \<Rightarrow> instant \<Rightarrow> instant \<Rightarrow> reservation_error + unit" where
  "ensure_cancellable host_subject subject status start now =
     bindR (ensure (host_subject = Some subject) (ReservationAccessError CancelByHostOnly)) (\<lambda>_.
     ensure (\<not> (\<not> live status \<or> start \<le> now)) (ReservationAccessError CancelTooLate))"

lemmas guard_defs =
  ensure_joinable_by_def ensure_joinable_def ensure_edited_by_host_def ensure_editable_def
  ensure_commentable_def ensure_comment_deletable_by_def ensure_participation_cancellable_def
  ensure_cancellable_def

lemma status_for_live [simp]: "live (status_for n c)"
  by (simp add: status_for_def live_iff)

section \<open>Requests\<close>

text \<open>The field rules pydantic enforces before the service sees a request.\<close>

record create_request =
  cq_start_time :: int
  cq_ranks :: "string list"
  cq_match_type :: match_type
  cq_capacity :: int
  cq_memo :: string

definition create_request_ok :: "create_request \<Rightarrow> bool" where
  "create_request_ok q \<longleftrightarrow> time_of_day (cq_start_time q) \<and> length (cq_ranks q) \<le> 20 \<and> distinct (cq_ranks q)
     \<and> 1 \<le> cq_capacity q \<and> cq_capacity q \<le> 3 \<and> length (cq_memo q) \<le> 140"

text \<open>Every field optional: \<open>None\<close> is a field the host did not send, or sent as null.\<close>

record update_request =
  uq_start_time :: "int option"
  uq_ranks :: "string list option"
  uq_match_type :: "match_type option"
  uq_capacity :: "int option"
  uq_memo :: "string option"

definition update_request_ok :: "update_request \<Rightarrow> bool" where
  "update_request_ok q \<longleftrightarrow>
     pred_option time_of_day (uq_start_time q) \<and>
     pred_option (\<lambda>rs. length rs \<le> 20 \<and> distinct rs) (uq_ranks q) \<and>
     pred_option (\<lambda>c. 1 \<le> c \<and> c \<le> 3) (uq_capacity q) \<and>
     pred_option (\<lambda>m. length m \<le> 140) (uq_memo q)"

definition join_request_ok :: "string list \<Rightarrow> bool" where
  "join_request_ok ranks \<longleftrightarrow> length ranks \<le> 20"

text \<open>\<open>str_strip_whitespace\<close>: the length rules see the stripped body.\<close>

definition comment_body :: "string \<Rightarrow> string option" where
  "comment_body body = (let b = strip body in if 1 \<le> length b \<and> length b \<le> 500 then Some b else None)"

end
