(* ===== verification/Reservation_Repo.thy ===== *)
theory Reservation_Repo
  imports Reservation_Domain
begin

text \<open>
  \<open>src/reservation/adapters/postgresql.py\<close> over the tables of \<open>entities.py\<close>.  A table is the list of
  its rows in insertion order, an identity column is a counter, and every method is a function of
  the tables; the clock of the database server, which \<open>server_default=func.now()\<close> reads, is the
  argument \<open>dbnow\<close>.  The status and match-type columns hold only values of their enumerations, so
  they are typed as such.  Where SQL leaves the order of equal keys open, rows keep insertion order.
\<close>

section \<open>Tables\<close>

record reservation_row =
  rr_id :: nat
  rr_start_at :: instant
  rr_host_display_name :: string
  rr_host_subject :: "string option"
  rr_host_ranks :: "string list"
  rr_match_type :: match_type
  rr_capacity :: int
  rr_memo :: string
  rr_status :: reservation_status
  rr_created_at :: instant
  rr_updated_at :: instant
  rr_cancelled_at :: "instant option"
  rr_ended_at :: "instant option"

record comment_row =
  cr_id :: nat
  cr_reservation_id :: nat
  cr_author :: string
  cr_author_subject :: "string option"
  cr_body :: string
  cr_created_at :: instant
  cr_deleted_at :: "instant option"

record participant_row =
  pr_id :: nat
  pr_reservation_id :: nat
  pr_display_name :: string
  pr_subject :: "string option"
  pr_ranks :: "string list"
  pr_joined_at :: instant
  pr_cancelled_at :: "instant option"

record rdb =
  reservations :: "reservation_row list"
  participants :: "participant_row list"
  comments :: "comment_row list"
  next_reservation_id :: nat
  next_participant_id :: nat
  next_comment_id :: nat

definition empty_rdb :: rdb where
  "empty_rdb = \<lparr>reservations = [], participants = [], comments = [],
     next_reservation_id = 1, next_participant_id = 1, next_comment_id = 1\<rparr>"

section \<open>Reading rows\<close>

definition reservation_row_by :: "nat \<Rightarrow> rdb \<Rightarrow> reservation_row option" where
  "reservation_row_by rid db = find (\<lambda>r. rr_id r = rid) (reservations db)"

definition is_active :: "nat \<Rightarrow> participant_row \<Rightarrow> bool" where
  "is_active rid p \<longleftrightarrow> pr_reservation_id p = rid \<and> pr_cancelled_at p = None"

definition active :: "nat \<Rightarrow> rdb \<Rightarrow> participant_row list" where
  "active rid db = filter (is_active rid) (participants db)"

definition active_participant_count :: "nat \<Rightarrow> rdb \<Rightarrow> int" where
  "active_participant_count rid db = int (length (active rid db))"

definition active_participation :: "nat \<Rightarrow> string \<Rightarrow> rdb \<Rightarrow> participant_row option" where
  "active_participation rid subject db = find (\<lambda>p. pr_subject p = Some subject) (active rid db)"

definition to_comment :: "comment_row \<Rightarrow> comment" where
  "to_comment row = \<lparr>com_id = cr_id row, com_reservation_id = cr_reservation_id row,
     com_author = cr_author row, com_body = cr_body row, com_created_at = cr_created_at row,
     com_author_username = cr_author_subject row\<rparr>"

definition participant_summary_of :: "participant_row \<Rightarrow> participant_summary" where
  "participant_summary_of p = \<lparr>ps_id = pr_id p, ps_display_name = pr_display_name p, ps_username = pr_subject p\<rparr>"

definition to_reservation :: "reservation_row \<Rightarrow> int \<Rightarrow> participant_summary list \<Rightarrow> reservation" where
  "to_reservation row n ps = \<lparr>res_id = rr_id row, res_start_at = rr_start_at row,
     res_host_display_name = rr_host_display_name row, res_host_ranks = rr_host_ranks row,
     res_match_type = rr_match_type row, res_capacity = rr_capacity row, res_memo = rr_memo row,
     res_status = rr_status row, res_participant_count = n, res_created_at = rr_created_at row,
     res_participants = ps, res_host_username = rr_host_subject row\<rparr>"

text \<open>A row joined with its active participants, in the order they joined.\<close>

definition with_participant_count :: "rdb \<Rightarrow> reservation_row \<Rightarrow> reservation" where
  "with_participant_count db row =
     to_reservation row (active_participant_count (rr_id row) db)
       (map participant_summary_of (sort_key (\<lambda>p. (pr_joined_at p, pr_id p)) (active (rr_id row) db)))"

section \<open>Expiry and the listing\<close>

definition finished :: "instant \<Rightarrow> reservation_row \<Rightarrow> bool" where
  "finished now row \<longleftrightarrow> live (rr_status row) \<and> rr_start_at row \<le> now - listing_grace"

definition expire_finished :: "instant \<Rightarrow> rdb \<Rightarrow> rdb" where
  "expire_finished now db =
     (let ids = map rr_id (filter (finished now) (reservations db)) in
      db\<lparr>participants := update_where (\<lambda>p. pr_cancelled_at p = None \<and> pr_reservation_id p \<in> set ids)
                           (\<lambda>p. p\<lparr>pr_cancelled_at := Some now\<rparr>) (participants db),
         reservations := update_where (finished now)
                           (\<lambda>r. r\<lparr>rr_status := ENDED, rr_ended_at := Some now, rr_updated_at := now\<rparr>)
                           (reservations db)\<rparr>)"

definition listed :: "instant \<Rightarrow> reservation_row \<Rightarrow> bool" where
  "listed now r \<longleftrightarrow> rr_start_at r > now - listing_grace \<and> rr_start_at r < window_end now \<and> live (rr_status r)"

definition list_upcoming :: "instant \<Rightarrow> rdb \<Rightarrow> reservation list \<times> rdb" where
  "list_upcoming now db =
     (let db' = expire_finished now db in
      (map (with_participant_count db')
         (sort_key (\<lambda>r. (rr_start_at r, if rr_status r = OPEN then 0 else 1 :: int))
           (filter (listed now) (reservations db'))), db'))"

definition get_reservation_row :: "nat \<Rightarrow> rdb \<Rightarrow> reservation_error + reservation_row" where
  "get_reservation_row rid db =
     (case reservation_row_by rid db of
        None \<Rightarrow> Inl (ReservationNotFoundError NoReservation)
      | Some row \<Rightarrow> Inr row)"

definition repo_get :: "nat \<Rightarrow> rdb \<Rightarrow> reservation_error + reservation" where
  "repo_get rid db = bindR (get_reservation_row rid db) (\<lambda>row. Inr (with_participant_count db row))"

section \<open>Writes\<close>

definition repo_create ::
  "instant \<Rightarrow> instant \<Rightarrow> string \<Rightarrow> string \<Rightarrow> string list \<Rightarrow> match_type \<Rightarrow> int \<Rightarrow> string \<Rightarrow> rdb \<Rightarrow>
     reservation_error + (reservation \<times> rdb)" where
  "repo_create dbnow start host_subject host_display_name ranks mt cap memo db =
     (let row = \<lparr>rr_id = next_reservation_id db, rr_start_at = start,
                 rr_host_display_name = host_display_name, rr_host_subject = Some host_subject,
                 rr_host_ranks = ranks, rr_match_type = mt, rr_capacity = cap, rr_memo = memo,
                 rr_status = OPEN, rr_created_at = dbnow, rr_updated_at = dbnow,
                 rr_cancelled_at = None, rr_ended_at = None\<rparr>
      in Inr (to_reservation row 0 [],
              db\<lparr>reservations := reservations db @ [row], next_reservation_id := Suc (next_reservation_id db)\<rparr>))"

record changes =
  ch_start_at :: "instant option"
  ch_ranks :: "string list option"
  ch_match_type :: "match_type option"
  ch_capacity :: "int option"
  ch_memo :: "string option"

definition set_if :: "'a option \<Rightarrow> 'a \<Rightarrow> 'a" where
  "set_if v old = (case v of None \<Rightarrow> old | Some new \<Rightarrow> new)"

text \<open>\<open>setattr\<close> for every change that is not None, then \<open>updated_at\<close>.\<close>

definition apply_changes :: "changes \<Rightarrow> instant \<Rightarrow> reservation_row \<Rightarrow> reservation_row" where
  "apply_changes ch now row =
     row\<lparr>rr_start_at := set_if (ch_start_at ch) (rr_start_at row),
         rr_host_ranks := set_if (ch_ranks ch) (rr_host_ranks row),
         rr_match_type := set_if (ch_match_type ch) (rr_match_type row),
         rr_capacity := set_if (ch_capacity ch) (rr_capacity row),
         rr_memo := set_if (ch_memo ch) (rr_memo row),
         rr_updated_at := now\<rparr>"

definition put_row :: "nat \<Rightarrow> (reservation_row \<Rightarrow> reservation_row) \<Rightarrow> rdb \<Rightarrow> rdb" where
  "put_row rid f db = db\<lparr>reservations := update_where (\<lambda>r. rr_id r = rid) f (reservations db)\<rparr>"

definition repo_update ::
  "nat \<Rightarrow> string \<Rightarrow> instant \<Rightarrow> changes \<Rightarrow> rdb \<Rightarrow> reservation_error + (reservation \<times> rdb)" where
  "repo_update rid host_subject now ch db =
     bindR (get_reservation_row rid db) (\<lambda>row.
     bindR (ensure_edited_by_host (rr_host_subject row) host_subject) (\<lambda>_.
     let n = active_participant_count rid db in
     bindR (ensure_editable (rr_status row) (rr_start_at row) n now) (\<lambda>_.
     Inr (to_reservation (apply_changes ch now row) n [], put_row rid (apply_changes ch now) db))))"

text \<open>
  The insert of a seat, refused by the partial unique index on \<open>(reservation_id, subject)\<close> when the
  account already holds one.
\<close>

definition insert_participant ::
  "instant \<Rightarrow> nat \<Rightarrow> string \<Rightarrow> string \<Rightarrow> string list \<Rightarrow> rdb \<Rightarrow> unit + (participant_row \<times> rdb)" where
  "insert_participant dbnow rid subject display_name ranks db =
     (let p = \<lparr>pr_id = next_participant_id db, pr_reservation_id = rid, pr_display_name = display_name,
               pr_subject = Some subject, pr_ranks = ranks, pr_joined_at = dbnow, pr_cancelled_at = None\<rparr>
      in if active_participation rid subject db \<noteq> None then Inl ()
         else Inr (p, db\<lparr>participants := participants db @ [p],
                         next_participant_id := Suc (next_participant_id db)\<rparr>))"

definition to_participant :: "participant_row \<Rightarrow> participant" where
  "to_participant p = \<lparr>part_id = pr_id p, part_reservation_id = pr_reservation_id p,
     part_display_name = pr_display_name p, part_ranks = pr_ranks p, part_joined_at = pr_joined_at p\<rparr>"

definition reread :: "nat \<Rightarrow> rdb \<Rightarrow> reservation_error + (reservation \<times> rdb)" where
  "reread rid db = bindR (repo_get rid db) (\<lambda>r. Inr (r, db))"

definition repo_join ::
  "instant \<Rightarrow> nat \<Rightarrow> string \<Rightarrow> string \<Rightarrow> string list \<Rightarrow> instant \<Rightarrow> rdb \<Rightarrow>
     reservation_error + ((reservation \<times> participant) \<times> rdb)" where
  "repo_join dbnow rid subject display_name ranks now db =
     bindR (get_reservation_row rid db) (\<lambda>row.
     let n = active_participant_count rid db;
         already_joined = (active_participation rid subject db \<noteq> None) in
     bindR (ensure_joinable_by (rr_host_subject row) subject already_joined) (\<lambda>_.
     bindR (ensure_joinable (rr_status row) (rr_start_at row) n (rr_capacity row) now) (\<lambda>_.
     case insert_participant dbnow rid subject display_name ranks db of
       Inl _ \<Rightarrow> Inl (ReservationStateError AlreadyJoined)
     | Inr (p, db1) \<Rightarrow>
         let db2 = put_row rid (\<lambda>r. r\<lparr>rr_status := status_for (n + 1) (rr_capacity row), rr_updated_at := now\<rparr>) db1
         in bindR (reread rid db2) (\<lambda>(r, db3). Inr ((r, to_participant p), db3)))))"

definition set_cancelled :: "(participant_row \<Rightarrow> bool) \<Rightarrow> instant \<Rightarrow> rdb \<Rightarrow> rdb" where
  "set_cancelled P now db =
     db\<lparr>participants := update_where P (\<lambda>p. p\<lparr>pr_cancelled_at := Some now\<rparr>) (participants db)\<rparr>"

definition release_participants :: "nat \<Rightarrow> instant \<Rightarrow> rdb \<Rightarrow> rdb" where
  "release_participants rid now = set_cancelled (is_active rid) now"

definition repo_cancel_participation ::
  "nat \<Rightarrow> string \<Rightarrow> instant \<Rightarrow> rdb \<Rightarrow> reservation_error + (reservation \<times> rdb)" where
  "repo_cancel_participation rid subject now db =
     bindR (get_reservation_row rid db) (\<lambda>row.
     let seat = active_participation rid subject db in
     bindR (ensure_participation_cancellable (rr_status row) (rr_start_at row) now (seat \<noteq> None)) (\<lambda>_.
     let db1 = set_cancelled (\<lambda>p. Some (pr_id p) = map_option pr_id seat) now db;
         n = active_participant_count rid db1;
         db2 = put_row rid (\<lambda>r. r\<lparr>rr_status := status_for n (rr_capacity row), rr_updated_at := now\<rparr>) db1
     in reread rid db2))"

definition repo_cancel :: "nat \<Rightarrow> string \<Rightarrow> instant \<Rightarrow> rdb \<Rightarrow> reservation_error + (unit \<times> rdb)" where
  "repo_cancel rid host_subject now db =
     bindR (get_reservation_row rid db) (\<lambda>row.
     bindR (ensure_cancellable (rr_host_subject row) host_subject (rr_status row) (rr_start_at row) now) (\<lambda>_.
     let db1 = put_row rid
                 (\<lambda>r. r\<lparr>rr_status := CANCELLED, rr_cancelled_at := Some now, rr_updated_at := now\<rparr>) db
     in Inr ((), release_participants rid now db1)))"

section \<open>Comments\<close>

definition repo_list_comments :: "nat \<Rightarrow> rdb \<Rightarrow> comment list" where
  "repo_list_comments rid db =
     map to_comment (sort_key (\<lambda>c. (cr_created_at c, cr_id c))
       (filter (\<lambda>c. cr_reservation_id c = rid \<and> cr_deleted_at c = None) (comments db)))"

definition repo_add_comment ::
  "instant \<Rightarrow> nat \<Rightarrow> string \<Rightarrow> string \<Rightarrow> string \<Rightarrow> rdb \<Rightarrow> reservation_error + (comment \<times> rdb)" where
  "repo_add_comment dbnow rid author_subject author body db =
     bindR (get_reservation_row rid db) (\<lambda>row.
     bindR (ensure_commentable (rr_status row)) (\<lambda>_.
     let c = \<lparr>cr_id = next_comment_id db, cr_reservation_id = rid, cr_author = author,
              cr_author_subject = Some author_subject, cr_body = body, cr_created_at = dbnow,
              cr_deleted_at = None\<rparr>
     in Inr (to_comment c, db\<lparr>comments := comments db @ [c], next_comment_id := Suc (next_comment_id db)\<rparr>)))"

definition repo_delete_comment ::
  "nat \<Rightarrow> nat \<Rightarrow> string \<Rightarrow> instant \<Rightarrow> bool \<Rightarrow> rdb \<Rightarrow> reservation_error + (unit \<times> rdb)" where
  "repo_delete_comment rid cid subject now admin db =
     (case find (\<lambda>c. cr_id c = cid) (comments db) of
        None \<Rightarrow> Inl (ReservationNotFoundError NoComment)
      | Some c \<Rightarrow>
          if cr_reservation_id c \<noteq> rid \<or> cr_deleted_at c \<noteq> None then Inl (ReservationNotFoundError NoComment)
          else bindR (ensure_comment_deletable_by (cr_author_subject c) subject admin) (\<lambda>_.
            Inr ((), db\<lparr>comments := update_where (\<lambda>x. cr_id x = cid) (\<lambda>x. x\<lparr>cr_deleted_at := Some now\<rparr>)
                                      (comments db)\<rparr>)))"

end
