(* ===== verification/Reservation_Invariant.thy ===== *)
theory Reservation_Invariant
  imports Reservation_Repo
begin

text \<open>
  The well-formedness of the reservation tables and its preservation by every repository method:
  a live reservation's status is the one its active seats imply, its seats never exceed its
  capacity, an account holds at most one seat and never one on its own reservation, and a
  reservation that is over has no active seat left.
\<close>

section \<open>The invariant\<close>

definition seats_ok :: "rdb \<Rightarrow> reservation_row \<Rightarrow> bool" where
  "seats_ok db r \<longleftrightarrow>
     (let n = active_participant_count (rr_id r) db in
      if live (rr_status r) then n \<le> rr_capacity r \<and> rr_status r = status_for n (rr_capacity r) else n = 0)"

definition row_ok :: "rdb \<Rightarrow> reservation_row \<Rightarrow> bool" where
  "row_ok db r \<longleftrightarrow> 1 \<le> rr_capacity r \<and> seats_ok db r \<and>
     (\<forall>p\<in>set (active (rr_id r) db). pr_subject p \<noteq> None \<and> pr_subject p \<noteq> rr_host_subject r)"

definition keys_ok :: "rdb \<Rightarrow> bool" where
  "keys_ok db \<longleftrightarrow>
     distinct (map rr_id (reservations db)) \<and> (\<forall>r\<in>set (reservations db). rr_id r < next_reservation_id db) \<and>
     distinct (map pr_id (participants db)) \<and> (\<forall>p\<in>set (participants db). pr_id p < next_participant_id db) \<and>
     (\<forall>p\<in>set (participants db). \<exists>r\<in>set (reservations db). rr_id r = pr_reservation_id p)"

definition reservations_ok :: "rdb \<Rightarrow> bool" where
  "reservations_ok db \<longleftrightarrow> keys_ok db \<and> (\<forall>rid. distinct (map pr_subject (active rid db))) \<and>
     (\<forall>r\<in>set (reservations db). row_ok db r)"

lemma empty_rdb_ok: "reservations_ok empty_rdb"
  by (simp add: reservations_ok_def keys_ok_def empty_rdb_def active_def)

lemma row_by_Some: "reservation_row_by rid db = Some row \<Longrightarrow> row \<in> set (reservations db) \<and> rr_id row = rid"
  unfolding reservation_row_by_def using find_Some_set by fastforce

lemma get_row_Inr: "get_reservation_row rid db = Inr row \<longleftrightarrow> reservation_row_by rid db = Some row"
  by (simp add: get_reservation_row_def split: option.splits)

lemma keys_ok_unique_row:
  "keys_ok db \<Longrightarrow> r \<in> set (reservations db) \<Longrightarrow> r' \<in> set (reservations db) \<Longrightarrow> rr_id r = rr_id r' \<Longrightarrow> r = r'"
  by (auto simp: keys_ok_def dest: distinct_map_eq)

section \<open>The active seats after each operation\<close>

lemma active_put_row [active_simps]: "active rid (put_row rid' f db) = active rid db"
  by (simp add: active_def put_row_def)

lemma active_set_cancelled [active_simps]:
  "active rid (set_cancelled P now db) = filter (\<lambda>p. \<not> P p) (active rid db)"
  by (simp add: active_def set_cancelled_def filter_update_where_drop is_active_def)

lemma active_release [active_simps]:
  "active rid (release_participants rid' now db) = (if rid = rid' then [] else active rid db)"
proof -
  have "rid \<noteq> rid' \<Longrightarrow> p \<in> set (active rid db) \<Longrightarrow> \<not> is_active rid' p" for p
    by (auto simp: active_def is_active_def)
  then show ?thesis
    unfolding release_participants_def active_set_cancelled
    by (auto simp: filter_empty_conv intro!: filter_True) (simp add: active_def)
qed

lemma active_insert:
  assumes "insert_participant dbnow rid subject name ranks db = Inr (p, db')"
  shows "active rid' db' = (if rid' = rid then active rid db @ [p] else active rid' db)"
    and "active_participation rid subject db = None"
    and "pr_subject p = Some subject" and "pr_reservation_id p = rid" and "pr_id p = next_participant_id db"
    and "participants db' = participants db @ [p]" and "reservations db' = reservations db"
    and "next_participant_id db' = Suc (next_participant_id db)"
    and "next_reservation_id db' = next_reservation_id db" and "comments db' = comments db"
  using assms by (auto simp: insert_participant_def Let_def active_def is_active_def split: if_splits)

definition finished_ids :: "instant \<Rightarrow> rdb \<Rightarrow> nat set" where
  "finished_ids now db = rr_id ` {r \<in> set (reservations db). finished now r}"

lemma active_expire [active_simps]:
  "active rid (expire_finished now db) = (if rid \<in> finished_ids now db then [] else active rid db)"
proof -
  have "active rid (expire_finished now db) =
      filter (\<lambda>p. \<not> (pr_cancelled_at p = None \<and> pr_reservation_id p \<in> finished_ids now db)) (active rid db)"
    by (simp add: active_def expire_finished_def Let_def filter_update_where_drop is_active_def finished_ids_def)
  also have "\<dots> = (if rid \<in> finished_ids now db then [] else active rid db)"
    unfolding active_def by (auto simp: is_active_def filter_empty_conv intro!: filter_cong)
  finally show ?thesis .
qed

section \<open>One row at a time\<close>

text \<open>
  Every method but the expiry changes one row and the seats of that row.
\<close>

lemma reservations_ok_change:
  assumes ok: "reservations_ok db" and row: "row \<in> set (reservations db)" "rr_id row = rid"
    and rows: "reservations db' = update_where (\<lambda>r. rr_id r = rid) f (reservations db)"
    and ids: "\<And>r. rr_id (f r) = rr_id r"
    and keys: "keys_ok db'"
    and others: "\<And>rid'. rid' \<noteq> rid \<Longrightarrow> active rid' db' = active rid' db"
    and own: "distinct (map pr_subject (active rid db'))"
    and new: "row_ok db' (f row)"
  shows "reservations_ok db'"
proof -
  have "distinct (map pr_subject (active rid' db'))" for rid'
    using ok own others [of rid'] by (cases "rid' = rid") (auto simp: reservations_ok_def)
  moreover have "row_ok db' r'" if mem: "r' \<in> set (reservations db')" for r'
  proof -
    consider "r' \<in> set (reservations db)" "rr_id r' \<noteq> rid"
      | r where "r \<in> set (reservations db)" "rr_id r = rid" "r' = f r"
      using mem unfolding rows set_update_where by auto
    then show ?thesis
    proof cases
      case 1
      then have "row_ok db r'" using ok by (simp add: reservations_ok_def)
      then show ?thesis using others [OF 1(2)]
        by (simp add: row_ok_def seats_ok_def active_participant_count_def)
    next
      case 2
      then have "r = row" using keys_ok_unique_row ok row reservations_ok_def by metis
      then show ?thesis using new 2 by simp
    qed
  qed
  ultimately show ?thesis using keys by (simp add: reservations_ok_def)
qed

lemma reservations_put_row: "reservations (put_row rid f db) = update_where (\<lambda>r. rr_id r = rid) f (reservations db)"
  by (simp add: put_row_def)

lemma put_row_frame [simp]:
  "participants (put_row rid f db) = participants db" "comments (put_row rid f db) = comments db"
  "next_reservation_id (put_row rid f db) = next_reservation_id db"
  "next_participant_id (put_row rid f db) = next_participant_id db"
  by (simp_all add: put_row_def)

lemma set_cancelled_frame [simp]:
  "reservations (set_cancelled P now db) = reservations db" "comments (set_cancelled P now db) = comments db"
  "next_reservation_id (set_cancelled P now db) = next_reservation_id db"
  "next_participant_id (set_cancelled P now db) = next_participant_id db"
  by (simp_all add: set_cancelled_def)

lemma keys_ok_put_row:
  assumes "keys_ok db" and "\<And>r. rr_id (f r) = rr_id r"
  shows "keys_ok (put_row rid f db)"
proof -
  have "map rr_id (reservations (put_row rid f db)) = map rr_id (reservations db)"
    unfolding reservations_put_row by (rule map_update_where_frame) (rule assms)
  then show ?thesis
    using assms(1) by (simp add: keys_ok_def reservations_put_row ball_update_where bex_update_where assms(2))
qed

lemma keys_ok_set_cancelled:
  assumes "keys_ok db"
  shows "keys_ok (set_cancelled P now db)"
proof -
  have "map pr_id (participants (set_cancelled P now db)) = map pr_id (participants db)"
    by (simp add: set_cancelled_def map_update_where_frame)
  moreover have "participants (set_cancelled P now db) =
      update_where P (\<lambda>p. p\<lparr>pr_cancelled_at := Some now\<rparr>) (participants db)"
    by (simp add: set_cancelled_def)
  ultimately show ?thesis using assms by (simp add: keys_ok_def ball_update_where)
qed

lemma keys_ok_insert:
  assumes "keys_ok db" and "insert_participant dbnow rid subject name ranks db = Inr (p, db')"
    and "reservation_row_by rid db = Some row"
  shows "keys_ok db'"
  using assms(1) active_insert [OF assms(2)] row_by_Some [OF assms(3)]
  unfolding keys_ok_def by (auto simp: less_Suc_eq)

section \<open>Every method keeps the invariant\<close>

lemma row_okD:
  assumes "reservations_ok db" and "reservation_row_by rid db = Some row"
  shows "row_ok db row" and "rr_id row = rid" and "row \<in> set (reservations db)"
  using assms row_by_Some by (auto simp: reservations_ok_def)

lemma expire_ok:
  assumes "reservations_ok db"
  shows "reservations_ok (expire_finished now db)"
proof -
  let ?db = "expire_finished now db"
  let ?f = "\<lambda>r. r\<lparr>rr_status := ENDED, rr_ended_at := Some now, rr_updated_at := now\<rparr>"
  have rows: "reservations ?db = update_where (finished now) ?f (reservations db)"
    and ps: "participants ?db = update_where
      (\<lambda>p. pr_cancelled_at p = None \<and> pr_reservation_id p \<in> set (map rr_id (filter (finished now) (reservations db))))
      (\<lambda>p. p\<lparr>pr_cancelled_at := Some now\<rparr>) (participants db)"
    and nexts: "next_reservation_id ?db = next_reservation_id db" "next_participant_id ?db = next_participant_id db"
    by (simp_all add: expire_finished_def Let_def)
  have ids: "map rr_id (reservations ?db) = map rr_id (reservations db)"
    "map pr_id (participants ?db) = map pr_id (participants db)"
    unfolding rows ps by (simp_all add: map_update_where_frame)
  have keys: "keys_ok ?db"
    using assms unfolding reservations_ok_def keys_ok_def ids nexts
    by (simp add: rows ps ball_update_where bex_update_where)
  have "row_ok ?db r" if mem: "r \<in> set (reservations ?db)" for r
  proof -
    consider (old) "r \<in> set (reservations db)" "\<not> finished now r"
      | (ended) r' where "r' \<in> set (reservations db)" "finished now r'" "r = ?f r'"
      using mem unfolding rows set_update_where by auto
    then show ?thesis
    proof cases
      case old
      then have "rr_id r \<notin> finished_ids now db"
        using keys_ok_unique_row [of db] assms by (auto simp: finished_ids_def reservations_ok_def)
      then show ?thesis using old assms
        by (simp add: reservations_ok_def row_ok_def seats_ok_def active_participant_count_def active_expire)
    next
      case ended
      then have "rr_id r \<in> finished_ids now db" by (auto simp: finished_ids_def)
      moreover have "1 \<le> rr_capacity r" using ended assms by (auto simp: reservations_ok_def row_ok_def)
      ultimately show ?thesis using ended
        by (simp add: row_ok_def seats_ok_def active_participant_count_def active_expire live_iff)
    qed
  qed
  with keys assms show ?thesis by (simp add: reservations_ok_def active_expire)
qed

lemma create_ok:
  assumes "reservations_ok db" and "1 \<le> cap"
    and "repo_create dbnow start host name ranks mt cap memo db = Inr (r, db')"
  shows "reservations_ok db'"
proof -
  let ?id = "next_reservation_id db"
  obtain row where db': "reservations db' = reservations db @ [row]" "participants db' = participants db"
      "next_reservation_id db' = Suc ?id" "next_participant_id db' = next_participant_id db"
    and row: "rr_id row = ?id" "rr_capacity row = cap" "rr_status row = OPEN"
    using assms(3) by (auto simp: repo_create_def Let_def)
  have act: "active rid db' = active rid db" for rid by (simp add: active_def db')
  have none: "active ?id db = []"
    using assms(1) by (fastforce simp: active_def is_active_def filter_empty_conv reservations_ok_def keys_ok_def)
  have "row_ok db' row"
    using row assms(2) by (simp add: row_ok_def seats_ok_def active_participant_count_def act none status_for_def live_iff)
  moreover have "row_ok db' r" if "r \<in> set (reservations db)" for r
    using that assms(1) by (simp add: reservations_ok_def row_ok_def seats_ok_def active_participant_count_def act)
  moreover have "keys_ok db'"
    using assms(1) row(1) unfolding reservations_ok_def keys_ok_def db' by (auto simp: less_Suc_eq)
  ultimately show ?thesis using assms(1) by (simp add: reservations_ok_def act db')
qed

lemma update_ok:
  assumes ok: "reservations_ok db" and cap: "pred_option (\<lambda>c. 1 \<le> c) (ch_capacity ch)"
    and up: "repo_update rid host now ch db = Inr (r, db')"
  shows "reservations_ok db'"
proof -
  from up obtain row where row: "reservation_row_by rid db = Some row"
    and e: "ensure_editable (rr_status row) (rr_start_at row) (active_participant_count rid db) now = Inr ()"
    and db': "db' = put_row rid (apply_changes ch now) db"
    by (auto simp: repo_update_def get_row_Inr Let_def)
  note r = row_okD [OF ok row]
  have n: "active rid db = []" and l: "live (rr_status row)"
    using e by (simp_all add: ensure_editable_def active_participant_count_def)
  have c: "1 \<le> rr_capacity (apply_changes ch now row)"
    using cap r(1) by (cases "ch_capacity ch") (simp_all add: apply_changes_def set_if_def row_ok_def)
  have "rr_status row = OPEN"
    using r n l by (simp add: row_ok_def seats_ok_def active_participant_count_def status_for_def)
  then have "row_ok db' (apply_changes ch now row)"
    using c n r(2) by (simp add: row_ok_def seats_ok_def active_participant_count_def db' active_simps
        status_for_def live_iff apply_changes_def)
  then show ?thesis
    using reservations_ok_change [OF ok r(3,2), of db' "apply_changes ch now"] ok n
    by (simp add: db' reservations_put_row active_simps apply_changes_def keys_ok_put_row reservations_ok_def)
qed

lemma active_participation_None:
  "active_participation rid subject db = None \<longleftrightarrow> Some subject \<notin> pr_subject ` set (active rid db)"
  by (force simp: active_participation_def find_eq_None)

lemma join_effect:
  assumes "repo_join dbnow rid subject name ranks now db = Inr (out, db')"
  obtains row p db1 where
    "reservation_row_by rid db = Some row"
    "rr_host_subject row \<noteq> Some subject" "rr_status row = OPEN" "now < rr_start_at row"
    "active_participant_count rid db < rr_capacity row"
    "insert_participant dbnow rid subject name ranks db = Inr (p, db1)"
    "db' = put_row rid (\<lambda>r. r\<lparr>rr_status := status_for (active_participant_count rid db + 1) (rr_capacity row),
              rr_updated_at := now\<rparr>) db1"
proof (cases "insert_participant dbnow rid subject name ranks db")
  case (Inl u)
  with assms show ?thesis by (auto simp: repo_join_def Let_def)
next
  case (Inr v)
  with assms that show ?thesis
    by (cases v) (auto simp: repo_join_def get_row_Inr Let_def ensure_joinable_by_def ensure_joinable_def reread_def)
qed

lemma join_ok:
  assumes ok: "reservations_ok db" and j: "repo_join dbnow rid subject name ranks now db = Inr (out, db')"
  shows "reservations_ok db'"
proof -
  from j obtain row p db1 where row: "reservation_row_by rid db = Some row"
    and host: "rr_host_subject row \<noteq> Some subject"
    and n: "active_participant_count rid db < rr_capacity row"
    and ins: "insert_participant dbnow rid subject name ranks db = Inr (p, db1)"
    and db': "db' = put_row rid (\<lambda>r. r\<lparr>rr_status := status_for (active_participant_count rid db + 1) (rr_capacity row),
              rr_updated_at := now\<rparr>) db1"
    by (rule join_effect)
  note r = row_okD [OF ok row] and i = active_insert [OF ins]
  define f where "f = (\<lambda>r :: reservation_row. r\<lparr>rr_status := status_for (active_participant_count rid db + 1) (rr_capacity row),
    rr_updated_at := now\<rparr>)"
  have f: "rr_id (f x) = rr_id x" "rr_capacity (f x) = rr_capacity x" "rr_host_subject (f x) = rr_host_subject x"
    "rr_status (f x) = status_for (active_participant_count rid db + 1) (rr_capacity row)" for x
    by (simp_all add: f_def)
  have act: "active rid' db' = (if rid' = rid then active rid db @ [p] else active rid' db)" for rid'
    by (simp add: db' active_put_row i(1))
  have keys: "keys_ok db'"
    unfolding db' by (rule keys_ok_put_row) (use keys_ok_insert [OF _ ins row] ok in \<open>simp_all add: reservations_ok_def\<close>)
  have own: "distinct (map pr_subject (active rid db'))"
    using ok i(2,3) by (simp add: act reservations_ok_def active_participation_None)
  have rows: "reservations db' = update_where (\<lambda>r. rr_id r = rid) f (reservations db)"
    by (simp add: db' reservations_put_row i(7) f_def)
  have new: "row_ok db' (f row)"
    using r(1,2) host n i(3)
    by (auto simp: row_ok_def seats_ok_def f active_participant_count_def act add.commute)
  show ?thesis
    by (rule reservations_ok_change [OF ok r(3,2) rows f(1) keys _ own new]) (simp add: act)
qed

lemma cancel_participation_effect:
  assumes "repo_cancel_participation rid subject now db = Inr (out, db')"
  obtains row seat db1 where
    "reservation_row_by rid db = Some row" "live (rr_status row)" "now < rr_start_at row"
    "active_participation rid subject db = Some seat"
    "db1 = set_cancelled (\<lambda>p. pr_id p = pr_id seat) now db"
    "db' = put_row rid (\<lambda>r. r\<lparr>rr_status := status_for (active_participant_count rid db1) (rr_capacity row),
              rr_updated_at := now\<rparr>) db1"
proof -
  from assms obtain row where row: "reservation_row_by rid db = Some row" "live (rr_status row)" "now < rr_start_at row"
    and seat: "active_participation rid subject db \<noteq> None"
    by (auto simp: repo_cancel_participation_def get_row_Inr Let_def ensure_participation_cancellable_def)
  from seat obtain st where st: "active_participation rid subject db = Some st" by auto
  from assms row st that [OF row st refl] show ?thesis
    by (auto simp: repo_cancel_participation_def get_row_Inr Let_def reread_def)
qed

lemma cancel_participation_active:
  assumes ok: "reservations_ok db" and seat: "active_participation rid subject db = Some seat"
  shows "active rid' (set_cancelled (\<lambda>p. pr_id p = pr_id seat) now db) =
    (if rid' = rid then filter (\<lambda>p. pr_id p \<noteq> pr_id seat) (active rid db) else active rid' db)"
proof -
  have s: "seat \<in> set (active rid db)"
    using seat find_Some_set unfolding active_participation_def by fastforce
  have "p \<in> set (active rid' db) \<Longrightarrow> pr_id p = pr_id seat \<Longrightarrow> rid' = rid" for p
    using s ok distinct_map_eq [of pr_id "participants db" p seat]
    by (auto simp: active_def is_active_def reservations_ok_def keys_ok_def)
  then show ?thesis by (auto simp: active_set_cancelled intro!: filter_True)
qed

lemma cancel_participation_ok:
  assumes ok: "reservations_ok db" and c: "repo_cancel_participation rid subject now db = Inr (out, db')"
  shows "reservations_ok db'"
proof -
  from c obtain row seat db1 where row: "reservation_row_by rid db = Some row" and l: "live (rr_status row)"
    and seat: "active_participation rid subject db = Some seat"
    and db1: "db1 = set_cancelled (\<lambda>p. pr_id p = pr_id seat) now db"
    and db': "db' = put_row rid (\<lambda>r. r\<lparr>rr_status := status_for (active_participant_count rid db1) (rr_capacity row),
              rr_updated_at := now\<rparr>) db1"
    by (rule cancel_participation_effect)
  note r = row_okD [OF ok row] and a1 = cancel_participation_active [OF ok seat, of _ now, folded db1]
  define f where "f = (\<lambda>r :: reservation_row. r\<lparr>rr_status := status_for (active_participant_count rid db1) (rr_capacity row),
    rr_updated_at := now\<rparr>)"
  have f: "rr_id (f x) = rr_id x" "rr_capacity (f x) = rr_capacity x" "rr_host_subject (f x) = rr_host_subject x"
    "rr_status (f x) = status_for (active_participant_count rid db1) (rr_capacity row)" for x
    by (simp_all add: f_def)
  have act: "active rid' db' = active rid' db1" for rid' by (simp add: db' active_put_row)
  have "int (length (active rid db1)) \<le> int (length (active rid db))" by (simp add: a1)
  also have "\<dots> \<le> rr_capacity row"
    using r(1,2) l by (simp add: row_ok_def seats_ok_def active_participant_count_def Let_def)
  finally have new: "row_ok db' (f row)"
    using r(1,2) by (auto simp: row_ok_def seats_ok_def f active_participant_count_def act a1)
  have keys: "keys_ok db'"
    unfolding db' db1 by (intro keys_ok_put_row keys_ok_set_cancelled)
      (use ok in \<open>simp_all add: reservations_ok_def\<close>)
  have own: "distinct (map pr_subject (active rid db'))"
    using ok by (simp add: act a1 reservations_ok_def distinct_map_filter)
  have rows: "reservations db' = update_where (\<lambda>r. rr_id r = rid) f (reservations db)"
    by (simp add: db' db1 reservations_put_row f_def)
  show ?thesis
    by (rule reservations_ok_change [OF ok r(3,2) rows f(1) keys _ own new]) (simp add: act a1)
qed

lemma cancel_ok:
  assumes ok: "reservations_ok db" and c: "repo_cancel rid host now db = Inr (u, db')"
  shows "reservations_ok db'"
proof -
  define f where "f = (\<lambda>r :: reservation_row. r\<lparr>rr_status := CANCELLED, rr_cancelled_at := Some now, rr_updated_at := now\<rparr>)"
  from c obtain row where row: "reservation_row_by rid db = Some row"
    and db': "db' = release_participants rid now (put_row rid f db)"
    by (auto simp: repo_cancel_def get_row_Inr Let_def f_def)
  note r = row_okD [OF ok row]
  have f: "rr_id (f x) = rr_id x" "rr_capacity (f x) = rr_capacity x" "rr_status (f x) = CANCELLED" for x
    by (simp_all add: f_def)
  have act: "active rid' db' = (if rid' = rid then [] else active rid' db)" for rid'
    by (simp add: db' active_release active_put_row)
  have new: "row_ok db' (f row)"
    using r(1,2) by (simp add: row_ok_def seats_ok_def f active_participant_count_def act live_iff)
  have keys: "keys_ok db'"
    unfolding db' release_participants_def by (intro keys_ok_put_row keys_ok_set_cancelled)
      (use ok in \<open>simp_all add: f reservations_ok_def\<close>)
  have rows: "reservations db' = update_where (\<lambda>r. rr_id r = rid) f (reservations db)"
    by (simp add: db' release_participants_def reservations_put_row)
  show ?thesis
    by (rule reservations_ok_change [OF ok r(3,2) rows f(1) keys _ _ new]) (simp_all add: act)
qed

text \<open>Comments live beside the seats.\<close>

lemma reservations_ok_comments [simp]: "reservations_ok (db\<lparr>comments := c\<rparr>) = reservations_ok db"
  "reservations_ok (db\<lparr>next_comment_id := n\<rparr>) = reservations_ok db"
  by (simp_all add: reservations_ok_def keys_ok_def row_ok_def seats_ok_def active_participant_count_def active_def)

lemma add_comment_ok:
  "reservations_ok db \<Longrightarrow> repo_add_comment dbnow rid sub a b db = Inr (c, db') \<Longrightarrow> reservations_ok db'"
  by (auto simp: repo_add_comment_def Let_def)

lemma delete_comment_ok:
  "reservations_ok db \<Longrightarrow> repo_delete_comment rid cid sub now admin db = Inr (c, db') \<Longrightarrow> reservations_ok db'"
  by (auto simp: repo_delete_comment_def split: option.splits if_splits)

lemmas method_ok = create_ok update_ok join_ok cancel_participation_ok cancel_ok add_comment_ok delete_comment_ok

end
