(* ===== verification/Reservation_Service.thy ===== *)
theory Reservation_Service
  imports Reservation_Invariant Idempotency
begin

text \<open>
  \<open>src/reservation/service.py\<close> and the system it makes: the use cases over the transactional state,
  runs of whole calls, runs in which an edit's check and its write are separate steps of two
  transactions' interleaving, and the abstract booking that joining and leaving refine.
\<close>

section \<open>The use cases\<close>

type_synonym 'j rstate = "('j, rdb) txstate"

definition in_tx :: "(rdb \<Rightarrow> reservation_error + ('a \<times> rdb)) \<Rightarrow> 'j rstate \<Rightarrow> (reservation_error + 'a) \<times> 'j rstate" where
  "in_tx op s = transact (on_app op) s"

definition list_reservations :: "instant \<Rightarrow> 'j rstate \<Rightarrow> reservation list \<times> 'j rstate" where
  "list_reservations now s = (let (rs, db) = list_upcoming now (app s) in (rs, s\<lparr>app := db\<rparr>))"

definition create_reservation ::
  "(reservation \<Rightarrow> 'j) \<Rightarrow> (string \<Rightarrow> string) \<Rightarrow> (string \<Rightarrow> create_request \<Rightarrow> string) \<Rightarrow> instant \<Rightarrow> instant \<Rightarrow>
   string \<Rightarrow> string \<Rightarrow> create_request \<Rightarrow> string \<Rightarrow> 'j rstate \<Rightarrow> (reservation_error idem_error + 'j) \<times> 'j rstate" where
  "create_reservation jsonable sha256 canonical now dbnow subject display_name q key s =
     (case bindR (ensure_conditions_valid (cq_match_type q) (cq_ranks q) (cq_capacity q))
             (\<lambda>_. start_at_from (cq_start_time q) now) of
        Inl e \<Rightarrow> (Inl (WriteError e), s)
      | Inr start \<Rightarrow>
          transact (run_once pg_claim pg_complete jsonable subject key
             (fingerprint sha256 canonical ''reservation.create'' q)
             (on_app (repo_create dbnow start subject display_name (cq_ranks q) (cq_match_type q)
                        (cq_capacity q) (strip (cq_memo q))))) s)"

definition get_reservation :: "nat \<Rightarrow> 'j rstate \<Rightarrow> reservation_error + reservation" where
  "get_reservation rid s = repo_get rid (app s)"

text \<open>The first half of an edit: the reservation as it would end up is read and checked.\<close>

definition validate_update :: "nat \<Rightarrow> update_request \<Rightarrow> instant \<Rightarrow> rdb \<Rightarrow> reservation_error + changes" where
  "validate_update rid q now db =
     bindR (repo_get rid db) (\<lambda>current.
     bindR (ensure_conditions_valid (set_if (uq_match_type q) (res_match_type current))
              (set_if (uq_ranks q) (res_host_ranks current)) (set_if (uq_capacity q) (res_capacity current))) (\<lambda>_.
     bindR (case uq_start_time q of None \<Rightarrow> Inr None | Some st \<Rightarrow> bindR (start_at_from st now) (\<lambda>t. Inr (Some t)))
       (\<lambda>start. Inr \<lparr>ch_start_at = start, ch_ranks = uq_ranks q, ch_match_type = uq_match_type q,
          ch_capacity = uq_capacity q, ch_memo = map_option strip (uq_memo q)\<rparr>)))"

definition update_reservation ::
  "nat \<Rightarrow> string \<Rightarrow> update_request \<Rightarrow> instant \<Rightarrow> instant \<Rightarrow> rdb \<Rightarrow> reservation_error + (reservation \<times> rdb)" where
  "update_reservation rid subject q now1 now2 db =
     bindR (validate_update rid q now1 db) (\<lambda>ch. repo_update rid subject now2 ch db)"

definition join_reservation ::
  "instant \<Rightarrow> nat \<Rightarrow> string \<Rightarrow> string \<Rightarrow> string list \<Rightarrow> instant \<Rightarrow> rdb \<Rightarrow> reservation_error + (reservation \<times> rdb)" where
  "join_reservation dbnow rid subject display_name ranks now db =
     bindR (repo_join dbnow rid subject display_name ranks now db) (\<lambda>((r, _), db'). Inr (r, db'))"

definition add_comment ::
  "instant \<Rightarrow> nat \<Rightarrow> string \<Rightarrow> string \<Rightarrow> string \<Rightarrow> rdb \<Rightarrow> reservation_error + (comment \<times> rdb)" where
  "add_comment dbnow rid subject display_name body db =
     repo_add_comment dbnow rid subject display_name (strip body) db"

section \<open>Runs of whole calls\<close>

text \<open>One constructor per writing route; instants are the clock readings the call makes.\<close>

datatype call =
    Create instant instant string string create_request string
  | ListAll instant
  | Update nat string update_request instant instant
  | Join instant nat string string "string list" instant
  | Leave nat string instant
  | Cancel nat string instant
  | AddComment instant nat string string string
  | DeleteComment nat nat string instant bool

fun run_call ::
  "(reservation \<Rightarrow> 'j) \<Rightarrow> (string \<Rightarrow> string) \<Rightarrow> (string \<Rightarrow> create_request \<Rightarrow> string) \<Rightarrow> call \<Rightarrow> 'j rstate \<Rightarrow> 'j rstate" where
  "run_call js sha can (Create now dbnow sub name q key) s = snd (create_reservation js sha can now dbnow sub name q key s)"
| "run_call js sha can (ListAll now) s = snd (list_reservations now s)"
| "run_call js sha can (Update rid sub q now1 now2) s = snd (in_tx (update_reservation rid sub q now1 now2) s)"
| "run_call js sha can (Join dbnow rid sub name ranks now) s = snd (in_tx (join_reservation dbnow rid sub name ranks now) s)"
| "run_call js sha can (Leave rid sub now) s = snd (in_tx (repo_cancel_participation rid sub now) s)"
| "run_call js sha can (Cancel rid sub now) s = snd (in_tx (repo_cancel rid sub now) s)"
| "run_call js sha can (AddComment dbnow rid sub name body) s = snd (in_tx (add_comment dbnow rid sub name body) s)"
| "run_call js sha can (DeleteComment rid cid sub now admin) s = snd (in_tx (repo_delete_comment rid cid sub now admin) s)"

fun request_ok :: "call \<Rightarrow> bool" where
  "request_ok (Create now dbnow sub name q key) = create_request_ok q"
| "request_ok (Update rid sub q now1 now2) = update_request_ok q"
| "request_ok (Join dbnow rid sub name ranks now) = join_request_ok ranks"
| "request_ok _ = True"

definition run_calls ::
  "(reservation \<Rightarrow> 'j) \<Rightarrow> (string \<Rightarrow> string) \<Rightarrow> (string \<Rightarrow> create_request \<Rightarrow> string) \<Rightarrow> call list \<Rightarrow> 'j rstate \<Rightarrow> 'j rstate" where
  "run_calls js sha can cs s = fold (run_call js sha can) cs s"

definition empty_rstate :: "'j rstate" where
  "empty_rstate = \<lparr>idem_rows = [], app = empty_rdb\<rparr>"

text \<open>What an operation of a call may do to the tables, by cases on the exception.\<close>

lemma in_tx_cases:
  obtains "app (snd (in_tx op s)) = app s" | a db' where "op (app s) = Inr (a, db')" "app (snd (in_tx op s)) = db'"
  by (cases "op (app s)") (auto simp: in_tx_def transact_def on_app_def)

lemma in_tx_preserves:
  "P (app s) \<Longrightarrow> (\<And>a db'. op (app s) = Inr (a, db') \<Longrightarrow> P db') \<Longrightarrow> P (app (snd (in_tx op s)))"
  by (rule in_tx_cases [of op s]) auto

lemma app_pg_claim: "pg_claim sub k fp s = Inr (x, s1) \<Longrightarrow> app s1 = app s"
  by (auto simp: pg_claim_def split: option.splits if_splits)

lemma app_pg_complete [simp]: "app (pg_complete sub k j s) = app s"
  by (simp add: pg_complete_def)

lemma run_once_app:
  fixes s :: "('a, 'c) txstate"
  assumes "run_once pg_claim pg_complete js sub k fp (on_app w) s = (Inr (j, s') :: 'b idem_error + _)"
  shows "app s' = app s \<or> (\<exists>a d. w (app s) = Inr (a, d) \<and> app s' = d \<and> j = js a)"
proof (cases "pg_claim sub k fp s :: 'b idem_error + ('a option \<times> ('a, 'c) txstate)")
  case (Inl e)
  with assms show ?thesis by (simp add: run_once_def)
next
  case (Inr v)
  then obtain stored s1 where c: "(pg_claim sub k fp s :: 'b idem_error + _) = Inr (stored, s1)"
    by (cases v) auto
  have s1: "app s1 = app s" by (rule app_pg_claim [OF c])
  show ?thesis
  proof (cases "on_app w s1")
    case (Inl e)
    with assms c s1 show ?thesis by (auto simp: run_once_def split: option.splits)
  next
    case (Inr u)
    with assms c s1 show ?thesis
      by (cases u; cases stored) (auto simp: run_once_def on_app_def split: sum.splits)
  qed
qed

lemma create_cases:
  obtains "app (snd (create_reservation js sha can now dbnow sub name q key s)) = app s"
  | start r db' where "conditions_coherent (cq_match_type q) (cq_ranks q) (cq_capacity q)"
      "start_at_from (cq_start_time q) now = Inr start"
      "repo_create dbnow start sub name (cq_ranks q) (cq_match_type q) (cq_capacity q) (strip (cq_memo q)) (app s) = Inr (r, db')"
      "app (snd (create_reservation js sha can now dbnow sub name q key s)) = db'"
proof (cases "bindR (ensure_conditions_valid (cq_match_type q) (cq_ranks q) (cq_capacity q))
                (\<lambda>_. start_at_from (cq_start_time q) now)")
  case (Inl e)
  then show ?thesis using that(1) by (simp add: create_reservation_def)
next
  case (Inr start)
  let ?w = "repo_create dbnow start sub name (cq_ranks q) (cq_match_type q) (cq_capacity q) (strip (cq_memo q))"
  let ?t = "run_once pg_claim pg_complete js sub key (fingerprint sha can ''reservation.create'' q) (on_app ?w)"
  have e: "snd (create_reservation js sha can now dbnow sub name q key s) = snd (transact ?t s)"
    using Inr by (simp add: create_reservation_def)
  show ?thesis
  proof (cases "?t s")
    case (Inl f)
    then show ?thesis using that(1) e by (simp add: transact_def)
  next
    case ok: (Inr v)
    then obtain j s' where v: "?t s = Inr (j, s')" by (cases v) auto
    from run_once_app [OF this] show ?thesis
      using that Inr e v by (auto simp: transact_def ensure_conditions_valid_Inr)
  qed
qed

section \<open>The seats are right after any run\<close>

lemma update_reservation_ok:
  assumes "reservations_ok db" and "update_request_ok q"
    and "update_reservation rid sub q now1 now2 db = Inr (r, db')"
  shows "reservations_ok db'"
proof -
  from assms(3) obtain ch where "repo_update rid sub now2 ch db = Inr (r, db')" "ch_capacity ch = uq_capacity q"
    by (auto simp: update_reservation_def validate_update_def)
  moreover have "pred_option (\<lambda>c. 1 \<le> c) (uq_capacity q)"
    using assms(2) by (cases "uq_capacity q") (auto simp: update_request_ok_def)
  ultimately show ?thesis using update_ok assms(1) by metis
qed

lemma run_call_ok:
  assumes "reservations_ok (app s)" and "request_ok c"
  shows "reservations_ok (app (run_call js sha can c s))"
proof (cases c)
  case (Create now dbnow sub name q key)
  have "1 \<le> cq_capacity q" using assms(2) Create by (simp add: create_request_ok_def)
  with assms(1) show ?thesis unfolding Create run_call.simps
    by (rule_tac create_cases [of js sha can now dbnow sub name q key s]) (auto dest: create_ok)
next
  case (ListAll now)
  then show ?thesis using assms by (simp add: list_reservations_def list_upcoming_def Let_def expire_ok)
next
  case (Update rid sub q now1 now2)
  show ?thesis unfolding Update run_call.simps
    by (rule in_tx_preserves [where P = reservations_ok])
      (use assms Update in \<open>auto intro: update_reservation_ok\<close>)
next
  case (Join dbnow rid sub name ranks now)
  show ?thesis unfolding Join run_call.simps
    by (rule in_tx_preserves [where P = reservations_ok])
      (use assms Join in \<open>auto simp: join_reservation_def intro: join_ok\<close>)
next
  case (Leave rid sub now)
  show ?thesis unfolding Leave run_call.simps
    by (rule in_tx_preserves [where P = reservations_ok])
      (use assms Leave in \<open>auto intro: cancel_participation_ok\<close>)
next
  case (Cancel rid sub now)
  show ?thesis unfolding Cancel run_call.simps
    by (rule in_tx_preserves [where P = reservations_ok])
      (use assms Cancel in \<open>auto intro: cancel_ok\<close>)
next
  case (AddComment dbnow rid sub name body)
  show ?thesis unfolding AddComment run_call.simps
    by (rule in_tx_preserves [where P = reservations_ok])
      (use assms AddComment in \<open>auto simp: add_comment_def intro: add_comment_ok\<close>)
next
  case (DeleteComment rid cid sub now admin)
  show ?thesis unfolding DeleteComment run_call.simps
    by (rule in_tx_preserves [where P = reservations_ok])
      (use assms DeleteComment in \<open>auto intro: delete_comment_ok\<close>)
qed

lemma run_calls_ok:
  "reservations_ok (app s) \<Longrightarrow> \<forall>c\<in>set cs. request_ok c \<Longrightarrow> reservations_ok (app (run_calls js sha can cs s))"
  unfolding run_calls_def by (induction cs arbitrary: s) (auto simp: run_call_ok)

end
