(* ===== verification/Reservation_System.thy ===== *)
theory Reservation_System
  imports Reservation_Service
begin

text \<open>
  What holds of the reservation system as a whole: the conditions of a reservation stay coherent when
  calls run one after another; the seats stay right even when the check of an edit and its write are
  split by other transactions; and the repository's joining and leaving refine an abstract booking.
\<close>

section \<open>Coherent conditions, call by call\<close>

definition all_coherent :: "rdb \<Rightarrow> bool" where
  "all_coherent db \<longleftrightarrow>
     (\<forall>r\<in>set (reservations db). conditions_coherent (rr_match_type r) (rr_host_ranks r) (rr_capacity r))"

lemma all_coherent_put_row:
  "(\<And>r. rr_match_type (f r) = rr_match_type r \<and> rr_host_ranks (f r) = rr_host_ranks r \<and> rr_capacity (f r) = rr_capacity r)
    \<Longrightarrow> all_coherent (put_row rid f db) = all_coherent db"
  by (simp add: all_coherent_def reservations_put_row ball_update_where)

lemma all_coherent_set_cancelled [simp]: "all_coherent (set_cancelled P now db) = all_coherent db"
  by (simp add: all_coherent_def)

lemma all_coherent_comments [simp]: "all_coherent (db\<lparr>comments := c\<rparr>) = all_coherent db"
  "all_coherent (db\<lparr>next_comment_id := n\<rparr>) = all_coherent db"
  by (simp_all add: all_coherent_def)

lemma expire_coherent: "all_coherent db \<Longrightarrow> all_coherent (expire_finished now db)"
  by (simp add: all_coherent_def expire_finished_def Let_def ball_update_where)

lemma create_coherent:
  "all_coherent db \<Longrightarrow> conditions_coherent mt ranks cap \<Longrightarrow>
    repo_create dbnow start sub name ranks mt cap memo db = Inr (r, db') \<Longrightarrow> all_coherent db'"
  by (auto simp: repo_create_def Let_def all_coherent_def)

lemma update_coherent:
  assumes ok: "reservations_ok db" and co: "all_coherent db"
    and up: "update_reservation rid sub q now1 now2 db = Inr (r, db')"
  shows "all_coherent db'"
proof -
  from up obtain ch where v: "validate_update rid q now1 db = Inr ch"
    and u: "repo_update rid sub now2 ch db = Inr (r, db')"
    by (auto simp: update_reservation_def)
  from u obtain row where row: "reservation_row_by rid db = Some row"
    and db': "db' = put_row rid (apply_changes ch now2) db"
    by (auto simp: repo_update_def get_row_Inr Let_def)
  from v row have valid: "conditions_coherent (set_if (ch_match_type ch) (rr_match_type row))
      (set_if (ch_ranks ch) (rr_host_ranks row)) (set_if (ch_capacity ch) (rr_capacity row))"
    by (auto simp: validate_update_def repo_get_def get_row_Inr ensure_conditions_valid_Inr
        with_participant_count_def to_reservation_def)
  note r = row_okD [OF ok row]
  have "x = row" if "x \<in> set (reservations db)" "rr_id x = rid" for x
    using that row_by_Some [OF row] keys_ok_unique_row ok reservations_ok_def by metis
  then show ?thesis
    using co valid by (auto simp: db' all_coherent_def reservations_put_row set_update_where apply_changes_def)
qed

lemma run_call_coherent:
  assumes "reservations_ok (app s)" and "all_coherent (app s)"
  shows "all_coherent (app (run_call js sha can c s))"
proof (cases c)
  case (Create now dbnow sub name q key)
  with assms(2) show ?thesis unfolding Create run_call.simps
    by (rule_tac create_cases [of js sha can now dbnow sub name q key s]) (auto dest: create_coherent)
next
  case (ListAll now)
  then show ?thesis using assms by (simp add: list_reservations_def list_upcoming_def Let_def expire_coherent)
next
  case (Update rid sub q now1 now2)
  show ?thesis unfolding Update run_call.simps
    by (rule in_tx_preserves [where P = all_coherent]) (use assms in \<open>auto intro: update_coherent\<close>)
next
  case (Join dbnow rid sub name ranks now)
  show ?thesis unfolding Join run_call.simps
  proof (rule in_tx_preserves [where P = all_coherent])
    fix a db'
    assume "join_reservation dbnow rid sub name ranks now (app s) = Inr (a, db')"
    then obtain out where "repo_join dbnow rid sub name ranks now (app s) = Inr (out, db')"
      by (auto simp: join_reservation_def)
    then show "all_coherent db'"
    proof (rule join_effect)
      fix row p db1
      assume "insert_participant dbnow rid sub name ranks (app s) = Inr (p, db1)"
        and "db' = put_row rid (\<lambda>r. r\<lparr>rr_status := status_for (active_participant_count rid (app s) + 1) (rr_capacity row),
              rr_updated_at := now\<rparr>) db1"
      then show ?thesis using assms(2)
        by (simp add: all_coherent_put_row) (simp add: all_coherent_def active_insert)
    qed
  qed (rule assms)
next
  case (Leave rid sub now)
  show ?thesis unfolding Leave run_call.simps
    by (rule in_tx_preserves [where P = all_coherent])
      (use assms(2) in \<open>auto elim!: cancel_participation_effect simp: all_coherent_put_row\<close>)
next
  case (Cancel rid sub now)
  show ?thesis unfolding Cancel run_call.simps
    by (rule in_tx_preserves [where P = all_coherent])
      (use assms(2) in \<open>auto simp: repo_cancel_def Let_def release_participants_def all_coherent_put_row\<close>)
next
  case (AddComment dbnow rid sub name body)
  show ?thesis unfolding AddComment run_call.simps
    by (rule in_tx_preserves [where P = all_coherent])
      (use assms(2) in \<open>auto simp: add_comment_def repo_add_comment_def Let_def\<close>)
next
  case (DeleteComment rid cid sub now admin)
  show ?thesis unfolding DeleteComment run_call.simps
    by (rule in_tx_preserves [where P = all_coherent])
      (use assms(2) in \<open>auto simp: repo_delete_comment_def split: option.splits if_splits\<close>)
qed

lemma empty_coherent: "all_coherent empty_rdb"
  by (simp add: all_coherent_def empty_rdb_def)

lemma run_calls_coherent:
  "reservations_ok (app s) \<Longrightarrow> all_coherent (app s) \<Longrightarrow> \<forall>c\<in>set cs. request_ok c \<Longrightarrow>
    all_coherent (app (run_calls js sha can cs s))"
  unfolding run_calls_def by (induction cs arbitrary: s) (auto simp: run_call_ok run_call_coherent)

section \<open>Interleaved transactions\<close>

text \<open>
  The read that checks an edit takes no lock, so under READ COMMITTED other transactions may commit
  between it and the locked write.  \<open>pend\<close> holds the edits that have been checked and not yet written.
  Every other call locks its row before it reads, which makes it one step.
\<close>

type_synonym 'j isys = "'j rstate \<times> (nat \<times> string \<times> changes) list"

inductive interleaved ::
  "(reservation \<Rightarrow> 'j) \<Rightarrow> (string \<Rightarrow> string) \<Rightarrow> (string \<Rightarrow> create_request \<Rightarrow> string) \<Rightarrow> 'j isys \<Rightarrow> 'j isys \<Rightarrow> bool"
  for js sha can where
  call_step: "request_ok c \<Longrightarrow> interleaved js sha can (s, pend) (run_call js sha can c s, pend)"
| check_step: "update_request_ok q \<Longrightarrow> validate_update rid q now (app s) = Inr ch \<Longrightarrow>
    interleaved js sha can (s, pend) (s, (rid, sub, ch) # pend)"
| write_step: "(rid, sub, ch) \<in> set pend \<Longrightarrow>
    interleaved js sha can (s, pend) (snd (in_tx (repo_update rid sub now ch) s), remove1 (rid, sub, ch) pend)"

inductive_cases interleavedE: "interleaved js sha can x y"

definition reachable ::
  "(reservation \<Rightarrow> 'j) \<Rightarrow> (string \<Rightarrow> string) \<Rightarrow> (string \<Rightarrow> create_request \<Rightarrow> string) \<Rightarrow> 'j isys \<Rightarrow> bool" where
  "reachable js sha can = (interleaved js sha can)\<^sup>*\<^sup>* (empty_rstate, [])"

definition pending_ok :: "(nat \<times> string \<times> changes) list \<Rightarrow> bool" where
  "pending_ok pend \<longleftrightarrow> (\<forall>(rid, sub, ch)\<in>set pend. pred_option (\<lambda>c. 1 \<le> c) (ch_capacity ch))"

lemma validate_update_capacity:
  "update_request_ok q \<Longrightarrow> validate_update rid q now db = Inr ch \<Longrightarrow> pred_option (\<lambda>c. 1 \<le> c) (ch_capacity ch)"
  by (cases "uq_capacity q") (auto simp: validate_update_def update_request_ok_def)

lemma interleaved_ok:
  assumes "interleaved js sha can (s, pend) (s', pend')" and "reservations_ok (app s)" and "pending_ok pend"
  shows "reservations_ok (app s') \<and> pending_ok pend'"
  using assms(1)
proof (cases rule: interleaved.cases)
  case (call_step c)
  then show ?thesis using assms by (simp add: run_call_ok)
next
  case (check_step q rid now ch sub)
  then show ?thesis using assms validate_update_capacity by (auto simp: pending_ok_def)
next
  case (write_step rid sub ch now)
  have "reservations_ok (app (snd (in_tx (repo_update rid sub now ch) s)))"
    by (rule in_tx_preserves [where P = reservations_ok])
      (use assms(2,3) write_step in \<open>auto simp: pending_ok_def intro: update_ok\<close>)
  moreover have "pending_ok (remove1 (rid, sub, ch) pend)"
    using assms(3) set_remove1_subset unfolding pending_ok_def by fast
  ultimately show ?thesis using write_step by simp
qed

lemma reachable_start: "reachable js sha can (empty_rstate, [])"
  by (simp add: reachable_def)

lemma reachable_step: "reachable js sha can x \<Longrightarrow> interleaved js sha can x y \<Longrightarrow> reachable js sha can y"
  unfolding reachable_def by (rule rtranclp.rtrancl_into_rtrancl)

lemmas reachable_call = reachable_step [OF _ call_step]
lemmas reachable_check = reachable_step [OF _ check_step]
lemmas reachable_write = reachable_step [OF _ write_step]

lemma reachable_ok: "reachable js sha can (s, pend) \<Longrightarrow> reservations_ok (app s) \<and> pending_ok pend"
  unfolding reachable_def
proof (induction "(s, pend)" arbitrary: s pend rule: rtranclp_induct)
  case base
  then show ?case by (simp add: empty_rstate_def empty_rdb_ok pending_ok_def)
next
  case (step y)
  then show ?case by (cases y) (auto dest: interleaved_ok)
qed

section \<open>The abstract booking\<close>

text \<open>What a reservation is to its players: over, or a host, a limit, a start and a set of seats.\<close>

datatype booking = Over | Booking (b_host: "string option") (b_limit: int) (b_start: instant) (b_seats: "string set")

definition seat_set :: "nat \<Rightarrow> rdb \<Rightarrow> string set" where
  "seat_set rid db = {sub. \<exists>p\<in>set (active rid db). pr_subject p = Some sub}"

definition booking_of :: "rdb \<Rightarrow> nat \<Rightarrow> booking option" where
  "booking_of db rid = map_option (\<lambda>r. if live (rr_status r)
     then Booking (rr_host_subject r) (rr_capacity r) (rr_start_at r) (seat_set rid db) else Over)
     (reservation_row_by rid db)"

fun take_seat :: "string \<Rightarrow> instant \<Rightarrow> booking \<Rightarrow> booking option" where
  "take_seat sub now Over = None"
| "take_seat sub now (Booking h n t S) =
     (if h \<noteq> Some sub \<and> sub \<notin> S \<and> now < t \<and> int (card S) < n then Some (Booking h n t (insert sub S)) else None)"

fun leave_seat :: "string \<Rightarrow> instant \<Rightarrow> booking \<Rightarrow> booking option" where
  "leave_seat sub now Over = None"
| "leave_seat sub now (Booking h n t S) =
     (if sub \<in> S \<and> now < t then Some (Booking h n t (S - {sub})) else None)"

lemma card_seat_set:
  assumes "reservations_ok db" and "reservation_row_by rid db = Some row"
  shows "int (card (seat_set rid db)) = active_participant_count rid db"
proof -
  have some: "\<forall>p\<in>set (active rid db). pr_subject p \<noteq> None"
    using row_okD [OF assms] by (simp add: row_ok_def)
  then have "Some ` seat_set rid db = set (map pr_subject (active rid db))"
    by (force simp: seat_set_def)
  then have "card (seat_set rid db) = card (set (map pr_subject (active rid db)))"
    by (metis card_image inj_Some)
  also have "\<dots> = length (active rid db)"
    using assms(1) distinct_card by (fastforce simp: reservations_ok_def)
  finally show ?thesis by (simp add: active_participant_count_def)
qed

lemma row_by_put_row:
  "(\<And>r. rr_id (f r) = rr_id r) \<Longrightarrow> reservation_row_by rid (put_row rid' f db) =
    map_option (\<lambda>r. if rid = rid' then f r else r) (reservation_row_by rid db)"
  by (simp add: reservation_row_by_def reservations_put_row find_update_where [of rr_id])

lemma active_participation_seat: "active_participation rid sub db \<noteq> None \<longleftrightarrow> sub \<in> seat_set rid db"
  using active_participation_None [of rid sub db] by (force simp: seat_set_def)

text \<open>A change of the status and the seats of one reservation changes that booking only.\<close>

lemma booking_of_change:
  assumes row: "reservation_row_by rid db = Some row" "live (rr_status row)"
    and rows: "\<And>i. reservation_row_by i db' = map_option (\<lambda>r. if i = rid then r\<lparr>rr_status := st, rr_updated_at := now\<rparr> else r)
      (reservation_row_by i db)"
    and st: "live st" and seats: "\<And>i. seat_set i db' = (if i = rid then S else seat_set i db)"
  shows "booking_of db' = (booking_of db)(rid \<mapsto> Booking (rr_host_subject row) (rr_capacity row) (rr_start_at row) S)"
proof
  fix i
  show "booking_of db' i = ((booking_of db)(rid \<mapsto> Booking (rr_host_subject row) (rr_capacity row) (rr_start_at row) S)) i"
    using row st by (cases "reservation_row_by i db"; cases "i = rid") (auto simp: booking_of_def rows seats)
qed

lemma booking_live:
  "reservation_row_by rid db = Some row \<Longrightarrow> live (rr_status row) \<Longrightarrow>
    booking_of db rid = Some (Booking (rr_host_subject row) (rr_capacity row) (rr_start_at row) (seat_set rid db))"
  by (simp add: booking_of_def)

lemma join_refines:
  assumes ok: "reservations_ok db" and j: "repo_join dbnow rid sub name ranks now db = Inr (out, db')"
  shows "\<exists>b'. Option.bind (booking_of db rid) (take_seat sub now) = Some b' \<and> booking_of db' = (booking_of db)(rid \<mapsto> b')"
proof -
  from j obtain row p db1 where row: "reservation_row_by rid db = Some row"
    and host: "rr_host_subject row \<noteq> Some sub" "rr_status row = OPEN" "now < rr_start_at row"
    and n: "active_participant_count rid db < rr_capacity row"
    and ins: "insert_participant dbnow rid sub name ranks db = Inr (p, db1)"
    and db': "db' = put_row rid (\<lambda>r. r\<lparr>rr_status := status_for (active_participant_count rid db + 1) (rr_capacity row),
              rr_updated_at := now\<rparr>) db1"
    by (rule join_effect)
  note i = active_insert [OF ins]
  have l: "live (rr_status row)" using host by (simp add: live_iff)
  have new: "sub \<notin> seat_set rid db" using i(2) active_participation_seat by blast
  have seats: "seat_set k db' = (if k = rid then insert sub (seat_set rid db) else seat_set k db)" for k
    using i(3) by (auto simp: seat_set_def db' active_put_row i(1))
  have rows: "reservation_row_by k db' = map_option (\<lambda>r. if k = rid then r\<lparr>rr_status :=
        status_for (active_participant_count rid db + 1) (rr_capacity row), rr_updated_at := now\<rparr> else r)
      (reservation_row_by k db)" for k
    by (simp add: db' row_by_put_row) (simp add: reservation_row_by_def i(7))
  show ?thesis
    using booking_of_change [OF row l rows status_for_live seats] booking_live [OF row l] host n new
    by (simp add: card_seat_set [OF ok row])
qed

lemma join_refused:
  assumes ok: "reservations_ok db" and j: "repo_join dbnow rid sub name ranks now db = Inl e"
  shows "Option.bind (booking_of db rid) (take_seat sub now) = None"
proof (cases "reservation_row_by rid db")
  case None
  then show ?thesis by (simp add: booking_of_def)
next
  case (Some row)
  have full: "live (rr_status row) \<Longrightarrow> rr_status row \<noteq> OPEN \<Longrightarrow> \<not> active_participant_count rid db < rr_capacity row"
    using row_okD [OF ok Some] by (auto simp: row_ok_def seats_ok_def Let_def status_for_def split: if_splits)
  have again: "reservation_row_by rid (put_row rid (\<lambda>r. r\<lparr>rr_status := st, rr_updated_at := now\<rparr>) db1) =
      Some (row\<lparr>rr_status := st, rr_updated_at := now\<rparr>)"
    if "insert_participant dbnow rid sub name ranks db = Inr (p, db1)" for st p db1
    using Some active_insert(7) [OF that] by (simp add: row_by_put_row) (simp add: reservation_row_by_def)
  have "rr_host_subject row = Some sub \<or> sub \<in> seat_set rid db \<or> rr_start_at row \<le> now \<or>
      \<not> active_participant_count rid db < rr_capacity row \<or> \<not> live (rr_status row)"
  proof (rule ccontr)
    assume neg: "\<not> ?thesis"
    then have "active_participation rid sub db = None" using active_participation_seat by blast
    then obtain p db1 where ins: "insert_participant dbnow rid sub name ranks db = Inr (p, db1)"
      by (simp add: insert_participant_def Let_def)
    have "rr_status row = OPEN" using neg full by blast
    then show False
      using j neg Some again [OF ins] ins \<open>active_participation rid sub db = None\<close>
      by (auto simp: repo_join_def get_reservation_row_def Let_def ensure_joinable_by_def ensure_joinable_def reread_def repo_get_def)
  qed
  then show ?thesis using Some by (auto simp: booking_of_def card_seat_set [OF ok Some])
qed

lemma leave_refines:
  assumes ok: "reservations_ok db" and c: "repo_cancel_participation rid sub now db = Inr (out, db')"
  shows "\<exists>b'. Option.bind (booking_of db rid) (leave_seat sub now) = Some b' \<and> booking_of db' = (booking_of db)(rid \<mapsto> b')"
proof -
  from c obtain row seat db1 where row: "reservation_row_by rid db = Some row" "live (rr_status row)" "now < rr_start_at row"
    and seat: "active_participation rid sub db = Some seat"
    and db1: "db1 = set_cancelled (\<lambda>p. pr_id p = pr_id seat) now db"
    and db': "db' = put_row rid (\<lambda>r. r\<lparr>rr_status := status_for (active_participant_count rid db1) (rr_capacity row),
              rr_updated_at := now\<rparr>) db1"
    by (rule cancel_participation_effect)
  have act: "active k db1 = (if k = rid then filter (\<lambda>p. pr_id p \<noteq> pr_id seat) (active rid db) else active k db)" for k
    unfolding db1 by (rule cancel_participation_active [OF ok seat])
  have s: "seat \<in> set (active rid db)" "pr_subject seat = Some sub"
    using seat find_Some_set unfolding active_participation_def by fastforce+
  have same: "pr_id p = pr_id seat \<longleftrightarrow> pr_subject p = Some sub" if "p \<in> set (active rid db)" for p
  proof
    assume "pr_id p = pr_id seat"
    with that s(1) ok have "p = seat"
      using distinct_map_eq [of pr_id "participants db" p seat]
      by (auto simp: active_def reservations_ok_def keys_ok_def)
    with s show "pr_subject p = Some sub" by simp
  next
    assume "pr_subject p = Some sub"
    with that s ok have "p = seat"
      using distinct_map_eq [of pr_subject "active rid db" p seat] by (auto simp: reservations_ok_def)
    then show "pr_id p = pr_id seat" by simp
  qed
  have seats: "seat_set k db' = (if k = rid then seat_set rid db - {sub} else seat_set k db)" for k
    using same by (auto simp: seat_set_def db' active_put_row act)
  have rows: "reservation_row_by k db' = map_option (\<lambda>r. if k = rid then r\<lparr>rr_status :=
        status_for (active_participant_count rid db1) (rr_capacity row), rr_updated_at := now\<rparr> else r)
      (reservation_row_by k db)" for k
    by (simp add: db' row_by_put_row) (simp add: reservation_row_by_def db1 set_cancelled_def)
  have "sub \<in> seat_set rid db" using s by (auto simp: seat_set_def)
  then show ?thesis
    using booking_of_change [OF row(1,2) rows status_for_live seats] booking_live [OF row(1,2)] row(3) by simp
qed

lemma leave_refused:
  assumes "repo_cancel_participation rid sub now db = Inl e"
  shows "Option.bind (booking_of db rid) (leave_seat sub now) = None"
proof (cases "reservation_row_by rid db")
  case None
  then show ?thesis by (simp add: booking_of_def)
next
  case (Some row)
  have again: "reservation_row_by rid (put_row rid (\<lambda>r. r\<lparr>rr_status := st, rr_updated_at := now\<rparr>)
      (set_cancelled P now db)) = Some (row\<lparr>rr_status := st, rr_updated_at := now\<rparr>)" for st P
    using Some by (simp add: row_by_put_row) (simp add: reservation_row_by_def set_cancelled_def)
  have "\<not> live (rr_status row) \<or> rr_start_at row \<le> now \<or> sub \<notin> seat_set rid db"
  proof (rule ccontr)
    assume neg: "\<not> ?thesis"
    then have "active_participation rid sub db \<noteq> None" using active_participation_seat by blast
    with neg assms Some again show False
      by (auto simp: repo_cancel_participation_def get_reservation_row_def Let_def
          ensure_participation_cancellable_def reread_def repo_get_def)
  qed
  then show ?thesis using Some by (auto simp: booking_of_def)
qed

section \<open>Answers kept under their keys\<close>

lemma idem_rows_in_tx [simp]: "idem_rows (snd (in_tx op s)) = idem_rows s"
  by (auto simp: in_tx_def transact_def on_app_def split: sum.splits prod.splits)

lemma stored_in_tx [simp]: "stored_keys (snd (in_tx op s)) = stored_keys s"
  by (rule ext) (simp add: stored_keys_def)

lemma stored_list [simp]: "stored_keys (snd (list_reservations now s)) = stored_keys s"
  by (rule ext) (simp add: stored_keys_def list_reservations_def split: prod.splits)

lemma create_keeps_keys:
  fixes s :: "'j rstate"
  assumes "pg.settled s"
  shows "pg.settled (snd (create_reservation js sha can now dbnow sub name q key s)) \<and>
    (\<forall>k v. stored_keys s k = Some v \<longrightarrow> stored_keys (snd (create_reservation js sha can now dbnow sub name q key s)) k = Some v)"
proof (cases "bindR (ensure_conditions_valid (cq_match_type q) (cq_ranks q) (cq_capacity q)) (\<lambda>_. start_at_from (cq_start_time q) now)")
  case (Inr start)
  let ?t = "run_once pg_claim pg_complete js sub key (fingerprint sha can ''reservation.create'' q)
    (on_app (repo_create dbnow start sub name (cq_ranks q) (cq_match_type q) (cq_capacity q) (strip (cq_memo q))))"
  show ?thesis
  proof (cases "?t s")
    case (Inl e)
    then show ?thesis using Inr assms by (simp add: create_reservation_def transact_def)
  next
    case ok: (Inr v)
    then obtain j s' where t: "?t s = Inr (j, s')" by (cases v) auto
    then show ?thesis
      using pg.run_once_stores [OF assms on_app_keeps_keys t] Inr by (simp add: create_reservation_def transact_def)
  qed
qed (use assms in \<open>simp add: create_reservation_def\<close>)

lemma run_call_keeps_keys:
  "pg.settled s \<Longrightarrow> pg.settled (run_call js sha can c s) \<and>
    (\<forall>k v. stored_keys s k = Some v \<longrightarrow> stored_keys (run_call js sha can c s) k = Some v)"
  by (cases c) (simp_all add: create_keeps_keys, simp_all add: pg.settled_def)

lemma run_calls_keep_keys:
  "pg.settled s \<Longrightarrow> pg.settled (run_calls js sha can cs s) \<and>
    (\<forall>k v. stored_keys s k = Some v \<longrightarrow> stored_keys (run_calls js sha can cs s) k = Some v)"
  unfolding run_calls_def
proof (induction cs arbitrary: s)
  case (Cons c cs)
  then show ?case using run_call_keeps_keys [OF Cons.prems, of js sha can c] by auto
qed simp

lemma settled_empty: "pg.settled empty_rstate"
  by (simp add: pg.settled_def stored_keys_def empty_rstate_def)

lemma create_Inr:
  assumes "create_reservation js sha can now dbnow sub name q key s = (Inr j, s')"
  shows "\<exists>start. ensure_conditions_valid (cq_match_type q) (cq_ranks q) (cq_capacity q) = Inr () \<and>
    run_once pg_claim pg_complete js sub key (fingerprint sha can ''reservation.create'' q)
      (on_app (repo_create dbnow start sub name (cq_ranks q) (cq_match_type q) (cq_capacity q) (strip (cq_memo q)))) s = Inr (j, s')"
  using assms by (auto simp: create_reservation_def transact_def split: sum.splits)

section \<open>Properties\<close>

text \<open>C1: The seats are right in every state the service can reach, edits whose check and write are split
  by other transactions included: a live reservation holds at most its capacity of players and is marked
  matched exactly when it is full, one that is over holds none, no account has two seats, and the
  host has none.\<close>

theorem seats_always_right:
  assumes "reachable js sha can (s, pend)" and "r \<in> set (reservations (app s))"
  shows "(if live (rr_status r)
      then active_participant_count (rr_id r) (app s) \<le> rr_capacity r \<and>
           (rr_status r = MATCHED \<longleftrightarrow> active_participant_count (rr_id r) (app s) = rr_capacity r)
      else active_participant_count (rr_id r) (app s) = 0) \<and>
    distinct (map pr_subject (active (rr_id r) (app s))) \<and>
    rr_host_subject r \<notin> pr_subject ` set (active (rr_id r) (app s))"
proof -
  have "reservations_ok (app s)" using reachable_ok [OF assms(1)] by simp
  then have "row_ok (app s) r" and d: "distinct (map pr_subject (active (rr_id r) (app s)))"
    using assms(2) by (simp_all add: reservations_ok_def)
  then show ?thesis
    by (auto simp: row_ok_def seats_ok_def Let_def status_for_def live_iff split: if_splits)
qed

abbreviation demo_request :: create_request where
  "demo_request \<equiv> \<lparr>cq_start_time = 12 * hour, cq_ranks = [''A''], cq_match_type = ANY, cq_capacity = 1, cq_memo = []\<rparr>"

abbreviation demo_state :: "unit rstate" where
  "demo_state \<equiv> run_call (\<lambda>_. ()) id (\<lambda>x _. x) (Join 1 1 ''kim'' ''Kim'' [''B''] 1)
     (run_call (\<lambda>_. ()) id (\<lambda>x _. x) (Create 0 0 ''lee'' ''Lee'' demo_request ''k'') empty_rstate)"

lemma demo_reachable: "reachable (\<lambda>_. ()) id (\<lambda>x _. x) (demo_state, [])"
  by (rule reachable_call [OF reachable_call [OF reachable_start]]) code_simp+

theorem seats_always_right_witness:
  "active_participant_count 1 (app demo_state) = 1 \<and> rr_status (hd (reservations (app demo_state))) = MATCHED"
proof -
  have "reachable (\<lambda>_. ()) id (\<lambda>x _. x) (demo_state, [])" by (rule demo_reachable)
  moreover have "map rr_id (reservations (app demo_state)) = [1]" "map rr_status (reservations (app demo_state)) = [MATCHED]"
      "map rr_capacity (reservations (app demo_state)) = [1]"
    by code_simp+
  ultimately show ?thesis
    using seats_always_right [of "\<lambda>_. ()" id "\<lambda>x _. x" demo_state "[]" "hd (reservations (app demo_state))"]
    by (cases "reservations (app demo_state)") (auto simp: live_iff)
qed

text \<open>C8: Joining is taking a seat of the abstract booking: the call goes through exactly when the booking is
  live, the player is neither its host nor seated, it has not started and a seat is free, and then the
  player's seat is all that changes, in this booking and no other.\<close>

theorem join_takes_a_seat:
  assumes "reachable js sha can (s, pend)"
  shows "case repo_join dbnow rid sub name ranks now (app s) of
      Inl _ \<Rightarrow> Option.bind (booking_of (app s) rid) (take_seat sub now) = None
    | Inr (_, db') \<Rightarrow> \<exists>b'. Option.bind (booking_of (app s) rid) (take_seat sub now) = Some b' \<and>
        booking_of db' = (booking_of (app s))(rid \<mapsto> b')"
proof -
  have "reservations_ok (app s)" using reachable_ok [OF assms] by simp
  then show ?thesis using join_refines join_refused by (auto split: sum.splits)
qed

theorem join_takes_a_seat_witness:
  "\<exists>b. booking_of (app demo_state) 1 = Some b \<and> take_seat ''park'' 2 b = None \<and>
    repo_join 2 1 ''park'' ''Park'' [] 2 (app demo_state) = Inl (ReservationStateError NotJoinable)"
proof -
  have "reachable (\<lambda>_. ()) id (\<lambda>x _. x) (demo_state, [])" by (rule demo_reachable)
  moreover have "repo_join 2 1 ''park'' ''Park'' [] 2 (app demo_state) = Inl (ReservationStateError NotJoinable)"
    by code_simp
  moreover have "\<not> Option.is_none (reservation_row_by 1 (app demo_state))" by code_simp
  then have "booking_of (app demo_state) 1 \<noteq> None" by (simp add: booking_of_def Option.is_none_def)
  ultimately show ?thesis
    using join_takes_a_seat [where rid = 1 and sub = "''park''" and now = 2 and dbnow = 2 and name = "''Park''" and ranks = "[]"]
    by fastforce
qed

text \<open>Leaving gives the seat back: the call goes through exactly when the booking is live, not started and the
  player seated, and then the player's seat is all that changes.\<close>

theorem leave_frees_a_seat:
  assumes "reachable js sha can (s, pend)"
  shows "case repo_cancel_participation rid sub now (app s) of
      Inl _ \<Rightarrow> Option.bind (booking_of (app s) rid) (leave_seat sub now) = None
    | Inr (_, db') \<Rightarrow> \<exists>b'. Option.bind (booking_of (app s) rid) (leave_seat sub now) = Some b' \<and>
        booking_of db' = (booking_of (app s))(rid \<mapsto> b')"
proof -
  have "reservations_ok (app s)" using reachable_ok [OF assms] by simp
  then show ?thesis using leave_refines leave_refused by (auto split: sum.splits)
qed

theorem leave_frees_a_seat_witness:
  "\<exists>b b'. booking_of (app demo_state) 1 = Some b \<and> leave_seat ''kim'' 2 b = Some b' \<and>
    (\<forall>out db'. repo_cancel_participation 1 ''kim'' 2 (app demo_state) = Inr (out, db') \<longrightarrow> booking_of db' 1 = Some b')"
proof -
  have "reachable (\<lambda>_. ()) id (\<lambda>x _. x) (demo_state, [])" by (rule demo_reachable)
  moreover have "isl (repo_cancel_participation 1 ''kim'' 2 (app demo_state)) = False" by code_simp
  ultimately show ?thesis
    using leave_frees_a_seat [where rid = 1 and sub = "''kim''" and now = 2 and s = demo_state and pend = "[]"]
    by (cases "booking_of (app demo_state) 1") (fastforce split: sum.splits)+
qed

text \<open>When calls run one after another, a ranked match always names ranks and takes one opponent, and a
  player match never names any, after any sequence of requests, edits included.\<close>

theorem conditions_stay_coherent:
  assumes "\<forall>c\<in>set cs. request_ok c" and "r \<in> set (reservations (app (run_calls js sha can cs empty_rstate)))"
  shows "(rr_match_type r = RANK \<longrightarrow> rr_host_ranks r \<noteq> [] \<and> rr_capacity r = 1) \<and>
    (rr_match_type r = PLAYER \<longrightarrow> rr_host_ranks r = [])"
proof -
  have "all_coherent (app (run_calls js sha can cs empty_rstate))"
    using assms(1) by (intro run_calls_coherent) (simp_all add: empty_rstate_def empty_rdb_ok empty_coherent)
  then show ?thesis using assms(2) by (simp add: all_coherent_def conditions_coherent_def)
qed

theorem conditions_stay_coherent_witness:
  "rr_match_type (hd (reservations (app (run_calls (\<lambda>_. ()) id (\<lambda>x _. x)
      [Create 0 0 ''lee'' ''Lee'' (demo_request\<lparr>cq_match_type := RANK\<rparr>) ''k''] empty_rstate)))) = RANK \<and>
   rr_capacity (hd (reservations (app (run_calls (\<lambda>_. ()) id (\<lambda>x _. x)
      [Create 0 0 ''lee'' ''Lee'' (demo_request\<lparr>cq_match_type := RANK\<rparr>) ''k''] empty_rstate)))) = 1"
proof -
  let ?cs = "[Create 0 0 ''lee'' ''Lee'' (demo_request\<lparr>cq_match_type := RANK\<rparr>) ''k'']"
  let ?rs = "reservations (app (run_calls (\<lambda>_. ()) id (\<lambda>x _. x) ?cs empty_rstate))"
  have "\<forall>c\<in>set ?cs. request_ok c" by code_simp
  moreover have "map rr_match_type ?rs = [RANK]" by code_simp
  ultimately show ?thesis using conditions_stay_coherent [of ?cs "hd ?rs" "\<lambda>_. ()" id "\<lambda>x _. x"] by (cases ?rs) auto
qed

text \<open>C38: An edit is checked against a read no lock protects.  Two edits of one reservation, each of which passes the
  check and leaves every reservation coherent when it is written alone, can be checked before either is written; both
  are then written, and what stands is a match of players only that still names a rank.  Checked after the first is
  written, the second is refused for just that.\<close>

theorem lost_edit:
  "\<exists>s q1 q2 c1 c2. reachable js sha can (s, []) \<and> all_coherent (app s) \<and> update_request_ok q1 \<and> update_request_ok q2 \<and>
    validate_update 1 q1 1 (app s) = Inr c1 \<and> validate_update 1 q2 1 (app s) = Inr c2 \<and>
    (let edit = \<lambda>ch s. snd (in_tx (repo_update 1 ''lee'' 1 ch) s) in
      all_coherent (app (edit c1 s)) \<and> all_coherent (app (edit c2 s)) \<and>
      validate_update 1 q2 1 (app (edit c1 s)) = Inl (ReservationStateError PlayerWithRanks) \<and>
      reachable js sha can (edit c2 (edit c1 s), []) \<and>
      (\<exists>r\<in>set (reservations (app (edit c2 (edit c1 s)))). rr_match_type r = PLAYER \<and> rr_host_ranks r = [''B'']))"
proof -
  let ?q = "\<lparr>uq_start_time = None, uq_ranks = None, uq_match_type = None, uq_capacity = None, uq_memo = None\<rparr>"
  let ?q1 = "?q\<lparr>uq_ranks := Some [], uq_match_type := Some PLAYER\<rparr>" and ?q2 = "?q\<lparr>uq_ranks := Some [''B'']\<rparr>"
  let ?c = "\<lparr>ch_start_at = None, ch_ranks = None, ch_match_type = None, ch_capacity = None, ch_memo = None\<rparr>"
  let ?c1 = "?c\<lparr>ch_ranks := Some [], ch_match_type := Some PLAYER\<rparr>" and ?c2 = "?c\<lparr>ch_ranks := Some [''B'']\<rparr>"
  let ?w = "\<lambda>ch s. snd (in_tx (repo_update 1 ''lee'' 1 ch) s)"
  define s1 where "s1 = run_call js sha can (Create 0 0 ''lee'' ''Lee'' demo_request ''k'') empty_rstate"
  have "request_ok (Create 0 0 ''lee'' ''Lee'' demo_request ''k'')" by code_simp
  then have r1: "reachable js sha can (s1, [])"
    unfolding s1_def by (rule reachable_call [OF reachable_start])
  have checked: "validate_update 1 ?q1 1 (app s1) = Inr ?c1" "validate_update 1 ?q2 1 (app s1) = Inr ?c2"
    unfolding s1_def by code_simp+
  have ok: "update_request_ok ?q1" "update_request_ok ?q2" by (simp_all add: update_request_ok_def)
  have "reachable js sha can (s1, [(1, ''lee'', ?c2), (1, ''lee'', ?c1)])"
    using reachable_check [OF reachable_check [OF r1 _ checked(1)] _ checked(2)] ok by blast
  from reachable_write [OF this, of 1 "''lee''" ?c1 1] have "reachable js sha can (?w ?c1 s1, [(1, ''lee'', ?c2)])"
    by simp
  from reachable_write [OF this, of 1 "''lee''" ?c2 1] have r: "reachable js sha can (?w ?c2 (?w ?c1 s1), [])"
    by simp
  have coherent: "all_coherent db" if "list_all (\<lambda>r. conditions_coherent (rr_match_type r) (rr_host_ranks r) (rr_capacity r)) (reservations db)" for db
    using that by (simp add: all_coherent_def list_all_iff)
  have alone: "all_coherent (app s1)" "all_coherent (app (?w ?c1 s1))" "all_coherent (app (?w ?c2 s1))"
    unfolding s1_def by (rule coherent, code_simp)+
  have refused: "validate_update 1 ?q2 1 (app (?w ?c1 s1)) = Inl (ReservationStateError PlayerWithRanks)"
    unfolding s1_def by code_simp
  have "list_ex (\<lambda>r. rr_match_type r = PLAYER \<and> rr_host_ranks r = [''B'']) (reservations (app (?w ?c2 (?w ?c1 s1))))"
    unfolding s1_def by code_simp
  then have both: "\<exists>r\<in>set (reservations (app (?w ?c2 (?w ?c1 s1)))). rr_match_type r = PLAYER \<and> rr_host_ranks r = [''B'']"
    by (simp add: list_ex_iff)
  show ?thesis unfolding Let_def
    using r1 alone(1) ok checked alone(2,3) refused r both by (intro exI [of _ s1] exI [of _ ?q1] exI [of _ ?q2] exI [of _ ?c1] exI [of _ ?c2]) blast
qed

text \<open>C14: A create request sent again under its key, whatever was called in between, is answered with the first
  answer and changes nothing, as long as its start time can still be booked.\<close>

theorem create_idempotent:
  fixes before after :: "call list"
  assumes "create_reservation js sha can now1 dbnow1 sub name q key (run_calls js sha can before empty_rstate) = (Inr j, s)"
    and "start_at_from (cq_start_time q) now2 = Inr start"
  shows "create_reservation js sha can now2 dbnow2 sub name' q key (run_calls js sha can after s) =
    (Inr j, run_calls js sha can after s)"
proof -
  let ?fp = "fingerprint sha can ''reservation.create'' q"
  let ?w = "\<lambda>dbnow start name. on_app (repo_create dbnow start sub name (cq_ranks q) (cq_match_type q) (cq_capacity q) (strip (cq_memo q)))"
  have s0: "pg.settled (run_calls js sha can before empty_rstate)"
    using run_calls_keep_keys [OF settled_empty] by blast
  from create_Inr [OF assms(1)] obtain start1 where ok: "ensure_conditions_valid (cq_match_type q) (cq_ranks q) (cq_capacity q) = Inr ()"
    and run: "run_once pg_claim pg_complete js sub key ?fp (?w dbnow1 start1 name) (run_calls js sha can before empty_rstate) = Inr (j, s)"
    by blast
  note first = pg.run_once_stores [OF s0 on_app_keeps_keys run]
  have "\<forall>k v. stored_keys s k = Some v \<longrightarrow> stored_keys (run_calls js sha can after s) k = Some v"
    using run_calls_keep_keys first by blast
  from pg.run_once_retry [OF s0 on_app_keeps_keys run this] show ?thesis
    using ok assms(2) by (simp add: create_reservation_def transact_def)
qed

theorem create_idempotent_witness:
  "create_reservation (\<lambda>r. res_id r) id (\<lambda>x _. x) (hour) (hour) ''lee'' ''Lee'' demo_request ''k''
     (run_calls (\<lambda>r. res_id r) id (\<lambda>x _. x) [Cancel 1 ''lee'' 5]
       (snd (create_reservation (\<lambda>r. res_id r) id (\<lambda>x _. x) 0 0 ''lee'' ''Lee'' demo_request ''k'' empty_rstate))) =
   (Inr 1, run_calls (\<lambda>r. res_id r) id (\<lambda>x _. x) [Cancel 1 ''lee'' 5]
       (snd (create_reservation (\<lambda>r. res_id r) id (\<lambda>x _. x) 0 0 ''lee'' ''Lee'' demo_request ''k'' empty_rstate)))"
proof (rule create_idempotent [of "\<lambda>r. res_id r" id "\<lambda>x _. x" 0 0 _ _ _ _ "[]"])
  have "fst (create_reservation (\<lambda>r. res_id r) id (\<lambda>x _. x) 0 0 ''lee'' ''Lee'' demo_request ''k'' empty_rstate) = Inr 1"
    by code_simp
  then show "create_reservation (\<lambda>r. res_id r) id (\<lambda>x _. x) 0 0 ''lee'' ''Lee'' demo_request ''k''
      (run_calls (\<lambda>r. res_id r) id (\<lambda>x _. x) [] empty_rstate) =
    (Inr 1, snd (create_reservation (\<lambda>r. res_id r) id (\<lambda>x _. x) 0 0 ''lee'' ''Lee'' demo_request ''k'' empty_rstate))"
    by (simp add: run_calls_def prod_eq_iff)
  show "start_at_from (cq_start_time demo_request) hour = Inr (3 * hour)" by code_simp
qed

text \<open>A retry that comes when the start time is less than ten minutes away is refused, although its key holds
  the answer: the booking rules are checked before the key.\<close>

theorem late_retry_refused:
  "let s = snd (create_reservation js sha can 0 0 ''lee'' ''Lee'' demo_request ''k'' empty_rstate) in
   (\<exists>fp j. stored_keys s (''lee'', ''k'') = Some (fp, Some j)) \<and>
   create_reservation js sha can (3 * hour - 5 * minute) 0 ''lee'' ''Lee'' demo_request ''k'' s =
     (Inl (WriteError (ReservationStateError TooSoon)), s)"
proof -
  let ?c = "create_reservation js sha can 0 0 ''lee'' ''Lee'' demo_request ''k'' empty_rstate"
  have ok: "ensure_conditions_valid (cq_match_type demo_request) (cq_ranks demo_request) (cq_capacity demo_request) = Inr ()"
    "start_at_from (cq_start_time demo_request) 0 = Inr (3 * hour)"
    "start_at_from (cq_start_time demo_request) (3 * hour - 5 * minute) = Inl (ReservationStateError TooSoon)"
    by code_simp+
  obtain j s where c: "run_once pg_claim pg_complete js ''lee'' ''k'' (fingerprint sha can ''reservation.create'' demo_request)
      (on_app (repo_create 0 (3 * hour) ''lee'' ''Lee'' (cq_ranks demo_request) (cq_match_type demo_request)
        (cq_capacity demo_request) (strip (cq_memo demo_request)))) empty_rstate = (Inr (j, s) :: reservation_error idem_error + _)"
    by (simp add: run_once_def pg_claim_def empty_rstate_def on_app_def repo_create_def Let_def)
  then have "?c = (Inr j, s)" using ok by (simp add: create_reservation_def transact_def)
  moreover have "stored_keys s (''lee'', ''k'') = Some (fingerprint sha can ''reservation.create'' demo_request, Some j)"
    using pg.run_once_stores [OF settled_empty on_app_keeps_keys c] by simp
  ultimately show ?thesis using ok by (simp add: create_reservation_def Let_def)
qed

text \<open>A picked time of day is booked for its next occurrence in Seoul, and that only when it is at least ten
  minutes away and before the next six in the morning; the two cannot both hold of two instants.\<close>

theorem picked_time:
  assumes "time_of_day st"
  shows "(start_at_from st now = Inr s \<longleftrightarrow> now + 10 * minute \<le> s \<and> s < window_end now \<and> kst_wall s mod day = st) \<and>
    now < window_end now \<and> window_end now \<le> now + day \<and> kst_wall (window_end now) mod day = 6 * hour"
  using start_at_from_Inr [OF assms] window_end_bounds window_end_dawn by auto

theorem picked_time_witness:
  "start_at_from (5 * hour) (12 * hour) = Inr (20 * hour) \<and> start_at_from (7 * hour) (12 * hour) \<noteq> Inr (22 * hour)"
proof -
  have "time_of_day (5 * hour)" "time_of_day (7 * hour)" by code_simp+
  moreover have "12 * hour + 10 * minute \<le> 20 * hour \<and> 20 * hour < window_end (12 * hour) \<and> kst_wall (20 * hour) mod day = 5 * hour"
    by code_simp
  moreover have "\<not> 22 * hour < window_end (12 * hour)" by code_simp
  ultimately show ?thesis
    using picked_time [of "5 * hour" "12 * hour" "20 * hour"] picked_time [of "7 * hour" "12 * hour" "22 * hour"] by blast
qed

end
