(* ===== verification/Rpcn_Client.thy ===== *)
theory Rpcn_Client
  imports Prelude "HOL-Library.Word"
begin

text \<open>
  \<open>src/rpcn_client/\<close>: the packets of RPCN's binary protocol and the client that speaks it over one
  socket.  What a socket delivers is the list of the pieces that arrive, in order; the end of the list is
  the peer closing.  The protobuf library's serialiser and parsers are parameters, a message is a record
  of the fields the source reads or sets.
\<close>

section \<open>Bytes\<close>

type_synonym byte = "8 word"

fun le_bytes :: "nat \<Rightarrow> nat \<Rightarrow> byte list" where
  "le_bytes 0 v = []"
| "le_bytes (Suc k) v = word_of_nat (v mod 256) # le_bytes k (v div 256)"

fun le_val :: "byte list \<Rightarrow> nat" where
  "le_val [] = 0"
| "le_val (b # bs) = unat b + 256 * le_val bs"

lemma length_le_bytes [simp]: "length (le_bytes k v) = k"
  by (induction k arbitrary: v) auto

lemma unat_byte_mod: "unat (word_of_nat (v mod 256) :: byte) = v mod 256"
  by (simp add: unat_of_nat)

lemma le_val_le_bytes: "v < 256 ^ k \<Longrightarrow> le_val (le_bytes k v) = v"
proof (induction k arbitrary: v)
  case (Suc k)
  then have "v div 256 < 256 ^ k" by (simp add: less_mult_imp_div_less mult.commute)
  with Suc show ?case by (simp add: unat_byte_mod)
qed simp

datatype client_error = Rpcn_Error | Os_Error | Struct_Error | Value_Error | Index_Error | Attribute_Error

text \<open>\<open>struct.pack\<close> of an unsigned field raises when the value does not fit its width.\<close>

definition pack_le :: "nat \<Rightarrow> nat \<Rightarrow> client_error + byte list" where
  "pack_le k v = (if v < 256 ^ k then Inr (le_bytes k v) else Inl Struct_Error)"

definition unpack_le_from :: "nat \<Rightarrow> byte list \<Rightarrow> nat \<Rightarrow> client_error + nat" where
  "unpack_le_from k data pos =
     (if pos + k \<le> length data then Inr (le_val (take k (drop pos data))) else Inl Struct_Error)"

text \<open>\<open>struct.unpack_from(f"<{n}X", data, pos)\<close>: n fields of k bytes.\<close>

definition unpack_many_from :: "nat \<Rightarrow> nat \<Rightarrow> byte list \<Rightarrow> nat \<Rightarrow> client_error + nat list" where
  "unpack_many_from k n data pos =
     (if pos + n * k \<le> length data then Inr (map (\<lambda>i. le_val (take k (drop (pos + i * k) data))) [0..<n])
      else Inl Struct_Error)"

section \<open>Constants and the header\<close>

definition header_size :: nat where "header_size = 15"
definition protocol_version :: nat where "protocol_version = 30"
definition pkt_request :: nat where "pkt_request = 0"
definition pkt_reply :: nat where "pkt_reply = 1"
definition pkt_notif :: nat where "pkt_notif = 2"
definition pkt_serverinfo :: nat where "pkt_serverinfo = 3"
definition err_no_error :: nat where "err_no_error = 0"
definition communication_id_size :: nat where "communication_id_size = 12"

datatype cmd = LOGIN | TERMINATE | GET_SERVER_LIST | GET_WORLD_LIST | SEARCH_ROOM | GET_ROOM_EXTERNAL_LIST
  | GET_SCORE_RANGE | GET_SCORE_FRIENDS | GET_SCORE_NPID | SEARCH_ROOM_ALL

fun cmd_code :: "cmd \<Rightarrow> nat" where
  "cmd_code LOGIN = 0"
| "cmd_code TERMINATE = 1"
| "cmd_code GET_SERVER_LIST = 12"
| "cmd_code GET_WORLD_LIST = 13"
| "cmd_code SEARCH_ROOM = 17"
| "cmd_code GET_ROOM_EXTERNAL_LIST = 18"
| "cmd_code GET_SCORE_RANGE = 34"
| "cmd_code GET_SCORE_FRIENDS = 35"
| "cmd_code GET_SCORE_NPID = 36"
| "cmd_code SEARCH_ROOM_ALL = 261"

text \<open>\<open>struct.pack("<BHIQ", ...)\<close> and its inverse.\<close>

definition pack_header :: "nat \<Rightarrow> nat \<Rightarrow> nat \<Rightarrow> nat \<Rightarrow> client_error + byte list" where
  "pack_header ptype code packet_size pid =
     bindR (pack_le 1 ptype) (\<lambda>a. bindR (pack_le 2 code) (\<lambda>b. bindR (pack_le 4 packet_size) (\<lambda>c.
     bindR (pack_le 8 pid) (\<lambda>d. Inr (a @ b @ c @ d)))))"

definition unpack_header :: "byte list \<Rightarrow> nat \<times> nat \<times> nat \<times> nat" where
  "unpack_header hdr = (le_val (take 1 hdr), le_val (take 2 (drop 1 hdr)), le_val (take 4 (drop 3 hdr)),
     le_val (take 8 (drop 7 hdr)))"

lemma unpack_pack_header:
  "pack_header t c n i = Inr hdr \<Longrightarrow> length hdr = header_size \<and> unpack_header hdr = (t, c, n, i)"
  using le_val_le_bytes [of t 1] le_val_le_bytes [of c 2] le_val_le_bytes [of n 4] le_val_le_bytes [of i 8]
  by (auto simp: pack_header_def pack_le_def unpack_header_def header_size_def simp del: le_bytes.simps
      split: if_splits)

section \<open>The socket\<close>

datatype arrival = Piece "byte list" | Timed_Out

record sock =
  so_incoming :: "arrival list"
  so_sent :: "byte list"
  so_writable :: bool

text \<open>\<open>recv(n)\<close>: at most n bytes of what has arrived, nothing once the peer has closed.\<close>

definition recv :: "nat \<Rightarrow> arrival list \<Rightarrow> client_error + (byte list \<times> arrival list)" where
  "recv n inc =
     (case inc of
        [] \<Rightarrow> Inr ([], [])
      | Timed_Out # rest \<Rightarrow> Inl Os_Error
      | Piece bs # rest \<Rightarrow> if length bs \<le> n then Inr (bs, rest) else Inr (take n bs, Piece (drop n bs) # rest))"

function recv_exact :: "nat \<Rightarrow> byte list \<Rightarrow> arrival list \<Rightarrow> client_error + (byte list \<times> arrival list)" where
  "recv_exact n buf inc =
     (if length buf < n then
        (case recv (n - length buf) inc of
           Inl e \<Rightarrow> Inl e
         | Inr (chunk, inc') \<Rightarrow> if chunk = [] then Inl Rpcn_Error else recv_exact n (buf @ chunk) inc')
      else Inr (buf, inc))"
  by pat_completeness auto
termination by (relation "measure (\<lambda>(n, buf, inc). n - length buf)") (auto simp: length_greater_0_conv intro: diff_less_mono2)

declare recv_exact.simps [simp del]

text \<open>The bytes still to come, when no read of them fails; an empty piece would read as a close.\<close>

fun flowing :: "arrival list \<Rightarrow> bool" where
  "flowing [] = True"
| "flowing (Timed_Out # rest) = False"
| "flowing (Piece bs # rest) \<longleftrightarrow> bs \<noteq> [] \<and> flowing rest"

fun bytes_of :: "arrival list \<Rightarrow> byte list" where
  "bytes_of [] = []"
| "bytes_of (Timed_Out # rest) = []"
| "bytes_of (Piece bs # rest) = bs @ bytes_of rest"

lemma recv_flowing:
  assumes "flowing inc" and "0 < n" and "inc \<noteq> []"
  obtains chunk inc' where "recv n inc = Inr (chunk, inc')" "chunk \<noteq> []" "length chunk \<le> n" "flowing inc'"
    "bytes_of inc = chunk @ bytes_of inc'"
proof (cases inc)
  case (Cons a rest)
  with assms(1) obtain bs where a: "a = Piece bs" "bs \<noteq> []" "flowing rest" by (cases a) auto
  show ?thesis
  proof (cases "length bs \<le> n")
    case True
    show ?thesis by (rule that [of bs rest]) (use Cons a True in \<open>simp_all add: recv_def\<close>)
  next
    case False
    show ?thesis by (rule that [of "take n bs" "Piece (drop n bs) # rest"])
      (use Cons a False assms(2) in \<open>simp_all add: recv_def\<close>)
  qed
qed (use assms in simp)

text \<open>However the bytes are cut into pieces, the client reads the same ones.\<close>

lemma recv_exact_flowing:
  assumes "flowing inc" and "length buf \<le> n"
  shows "if n - length buf \<le> length (bytes_of inc)
    then \<exists>inc'. recv_exact n buf inc = Inr (buf @ take (n - length buf) (bytes_of inc), inc') \<and> flowing inc' \<and>
      bytes_of inc' = drop (n - length buf) (bytes_of inc)
    else recv_exact n buf inc = Inl Rpcn_Error"
  using assms
proof (induction n buf inc rule: recv_exact.induct)
  case (1 n buf inc)
  show ?case
  proof (cases "length buf < n")
    case False
    with 1(3) have "length buf = n" by simp
    then show ?thesis using 1(2) by (simp add: recv_exact.simps)
  next
    case less: True
    show ?thesis
    proof (cases "inc = []")
      case True
      with less show ?thesis by (simp add: recv_exact.simps [of n buf "[]"] recv_def)
    next
      case False
      obtain chunk inc' where r: "recv (n - length buf) inc = Inr (chunk, inc')" "chunk \<noteq> []"
        "length chunk \<le> n - length buf" "flowing inc'" "bytes_of inc = chunk @ bytes_of inc'"
        using recv_flowing [OF 1(2) _ False, of "n - length buf"] less by auto
      have step: "recv_exact n buf inc = recv_exact n (buf @ chunk) inc'"
        using less r by (simp add: recv_exact.simps [of n buf inc])
      have "length (buf @ chunk) \<le> n" using less r by simp
      note IH = 1(1) [OF less r(1) refl r(2) r(4) this]
      have m: "n - length buf = length chunk + (n - length (buf @ chunk))" using less r by simp
      show ?thesis
        using IH unfolding step r(5) m
        by (cases "n - length (buf @ chunk) \<le> length (bytes_of inc')") simp_all
    qed
  qed
qed

section \<open>Replies\<close>

fun arriving :: "arrival list \<Rightarrow> nat" where
  "arriving [] = 0"
| "arriving (Timed_Out # rest) = arriving rest"
| "arriving (Piece bs # rest) = length bs + arriving rest"

lemma recv_arriving: "recv n inc = Inr (chunk, inc') \<Longrightarrow> arriving inc = length chunk + arriving inc'"
  by (auto simp: recv_def split: list.splits arrival.splits if_splits)

lemma recv_exact_arriving:
  "recv_exact n buf inc = Inr (bs, inc') \<Longrightarrow> length buf + arriving inc = length bs + arriving inc' \<and> n \<le> length bs"
proof (induction n buf inc rule: recv_exact.induct)
  case (1 n buf inc)
  show ?case
  proof (cases "length buf < n")
    case False
    with 1(2) show ?thesis by (simp add: recv_exact.simps [of n buf inc])
  next
    case True
    with 1(2) obtain chunk i where r: "recv (n - length buf) inc = Inr (chunk, i)" "chunk \<noteq> []"
      "recv_exact n (buf @ chunk) i = Inr (bs, inc')"
      by (auto simp: recv_exact.simps [of n buf inc] split: sum.splits if_splits)
    with 1(1) [OF True r(1) refl r(2,3)] recv_arriving [OF r(1)] show ?thesis by simp
  qed
qed

text \<open>
  One packet: its header and its payload.  A size below the header's reads no payload, as the source
  compares the difference with 0.
\<close>

definition recv_packet :: "arrival list \<Rightarrow> client_error + ((nat \<times> nat \<times> nat \<times> nat) \<times> byte list) \<times> arrival list" where
  "recv_packet inc =
     bindR (recv_exact header_size [] inc) (\<lambda>(hdr, inc1).
     let h = unpack_header hdr; payload_size = int (fst (snd (snd h))) - int header_size in
     if payload_size > 0 then bindR (recv_exact (nat payload_size) [] inc1) (\<lambda>(payload, inc2). Inr ((h, payload), inc2))
     else Inr ((h, []), inc1))"

lemma recv_packet_arriving: "recv_packet inc = Inr (p, inc') \<Longrightarrow> arriving inc' < arriving inc"
  by (auto simp: recv_packet_def Let_def header_size_def dest!: recv_exact_arriving split: if_splits)

function recv_reply :: "arrival list \<Rightarrow> client_error + (nat \<times> byte list) \<times> arrival list" where
  "recv_reply inc =
     (case recv_packet inc of
        Inl e \<Rightarrow> Inl e
      | Inr (((ptype, code, packet_size, pid), payload), inc') \<Rightarrow>
          if ptype = pkt_notif then recv_reply inc'
          else if ptype \<noteq> pkt_reply then Inl Rpcn_Error
          else Inr (case payload of [] \<Rightarrow> (0, []) | e # data \<Rightarrow> (unat e, data), inc'))"
  by pat_completeness auto
termination by (relation "measure arriving") (auto dest: recv_packet_arriving)

declare recv_reply.simps [simp del]

text \<open>A packet as the server writes it.\<close>

definition packet :: "nat \<Rightarrow> nat \<Rightarrow> nat \<Rightarrow> byte list \<Rightarrow> client_error + byte list" where
  "packet ptype code pid payload =
     bindR (pack_header ptype code (header_size + length payload) pid) (\<lambda>hdr. Inr (hdr @ payload))"

lemma recv_packet_flowing:
  assumes "flowing inc" and "packet t c i payload = Inr bs" and "bytes_of inc = bs @ rest"
  shows "\<exists>inc'. recv_packet inc = Inr (((t, c, header_size + length payload, i), payload), inc') \<and> flowing inc' \<and>
    bytes_of inc' = rest"
proof -
  from assms(2) obtain hdr where h: "pack_header t c (header_size + length payload) i = Inr hdr" "bs = hdr @ payload"
    by (auto simp: packet_def)
  note u = unpack_pack_header [OF h(1)]
  obtain inc1 where one: "recv_exact header_size [] inc = Inr (hdr, inc1)" "flowing inc1" "bytes_of inc1 = payload @ rest"
    using recv_exact_flowing [OF assms(1), of "[]" header_size] u assms(3) h(2) by auto
  show ?thesis
  proof (cases "payload = []")
    case True
    with one u show ?thesis by (simp add: recv_packet_def Let_def)
  next
    case False
    obtain inc2 where two: "recv_exact (length payload) [] inc1 = Inr (payload, inc2)" "flowing inc2" "bytes_of inc2 = rest"
      using recv_exact_flowing [OF one(2), of "[]" "length payload"] one(3) by auto
    from False one u two show ?thesis by (simp add: recv_packet_def Let_def)
  qed
qed

lemma recv_reply_flowing:
  assumes "flowing inc" and "packet pkt_reply c i (word_of_nat e # data) = Inr bs" and "e < 256"
    and "\<forall>n\<in>set notifs. \<exists>c i p. packet pkt_notif c i p = Inr n"
    and "bytes_of inc = concat notifs @ bs @ rest"
  shows "\<exists>inc'. recv_reply inc = Inr ((e, data), inc') \<and> flowing inc' \<and> bytes_of inc' = rest"
  using assms(1,4,5)
proof (induction notifs arbitrary: inc)
  case Nil
  obtain inc' where "recv_packet inc = Inr (((pkt_reply, c, header_size + length (word_of_nat e # data), i), word_of_nat e # data), inc')"
    "flowing inc'" "bytes_of inc' = rest"
    using recv_packet_flowing [OF Nil.prems(1) assms(2), of rest] Nil.prems(3) by auto
  then show ?case using assms(3)
    by (simp add: recv_reply.simps [of inc] pkt_reply_def pkt_notif_def unat_of_nat)
next
  case (Cons n notifs)
  then obtain c' i' p where n: "packet pkt_notif c' i' p = Inr n" by auto
  obtain inc1 where one: "recv_packet inc = Inr (((pkt_notif, c', header_size + length p, i'), p), inc1)"
    "flowing inc1" "bytes_of inc1 = concat notifs @ bs @ rest"
    using recv_packet_flowing [OF Cons.prems(1) n, of "concat notifs @ bs @ rest"] Cons.prems(3) by auto
  with Cons.IH [OF one(2) _ one(3)] Cons.prems(2) show ?case
    by (simp add: recv_reply.simps [of inc] pkt_notif_def)
qed

section \<open>The connection\<close>

record connection =
  cn_sock :: "sock option"
  cn_packet_id :: nat

definition new_connection :: connection where
  "new_connection = \<lparr>cn_sock = None, cn_packet_id = 0\<rparr>"

text \<open>The packet id moves on before the packet is built, and stays moved when that or the send raises.\<close>

definition send :: "nat \<Rightarrow> byte list \<Rightarrow> connection \<Rightarrow> (client_error + unit) \<times> connection" where
  "send code payload cn =
     (let cn1 = cn\<lparr>cn_packet_id := cn_packet_id cn + 1\<rparr> in
      case pack_header pkt_request code (header_size + length payload) (cn_packet_id cn1) of
        Inl e \<Rightarrow> (Inl e, cn1)
      | Inr hdr \<Rightarrow>
          (case cn_sock cn1 of
             None \<Rightarrow> (Inl Attribute_Error, cn1)
           | Some so \<Rightarrow>
               if so_writable so then (Inr (), cn1\<lparr>cn_sock := Some (so\<lparr>so_sent := so_sent so @ hdr @ payload\<rparr>)\<rparr>)
               else (Inl Os_Error, cn1)))"

definition receive :: "(arrival list \<Rightarrow> client_error + 'a \<times> arrival list) \<Rightarrow> connection \<Rightarrow> (client_error + 'a) \<times> connection" where
  "receive read cn =
     (case cn_sock cn of
        None \<Rightarrow> (Inl Attribute_Error, cn)
      | Some so \<Rightarrow>
          (case read (so_incoming so) of
             Inl e \<Rightarrow> (Inl e, cn)
           | Inr (a, inc) \<Rightarrow> (Inr a, cn\<lparr>cn_sock := Some (so\<lparr>so_incoming := inc\<rparr>)\<rparr>)))"

definition request_with_data ::
  "byte list \<Rightarrow> cmd \<Rightarrow> byte list option \<Rightarrow> connection \<Rightarrow> (client_error + byte list) \<times> connection" where
  "request_with_data com_id c req_data cn =
     (if length com_id \<noteq> communication_id_size then (Inl Value_Error, cn)
      else
        let payload = com_id @ (case req_data of None \<Rightarrow> [] | Some d \<Rightarrow> d) in
        case send (cmd_code c) payload cn of
          (Inl e, cn1) \<Rightarrow> (Inl e, cn1)
        | (Inr _, cn1) \<Rightarrow>
            (case receive recv_reply cn1 of
               (Inl e, cn2) \<Rightarrow> (Inl e, cn2)
             | (Inr (err, data), cn2) \<Rightarrow> (if err \<noteq> err_no_error then Inl Rpcn_Error else Inr data, cn2)))"

definition disconnect :: "connection \<Rightarrow> connection" where
  "disconnect cn = (snd (send (cmd_code TERMINATE) [] cn))\<lparr>cn_sock := None\<rparr>"

text \<open>\<open>connect\<close> reads the handshake from the socket the TLS layer hands it.\<close>

definition read_server_info :: "arrival list \<Rightarrow> client_error + nat \<times> arrival list" where
  "read_server_info inc =
     bindR (recv_exact header_size [] inc) (\<lambda>(hdr, inc1).
     let (ptype, code, packet_size, pid) = unpack_header hdr; payload_size = int packet_size - int header_size in
     if ptype \<noteq> pkt_serverinfo then Inl Rpcn_Error
     else if payload_size < 4 then Inl Rpcn_Error
     else bindR (recv_exact (nat payload_size) [] inc1) (\<lambda>(payload, inc2).
       bindR (unpack_le_from 4 payload 0) (\<lambda>version.
       if version \<noteq> protocol_version then Inl Rpcn_Error else Inr (version, inc2))))"

definition connect :: "(client_error + sock) \<Rightarrow> connection \<Rightarrow> (client_error + nat) \<times> connection" where
  "connect opened cn =
     (case opened of
        Inl e \<Rightarrow> (Inl e, cn)
      | Inr so \<Rightarrow> receive read_server_info (cn\<lparr>cn_sock := Some so\<rparr>))"

section \<open>Reading answers\<close>

definition unpack_data_packet :: "byte list \<Rightarrow> client_error + byte list" where
  "unpack_data_packet data =
     (if length data < 4 then Inl Rpcn_Error else Inr (take (le_val (take 4 data)) (drop 4 data)))"

definition read_null_terminated :: "byte list \<Rightarrow> nat \<Rightarrow> client_error + (byte list \<times> nat)" where
  "read_null_terminated data pos =
     (if 0 \<in> set (drop pos data)
      then let s = takeWhile (\<lambda>b. b \<noteq> 0) (drop pos data) in Inr (s, pos + length s + 1)
      else Inl Value_Error)"

record user_info =
  ui_online_name :: string
  ui_avatar_url :: string
  ui_npid :: string

definition login_payload :: "byte list \<Rightarrow> byte list \<Rightarrow> byte list \<Rightarrow> byte list" where
  "login_payload username password token = username @ [0] @ password @ [0] @ token @ [0]"

text \<open>The decoder is Python's UTF-8 decoder with \<open>errors="replace"\<close>; the account's number is signed.\<close>

definition read_login_reply :: "(byte list \<Rightarrow> string) \<Rightarrow> byte list \<Rightarrow> client_error + (string \<times> string \<times> int)" where
  "read_login_reply decode data =
     bindR (read_null_terminated data 0) (\<lambda>(online_name, p1).
     bindR (read_null_terminated data p1) (\<lambda>(avatar_url, p2).
     bindR (unpack_le_from 8 data p2) (\<lambda>n.
     Inr (decode online_name, decode avatar_url, sint (word_of_nat n :: 64 word)))))"

definition login ::
  "(byte list \<Rightarrow> string) \<Rightarrow> byte list \<Rightarrow> byte list \<Rightarrow> byte list \<Rightarrow> connection \<Rightarrow>
     (client_error + (string \<times> string \<times> int)) \<times> connection" where
  "login decode username password token cn =
     (case send (cmd_code LOGIN) (login_payload username password token) cn of
        (Inl e, cn1) \<Rightarrow> (Inl e, cn1)
      | (Inr _, cn1) \<Rightarrow>
          (case receive recv_reply cn1 of
             (Inl e, cn2) \<Rightarrow> (Inl e, cn2)
           | (Inr (err, data), cn2) \<Rightarrow>
               (if err \<noteq> err_no_error then Inl Rpcn_Error else read_login_reply decode data, cn2)))"

definition parse_server_list :: "byte list \<Rightarrow> client_error + nat list" where
  "parse_server_list data = bindR (unpack_le_from 2 data 0) (\<lambda>num. unpack_many_from 2 num data 2)"

definition parse_world_list :: "byte list \<Rightarrow> client_error + nat list" where
  "parse_world_list data = bindR (unpack_le_from 4 data 0) (\<lambda>num. unpack_many_from 4 num data 4)"

definition get_server_list :: "byte list \<Rightarrow> connection \<Rightarrow> (client_error + nat list) \<times> connection" where
  "get_server_list com_id cn =
     (case request_with_data com_id GET_SERVER_LIST None cn of
        (Inl e, cn1) \<Rightarrow> (Inl e, cn1) | (Inr data, cn1) \<Rightarrow> (parse_server_list data, cn1))"

definition get_world_list :: "byte list \<Rightarrow> nat \<Rightarrow> connection \<Rightarrow> (client_error + nat list) \<times> connection" where
  "get_world_list com_id server_id cn =
     (case pack_le 2 server_id of
        Inl e \<Rightarrow> (Inl e, cn)
      | Inr req \<Rightarrow>
          (case request_with_data com_id GET_WORLD_LIST (Some req) cn of
             (Inl e, cn1) \<Rightarrow> (Inl e, cn1) | (Inr data, cn1) \<Rightarrow> (parse_world_list data, cn1)))"

section \<open>Rooms and scores\<close>

text \<open>The generated protobuf messages, as far as the source reads or sets them.\<close>

record search_room_request =
  sq_world_id :: nat
  sq_option :: nat
  sq_flag_attr :: nat
  sq_flag_filter :: nat
  sq_attr_ids :: "nat list"
  sq_start_index :: int
  sq_max :: int

definition build_search_room_request :: "nat \<Rightarrow> nat \<Rightarrow> int \<Rightarrow> int \<Rightarrow> search_room_request" where
  "build_search_room_request world_id flag_attr start_index max_results =
     \<lparr>sq_world_id = world_id, sq_option = 31, sq_flag_attr = flag_attr, sq_flag_filter = 0,
      sq_attr_ids = [0x4C, 0x4D, 0x4E, 0x4F, 0x50, 0x51, 0x52, 0x53],
      sq_start_index = max 1 start_index, sq_max = min max_results 20\<rparr>"

record pb_user =
  pu_np_id :: string
  pu_online_name :: string
  pu_avatar_url :: string

record pb_room =
  pb_room_id :: nat
  pb_owner :: "pb_user option"
  pb_cur_member_num :: nat
  pb_max_slot :: nat
  pb_flag_attr :: nat
  pb_int_attrs :: "(nat \<times> nat) list"
  pb_bin_search_attrs :: "(nat \<times> byte list) list"
  pb_bin_attrs :: "(nat \<times> byte list) list"
  pb_users :: "pb_user list"

record room_info =
  ri_room_id :: nat
  ri_owner_npid :: string
  ri_owner_online_name :: string
  ri_current_members :: nat
  ri_max_slots :: nat
  ri_flag_attr :: nat
  ri_int_attrs :: "(nat \<times> nat) list"
  ri_bin_search_attrs :: "(nat \<times> byte list) list"
  ri_bin_attrs :: "(nat \<times> byte list) list"
  ri_users :: "user_info list"

definition from_response_room :: "pb_room \<Rightarrow> room_info" where
  "from_response_room room =
     \<lparr>ri_room_id = pb_room_id room,
      ri_owner_npid = (case pb_owner room of None \<Rightarrow> [] | Some o1 \<Rightarrow> pu_np_id o1),
      ri_owner_online_name = (case pb_owner room of None \<Rightarrow> [] | Some o1 \<Rightarrow> pu_online_name o1),
      ri_current_members = pb_cur_member_num room, ri_max_slots = pb_max_slot room,
      ri_flag_attr = pb_flag_attr room, ri_int_attrs = pb_int_attrs room,
      ri_bin_search_attrs = pb_bin_search_attrs room, ri_bin_attrs = pb_bin_attrs room,
      ri_users = map (\<lambda>u. \<lparr>ui_online_name = pu_online_name u, ui_avatar_url = pu_avatar_url u, ui_npid = pu_np_id u\<rparr>)
                   (pb_users room)\<rparr>"

record search_rooms_result =
  sres_total :: nat
  sres_rooms :: "room_info list"

text \<open>\<open>SerializeToString\<close> behind its length, as \<open>_request_proto\<close> frames it.\<close>

definition frame_proto :: "byte list \<Rightarrow> client_error + byte list" where
  "frame_proto raw = bindR (pack_le 4 (length raw)) (\<lambda>n. Inr (n @ raw))"

definition request_proto ::
  "byte list \<Rightarrow> cmd \<Rightarrow> byte list \<Rightarrow> connection \<Rightarrow> (client_error + byte list) \<times> connection" where
  "request_proto com_id c raw cn =
     (case frame_proto raw of
        Inl e \<Rightarrow> (Inl e, cn)
      | Inr framed \<Rightarrow> request_with_data com_id c (Some framed) cn)"

definition read_answer :: "(byte list \<Rightarrow> client_error + 'm) \<Rightarrow> ('m \<Rightarrow> 'a) \<Rightarrow> (client_error + byte list) \<times> connection \<Rightarrow>
  (client_error + 'a) \<times> connection" where
  "read_answer parse f r = (bindR (bindR (bindR (fst r) unpack_data_packet) parse) (\<lambda>m. Inr (f m)), snd r)"

definition search_rooms_with ::
  "cmd \<Rightarrow> (search_room_request \<Rightarrow> byte list) \<Rightarrow> (byte list \<Rightarrow> client_error + (nat \<times> pb_room list)) \<Rightarrow> byte list \<Rightarrow>
   nat \<Rightarrow> int \<Rightarrow> int \<Rightarrow> nat \<Rightarrow> connection \<Rightarrow> (client_error + search_rooms_result) \<times> connection" where
  "search_rooms_with c serialize parse com_id world_id start_index max_results flag_attr cn =
     read_answer parse (\<lambda>(n, rooms). \<lparr>sres_total = n, sres_rooms = map from_response_room rooms\<rparr>)
       (request_proto com_id c (serialize (build_search_room_request world_id flag_attr start_index max_results)) cn)"

definition search_rooms where "search_rooms = search_rooms_with SEARCH_ROOM"
definition client_search_rooms_all where "client_search_rooms_all = search_rooms_with SEARCH_ROOM_ALL"

record pb_rank_data =
  pe_np_id :: string
  pe_online_name :: string
  pe_pc_id :: nat
  pe_rank :: nat
  pe_score :: int
  pe_has_game_data :: bool
  pe_record_date :: int

record pb_score_response =
  pr_rank_array :: "pb_rank_data list"
  pr_comment_array :: "string list"
  pr_info_array :: "byte list list"
  pr_last_sort_date :: int
  pr_total_record :: int

record score_entry =
  se_rank :: nat
  se_np_id :: string
  se_online_name :: string
  se_score :: int
  se_pc_id :: nat
  se_record_date :: int
  se_has_game_data :: bool
  se_comment :: string
  se_game_info :: "byte list"

record score_result =
  sc_total_records :: int
  sc_last_sort_date :: int
  sc_entries :: "score_entry list"

definition score_result_of :: "pb_score_response \<Rightarrow> score_result" where
  "score_result_of resp =
     \<lparr>sc_total_records = pr_total_record resp, sc_last_sort_date = pr_last_sort_date resp,
      sc_entries = map (\<lambda>(i, e).
        \<lparr>se_rank = pe_rank e, se_np_id = pe_np_id e, se_online_name = pe_online_name e, se_score = pe_score e,
         se_pc_id = pe_pc_id e, se_record_date = pe_record_date e, se_has_game_data = pe_has_game_data e,
         se_comment = (if i < length (pr_comment_array resp) then pr_comment_array resp ! i else []),
         se_game_info = (if i < length (pr_info_array resp) then pr_info_array resp ! i else [])\<rparr>)
        (enumerate 0 (pr_rank_array resp))\<rparr>"

record score_range_request =
  gq_board_id :: nat
  gq_start_rank :: nat
  gq_num_ranks :: nat
  gq_with_comment :: bool
  gq_with_game_info :: bool

definition get_score_range ::
  "(score_range_request \<Rightarrow> byte list) \<Rightarrow> (byte list \<Rightarrow> client_error + pb_score_response) \<Rightarrow> byte list \<Rightarrow>
   score_range_request \<Rightarrow> connection \<Rightarrow> (client_error + score_result) \<times> connection" where
  "get_score_range serialize parse com_id q cn =
     read_answer parse score_result_of (request_proto com_id GET_SCORE_RANGE (serialize q) cn)"

record score_npid_request =
  nq_board_id :: nat
  nq_npids :: "(string \<times> nat) list"
  nq_with_comment :: bool
  nq_with_game_info :: bool

definition get_score_npid ::
  "(score_npid_request \<Rightarrow> byte list) \<Rightarrow> (byte list \<Rightarrow> client_error + pb_score_response) \<Rightarrow> byte list \<Rightarrow> nat \<Rightarrow>
   string list \<Rightarrow> nat \<Rightarrow> bool \<Rightarrow> bool \<Rightarrow> connection \<Rightarrow> (client_error + score_result) \<times> connection" where
  "get_score_npid serialize parse com_id board_id npids pc_id with_comment with_game_info cn =
     read_answer parse score_result_of (request_proto com_id GET_SCORE_NPID
       (serialize \<lparr>nq_board_id = board_id, nq_npids = map (\<lambda>n. (n, pc_id)) npids,
                   nq_with_comment = with_comment, nq_with_game_info = with_game_info\<rparr>) cn)"

section \<open>A request and its answer\<close>

lemma unpack_frame: "frame_proto raw = Inr framed \<Longrightarrow> unpack_data_packet (framed @ tail) = Inr raw"
  using le_val_le_bytes [of "length raw" 4]
  by (auto simp: frame_proto_def pack_le_def unpack_data_packet_def simp del: le_bytes.simps split: if_splits)

lemma le_bytes_parse_many:
  "\<forall>v\<in>set vs. v < 256 ^ k \<Longrightarrow> length pre = pos \<Longrightarrow>
    unpack_many_from k (length vs) (pre @ concat (map (le_bytes k) vs)) pos = Inr vs"
proof (induction vs arbitrary: pre pos)
  case Nil
  then show ?case by (simp add: unpack_many_from_def)
next
  case (Cons v vs)
  have IH: "unpack_many_from k (length vs) ((pre @ le_bytes k v) @ concat (map (le_bytes k) vs)) (pos + k) = Inr vs"
    using Cons by (intro Cons.IH) auto
  have len: "length (concat (map (le_bytes k) ws)) = length ws * k" for ws :: "nat list"
    by (induction ws) auto
  from IH have "map (\<lambda>i. le_val (take k (drop (pos + k + i * k) ((pre @ le_bytes k v) @ concat (map (le_bytes k) vs)))))
      [0..<length vs] = vs"
    by (auto simp: unpack_many_from_def split: if_splits)
  moreover have "le_val (take k (drop pos (pre @ le_bytes k v @ concat (map (le_bytes k) vs)))) = v"
    using Cons.prems le_val_le_bytes [of v k] by simp
  ultimately show ?case using Cons.prems(2) len
    by (simp add: unpack_many_from_def upt_conv_Cons map_Suc_upt [symmetric] comp_def add.assoc del: upt_Suc)
qed

section \<open>Properties\<close>

lemma pack_header_fits:
  "t < 256 \<Longrightarrow> c < 65536 \<Longrightarrow> n < 2 ^ 32 \<Longrightarrow> i < 2 ^ 64 \<Longrightarrow> \<exists>hdr. pack_header t c n i = Inr hdr"
  by (simp add: pack_header_def pack_le_def)

lemma cmd_code_small: "cmd_code c < 65536"
  by (cases c) simp_all

text \<open>C24: A request gets the answer meant for it: its header and payload are what is sent, and however the
  server's bytes are cut into pieces, and however many notifications come first, the client skips those,
  reads exactly the one reply, hands on its data or its error code as an exception, and leaves what follows unread.\<close>

theorem request_gets_its_reply:
  assumes "length com_id = communication_id_size" and "header_size + length (com_id @ req) < 2 ^ 32" and "cn_packet_id cn + 1 < 2 ^ 64"
    and "cn_sock cn = Some so" and "so_writable so" and "flowing (so_incoming so)"
    and "packet pkt_reply rc i (word_of_nat e # data) = Inr bs" and "e < 256"
    and "\<forall>n\<in>set notifs. \<exists>c i p. packet pkt_notif c i p = Inr n"
    and "bytes_of (so_incoming so) = concat notifs @ bs @ rest"
  shows "\<exists>hdr so'. request_with_data com_id c (Some req) cn =
      (if e \<noteq> err_no_error then Inl Rpcn_Error else Inr data,
       cn\<lparr>cn_packet_id := cn_packet_id cn + 1, cn_sock := Some so'\<rparr>) \<and>
    so_sent so' = so_sent so @ hdr @ com_id @ req \<and>
    unpack_header hdr = (pkt_request, cmd_code c, header_size + length (com_id @ req), cn_packet_id cn + 1) \<and>
    bytes_of (so_incoming so') = rest \<and> flowing (so_incoming so')"
proof -
  obtain hdr where h: "pack_header pkt_request (cmd_code c) (header_size + length (com_id @ req)) (cn_packet_id cn + 1) = Inr hdr"
    using pack_header_fits [OF _ cmd_code_small assms(2,3), of pkt_request] by (auto simp: pkt_request_def)
  obtain inc' where r: "recv_reply (so_incoming so) = Inr ((e, data), inc')" "flowing inc'" "bytes_of inc' = rest"
    using recv_reply_flowing [OF assms(6-10)] by blast
  show ?thesis
    using assms(1,4,5) h r unpack_pack_header [OF h]
    by (intro exI [of _ hdr] exI [of _ "so\<lparr>so_sent := so_sent so @ hdr @ com_id @ req, so_incoming := inc'\<rparr>"])
      (simp add: request_with_data_def send_def receive_def Let_def)
qed

lemma le_bytes_numeral: "le_bytes (numeral k) v = word_of_nat (v mod 256) # le_bytes (pred_numeral k) (v div 256)"
  by (simp only: numeral_eq_Suc [of k] le_bytes.simps)

abbreviation demo_notif :: "byte list" where
  "demo_notif \<equiv> [2, 5, 0, 15, 0, 0, 0, 1, 0, 0, 0, 0, 0, 0, 0]"

abbreviation demo_reply :: "byte list" where
  "demo_reply \<equiv> [1, 12, 0, 17, 0, 0, 0, 1, 0, 0, 0, 0, 0, 0, 0, 0, 7]"

abbreviation demo_connection :: connection where
  "demo_connection \<equiv> \<lparr>cn_sock = Some \<lparr>so_incoming = [Piece (take 3 demo_notif), Piece (drop 3 demo_notif @ demo_reply)],
     so_sent = [], so_writable = True\<rparr>, cn_packet_id = 0\<rparr>"

theorem request_gets_its_reply_witness:
  "fst (request_with_data (replicate 12 65) GET_SERVER_LIST (Some []) demo_connection) = Inr [7]"
proof -
  have n: "packet pkt_notif 5 1 [] = Inr demo_notif" and r: "packet pkt_reply 12 1 (word_of_nat 0 # [7]) = Inr demo_reply"
    by (simp_all add: packet_def pack_header_def pack_le_def le_bytes_numeral header_size_def pkt_notif_def pkt_reply_def)
  have "\<forall>n\<in>set [demo_notif]. \<exists>c i p. packet pkt_notif c i p = Inr n" using n by auto
  from request_gets_its_reply [where com_id = "replicate 12 65" and req = "[]" and cn = demo_connection and rest = "[]"
      and c = GET_SERVER_LIST, OF _ _ _ _ _ _ r _ this]
  show ?thesis by (simp add: communication_id_size_def header_size_def err_no_error_def) (elim exE conjE, simp)
qed

text \<open>A protobuf message framed by its length and followed by anything is unframed to itself, so the parser
  is given exactly the bytes the serialiser wrote.\<close>

theorem framed_message_roundtrip:
  assumes "length raw < 2 ^ 32"
  shows "\<exists>framed. frame_proto raw = Inr framed \<and> unpack_data_packet (framed @ tail) = Inr raw"
proof -
  have "\<exists>framed. frame_proto raw = Inr framed" using assms by (simp add: frame_proto_def pack_le_def)
  then show ?thesis using unpack_frame by blast
qed

theorem framed_message_roundtrip_witness:
  "\<exists>framed. frame_proto [1, 2, 3] = Inr framed \<and> unpack_data_packet (framed @ [9]) = Inr [1, 2, 3]"
  using framed_message_roundtrip [of "[1, 2, 3]" "[9]"] by simp

text \<open>A list of server ids or of world ids of any length that fits its count is read back as the server wrote it.\<close>

theorem id_lists_roundtrip:
  assumes "length servers < 65536" and "\<forall>v\<in>set servers. v < 65536" and "length worlds < 2 ^ 32" and "\<forall>v\<in>set worlds. v < 2 ^ 32"
  shows "parse_server_list (le_bytes 2 (length servers) @ concat (map (le_bytes 2) servers)) = Inr servers \<and>
    parse_world_list (le_bytes 4 (length worlds) @ concat (map (le_bytes 4) worlds)) = Inr worlds"
  using assms le_bytes_parse_many [of servers 2 "le_bytes 2 (length servers)" 2]
    le_bytes_parse_many [of worlds 4 "le_bytes 4 (length worlds)" 4]
    le_val_le_bytes [of "length servers" 2] le_val_le_bytes [of "length worlds" 4]
  by (simp add: parse_server_list_def parse_world_list_def unpack_le_from_def del: le_bytes.simps)

theorem id_lists_roundtrip_witness: "parse_server_list [2, 0, 1, 0, 0, 1] = Inr [1, 256]"
proof -
  have "le_bytes 2 (length [1, 256 :: nat]) @ concat (map (le_bytes 2) [1, 256]) = [2, 0, 1, 0, 0, 1]"
    by (simp add: numeral_2_eq_2)
  then show ?thesis using id_lists_roundtrip [of "[1, 256]" "[]"] by simp
qed

end
