(* ===== verification/Rpcn_Lifecycle.thy ===== *)
theory Rpcn_Lifecycle
  imports Rpcn_Client
begin

text \<open>
  \<open>src/matching/rpcn_lifecycle.py\<close>: one RPCN connection shared by every caller, one at a time.  The lock
  makes a whole \<open>with api_client()\<close> block one step: its body is a function of the client, and the clock
  is read when a connection is wanted (\<open>now\<close>) and again when a failure is recorded (\<open>now'\<close>).
\<close>

datatype api_error = Unavailable | Escaped client_error

record 'c shared_client =
  sh_client :: "'c option"
  sh_failed_at :: "instant option"

definition new_shared :: "'c shared_client" where
  "new_shared = \<lparr>sh_client = None, sh_failed_at = None\<rparr>"

text \<open>The start value \<open>float("-inf")\<close> is \<open>None\<close>: nothing has failed yet.\<close>

definition cooled_down :: "int \<Rightarrow> instant \<Rightarrow> 'c shared_client \<Rightarrow> bool" where
  "cooled_down cooldown now s = (case sh_failed_at s of None \<Rightarrow> True | Some t \<Rightarrow> \<not> t + cooldown - now > 0)"

definition discard :: "instant \<Rightarrow> 'c shared_client \<Rightarrow> 'c shared_client" where
  "discard now' s = s\<lparr>sh_client := None, sh_failed_at := Some now'\<rparr>"

text \<open>\<open>except (RpcnError, OSError)\<close>: those end the connection, anything else passes through.\<close>

definition on_error :: "instant \<Rightarrow> client_error \<Rightarrow> 'c shared_client \<Rightarrow> (api_error + 'a) \<times> 'c shared_client" where
  "on_error now' e s =
     (if e = Rpcn_Error \<or> e = Os_Error then (Inl Unavailable, discard now' s) else (Inl (Escaped e), s))"

definition api_client ::
  "int \<Rightarrow> (client_error + 'c) \<Rightarrow> instant \<Rightarrow> instant \<Rightarrow> ('c \<Rightarrow> (client_error + 'a) \<times> 'c) \<Rightarrow> 'c shared_client \<Rightarrow>
     (api_error + 'a) \<times> 'c shared_client" where
  "api_client cooldown connected now now' body s =
     (let use = (\<lambda>c. case body c of
          (Inr a, c') \<Rightarrow> (Inr a, s\<lparr>sh_client := Some c'\<rparr>)
        | (Inl e, c') \<Rightarrow> on_error now' e (s\<lparr>sh_client := Some c'\<rparr>))
      in case sh_client s of
           Some c \<Rightarrow> use c
         | None \<Rightarrow>
             if \<not> cooled_down cooldown now s then (Inl Unavailable, s)
             else (case connected of Inl e \<Rightarrow> on_error now' e s | Inr c \<Rightarrow> use c))"

definition shutdown :: "'c shared_client \<Rightarrow> 'c shared_client" where
  "shutdown s = s\<lparr>sh_client := None\<rparr>"

text \<open>A caller that may not connect sees nothing of the server, and leaves the shared state alone.\<close>

lemma api_client_cooling:
  "sh_client s = None \<Longrightarrow> \<not> cooled_down cooldown now s \<Longrightarrow>
    api_client cooldown connected now now' body s = (Inl Unavailable, s)"
  by (simp add: api_client_def)

lemma api_client_fails:
  assumes "api_client cooldown connected now now' body s = (Inl Unavailable, s')"
  shows "sh_client s' = None \<and> (s' = s \<and> \<not> cooled_down cooldown now s \<or> sh_failed_at s' = Some now')"
  using assms
  by (auto simp: api_client_def on_error_def discard_def Let_def split: option.splits sum.splits prod.splits if_splits)

lemma api_client_keeps_failure:
  assumes "api_client cooldown connected now now' body s = (r, s')" and "r \<noteq> Inl Unavailable"
  shows "sh_failed_at s' = sh_failed_at s \<and> (\<forall>a. r = Inr a \<longrightarrow> sh_client s' \<noteq> None)"
  using assms
  by (auto simp: api_client_def on_error_def discard_def Let_def split: option.splits sum.splits prod.splits if_splits)

section \<open>Runs\<close>

text \<open>
  A call is the outcome a connection attempt would have, the two clock readings and the body.  The log
  lists the times at which a connection was attempted, and whether it or the body failed there.
\<close>

type_synonym ('c, 'a) api_call = "(client_error + 'c) \<times> instant \<times> instant \<times> ('c \<Rightarrow> (client_error + 'a) \<times> 'c)"

definition attempts_connection :: "int \<Rightarrow> instant \<Rightarrow> 'c shared_client \<Rightarrow> bool" where
  "attempts_connection cooldown now s \<longleftrightarrow> sh_client s = None \<and> cooled_down cooldown now s"

fun attempt_times :: "int \<Rightarrow> ('c, 'a) api_call list \<Rightarrow> 'c shared_client \<Rightarrow> instant list" where
  "attempt_times cooldown [] s = []"
| "attempt_times cooldown ((connected, now, now', body) # calls) s =
     (if attempts_connection cooldown now s then [now] else []) @
       attempt_times cooldown calls (snd (api_client cooldown connected now now' body s))"

text \<open>After a failure, no caller of any run attempts a connection before the pause is over.\<close>

lemma attempts_wait:
  assumes "sh_client s = None" and "sh_failed_at s = Some t"
    and "\<forall>c\<in>set calls. fst (snd c) < t + cooldown"
  shows "attempt_times cooldown calls s = []"
  using assms
proof (induction calls)
  case (Cons c calls)
  obtain connected now now' body where c: "c = (connected, now, now', body)" by (cases c) auto
  have "\<not> cooled_down cooldown now s" using Cons.prems(2,3) by (simp add: cooled_down_def c)
  then show ?case using Cons by (simp add: c attempts_connection_def api_client_cooling)
qed simp

section \<open>Properties\<close>

text \<open>C27: Once a call has ended in a failure of the server, no caller of any later run attempts another connection
  before the pause is over, and each is told at once that the server is unavailable.\<close>

theorem no_attempt_while_cooling:
  fixes calls :: "('c, 'a) api_call list"
  assumes "attempts_connection cooldown now s \<or> sh_client s \<noteq> None"
    and "api_client cooldown connected now now' body s = (Inl Unavailable, s')"
    and "\<forall>c\<in>set calls. fst (snd c) < now' + cooldown"
  shows "attempt_times cooldown calls s' = [] \<and>
    (\<forall>(connected, t, t', body)\<in>set calls. api_client cooldown connected t t' body s' = (Inl Unavailable, s'))"
proof -
  have s': "sh_client s' = None" "sh_failed_at s' = Some now'"
    using api_client_fails [OF assms(2)] assms(1) by (auto simp: attempts_connection_def)
  have "\<not> cooled_down cooldown t s'" if "(connected, t, t', body) \<in> set calls" for connected t t' and body :: "'c \<Rightarrow> (client_error + 'a) \<times> 'c"
    using s' assms(3) that by (fastforce simp: cooled_down_def)
  then show ?thesis
    using attempts_wait [OF s' assms(3)] api_client_cooling [OF s'(1)] by fastforce
qed

theorem no_attempt_while_cooling_witness:
  "attempt_times 30 [(Inr (), 29, 29, \<lambda>c. (Inr (), c))] \<lparr>sh_client = None, sh_failed_at = Some 1\<rparr> = []"
  using no_attempt_while_cooling [of 30 0 new_shared "Inl Rpcn_Error" 1 "\<lambda>c. (Inr (), c)" "\<lparr>sh_client = None, sh_failed_at = Some 1\<rparr>"
      "[(Inr (), 29, 29, \<lambda>c. (Inr (), c))]"]
  by (simp add: attempts_connection_def new_shared_def cooled_down_def api_client_def on_error_def discard_def)

end
