(* ===== verification/Ttt2.thy ===== *)
theory Ttt2
  imports Prelude
begin

text \<open>
  \<open>src/shared/ttt2.py\<close>: the character and rank tables of Tekken Tag Tournament 2, in the order the
  source writes them.  The Korean tier names are constructors, in the order of the ranks.
\<close>

definition ttt2_com_id :: string where
  "ttt2_com_id = ''NPWR02973_00''"

definition ttt2_rank_board_id :: nat where
  "ttt2_rank_board_id = 4"

definition ttt2_characters :: "(nat \<times> string) list" where
  "ttt2_characters = [
    (0, ''Paul''), (1, ''Law''), (2, ''Lei''), (3, ''King''), (4, ''Yoshimitsu''), (5, ''Nina''),
    (6, ''Hwoarang''), (7, ''Xiayu''), (8, ''Christie''), (9, ''Jin''), (10, ''Julia''), (11, ''Kuma''),
    (12, ''Bryan''), (13, ''Heihachi''), (14, ''Kazuya''), (15, ''Lee''), (16, ''Steve''),
    (17, ''Marduk''), (18, ''Mokujin''), (19, ''Jack''), (20, ''Roger Jr.''), (21, ''Anna''),
    (22, ''Wang''), (23, ''Ganryu''), (24, ''Asuka''), (25, ''Bruce''), (26, ''Baek''),
    (27, ''Devil Jin''), (28, ''Raven''), (29, ''Feng''), (30, ''Armor King''), (31, ''Lili''),
    (32, ''Dragunov''), (33, ''Eddy''), (34, ''Bob''), (35, ''Zafina''), (36, ''Miguel''), (37, ''Leo''),
    (38, ''Lars''), (39, ''Alisa''), (40, ''Jinpachi''), (41, ''True Ogre''), (42, ''Jun''),
    (43, ''Panda''), (44, ''Unknown''), (45, ''Kunimitsu''), (46, ''Angel''), (47, ''Forest Law''),
    (48, ''Miharu''), (49, ''Combot''), (50, ''Slim Bob''), (51, ''Michelle''), (52, ''P-Jack''),
    (53, ''Alex''), (54, ''Ancient Ogre''), (55, ''Violet''), (56, ''Dr.''), (57, ''Sebastian''),
    (58, ''Tiger'')]"

datatype tier = Number_Tier | Frame_Tier | Green_Tier | Yellow_Tier | Orange_Tier | Red_Tier | Blue_Tier | Purple_Tier | God_Tier

definition tekken_ranks :: "(nat \<times> (string \<times> tier)) list" where
  "tekken_ranks = [
    (0, (''Beginner'', Number_Tier)), (1, (''9th kyu'', Number_Tier)), (2, (''8th kyu'', Number_Tier)),
    (3, (''7th kyu'', Number_Tier)), (4, (''6th kyu'', Number_Tier)), (5, (''5th kyu'', Number_Tier)),
    (6, (''4th kyu'', Number_Tier)), (7, (''3rd kyu'', Number_Tier)), (8, (''2nd kyu'', Number_Tier)),
    (9, (''1st kyu'', Number_Tier)), (10, (''1st dan'', Number_Tier)), (11, (''2nd dan'', Number_Tier)),
    (12, (''3rd dan'', Number_Tier)), (13, (''Disciple'', Frame_Tier)), (14, (''Mentor'', Frame_Tier)),
    (15, (''Master'', Frame_Tier)), (16, (''Grand Master'', Frame_Tier)), (17, (''Brawler'', Green_Tier)),
    (18, (''Marauder'', Green_Tier)), (19, (''Fighter'', Green_Tier)), (20, (''Berserker'', Green_Tier)),
    (21, (''Warrior'', Yellow_Tier)), (22, (''Avenger'', Yellow_Tier)), (23, (''Duelist'', Yellow_Tier)),
    (24, (''Pugilist'', Yellow_Tier)), (25, (''Vanquisher'', Orange_Tier)),
    (26, (''Destroyer'', Orange_Tier)), (27, (''Conqueror'', Orange_Tier)),
    (28, (''Savior'', Orange_Tier)), (29, (''Genbu'', Red_Tier)), (30, (''Byakko'', Red_Tier)),
    (31, (''Seiryu'', Red_Tier)), (32, (''Suzaku'', Red_Tier)), (33, (''Fujin'', Blue_Tier)),
    (34, (''Raijin'', Blue_Tier)), (35, (''Yaksa'', Blue_Tier)), (36, (''Majin'', Blue_Tier)),
    (37, (''Toshin'', Blue_Tier)), (38, (''Emperor'', Purple_Tier)), (39, (''Tekken Lord'', Purple_Tier)),
    (40, (''Tekken Emperor'', Purple_Tier)), (41, (''Tekken God'', God_Tier)),
    (42, (''True Tekken God'', God_Tier))]"

lemma character_ids: "map fst ttt2_characters = [0..<59]"
  by code_simp

lemma rank_ids: "map fst tekken_ranks = [0..<43]"
  by code_simp

lemma rank_known: "map_of tekken_ranks r \<noteq> None \<longleftrightarrow> r < 43"
proof -
  have "map_of tekken_ranks r \<noteq> None \<longleftrightarrow> r \<in> set (map fst tekken_ranks)"
    by (simp add: map_of_eq_None_iff)
  then show ?thesis by (simp add: rank_ids)
qed

lemma character_known: "map_of ttt2_characters c \<noteq> None \<longleftrightarrow> c < 59"
proof -
  have "map_of ttt2_characters c \<noteq> None \<longleftrightarrow> c \<in> set (map fst ttt2_characters)"
    by (simp add: map_of_eq_None_iff)
  then show ?thesis by (simp add: character_ids)
qed

end
