(* ===== verification/Matching.thy ===== *)
theory Matching
  imports Ttt2 Cache Rpcn_Lifecycle "HOL-Library.AList" "HOL-Library.Multiset" "HOL-Library.Word"
begin

text \<open>
  \<open>src/matching/\<close>: the room and leaderboard data (\<open>models.py\<close>), the tracker that infers who is
  searching (\<open>matchmaking_tracker.py\<close>).  Python's insertion-ordered dict is the association list whose
  \<open>AList.update\<close> keeps the place of a key it overwrites.  The order in which Python walks a set is not
  specified, so it is an argument.
\<close>

section \<open>Data\<close>

datatype room_type = PLAYER_MATCH | RANK_MATCH

record rank =
  rk_id :: nat
  rk_name :: "string option"
  rk_tier :: "tier option"

text \<open>\<open>__post_init__\<close>: an id outside the table is named after itself, which \<open>None\<close> stands for.\<close>

definition Rank :: "nat \<Rightarrow> rank" where
  "Rank i = \<lparr>rk_id = i, rk_name = map_option fst (map_of tekken_ranks i), rk_tier = map_option snd (map_of tekken_ranks i)\<rparr>"

record room_user =
  ru_online_name :: string
  ru_avatar_url :: string
  ru_npid :: string

record room_dto =
  rd_room_id :: nat
  rd_owner_npid :: string
  rd_owner_online_name :: string
  rd_current_members :: nat
  rd_max_slots :: nat
  rd_room_type :: room_type
  rd_rank_info :: "rank option"
  rd_users :: "room_user list"

definition phantom :: "string \<Rightarrow> string \<Rightarrow> room_type \<Rightarrow> rank option \<Rightarrow> room_dto" where
  "phantom owner_npid owner_online_name rt rank_info =
     \<lparr>rd_room_id = 0, rd_owner_npid = owner_npid, rd_owner_online_name = owner_online_name,
      rd_current_members = 1, rd_max_slots = 2, rd_room_type = rt, rd_rank_info = rank_info,
      rd_users = [\<lparr>ru_online_name = owner_online_name, ru_avatar_url = [], ru_npid = owner_npid\<rparr>]\<rparr>"

section \<open>The matchmaking tracker\<close>

record snapshot_room =
  sr_room_id :: nat
  sr_owner_npid :: string
  sr_owner_online_name :: string
  sr_current_members :: nat
  sr_room_type :: room_type
  sr_rank_info :: "rank option"
  sr_users :: "room_user list"

record searching_player =
  sp_npid :: string
  sp_online_name :: string
  sp_room_type :: room_type
  sp_rank_info :: "rank option"
  sp_last_seen :: instant

record tracker =
  prev_rooms :: "(nat \<times> snapshot_room) list option"
  searching :: "(string \<times> searching_player) list"

definition new_tracker :: tracker where
  "new_tracker = \<lparr>prev_rooms = None, searching = []\<rparr>"

definition snapshot_room_of :: "room_dto \<Rightarrow> snapshot_room" where
  "snapshot_room_of r = \<lparr>sr_room_id = rd_room_id r, sr_owner_npid = rd_owner_npid r,
     sr_owner_online_name = rd_owner_online_name r, sr_current_members = rd_current_members r,
     sr_room_type = rd_room_type r, sr_rank_info = rd_rank_info r, sr_users = rd_users r\<rparr>"

definition snapshot_of :: "room_dto list \<Rightarrow> (nat \<times> snapshot_room) list" where
  "snapshot_of rooms = fold (\<lambda>r. AList.update (rd_room_id r) (snapshot_room_of r)) rooms []"

definition send_to_searching ::
  "snapshot_room \<Rightarrow> instant \<Rightarrow> (string \<times> searching_player) list \<Rightarrow> (string \<times> searching_player) list" where
  "send_to_searching room now s =
     (if sr_room_type room = PLAYER_MATCH then s
      else fold (\<lambda>u. AList.update (ru_npid u)
             \<lparr>sp_npid = ru_npid u, sp_online_name = ru_online_name u, sp_room_type = RANK_MATCH,
              sp_rank_info = sr_rank_info room, sp_last_seen = now\<rparr>) (sr_users room) s)"

text \<open>\<open>order\<close> is the order in which the set of vanished room ids is walked.\<close>

definition update_and_get_phantoms ::
  "int \<Rightarrow> (nat set \<Rightarrow> nat list) \<Rightarrow> instant \<Rightarrow> room_dto list \<Rightarrow> tracker \<Rightarrow> room_dto list \<times> tracker" where
  "update_and_get_phantoms ttl order now rooms t =
     (let current = snapshot_of rooms in
      case prev_rooms t of
        None \<Rightarrow> ([], t\<lparr>prev_rooms := Some current\<rparr>)
      | Some prev \<Rightarrow>
          let gone = order (fst ` set prev - fst ` set current);
              s1 = fold (\<lambda>i s. case map_of prev i of None \<Rightarrow> s | Some room \<Rightarrow> send_to_searching room now s)
                     gone (searching t);
              s2 = fold (\<lambda>room s. fold (\<lambda>u. AList.delete (ru_npid u)) (sr_users room) s) (map snd current) s1;
              s3 = filter (\<lambda>(npid, mp). \<not> now - sp_last_seen mp > ttl * second) s2
          in (map (\<lambda>(npid, mp). phantom (sp_npid mp) (sp_online_name mp) (sp_room_type mp) (sp_rank_info mp)) s3,
              \<lparr>prev_rooms = Some current, searching = s3\<rparr>))"

text \<open>An order lists the set it is given.\<close>

definition walks :: "(nat set \<Rightarrow> nat list) \<Rightarrow> bool" where
  "walks order \<longleftrightarrow> (\<forall>S. finite S \<longrightarrow> set (order S) = S)"

lemma walks_sorted: "walks sorted_list_of_set"
  by (simp add: walks_def)

section \<open>What the tracker infers\<close>

definition npids_of :: "room_user list \<Rightarrow> string set" where
  "npids_of us = ru_npid ` set us"

text \<open>A player is seen in a room list, and leaves it when a rank room they are in is gone from the next.\<close>

definition seen_in :: "string \<Rightarrow> room_dto list \<Rightarrow> bool" where
  "seen_in npid rooms \<longleftrightarrow> (\<exists>(i, r)\<in>set (snapshot_of rooms). npid \<in> npids_of (sr_users r))"

definition left_between :: "string \<Rightarrow> room_dto list \<Rightarrow> room_dto list \<Rightarrow> bool" where
  "left_between npid before after \<longleftrightarrow>
     (\<exists>(i, r)\<in>set (snapshot_of before). i \<notin> fst ` set (snapshot_of after) \<and> sr_room_type r = RANK_MATCH
        \<and> npid \<in> npids_of (sr_users r))"

definition tracker_run :: "int \<Rightarrow> (nat set \<Rightarrow> nat list) \<Rightarrow> (instant \<times> room_dto list) list \<Rightarrow> tracker" where
  "tracker_run ttl order obs = fold (\<lambda>(now, rooms) t. snd (update_and_get_phantoms ttl order now rooms t)) obs new_tracker"

definition presumed_searching :: "int \<Rightarrow> (instant \<times> room_dto list) list \<Rightarrow> string \<Rightarrow> bool" where
  "presumed_searching ttl obs npid \<longleftrightarrow>
     (\<exists>k\<in>{1..<length obs}. left_between npid (snd (obs ! (k - 1))) (snd (obs ! k)) \<and>
        (\<forall>j\<in>{k..<length obs}. \<not> seen_in npid (snd (obs ! j))) \<and>
        fst (last obs) - fst (obs ! k) \<le> ttl * second)"

definition since :: "(string \<times> searching_player) list \<Rightarrow> string \<Rightarrow> instant option" where
  "since s npid = map_option sp_last_seen (map_of s npid)"

definition keyed :: "(string \<times> searching_player) list \<Rightarrow> bool" where
  "keyed s \<longleftrightarrow> distinct (map fst s) \<and> (\<forall>(k, mp)\<in>set s. sp_npid mp = k)"

lemma set_alist_update: "(k', v') \<in> set (AList.update k v ps) \<Longrightarrow> (k', v') = (k, v) \<or> (k', v') \<in> set ps"
  by (induction ps) (auto split: if_splits)

lemma keyed_update: "keyed s \<Longrightarrow> sp_npid mp = k \<Longrightarrow> keyed (AList.update k mp s)"
  unfolding keyed_def by (auto simp: distinct_update dest!: set_alist_update)

lemma keyed_delete: "keyed s \<Longrightarrow> keyed (AList.delete k s)"
  unfolding keyed_def by (auto simp: AList.delete_eq distinct_map_filter)

lemma fold_keeps: "P s \<Longrightarrow> (\<And>x s. P s \<Longrightarrow> P (f x s)) \<Longrightarrow> P (fold f xs s)"
  by (induction xs arbitrary: s) auto

lemma keyed_send: "keyed s \<Longrightarrow> keyed (send_to_searching room now s)"
  by (auto simp: send_to_searching_def intro!: fold_keeps [where P = keyed] keyed_update)

lemma since_update: "since (AList.update k mp s) n = (if n = k then Some (sp_last_seen mp) else since s n)"
  by (simp add: since_def update_conv)

lemma since_delete: "since (AList.delete k s) n = (if n = k then None else since s n)"
  by (simp add: since_def delete_conv)

lemma since_send:
  "since (send_to_searching room now s) n =
     (if sr_room_type room = RANK_MATCH \<and> n \<in> npids_of (sr_users room) then Some now else since s n)"
proof (cases "sr_room_type room")
  case PLAYER_MATCH
  then show ?thesis by (simp add: send_to_searching_def)
next
  case RANK_MATCH
  have "since (fold (\<lambda>u. AList.update (ru_npid u)
      \<lparr>sp_npid = ru_npid u, sp_online_name = ru_online_name u, sp_room_type = RANK_MATCH,
       sp_rank_info = sr_rank_info room, sp_last_seen = now\<rparr>) us s) n =
      (if n \<in> npids_of us then Some now else since s n)" for us
    by (induction us arbitrary: s) (auto simp: npids_of_def since_update)
  with RANK_MATCH show ?thesis by (simp add: send_to_searching_def)
qed

lemma since_gone:
  "since (fold (\<lambda>i s. case map_of prev i of None \<Rightarrow> s | Some room \<Rightarrow> send_to_searching room now s) gone s) n =
     (if \<exists>i\<in>set gone. \<exists>r. map_of prev i = Some r \<and> sr_room_type r = RANK_MATCH \<and> n \<in> npids_of (sr_users r)
      then Some now else since s n)"
  by (induction gone arbitrary: s) (auto simp: since_send split: option.splits)

lemma since_seen:
  "since (fold (\<lambda>room s. fold (\<lambda>u. AList.delete (ru_npid u)) (sr_users room) s) rooms s) n =
     (if \<exists>r\<in>set rooms. n \<in> npids_of (sr_users r) then None else since s n)"
proof -
  have one: "since (fold (\<lambda>u. AList.delete (ru_npid u)) us s) n = (if n \<in> npids_of us then None else since s n)" for us s
    by (induction us arbitrary: s) (auto simp: npids_of_def since_delete)
  show ?thesis by (induction rooms arbitrary: s) (auto simp: one)
qed

lemma map_of_filter_snd:
  "distinct (map fst s) \<Longrightarrow> map_of (filter (\<lambda>(k, v). P v) s) n =
    (case map_of s n of None \<Rightarrow> None | Some v \<Rightarrow> if P v then Some v else None)"
proof (induction s)
  case (Cons kv s)
  obtain k v where "kv = (k, v)" by (cases kv)
  moreover have "n = k \<Longrightarrow> map_of s n = None" using Cons.prems \<open>kv = (k, v)\<close> by (simp add: map_of_eq_None_iff)
  ultimately show ?case using Cons by (auto split: option.splits)
qed simp

lemma distinct_snapshot: "distinct (map fst (snapshot_of rooms))"
  unfolding snapshot_of_def
  by (rule fold_keeps [where P = "\<lambda>s. distinct (map fst s)"]) (simp_all add: distinct_update)

definition next_since :: "int \<Rightarrow> instant \<Rightarrow> bool \<Rightarrow> bool \<Rightarrow> instant option \<Rightarrow> instant option" where
  "next_since ttl now gone seen old =
     (if seen then None else if gone then Some now
      else case old of None \<Rightarrow> None | Some t \<Rightarrow> if now - t > ttl * second then None else Some t)"

lemma tracker_step:
  assumes t: "prev_rooms t = Some (snapshot_of before)" and "keyed (searching t)" and "walks order" and "0 \<le> ttl"
  shows "prev_rooms (snd (update_and_get_phantoms ttl order now rooms t)) = Some (snapshot_of rooms)"
    and "keyed (searching (snd (update_and_get_phantoms ttl order now rooms t)))"
    and "map rd_owner_npid (fst (update_and_get_phantoms ttl order now rooms t)) =
      map fst (searching (snd (update_and_get_phantoms ttl order now rooms t)))"
    and "since (searching (snd (update_and_get_phantoms ttl order now rooms t))) n =
      next_since ttl now (left_between n before rooms) (seen_in n rooms) (since (searching t) n)"
proof -
  define gone where "gone = order (fst ` set (snapshot_of before) - fst ` set (snapshot_of rooms))"
  define s1 where "s1 = fold (\<lambda>i s. case map_of (snapshot_of before) i of None \<Rightarrow> s
    | Some room \<Rightarrow> send_to_searching room now s) gone (searching t)"
  define s2 where "s2 = fold (\<lambda>room s. fold (\<lambda>u. AList.delete (ru_npid u)) (sr_users room) s)
    (map snd (snapshot_of rooms)) s1"
  define s3 where "s3 = filter (\<lambda>(npid, mp). \<not> now - sp_last_seen mp > ttl * second) s2"
  have eq: "update_and_get_phantoms ttl order now rooms t =
      (map (\<lambda>(npid, mp). phantom (sp_npid mp) (sp_online_name mp) (sp_room_type mp) (sp_rank_info mp)) s3,
       \<lparr>prev_rooms = Some (snapshot_of rooms), searching = s3\<rparr>)"
    by (simp add: update_and_get_phantoms_def Let_def t gone_def s1_def s2_def s3_def)
  have k1: "keyed s1" unfolding s1_def
    by (rule fold_keeps [where P = keyed]) (use assms(2) in \<open>auto split: option.splits intro: keyed_send\<close>)
  have k2: "keyed s2" unfolding s2_def
    by (rule fold_keeps [where P = keyed]) (use k1 in \<open>auto intro!: fold_keeps [where P = keyed] keyed_delete\<close>)
  then have k3: "keyed s3" by (auto simp: keyed_def s3_def distinct_map_filter)
  have set_gone: "set gone = fst ` set (snapshot_of before) - fst ` set (snapshot_of rooms)"
    using assms(3) by (simp add: walks_def gone_def)
  have left: "(\<exists>i\<in>set gone. \<exists>r. map_of (snapshot_of before) i = Some r \<and> sr_room_type r = RANK_MATCH
      \<and> n \<in> npids_of (sr_users r)) \<longleftrightarrow> left_between n before rooms"
  proof
    assume "left_between n before rooms"
    then obtain i r where "(i, r) \<in> set (snapshot_of before)" "i \<notin> fst ` set (snapshot_of rooms)"
      "sr_room_type r = RANK_MATCH" "n \<in> npids_of (sr_users r)"
      by (auto simp: left_between_def)
    moreover from this have "i \<in> fst ` set (snapshot_of before)" by (metis fst_conv image_eqI)
    ultimately show "\<exists>i\<in>set gone. \<exists>r. map_of (snapshot_of before) i = Some r \<and> sr_room_type r = RANK_MATCH
        \<and> n \<in> npids_of (sr_users r)"
      unfolding set_gone by (meson DiffI distinct_snapshot map_of_is_SomeI)
  next
    assume "\<exists>i\<in>set gone. \<exists>r. map_of (snapshot_of before) i = Some r \<and> sr_room_type r = RANK_MATCH
        \<and> n \<in> npids_of (sr_users r)"
    then obtain i r where "i \<in> set gone" "(i, r) \<in> set (snapshot_of before)"
      "sr_room_type r = RANK_MATCH" "n \<in> npids_of (sr_users r)"
      by (meson map_of_SomeD)
    then show "left_between n before rooms"
      unfolding left_between_def set_gone by auto
  qed
  have seen: "(\<exists>r\<in>set (map snd (snapshot_of rooms)). n \<in> npids_of (sr_users r)) \<longleftrightarrow> seen_in n rooms"
    by (force simp: seen_in_def)
  have "since s2 n = (if seen_in n rooms then None
      else if left_between n before rooms then Some now else since (searching t) n)"
    by (simp only: s2_def since_seen seen s1_def since_gone left)
  moreover have "since s3 n = (case since s2 n of None \<Rightarrow> None | Some v \<Rightarrow> if now - v > ttl * second then None else Some v)"
    using k2 unfolding s3_def since_def keyed_def
    by (auto simp: map_of_filter_snd [of s2 "\<lambda>mp. \<not> now - sp_last_seen mp > ttl * second"] split: option.splits)
  ultimately have "since s3 n = next_since ttl now (left_between n before rooms) (seen_in n rooms) (since (searching t) n)"
    using assms(4) by (auto simp: next_since_def split: option.splits)
  with eq k3 show "prev_rooms (snd (update_and_get_phantoms ttl order now rooms t)) = Some (snapshot_of rooms)"
    and "keyed (searching (snd (update_and_get_phantoms ttl order now rooms t)))"
    and "map rd_owner_npid (fst (update_and_get_phantoms ttl order now rooms t)) =
      map fst (searching (snd (update_and_get_phantoms ttl order now rooms t)))"
    and "since (searching (snd (update_and_get_phantoms ttl order now rooms t))) n =
      next_since ttl now (left_between n before rooms) (seen_in n rooms) (since (searching t) n)"
    by (auto simp: keyed_def phantom_def)
qed

text \<open>The last moment, if any, at which a player left the room list and has not been seen since.\<close>

definition departure :: "(instant \<times> room_dto list) list \<Rightarrow> string \<Rightarrow> nat \<Rightarrow> bool" where
  "departure obs npid k \<longleftrightarrow> 0 < k \<and> k < length obs \<and> left_between npid (snd (obs ! (k - 1))) (snd (obs ! k)) \<and>
     (\<forall>j\<in>{k..<length obs}. \<not> seen_in npid (snd (obs ! j)))"

lemma presumed_searching_iff:
  "presumed_searching ttl obs npid \<longleftrightarrow> (\<exists>k. departure obs npid k \<and> fst (last obs) - fst (obs ! k) \<le> ttl * second)"
  unfolding presumed_searching_def departure_def Bex_def atLeastLessThan_iff One_nat_def Suc_le_eq
  by (simp only: conj_assoc)

lemma departure_snoc:
  assumes "obs \<noteq> []"
  shows "departure (obs @ [(now, rooms)]) npid k \<longleftrightarrow> \<not> seen_in npid rooms \<and>
    (departure obs npid k \<or> k = length obs \<and> left_between npid (snd (last obs)) rooms)"
proof -
  have sp: "{k..<Suc (length obs)} = (if k \<le> length obs then insert (length obs) {k..<length obs} else {})" by auto
  show ?thesis
    using assms unfolding departure_def
    by (cases "k < length obs"; cases "k = length obs") (auto simp: nth_append sp last_conv_nth less_Suc_eq)
qed

definition tracks :: "int \<Rightarrow> (instant \<times> room_dto list) list \<Rightarrow> tracker \<Rightarrow> bool" where
  "tracks ttl obs t \<longleftrightarrow> prev_rooms t = Some (snapshot_of (snd (last obs))) \<and> keyed (searching t) \<and>
     (\<forall>n. case since (searching t) n of
        None \<Rightarrow> \<not> presumed_searching ttl obs n
      | Some s \<Rightarrow> (\<exists>k. departure obs n k \<and> s = fst (obs ! k)) \<and> fst (last obs) - s \<le> ttl * second \<and>
                  (\<forall>k. departure obs n k \<longrightarrow> fst (obs ! k) \<le> s))"

lemma tracksD:
  assumes "tracks ttl obs t"
  shows "since (searching t) n = None \<Longrightarrow> departure obs n k \<Longrightarrow> ttl * second < fst (last obs) - fst (obs ! k)"
    and "since (searching t) n = Some s \<Longrightarrow>
      (\<exists>k. departure obs n k \<and> s = fst (obs ! k)) \<and> fst (last obs) - s \<le> ttl * second \<and>
      (\<forall>k. departure obs n k \<longrightarrow> fst (obs ! k) \<le> s)"
proof -
  have c: "case since (searching t) n of
        None \<Rightarrow> \<not> presumed_searching ttl obs n
      | Some s \<Rightarrow> (\<exists>k. departure obs n k \<and> s = fst (obs ! k)) \<and> fst (last obs) - s \<le> ttl * second \<and>
                  (\<forall>k. departure obs n k \<longrightarrow> fst (obs ! k) \<le> s)"
    using assms unfolding tracks_def by blast
  show "since (searching t) n = None \<Longrightarrow> departure obs n k \<Longrightarrow> ttl * second < fst (last obs) - fst (obs ! k)"
    using c unfolding presumed_searching_iff by (simp add: not_le)
  show "since (searching t) n = Some s \<Longrightarrow>
      (\<exists>k. departure obs n k \<and> s = fst (obs ! k)) \<and> fst (last obs) - s \<le> ttl * second \<and>
      (\<forall>k. departure obs n k \<longrightarrow> fst (obs ! k) \<le> s)"
    using c by simp
qed

lemma tracks_presumed:
  assumes t: "tracks ttl obs t"
  shows "n \<in> fst ` set (searching t) \<longleftrightarrow> presumed_searching ttl obs n"
proof (cases "since (searching t) n")
  case None
  then have "n \<notin> fst ` set (searching t)" by (simp add: since_def map_of_eq_None_iff)
  then show ?thesis using tracksD(1) [OF t None] unfolding presumed_searching_iff by fastforce
next
  case (Some s)
  then have "n \<in> fst ` set (searching t)"
    unfolding since_def by (metis map_of_eq_None_iff map_option_is_None option.distinct(1))
  then show ?thesis using tracksD(2) [OF t Some] unfolding presumed_searching_iff by blast
qed

lemma tracked_some:
  "x = Some s \<Longrightarrow> departure obs n k \<Longrightarrow> fst (obs ! k) = s \<Longrightarrow> fst (last obs) - s \<le> ttl * second \<Longrightarrow>
    (\<And>i. departure obs n i \<Longrightarrow> fst (obs ! i) \<le> s) \<Longrightarrow>
    (case x of
        None \<Rightarrow> \<not> presumed_searching ttl obs n
      | Some s \<Rightarrow> (\<exists>k. departure obs n k \<and> s = fst (obs ! k)) \<and> fst (last obs) - s \<le> ttl * second \<and>
                  (\<forall>k. departure obs n k \<longrightarrow> fst (obs ! k) \<le> s))"
  by auto

lemma tracks_first: "tracks ttl [(now, rooms)] (snd (update_and_get_phantoms ttl order now rooms new_tracker))"
  by (simp add: tracks_def update_and_get_phantoms_def new_tracker_def keyed_def since_def
      presumed_searching_def)

lemma tracks_step:
  assumes t: "tracks ttl obs t" and ne: "obs \<noteq> []" and srt: "sorted (map fst (obs @ [(now, rooms)]))"
    and w: "walks order" and ttl: "0 \<le> ttl"
  shows "tracks ttl (obs @ [(now, rooms)]) (snd (update_and_get_phantoms ttl order now rooms t))"
proof -
  let ?t' = "snd (update_and_get_phantoms ttl order now rooms t)" and ?obs' = "obs @ [(now, rooms)]"
  have prev: "prev_rooms t = Some (snapshot_of (snd (last obs)))" and k: "keyed (searching t)"
    using t by (simp_all add: tracks_def)
  note step = tracker_step [OF prev k w ttl, of now rooms]
  have le: "fst x \<le> now" if "x \<in> set obs" for x
    using srt that by (auto simp: sorted_append)
  have old: "fst (?obs' ! i) = fst (obs ! i)" "fst (obs ! i) \<le> now" if "departure obs n i" for n i
    using that le [OF nth_mem] by (simp_all add: departure_def nth_append)
  note dep = departure_snoc [OF ne, of now rooms]
  have "case since (searching ?t') n of
      None \<Rightarrow> \<not> presumed_searching ttl ?obs' n
    | Some s \<Rightarrow> (\<exists>k. departure ?obs' n k \<and> s = fst (?obs' ! k)) \<and> fst (last ?obs') - s \<le> ttl * second \<and>
        (\<forall>k. departure ?obs' n k \<longrightarrow> fst (?obs' ! k) \<le> s)" for n
  proof (cases "seen_in n rooms")
    case True
    then show ?thesis by (simp add: step(4) next_since_def presumed_searching_iff dep)
  next
    case unseen: False
    show ?thesis
    proof (cases "left_between n (snd (last obs)) rooms")
      case True
      then have s: "since (searching ?t') n = Some now" using unseen by (simp add: step(4) next_since_def)
      have "departure ?obs' n (length obs) \<and> fst (?obs' ! length obs) = now"
        using True unseen by (simp add: dep)
      moreover have "fst (?obs' ! i) \<le> now" if "departure ?obs' n i" for i
        using that old by (auto simp: dep)
      ultimately show ?thesis using ttl by (intro tracked_some [OF s, of _ _ "length obs"]) simp_all
    next
      case False
      then have d: "departure ?obs' n i \<longleftrightarrow> departure obs n i" for i using unseen by (simp add: dep)
      show ?thesis
      proof (cases "since (searching t) n")
        case None
        then have s: "since (searching ?t') n = None" using False unseen by (simp add: step(4) next_since_def)
        have "ttl * second < now - fst (obs ! i)" if "departure obs n i" for i
          using tracksD(1) [OF t None that] le [OF last_in_set [OF ne]] by linarith
        then show ?thesis unfolding s presumed_searching_iff d using old by fastforce
      next
        case (Some u)
        then have s: "since (searching ?t') n = (if now - u > ttl * second then None else Some u)"
          using False unseen by (simp add: step(4) next_since_def)
        note u = tracksD(2) [OF t Some]
        show ?thesis
        proof (cases "now - u > ttl * second")
          case True
          have "ttl * second < now - fst (obs ! i)" if "departure obs n i" for i
            using u that True by fastforce
          then have "\<not> presumed_searching ttl ?obs' n"
            unfolding presumed_searching_iff d using old by fastforce
          then show ?thesis using True by (simp add: s)
        next
          case stay: False
          from u obtain i where i: "departure obs n i" "u = fst (obs ! i)" by blast
          have "fst (?obs' ! j) \<le> u" if "departure obs n j" for j
            using u old(1) [OF that] that by simp
          moreover have "u = fst (?obs' ! i)" using i old(1) by simp
          ultimately show ?thesis using i(1) stay d s
            by (intro tracked_some [of _ u _ _ i]) simp_all
        qed
      qed
    qed
  qed
  then show ?thesis using step(1,2) by (simp add: tracks_def)
qed

lemma tracker_run_tracks:
  "obs \<noteq> [] \<Longrightarrow> sorted (map fst obs) \<Longrightarrow> walks order \<Longrightarrow> 0 \<le> ttl \<Longrightarrow> tracks ttl obs (tracker_run ttl order obs)"
proof (induction obs rule: rev_induct)
  case (snoc o1 obs)
  show ?case
  proof (cases "obs = []")
    case True
    then show ?thesis by (cases o1) (simp add: tracker_run_def tracks_first)
  next
    case False
    then show ?thesis using snoc tracks_step [of ttl obs "tracker_run ttl order obs"]
      by (cases o1) (simp add: tracker_run_def sorted_append)
  qed
qed simp

end
