(* ===== verification/Matching_Service.thy ===== *)
theory Matching_Service
  imports Matching
begin

text \<open>
  The adapter over the RPCN client (\<open>src/matching/adapters/rpcn.py\<close>) and the application service
  (\<open>src/matching/service.py\<close>).  Each kind of cached value has keys of its own, so each is modelled with a
  cache of its own type.
\<close>

section \<open>The adapter\<close>

definition game_info_size :: nat where "game_info_size = 20"
definition rank_attr :: nat where "rank_attr = 4"

record char_info =
  ch_char_id :: nat
  ch_rank_info :: rank
  ch_wins :: nat
  ch_losses :: nat
  ch_name :: "string option"

definition CharInfo :: "nat \<Rightarrow> rank \<Rightarrow> nat \<Rightarrow> nat \<Rightarrow> char_info" where
  "CharInfo i r w l = \<lparr>ch_char_id = i, ch_rank_info = r, ch_wins = w, ch_losses = l, ch_name = map_of ttt2_characters i\<rparr>"

record game_info =
  gi_main :: char_info
  gi_sub :: char_info

text \<open>\<open>struct.unpack(">4B4I", ...)\<close>: big-endian fields.\<close>

definition be_val :: "byte list \<Rightarrow> nat" where
  "be_val bs = le_val (rev bs)"

definition be_bytes :: "nat \<Rightarrow> nat \<Rightarrow> byte list" where
  "be_bytes k v = rev (le_bytes k v)"

definition parse_game_info :: "byte list \<Rightarrow> game_info option" where
  "parse_game_info data =
     (if length data < game_info_size then None
      else
        let b = (\<lambda>i. be_val (take 1 (drop i data))); w = (\<lambda>i. be_val (take 4 (drop i data))) in
        Some \<lparr>gi_main = CharInfo (b 0) (Rank (b 2)) (w 4) (w 12), gi_sub = CharInfo (b 1) (Rank (b 3)) (w 8) (w 16)\<rparr>)"

text \<open>The blob a client of the game writes for two characters.\<close>

definition game_info_blob :: "nat \<times> nat \<times> nat \<times> nat \<Rightarrow> nat \<times> nat \<times> nat \<times> nat \<Rightarrow> byte list" where
  "game_info_blob c1 c2 = (let (i1, r1, w1, l1) = c1; (i2, r2, w2, l2) = c2 in
     be_bytes 1 i1 @ be_bytes 1 i2 @ be_bytes 1 r1 @ be_bytes 1 r2 @
     be_bytes 4 w1 @ be_bytes 4 w2 @ be_bytes 4 l1 @ be_bytes 4 l2)"

lemma length_be_bytes [simp]: "length (be_bytes k v) = k"
  by (simp add: be_bytes_def)

lemma be_val_be_bytes: "v < 256 ^ k \<Longrightarrow> be_val (be_bytes k v) = v"
  by (simp add: be_val_def be_bytes_def le_val_le_bytes)

lemma parse_game_info_blob:
  assumes "i1 < 256" "r1 < 256" "i2 < 256" "r2 < 256" "w1 < 2 ^ 32" "l1 < 2 ^ 32" "w2 < 2 ^ 32" "l2 < 2 ^ 32"
  shows "parse_game_info (game_info_blob (i1, r1, w1, l1) (i2, r2, w2, l2) @ extra) =
    Some \<lparr>gi_main = CharInfo i1 (Rank r1) w1 l1, gi_sub = CharInfo i2 (Rank r2) w2 l2\<rparr>"
  using assms by (simp add: parse_game_info_def game_info_blob_def game_info_size_def be_val_be_bytes Let_def)

text \<open>The rank code is the fifth attribute the server lists; a room with fewer raises \<open>IndexError\<close>.\<close>

definition room_of :: "room_info \<Rightarrow> client_error + room_dto" where
  "room_of info =
     (if length (ri_int_attrs info) \<le> rank_attr then Inl Index_Error
      else
        let rank_id = snd (ri_int_attrs info ! rank_attr) in
        Inr \<lparr>rd_room_id = ri_room_id info, rd_owner_npid = ri_owner_npid info,
             rd_owner_online_name = ri_owner_online_name info, rd_current_members = ri_current_members info,
             rd_max_slots = ri_max_slots info, rd_room_type = (if rank_id \<noteq> 0 then RANK_MATCH else PLAYER_MATCH),
             rd_rank_info = (if rank_id \<noteq> 0 then Some (Rank rank_id) else None),
             rd_users = map (\<lambda>u. \<lparr>ru_online_name = ui_online_name u, ru_avatar_url = ui_avatar_url u,
                                  ru_npid = ui_npid u\<rparr>) (ri_users info)\<rparr>)"

text \<open>
  The body of \<open>search_rooms_all\<close>, run inside \<open>api_client\<close>: a world whose search raises \<open>RpcnError\<close> adds
  nothing, any other exception ends the search.
\<close>

fun search_worlds ::
  "(nat \<Rightarrow> 'c \<Rightarrow> (client_error + search_rooms_result) \<times> 'c) \<Rightarrow> nat list \<Rightarrow> 'c \<Rightarrow> (client_error + room_dto list) \<times> 'c" where
  "search_worlds search [] c = (Inr [], c)"
| "search_worlds search (w # ws) c =
     (case search w c of
        (Inl e, c1) \<Rightarrow> if e = Rpcn_Error then search_worlds search ws c1 else (Inl e, c1)
      | (Inr resp, c1) \<Rightarrow>
          (case (if sres_total resp > 0 then mapR room_of (sres_rooms resp) else Inr []) of
             Inl e \<Rightarrow> (Inl e, c1)
           | Inr rooms \<Rightarrow>
               (case search_worlds search ws c1 of
                  (Inl e, c2) \<Rightarrow> (Inl e, c2)
                | (Inr more_rooms, c2) \<Rightarrow> (Inr (rooms @ more_rooms), c2))))"

fun world_tree ::
  "(nat \<Rightarrow> 'c \<Rightarrow> (client_error + nat list) \<times> 'c) \<Rightarrow> nat list \<Rightarrow> (nat \<times> nat list) list \<Rightarrow> 'c \<Rightarrow>
     (client_error + (nat \<times> nat list) list) \<times> 'c" where
  "world_tree worlds_of [] tree c = (Inr tree, c)"
| "world_tree worlds_of (sid # sids) tree c =
     (case worlds_of sid c of
        (Inl e, c1) \<Rightarrow> (Inl e, c1)
      | (Inr ws, c1) \<Rightarrow> world_tree worlds_of sids (AList.update sid ws tree) c1)"

definition server_world_tree ::
  "('c \<Rightarrow> (client_error + nat list) \<times> 'c) \<Rightarrow> (nat \<Rightarrow> 'c \<Rightarrow> (client_error + nat list) \<times> 'c) \<Rightarrow> 'c \<Rightarrow>
     (client_error + (nat \<times> nat list) list) \<times> 'c" where
  "server_world_tree servers worlds_of c =
     (case servers c of (Inl e, c1) \<Rightarrow> (Inl e, c1) | (Inr sids, c1) \<Rightarrow> world_tree worlds_of sids [] c1)"

record lb_entry =
  le_rank :: nat
  le_np_id :: string
  le_online_name :: string
  le_score :: int
  le_pc_id :: nat
  le_record_date :: int
  le_has_game_data :: bool
  le_comment :: string
  le_player_info :: "game_info option"

record leaderboard =
  lb_total_records :: int
  lb_last_sort_date :: int
  lb_entries :: "lb_entry list"

definition leaderboard_of :: "score_result \<Rightarrow> leaderboard" where
  "leaderboard_of result =
     \<lparr>lb_total_records = sc_total_records result, lb_last_sort_date = sc_last_sort_date result,
      lb_entries = map (\<lambda>e.
        \<lparr>le_rank = se_rank e, le_np_id = se_np_id e, le_online_name = se_online_name e, le_score = se_score e,
         le_pc_id = se_pc_id e, le_record_date = se_record_date e, le_has_game_data = se_has_game_data e,
         le_comment = se_comment e,
         le_player_info = (if se_game_info e = [] then None else parse_game_info (se_game_info e))\<rparr>)
        (sc_entries result)\<rparr>"

section \<open>Rooms\<close>

definition group_rooms_by_type :: "room_dto list \<Rightarrow> room_dto list \<times> room_dto list" where
  "group_rooms_by_type rooms =
     (filter (\<lambda>r. rd_room_type r = PLAYER_MATCH) rooms, filter (\<lambda>r. rd_room_type r = RANK_MATCH) rooms)"

definition rank_key :: "room_dto \<Rightarrow> int" where
  "rank_key r = (case rd_rank_info r of None \<Rightarrow> -1 | Some k \<Rightarrow> int (rk_id k))"

definition fetch_rooms_all ::
  "int \<Rightarrow> (nat set \<Rightarrow> nat list) \<Rightarrow> instant \<Rightarrow> room_dto list \<Rightarrow> tracker \<Rightarrow> (room_dto list \<times> room_dto list) \<times> tracker" where
  "fetch_rooms_all ttl order now rooms t =
     (let (player, rank) = group_rooms_by_type rooms;
          (phantoms, t') = update_and_get_phantoms ttl order now (player @ rank) t
      in ((player, sort_key rank_key (rank @ phantoms)), t'))"

record activity_observation =
  ao_rank_player_npids :: "string set"
  ao_total_players :: nat
  ao_total_rooms :: nat
  ao_rank_players :: nat
  ao_rank_rooms :: nat
  ao_rank_matches :: "room_dto list"

definition fetch_activity_observation :: "room_dto list \<Rightarrow> activity_observation" where
  "fetch_activity_observation rooms =
     (let rank_rooms = filter (\<lambda>r. rd_room_type r = RANK_MATCH \<and> rd_current_members r \<ge> 1) rooms in
      \<lparr>ao_rank_player_npids = set (filter (\<lambda>n. n \<noteq> []) (map ru_npid (concat (map rd_users rank_rooms)))),
       ao_total_players = sum_list (map (\<lambda>r. length (rd_users r)) rooms),
       ao_total_rooms = length rooms,
       ao_rank_players = sum_list (map (\<lambda>r. length (rd_users r)) rank_rooms),
       ao_rank_rooms = length rank_rooms,
       ao_rank_matches = filter (\<lambda>r. rd_current_members r = 2) rank_rooms\<rparr>)"

definition players_in :: "room_dto list \<times> room_dto list \<Rightarrow> string set" where
  "players_in groups = set (filter (\<lambda>n. n \<noteq> []) (map ru_npid (concat (map rd_users (fst groups @ snd groups)))))"

text \<open>A room with each user beside their broadcast.\<close>

definition with_streams ::
  "room_dto list \<times> room_dto list \<Rightarrow> (string \<rightharpoonup> 's) \<Rightarrow>
     (room_dto \<times> (room_user \<times> 's option) list) list \<times> (room_dto \<times> (room_user \<times> 's option) list) list" where
  "with_streams groups live =
     (let mark = map (\<lambda>r. (r, map (\<lambda>u. (u, live (casefold (ru_npid u)))) (rd_users r)))
      in (mark (fst groups), mark (snd groups)))"

section \<open>The leaderboard\<close>

definition is_ranking_excluded :: "string list \<Rightarrow> string \<Rightarrow> bool" where
  "is_ranking_excluded excluded_npids npid \<longleftrightarrow> casefold npid \<in> set (map casefold excluded_npids)"

definition without_excluded :: "string list \<Rightarrow> leaderboard \<Rightarrow> leaderboard" where
  "without_excluded excluded lb =
     (let excluded_ranks = map le_rank (filter (\<lambda>e. is_ranking_excluded excluded (le_np_id e)) (lb_entries lb)) in
      lb\<lparr>lb_total_records := lb_total_records lb - int (length excluded_ranks),
         lb_entries := map (\<lambda>e. e\<lparr>le_rank := le_rank e - length (filter (\<lambda>r. r < le_rank e) excluded_ranks)\<rparr>)
           (filter (\<lambda>e. \<not> is_ranking_excluded excluded (le_np_id e)) (lb_entries lb))\<rparr>)"

definition leaderboard_cache_size :: nat where "leaderboard_cache_size = 500"

definition get_full_leaderboard ::
  "string list \<Rightarrow> int \<Rightarrow> string \<Rightarrow> instant \<Rightarrow> api_error + score_result \<Rightarrow> leaderboard dict_cache \<Rightarrow>
     (api_error + leaderboard) \<times> leaderboard dict_cache" where
  "get_full_leaderboard excluded ttl key now fetched c =
     read_through dict_get dict_set (\<lambda>_. True) key ttl now
       (bindR fetched (\<lambda>r. Inr (without_excluded excluded (leaderboard_of r)))) c"

definition get_leaderboard ::
  "string list \<Rightarrow> int \<Rightarrow> string \<Rightarrow> instant \<Rightarrow> api_error + score_result \<Rightarrow> nat \<Rightarrow> leaderboard dict_cache \<Rightarrow>
     (api_error + leaderboard) \<times> leaderboard dict_cache" where
  "get_leaderboard excluded ttl key now fetched num_ranks c =
     (let (r, c') = get_full_leaderboard excluded ttl key now fetched c in
      (bindR r (\<lambda>full. Inr (full\<lparr>lb_entries := take num_ranks (lb_entries full)\<rparr>)), c'))"

text \<open>A competition ranking: an entry's rank is one more than the entries that beat it.\<close>

definition competition_ranked :: "lb_entry list \<Rightarrow> bool" where
  "competition_ranked es \<longleftrightarrow> (\<forall>e\<in>set es. le_rank e = 1 + length (filter (\<lambda>x. le_score x > le_score e) es))"

lemma competition_rank_less:
  assumes "competition_ranked es" and "x \<in> set es" and "y \<in> set es"
  shows "le_rank x < le_rank y \<longleftrightarrow> le_score x > le_score y"
proof -
  have mono: "length (filter (\<lambda>z. le_score z > le_score a) es) < length (filter (\<lambda>z. le_score z > le_score b) es)"
    if "le_score a > le_score b" "a \<in> set es" for a b
  proof -
    have "length (filter (\<lambda>z. le_score z > le_score b) es) =
        length (filter (\<lambda>z. le_score z > le_score a) es) + length (filter (\<lambda>z. le_score z > le_score b \<and> \<not> le_score z > le_score a) es)"
      using that(1) by (induction es) auto
    moreover have "filter (\<lambda>z. le_score z > le_score b \<and> \<not> le_score z > le_score a) es \<noteq> []"
      using that by (auto simp: filter_empty_conv)
    ultimately show ?thesis by simp
  qed
  show ?thesis
    using assms mono [of x y] mono [of y x] unfolding competition_ranked_def
    by (cases "le_score x" "le_score y" rule: linorder_cases) auto
qed

lemma without_excluded_ranked:
  assumes "competition_ranked (lb_entries lb)"
  shows "competition_ranked (lb_entries (without_excluded excluded lb))"
proof -
  let ?es = "lb_entries lb" and ?out = "\<lambda>e. is_ranking_excluded excluded (le_np_id e)"
  have "le_rank e - length (filter (\<lambda>r. r < le_rank e) (map le_rank (filter ?out ?es))) =
      1 + length (filter (\<lambda>x. le_score x > le_score e) (filter (\<lambda>x. \<not> ?out x) ?es))" if e: "e \<in> set ?es" for e
  proof -
    have "filter (\<lambda>x. le_rank x < le_rank e) (filter ?out ?es) = filter (\<lambda>x. le_score x > le_score e) (filter ?out ?es)"
      using competition_rank_less [OF assms _ e] by (auto intro: filter_cong)
    then have r: "length (filter (\<lambda>r. r < le_rank e) (map le_rank (filter ?out ?es))) =
        length (filter (\<lambda>x. le_score x > le_score e) (filter ?out ?es))"
      by (simp add: filter_map comp_def)
    have "length (filter (\<lambda>x. le_score x > le_score e) ?es) =
        length (filter (\<lambda>x. le_score x > le_score e) (filter ?out ?es)) +
        length (filter (\<lambda>x. le_score x > le_score e) (filter (\<lambda>x. \<not> ?out x) ?es))"
      by (rule length_filter_split)
    then show ?thesis using assms e unfolding competition_ranked_def r by auto
  qed
  then show ?thesis
    unfolding competition_ranked_def without_excluded_def
    by (auto simp: Let_def filter_map comp_def)
qed

section \<open>What a room list holds\<close>

text \<open>
  Every room found is listed once, with one room more for each presumed searcher, and the rank list is
  in the order of the ranks.
\<close>

lemma fetch_rooms_all_lists:
  assumes "fetch_rooms_all ttl order now rooms t = ((player, rank), t')"
  shows "\<exists>phantoms. fst (update_and_get_phantoms ttl order now
        (filter (\<lambda>r. rd_room_type r = PLAYER_MATCH) rooms @ filter (\<lambda>r. rd_room_type r = RANK_MATCH) rooms) t) = phantoms \<and>
      mset (player @ rank) = mset rooms + mset phantoms \<and> sorted (map rank_key rank) \<and>
      (\<forall>r\<in>set player. rd_room_type r = PLAYER_MATCH)"
proof -
  have other: "filter (\<lambda>r. rd_room_type r = RANK_MATCH) rooms = filter (\<lambda>r. \<not> rd_room_type r = PLAYER_MATCH) rooms"
    by (rule filter_cong [OF refl]) (metis room_type.exhaust room_type.distinct(1))
  have "mset (filter (\<lambda>r. rd_room_type r = PLAYER_MATCH) rooms) + mset (filter (\<lambda>r. rd_room_type r = RANK_MATCH) rooms) = mset rooms"
    unfolding other by (simp add: union_filter_mset_complement)
  then show ?thesis
    using assms by (auto simp: fetch_rooms_all_def group_rooms_by_type_def Let_def split: prod.splits)
qed

text \<open>A search in which every world fails with \<open>RpcnError\<close> is an empty room list, not a failure.\<close>

lemma search_worlds_all_fail:
  assumes "\<And>w c. w \<in> set ws \<Longrightarrow> fst (search w c) = Inl Rpcn_Error"
  shows "fst (search_worlds search ws c) = Inr []"
  using assms
proof (induction ws arbitrary: c)
  case (Cons w ws)
  have "fst (search w c) = Inl Rpcn_Error" using Cons.prems by simp
  then obtain c1 where "search w c = (Inl Rpcn_Error, c1)" by (cases "search w c") auto
  with Cons show ?case by simp
qed simp

section \<open>Properties\<close>

text \<open>C7: After any run of observations, the players the tracker holds are exactly those who left a vanished
  rank room, have been in no room since, and left no longer ago than the time to live.\<close>

theorem tracker_exact:
  assumes "obs \<noteq> []" and "sorted (map fst obs)" and "walks order" and "0 \<le> ttl"
  shows "n \<in> fst ` set (searching (tracker_run ttl order obs)) \<longleftrightarrow> presumed_searching ttl obs n"
  using tracks_presumed [OF tracker_run_tracks [OF assms]] by simp

abbreviation demo_room :: room_dto where
  "demo_room \<equiv> \<lparr>rd_room_id = 7, rd_owner_npid = ''kim'', rd_owner_online_name = ''Kim'', rd_current_members = 1,
     rd_max_slots = 2, rd_room_type = RANK_MATCH, rd_rank_info = Some (Rank 3),
     rd_users = [\<lparr>ru_online_name = ''Kim'', ru_avatar_url = [], ru_npid = ''kim''\<rparr>]\<rparr>"

theorem tracker_exact_witness:
  "''kim'' \<in> fst ` set (searching (tracker_run 60 sorted_list_of_set [(0, [demo_room]), (second, [])]))"
proof -
  have "presumed_searching 60 [(0, [demo_room]), (second, [])] ''kim''"
    unfolding presumed_searching_def
    by (rule bexI [of _ 1]) (simp_all add: left_between_def seen_in_def snapshot_of_def snapshot_room_of_def npids_of_def)
  then show ?thesis
    using tracker_exact [of "[(0, [demo_room]), (second, [])]" sorted_list_of_set 60 "''kim''"] by (simp add: walks_sorted)
qed

text \<open>C39: A search in which every world answers with an RPCN error is an empty room list, so the next room listing
  shows every player of the last one's rank rooms as searching: an outage reads as everybody having just left.\<close>

theorem outage_reads_as_searching:
  assumes "\<And>w c. w \<in> set ws \<Longrightarrow> fst (search w c) = Inl Rpcn_Error"
    and "prev_rooms t = Some (snapshot_of before)" and "keyed (searching t)" and "walks order" and "0 \<le> ttl"
    and "(i, r) \<in> set (snapshot_of before)" and "sr_room_type r = RANK_MATCH" and "n \<in> npids_of (sr_users r)"
  shows "\<exists>rooms rank. fst (search_worlds search ws c) = Inr rooms \<and>
    fst (fetch_rooms_all ttl order now rooms t) = ([], rank) \<and> n \<in> rd_owner_npid ` set rank"
proof -
  have "fst (search_worlds search ws c) = Inr []" using assms(1) by (rule search_worlds_all_fail)
  let ?ph = "update_and_get_phantoms ttl order now [] t"
  note step = tracker_step(3) [OF assms(2-5), where now = now and rooms = "[]"]
    tracker_step(4) [OF assms(2-5), where now = now and rooms = "[]" and n = n]
  have "left_between n before []" using assms(6-8) by (auto simp: left_between_def snapshot_of_def)
  then have "since (searching (snd ?ph)) n = Some now"
    using step(2) by (simp add: seen_in_def snapshot_of_def next_since_def)
  then have "n \<in> fst ` set (searching (snd ?ph))"
    by (auto simp: since_def map_of_SomeD intro: image_eqI [where x = "(n, _)"] dest: map_of_SomeD)
  also have "\<dots> = rd_owner_npid ` set (fst ?ph)" using step(1) by (metis list.set_map)
  finally show ?thesis
    using \<open>fst (search_worlds search ws c) = Inr []\<close>
    by (intro exI [of _ "[]"] exI [of _ "sort_key rank_key (fst ?ph)"])
      (simp add: fetch_rooms_all_def group_rooms_by_type_def split: prod.splits)
qed

theorem outage_reads_as_searching_witness:
  "\<exists>rooms rank. fst (search_worlds (\<lambda>w c. (Inl Rpcn_Error, c)) [1] ()) = Inr rooms \<and>
    fst (fetch_rooms_all 60 sorted_list_of_set 5 rooms \<lparr>prev_rooms = Some (snapshot_of [demo_room]), searching = []\<rparr>) = ([], rank) \<and>
    ''kim'' \<in> rd_owner_npid ` set rank"
  by (rule outage_reads_as_searching [of _ _ _ "[demo_room]" _ _ 7 "snapshot_room_of demo_room"])
    (simp_all add: keyed_def walks_sorted snapshot_of_def snapshot_room_of_def npids_of_def)

text \<open>Dropping the excluded accounts leaves a leaderboard that holds none of them, keeps every other entry in
  its place, and is again a competition ranking: each rank is one more than the number of better scores left.\<close>

theorem exclusion_keeps_ranking:
  assumes "competition_ranked (lb_entries lb)"
  shows "competition_ranked (lb_entries (without_excluded excluded lb)) \<and>
    map le_np_id (lb_entries (without_excluded excluded lb)) =
      filter (\<lambda>n. casefold n \<notin> casefold ` set excluded) (map le_np_id (lb_entries lb)) \<and>
    map le_score (lb_entries (without_excluded excluded lb)) =
      map le_score (filter (\<lambda>e. casefold (le_np_id e) \<notin> casefold ` set excluded) (lb_entries lb))"
  using without_excluded_ranked [OF assms]
  by (simp add: without_excluded_def Let_def is_ranking_excluded_def filter_map comp_def)

abbreviation demo_entry :: "nat \<Rightarrow> string \<Rightarrow> int \<Rightarrow> lb_entry" where
  "demo_entry r n s \<equiv> \<lparr>le_rank = r, le_np_id = n, le_online_name = n, le_score = s, le_pc_id = 0, le_record_date = 0,
     le_has_game_data = False, le_comment = [], le_player_info = None\<rparr>"

theorem exclusion_keeps_ranking_witness:
  "map le_np_id (lb_entries (without_excluded [''BOT'']
     \<lparr>lb_total_records = 2, lb_last_sort_date = 0, lb_entries = [demo_entry 1 ''bot'' 9, demo_entry 2 ''kim'' 5]\<rparr>)) = [''kim'']"
proof -
  let ?lb = "\<lparr>lb_total_records = 2, lb_last_sort_date = 0, lb_entries = [demo_entry 1 ''bot'' 9, demo_entry 2 ''kim'' 5]\<rparr>"
  have "competition_ranked (lb_entries ?lb)" by (simp add: competition_ranked_def)
  moreover have "filter (\<lambda>n. casefold n \<notin> casefold ` set [''BOT'']) (map le_np_id (lb_entries ?lb)) = [''kim'']" by code_simp
  ultimately show ?thesis using exclusion_keeps_ranking [of ?lb "[''BOT'']"] by simp
qed

text \<open>The characters, ranks, wins and losses a game writes into its leaderboard blob are the ones the service
  reads out of it, bytes that follow the known fields notwithstanding; a shorter blob reads as nothing.\<close>

theorem game_info_roundtrip:
  assumes "i1 < 256" "r1 < 256" "i2 < 256" "r2 < 256" "w1 < 2 ^ 32" "l1 < 2 ^ 32" "w2 < 2 ^ 32" "l2 < 2 ^ 32"
  shows "parse_game_info (game_info_blob (i1, r1, w1, l1) (i2, r2, w2, l2) @ extra) =
      Some \<lparr>gi_main = CharInfo i1 (Rank r1) w1 l1, gi_sub = CharInfo i2 (Rank r2) w2 l2\<rparr> \<and>
    (\<forall>n<20. parse_game_info (take n (game_info_blob (i1, r1, w1, l1) (i2, r2, w2, l2))) = None)"
  using parse_game_info_blob [OF assms] by (auto simp: parse_game_info_def game_info_size_def)

theorem game_info_roundtrip_witness:
  "parse_game_info (game_info_blob (4, 11, 300, 2) (9, 1, 0, 70000) @ [0, 0]) =
    Some \<lparr>gi_main = CharInfo 4 (Rank 11) 300 2, gi_sub = CharInfo 9 (Rank 1) 0 70000\<rparr>"
  using game_info_roundtrip [of 4 11 9 1 300 2 0 70000 "[0, 0]"] by simp

end
