(* ===== verification/History.thy ===== *)
theory History
  imports Matching_Service
begin

text \<open>
  \<open>src/history/\<close>: the statistics day, the tables of rank-match rooms, daily participants and activity
  samples with every query of \<open>adapters/postgresql.py\<close>, the cached reads of \<open>service.py\<close> and the
  collector that fills the tables (\<open>collector.py\<close>).  A date is the number of days since the epoch.  An
  average rounded to one decimal place is kept as its number of tenths.
\<close>

section \<open>The statistics day\<close>

definition stat_day_start_hour :: int where "stat_day_start_hour = 6"

text \<open>The date of the moment on a clock 9 - 6 hours ahead of UTC.\<close>

definition stat_day :: "instant \<Rightarrow> int" where
  "stat_day t = (t + (9 - stat_day_start_hour) * hour) div day"

definition stat_day_start :: "int \<Rightarrow> instant" where
  "stat_day_start d = d * day - (9 - stat_day_start_hour) * hour"

text \<open>The same boundary as SQL draws it: the wall clock in Seoul, six hours back, cast to a date.\<close>

definition sql_stat_day :: "instant \<Rightarrow> int" where
  "sql_stat_day t = (kst_wall t - stat_day_start_hour * hour) div day"

lemma sql_stat_day_eq: "sql_stat_day t = stat_day t"
  by (simp add: sql_stat_day_def stat_day_def kst_wall_def stat_day_start_hour_def)

lemma stat_day_iff: "stat_day t = d \<longleftrightarrow> stat_day_start d \<le> t \<and> t < stat_day_start (d + 1)"
proof -
  have "x div day = d \<longleftrightarrow> d * day \<le> x \<and> x < (d + 1) * day" for x :: int
  proof
    assume "x div day = d"
    then show "d * day \<le> x \<and> x < (d + 1) * day" using day_split [of x] by auto
  next
    assume "d * day \<le> x \<and> x < (d + 1) * day"
    then show "x div day = d" by (intro int_div_pos_eq [of _ _ _ "x - d * day"]) auto
  qed
  from this [of "t + 3 * hour"] show ?thesis
    by (simp add: stat_day_def stat_day_start_def stat_day_start_hour_def) linarith
qed

section \<open>Tables\<close>

record rank_match_snapshot =
  rs_room_id :: nat
  rs_rank_id :: nat
  rs_user1_npid :: string
  rs_user1_online_name :: string
  rs_user2_npid :: string
  rs_user2_online_name :: string
  rs_created_dt :: instant

record rank_match_row =
  rm_id :: nat
  rm_room_id :: nat
  rm_created_dt :: instant
  rm_last_seen_at :: instant
  rm_match_date :: int
  rm_rank_id :: nat
  rm_user1_npid :: string
  rm_user1_online_name :: string
  rm_user2_npid :: string
  rm_user2_online_name :: string

text \<open>A dict of two entries: the second user's wins when both are the same.\<close>

definition online_name_of :: "rank_match_row \<Rightarrow> string \<Rightarrow> string option" where
  "online_name_of row npid =
     (if npid = rm_user2_npid row then Some (rm_user2_online_name row)
      else if npid = rm_user1_npid row then Some (rm_user1_online_name row) else None)"

record daily_matched_row =
  dm_date :: int
  dm_npid :: string
  dm_first_seen_at :: instant

record activity_snapshot =
  as_observed_at :: instant
  as_total_players :: nat
  as_total_rooms :: nat
  as_rank_players :: nat
  as_rank_rooms :: nat

record hdb =
  rank_match_snapshots :: "rank_match_row list"
  daily_matched_players :: "daily_matched_row list"
  activity_snapshots :: "activity_snapshot list"
  next_snapshot_id :: nat

definition empty_hdb :: hdb where
  "empty_hdb = \<lparr>rank_match_snapshots = [], daily_matched_players = [], activity_snapshots = [], next_snapshot_id = 1\<rparr>"

section \<open>Writes\<close>

text \<open>The unique key of a room's day.\<close>

definition match_key :: "rank_match_row \<Rightarrow> nat \<times> string \<times> string \<times> int" where
  "match_key r = (rm_room_id r, rm_user1_npid r, rm_user2_npid r, rm_match_date r)"

definition snapshot_row :: "nat \<Rightarrow> rank_match_snapshot \<Rightarrow> rank_match_row" where
  "snapshot_row i room = \<lparr>rm_id = i, rm_room_id = rs_room_id room, rm_created_dt = rs_created_dt room,
     rm_last_seen_at = rs_created_dt room, rm_match_date = stat_day (rs_created_dt room),
     rm_rank_id = rs_rank_id room, rm_user1_npid = rs_user1_npid room,
     rm_user1_online_name = rs_user1_online_name room, rm_user2_npid = rs_user2_npid room,
     rm_user2_online_name = rs_user2_online_name room\<rparr>"

text \<open>\<open>INSERT ... ON CONFLICT DO NOTHING\<close>, row by row; a refused row has used up its id.\<close>

definition insert_snapshot :: "rank_match_snapshot \<Rightarrow> hdb \<Rightarrow> hdb" where
  "insert_snapshot room db =
     (let row = snapshot_row (next_snapshot_id db) room;
          rows = rank_match_snapshots db
      in db\<lparr>rank_match_snapshots := (if match_key row \<in> set (map match_key rows) then rows else rows @ [row]),
            next_snapshot_id := Suc (next_snapshot_id db)\<rparr>)"

definition record_snapshot :: "rank_match_snapshot list \<Rightarrow> hdb \<Rightarrow> hdb" where
  "record_snapshot rooms db = fold insert_snapshot rooms db"

definition live_room_window :: int where "live_room_window = day"
definition room_end_slack :: int where "room_end_slack = 90 * second"

definition touched :: "rank_match_snapshot list \<Rightarrow> instant \<Rightarrow> rank_match_row \<Rightarrow> bool" where
  "touched rooms observed_at r \<longleftrightarrow>
     (rm_room_id r, rm_user1_npid r, rm_user2_npid r) \<in>
       set (map (\<lambda>room. (rs_room_id room, rs_user1_npid room, rs_user2_npid room)) rooms) \<and>
     rm_created_dt r \<ge> observed_at - live_room_window"

definition touch_rank_matches :: "rank_match_snapshot list \<Rightarrow> instant \<Rightarrow> hdb \<Rightarrow> hdb" where
  "touch_rank_matches rooms observed_at db =
     db\<lparr>rank_match_snapshots := update_where (touched rooms observed_at)
          (\<lambda>r. r\<lparr>rm_last_seen_at := observed_at\<rparr>) (rank_match_snapshots db)\<rparr>"

record rank_room =
  rr_room_snapshot_id :: nat
  rr_user1_npid :: string
  rr_user2_npid :: string

definition in_room_at :: "string \<Rightarrow> instant \<Rightarrow> rank_match_row \<Rightarrow> bool" where
  "in_room_at npid t r \<longleftrightarrow> (rm_user1_npid r = npid \<or> rm_user2_npid r = npid) \<and>
     rm_created_dt r \<le> t \<and> rm_last_seen_at r \<ge> t - room_end_slack"

definition find_rank_room :: "string \<Rightarrow> instant \<Rightarrow> hdb \<Rightarrow> rank_room option" where
  "find_rank_room npid t db =
     (case sort_key (\<lambda>r. - rm_created_dt r) (filter (in_room_at npid t) (rank_match_snapshots db)) of
        [] \<Rightarrow> None
      | r # _ \<Rightarrow> Some \<lparr>rr_room_snapshot_id = rm_id r, rr_user1_npid = rm_user1_npid r, rr_user2_npid = rm_user2_npid r\<rparr>)"

definition insert_daily :: "int \<Rightarrow> instant \<Rightarrow> string \<Rightarrow> daily_matched_row list \<Rightarrow> daily_matched_row list" where
  "insert_daily date observed_at npid rows =
     (if (date, npid) \<in> set (map (\<lambda>r. (dm_date r, dm_npid r)) rows) then rows
      else rows @ [\<lparr>dm_date = date, dm_npid = npid, dm_first_seen_at = observed_at\<rparr>])"

text \<open>The participants are given in the order their set is walked.\<close>

definition record_daily_matched_players :: "string list \<Rightarrow> instant \<Rightarrow> hdb \<Rightarrow> hdb" where
  "record_daily_matched_players npids observed_at db =
     db\<lparr>daily_matched_players := fold (insert_daily (stat_day observed_at) observed_at) (filter (\<lambda>n. n \<noteq> []) npids)
          (daily_matched_players db)\<rparr>"

definition activity_retention_days :: int where "activity_retention_days = 90"

definition record_activity_snapshot :: "instant \<Rightarrow> activity_snapshot \<Rightarrow> hdb \<Rightarrow> hdb" where
  "record_activity_snapshot dbnow snapshot db =
     db\<lparr>activity_snapshots := filter (\<lambda>s. \<not> as_observed_at s < dbnow - activity_retention_days * day)
          (activity_snapshots db @ [snapshot])\<rparr>"

section \<open>Reads\<close>

text \<open>\<open>round(avg(x), 1)\<close> of a nonempty group, in tenths: the half rounds up.\<close>

definition avg_tenths :: "nat list \<Rightarrow> nat" where
  "avg_tenths xs = (20 * sum_list xs + length xs) div (2 * length xs)"

definition kst_hour :: "instant \<Rightarrow> int" where
  "kst_hour t = kst_wall t mod day div hour"

record hourly_activity =
  ha_hour :: int
  ha_avg_tenths :: nat
  ha_peak_players :: nat

definition hourly_group :: "activity_snapshot list \<Rightarrow> int \<Rightarrow> hourly_activity" where
  "hourly_group rows h =
     (let xs = map as_total_players (filter (\<lambda>s. kst_hour (as_observed_at s) = h) rows) in
      if xs = [] then \<lparr>ha_hour = h, ha_avg_tenths = 0, ha_peak_players = 0\<rparr>
      else \<lparr>ha_hour = h, ha_avg_tenths = avg_tenths xs, ha_peak_players = fold max xs 0\<rparr>)"

definition get_hourly_activity :: "instant \<Rightarrow> int \<Rightarrow> hdb \<Rightarrow> hourly_activity list" where
  "get_hourly_activity dbnow days db =
     (let rows = filter (\<lambda>s. as_observed_at s \<ge> dbnow - days * day) (activity_snapshots db) in
      map (\<lambda>off. hourly_group rows ((stat_day_start_hour + off) mod 24)) (map int [0..<24]))"

record daily_summary =
  ds_date :: int
  ds_peak_players :: "nat option"
  ds_avg_tenths :: "nat option"
  ds_peak_rooms :: "nat option"
  ds_unique_players :: nat

text \<open>The full outer join of two groupings by day, ordered by the day.\<close>

definition get_daily_summary :: "instant \<Rightarrow> int \<Rightarrow> hdb \<Rightarrow> daily_summary list" where
  "get_daily_summary now days db =
     (let start_date = stat_day now - (days - 1);
          players = filter (\<lambda>r. dm_date r \<ge> start_date) (daily_matched_players db);
          samples = filter (\<lambda>s. as_observed_at s \<ge> stat_day_start start_date) (activity_snapshots db);
          dates = sort (remdups (map (\<lambda>s. sql_stat_day (as_observed_at s)) samples @ map dm_date players))
      in map (\<lambda>d.
           let g = filter (\<lambda>s. sql_stat_day (as_observed_at s) = d) samples in
           \<lparr>ds_date = d,
            ds_peak_players = (if g = [] then None else Some (fold max (map as_total_players g) 0)),
            ds_avg_tenths = (if g = [] then None else Some (avg_tenths (map as_total_players g))),
            ds_peak_rooms = (if g = [] then None else Some (fold max (map as_total_rooms g) 0)),
            ds_unique_players = length (filter (\<lambda>r. dm_date r = d) players)\<rparr>) dates)"

record player_stats =
  pl_npid :: string
  pl_days_active :: nat
  pl_times_seen :: nat
  pl_first_seen :: "instant option"
  pl_last_seen :: "instant option"
  pl_active_hours :: "int list"

text \<open>\<open>generate_series(date_trunc('hour', a), b, 1 hour)\<close>.\<close>

definition room_hours :: "rank_match_row \<Rightarrow> instant list" where
  "room_hours r =
     (let a = rm_created_dt r div hour * hour in
      map (\<lambda>i. a + int i * hour) [0..<nat ((rm_last_seen_at r - a) div hour + 1)])"

definition get_player_stats :: "instant \<Rightarrow> string \<Rightarrow> int \<Rightarrow> hdb \<Rightarrow> player_stats" where
  "get_player_stats dbnow npid days db =
     (let mine = filter (\<lambda>r. rm_user1_npid r = npid \<or> rm_user2_npid r = npid) (rank_match_snapshots db);
          seen = map rm_created_dt (filter (\<lambda>r. rm_created_dt r \<ge> dbnow - days * day) mine);
          hours = concat (map room_hours (filter (\<lambda>r. rm_created_dt r \<ge> dbnow - 7 * day) mine));
          day_count = (\<lambda>h. length (remdups (map sql_stat_day (filter (\<lambda>t. kst_hour t = h) hours))))
      in \<lparr>pl_npid = npid,
          pl_days_active = length (remdups (map sql_stat_day seen)),
          pl_times_seen = length seen,
          pl_first_seen = (if seen = [] then None else Some (fold min seen (hd seen))),
          pl_last_seen = (if seen = [] then None else Some (fold max seen (hd seen))),
          pl_active_hours = filter (\<lambda>h. day_count h \<ge> 2) (sort (remdups (map kst_hour hours)))\<rparr>)"

end
