(* ===== verification/Collector.thy ===== *)
theory Collector
  imports History
begin

text \<open>
  \<open>src/history/service.py\<close> and \<open>collector.py\<close>: the cached statistics, and the cycle that records who is
  playing.  Each write is a transaction of its own that may fail; \<open>fails\<close> says which ones do in a cycle.
\<close>

section \<open>The tables' keys\<close>

definition history_ok :: "hdb \<Rightarrow> bool" where
  "history_ok db \<longleftrightarrow>
     distinct (map match_key (rank_match_snapshots db)) \<and> distinct (map rm_id (rank_match_snapshots db)) \<and>
     (\<forall>r\<in>set (rank_match_snapshots db). rm_id r < next_snapshot_id db \<and> rm_match_date r = stat_day (rm_created_dt r)) \<and>
     distinct (map (\<lambda>r. (dm_date r, dm_npid r)) (daily_matched_players db))"

lemma empty_history_ok: "history_ok empty_hdb"
  by (simp add: history_ok_def empty_hdb_def)

lemma insert_snapshot_ok: "history_ok db \<Longrightarrow> history_ok (insert_snapshot room db)"
  by (auto simp: history_ok_def insert_snapshot_def Let_def snapshot_row_def less_Suc_eq)

lemma record_snapshot_ok: "history_ok db \<Longrightarrow> history_ok (record_snapshot rooms db)"
  unfolding record_snapshot_def by (rule fold_keeps [where P = history_ok]) (simp_all add: insert_snapshot_ok)

lemma touch_ok: "history_ok db \<Longrightarrow> history_ok (touch_rank_matches rooms t db)"
proof -
  have k: "match_key (r\<lparr>rm_last_seen_at := t\<rparr>) = match_key r" for r by (simp add: match_key_def)
  have b: "(\<forall>r\<in>set (update_where P (\<lambda>r. r\<lparr>rm_last_seen_at := t\<rparr>) rows). rm_id r < n \<and> rm_match_date r = stat_day (rm_created_dt r))
      = (\<forall>r\<in>set rows. rm_id r < n \<and> rm_match_date r = stat_day (rm_created_dt r))" for P rows n
    by (rule ball_update_where) simp
  show "history_ok db \<Longrightarrow> history_ok (touch_rank_matches rooms t db)"
    by (simp add: history_ok_def touch_rank_matches_def map_update_where_frame k b)
qed

lemma distinct_insert_daily:
  "distinct (map (\<lambda>r. (dm_date r, dm_npid r)) rows) \<Longrightarrow> distinct (map (\<lambda>r. (dm_date r, dm_npid r)) (insert_daily d t n rows))"
  by (auto simp: insert_daily_def)

lemma daily_ok: "history_ok db \<Longrightarrow> history_ok (record_daily_matched_players npids t db)"
  unfolding history_ok_def record_daily_matched_players_def
  by (auto intro!: fold_keeps [where P = "\<lambda>rows. distinct (map (\<lambda>r. (dm_date r, dm_npid r)) rows)"] distinct_insert_daily)

lemma activity_ok [simp]: "history_ok (record_activity_snapshot dbnow s db) = history_ok db"
  by (simp add: history_ok_def record_activity_snapshot_def)

section \<open>Cached reads\<close>

definition cached_hourly ::
  "int \<Rightarrow> instant \<Rightarrow> string \<Rightarrow> instant \<Rightarrow> int \<Rightarrow> hdb \<Rightarrow> hourly_activity list dict_cache \<Rightarrow>
     (unit + hourly_activity list) \<times> hourly_activity list dict_cache" where
  "cached_hourly ttl now key dbnow days db c =
     read_through dict_get dict_set (\<lambda>v. v \<noteq> []) key ttl now (Inr (get_hourly_activity dbnow days db)) c"

definition cached_daily ::
  "int \<Rightarrow> instant \<Rightarrow> string \<Rightarrow> instant \<Rightarrow> int \<Rightarrow> hdb \<Rightarrow> daily_summary list dict_cache \<Rightarrow>
     (unit + daily_summary list) \<times> daily_summary list dict_cache" where
  "cached_daily ttl now days_key clock days db c =
     read_through dict_get dict_set (\<lambda>v. v \<noteq> []) (''history:daily:'' @ days_key) ttl now
       (Inr (get_daily_summary clock days db)) c"

definition cached_player_stats ::
  "int \<Rightarrow> instant \<Rightarrow> string \<Rightarrow> instant \<Rightarrow> string \<Rightarrow> int \<Rightarrow> hdb \<Rightarrow> player_stats dict_cache \<Rightarrow>
     (unit + player_stats) \<times> player_stats dict_cache" where
  "cached_player_stats ttl now key dbnow npid days db c =
     read_through dict_get dict_set (\<lambda>_. True) key ttl now (Inr (get_player_stats dbnow npid days db)) c"

section \<open>The collector\<close>

definition to_snapshot_record :: "instant \<Rightarrow> room_dto \<Rightarrow> rank_match_snapshot" where
  "to_snapshot_record observed_at room =
     (let u1 = (case rd_users room of [] \<Rightarrow> None | u # _ \<Rightarrow> Some u);
          u2 = (case rd_users room of _ # u # _ \<Rightarrow> Some u | _ \<Rightarrow> None);
          npid = (\<lambda>u. case u of None \<Rightarrow> [] | Some x \<Rightarrow> ru_npid x);
          name = (\<lambda>u. case u of None \<Rightarrow> [] | Some x \<Rightarrow> ru_online_name x)
      in \<lparr>rs_room_id = rd_room_id room,
          rs_rank_id = (case rd_rank_info room of None \<Rightarrow> 0 | Some k \<Rightarrow> rk_id k),
          rs_user1_npid = npid u1, rs_user1_online_name = name u1,
          rs_user2_npid = npid u2, rs_user2_online_name = name u2, rs_created_dt = observed_at\<rparr>)"

datatype hwrite = Daily_Write | Activity_Write | Snapshot_Write | Touch_Write

record collector =
  co_db :: hdb
  co_prev :: "nat set"
  co_daily :: "daily_summary list dict_cache"

definition new_collector :: "hdb \<Rightarrow> collector" where
  "new_collector db = \<lparr>co_db = db, co_prev = {}, co_daily = Map.empty\<rparr>"

text \<open>The statistics' two writes clear the cached summaries once they have committed.\<close>

definition store_daily :: "(hwrite \<Rightarrow> bool) \<Rightarrow> string list \<Rightarrow> instant \<Rightarrow> collector \<Rightarrow> unit + collector" where
  "store_daily fails npids observed_at s =
     (if \<not> (\<exists>n\<in>set npids. n \<noteq> []) then Inr s
      else if fails Daily_Write then Inl ()
      else Inr (s\<lparr>co_db := record_daily_matched_players npids observed_at (co_db s),
                 co_daily := dict_delete_pattern ''history:daily:*'' (co_daily s)\<rparr>))"

definition store_activity :: "(hwrite \<Rightarrow> bool) \<Rightarrow> instant \<Rightarrow> activity_snapshot \<Rightarrow> collector \<Rightarrow> unit + collector" where
  "store_activity fails dbnow snapshot s =
     (if fails Activity_Write then Inl ()
      else Inr (s\<lparr>co_db := record_activity_snapshot dbnow snapshot (co_db s),
                 co_daily := dict_delete_pattern ''history:daily:*'' (co_daily s)\<rparr>))"

definition record_new_rank_matches :: "(hwrite \<Rightarrow> bool) \<Rightarrow> room_dto list \<Rightarrow> instant \<Rightarrow> collector \<Rightarrow> unit + collector" where
  "record_new_rank_matches fails rooms observed_at s =
     (let new_rooms = filter (\<lambda>r. rd_room_id r \<notin> co_prev s) rooms in
      bindR (if new_rooms = [] then Inr s
             else if fails Snapshot_Write then Inl ()
             else Inr (s\<lparr>co_db := record_snapshot (map (to_snapshot_record observed_at) new_rooms) (co_db s)\<rparr>))
        (\<lambda>s1. Inr (s1\<lparr>co_prev := set (map rd_room_id rooms)\<rparr>)))"

definition store_touch :: "(hwrite \<Rightarrow> bool) \<Rightarrow> rank_match_snapshot list \<Rightarrow> instant \<Rightarrow> collector \<Rightarrow> unit + collector" where
  "store_touch fails rooms observed_at s =
     (if rooms = [] then Inr s else if fails Touch_Write then Inl ()
      else Inr (s\<lparr>co_db := touch_rank_matches rooms observed_at (co_db s)\<rparr>))"

text \<open>
  A step that raises ends the cycle with what the earlier ones committed.  \<open>npids\<close> is the participant
  set as it is walked.
\<close>

fun then_step :: "bool \<times> 's \<Rightarrow> ('s \<Rightarrow> unit + 's) \<Rightarrow> bool \<times> 's" where
  "then_step (False, s) step = (False, s)"
| "then_step (True, s) step = (case step s of Inl _ \<Rightarrow> (False, s) | Inr s' \<Rightarrow> (True, s'))"

definition collect_once ::
  "(hwrite \<Rightarrow> bool) \<Rightarrow> instant \<Rightarrow> instant \<Rightarrow> string list \<Rightarrow> (unit + activity_observation) \<Rightarrow> collector \<Rightarrow> bool \<times> collector" where
  "collect_once fails observed_at dbnow npids observed s =
     (case observed of
        Inl _ \<Rightarrow> (False, s)
      | Inr ob \<Rightarrow>
          then_step (then_step (then_step (then_step (True, s)
            (store_daily fails npids observed_at))
            (store_activity fails dbnow \<lparr>as_observed_at = observed_at, as_total_players = ao_total_players ob,
               as_total_rooms = ao_total_rooms ob, as_rank_players = ao_rank_players ob,
               as_rank_rooms = ao_rank_rooms ob\<rparr>))
            (record_new_rank_matches fails (ao_rank_matches ob) observed_at))
            (store_touch fails (map (to_snapshot_record observed_at) (ao_rank_matches ob)) observed_at))"

lemma then_step_True: "then_step r step = (True, s') \<longleftrightarrow> (\<exists>s. r = (True, s) \<and> step s = Inr s')"
  by (cases "(r, step)" rule: then_step.cases) (auto split: sum.splits)

lemma then_step_keeps:
  "P (snd r) \<Longrightarrow> (\<And>s s'. P s \<Longrightarrow> step s = Inr s' \<Longrightarrow> P s') \<Longrightarrow> P (snd (then_step r step))"
  by (cases "(r, step)" rule: then_step.cases) (auto split: sum.splits)

lemma collect_once_ok:
  "history_ok (co_db s) \<Longrightarrow> history_ok (co_db (snd (collect_once fails t dbnow npids ob s)))"
  unfolding collect_once_def
  by (auto split: sum.splits if_splits simp: Let_def store_daily_def store_activity_def record_new_rank_matches_def store_touch_def
      intro!: then_step_keeps [where P = "\<lambda>s. history_ok (co_db s)"] daily_ok record_snapshot_ok touch_ok)

text \<open>
  The loop never ends on its own and a failed cycle never ends it: \<open>cycles\<close> is what each pass met until the task
  was cancelled, and the passes' outcomes are what the log would show.
\<close>

record cycle =
  cy_fails :: "hwrite \<Rightarrow> bool"
  cy_at :: instant
  cy_dbnow :: instant
  cy_npids :: "string list"
  cy_observed :: "unit + activity_observation"

fun collector_run :: "cycle list \<Rightarrow> collector \<Rightarrow> bool list \<times> collector" where
  "collector_run [] s = ([], s)"
| "collector_run (c # cs) s =
     (let (good, s1) = collect_once (cy_fails c) (cy_at c) (cy_dbnow c) (cy_npids c) (cy_observed c) s;
          (log, s2) = collector_run cs s1 in (good # log, s2))"

lemma collector_run_ok: "history_ok (co_db s) \<Longrightarrow> history_ok (co_db (snd (collector_run cycles s)))"
  by (induction cycles arbitrary: s) (simp_all add: split_beta collect_once_ok)

lemma collector_run_length: "length (fst (collector_run cycles s)) = length cycles"
  by (induction cycles arbitrary: s) (simp_all add: split_beta)

section \<open>A match in progress is on record after one good cycle\<close>

definition room_key :: "rank_match_row \<Rightarrow> nat \<times> string \<times> string" where
  "room_key r = (rm_room_id r, rm_user1_npid r, rm_user2_npid r)"

definition snapshot_key :: "rank_match_snapshot \<Rightarrow> nat \<times> string \<times> string" where
  "snapshot_key room = (rs_room_id room, rs_user1_npid room, rs_user2_npid room)"

definition on_record :: "instant \<Rightarrow> nat \<times> string \<times> string \<Rightarrow> rank_match_row list \<Rightarrow> bool" where
  "on_record t k rows \<longleftrightarrow> (\<exists>r\<in>set rows. room_key r = k \<and> stat_day (rm_created_dt r) = stat_day t \<and> rm_created_dt r \<le> t)"

definition no_later :: "instant \<Rightarrow> hdb \<Rightarrow> bool" where
  "no_later t db \<longleftrightarrow> (\<forall>r\<in>set (rank_match_snapshots db). rm_created_dt r \<le> t)"

lemma insert_snapshot_records:
  assumes "history_ok db" and "no_later t db" and "rs_created_dt room = t"
  shows "on_record t (snapshot_key room) (rank_match_snapshots (insert_snapshot room db))"
    and "no_later t (insert_snapshot room db)"
    and "on_record t k (rank_match_snapshots db) \<Longrightarrow> on_record t k (rank_match_snapshots (insert_snapshot room db))"
proof -
  let ?row = "snapshot_row (next_snapshot_id db) room"
  show "on_record t (snapshot_key room) (rank_match_snapshots (insert_snapshot room db))"
  proof (cases "match_key ?row \<in> set (map match_key (rank_match_snapshots db))")
    case True
    then obtain r where "r \<in> set (rank_match_snapshots db)" "match_key r = match_key ?row" by auto
    then show ?thesis using True assms
      by (auto simp: on_record_def insert_snapshot_def Let_def match_key_def room_key_def snapshot_key_def
          snapshot_row_def history_ok_def no_later_def intro!: bexI [of _ r])
  next
    case False
    then show ?thesis using assms(3)
      by (auto simp: on_record_def insert_snapshot_def Let_def room_key_def snapshot_key_def snapshot_row_def)
  qed
  show "no_later t (insert_snapshot room db)"
    using assms(2,3) by (auto simp: no_later_def insert_snapshot_def Let_def snapshot_row_def)
  show "on_record t k (rank_match_snapshots db) \<Longrightarrow> on_record t k (rank_match_snapshots (insert_snapshot room db))"
    by (auto simp: on_record_def insert_snapshot_def Let_def)
qed

lemma record_snapshot_records:
  assumes "history_ok db" and "no_later t db" and "\<forall>room\<in>set rooms. rs_created_dt room = t"
  shows "(\<forall>room\<in>set rooms. on_record t (snapshot_key room) (rank_match_snapshots (record_snapshot rooms db))) \<and>
    no_later t (record_snapshot rooms db) \<and>
    (\<forall>k. on_record t k (rank_match_snapshots db) \<longrightarrow> on_record t k (rank_match_snapshots (record_snapshot rooms db)))"
  using assms unfolding record_snapshot_def
proof (induction rooms arbitrary: db)
  case (Cons room rooms)
  then have t: "rs_created_dt room = t" by simp
  note one = insert_snapshot_records [OF Cons.prems(1,2) t]
  have "\<forall>room\<in>set rooms. rs_created_dt room = t" using Cons.prems(3) by simp
  from Cons.IH [OF insert_snapshot_ok [OF Cons.prems(1)] one(2) this] show ?case
    using one(1,3) by (auto simp del: split_paired_All)
qed simp

lemma touch_records:
  assumes "on_record t (snapshot_key room) (rank_match_snapshots db)" and "room \<in> set rooms"
  shows "\<exists>r\<in>set (rank_match_snapshots (touch_rank_matches rooms t db)). room_key r = snapshot_key room \<and>
    rm_created_dt r \<le> t \<and> rm_last_seen_at r = t"
proof -
  from assms(1) obtain r where r: "r \<in> set (rank_match_snapshots db)" "room_key r = snapshot_key room"
    "stat_day (rm_created_dt r) = stat_day t" "rm_created_dt r \<le> t"
    by (auto simp: on_record_def)
  have "rm_created_dt r \<ge> t - live_room_window"
    using r(3) unfolding stat_day_iff [of "rm_created_dt r"]
    using stat_day_iff [of t "stat_day t"] by (simp add: live_room_window_def stat_day_start_def)
  then have "touched rooms t r" using r(2) assms(2) by (force simp: touched_def room_key_def snapshot_key_def)
  then show ?thesis using r
    by (intro bexI [of _ "r\<lparr>rm_last_seen_at := t\<rparr>"]) (auto simp: touch_rank_matches_def set_update_where room_key_def)
qed

lemma insert_no_later: "rs_created_dt room \<le> t \<Longrightarrow> no_later t db \<Longrightarrow> no_later t (insert_snapshot room db)"
  by (auto simp: no_later_def insert_snapshot_def Let_def snapshot_row_def)

lemma record_snapshot_no_later:
  "\<forall>room\<in>set rooms. rs_created_dt room \<le> t \<Longrightarrow> no_later t db \<Longrightarrow> no_later t (record_snapshot rooms db)"
  unfolding record_snapshot_def by (induction rooms arbitrary: db) (simp_all add: insert_no_later)

lemma touch_no_later [simp]: "no_later t (touch_rank_matches rooms u db) = no_later t db"
proof -
  have "map rm_created_dt (rank_match_snapshots (touch_rank_matches rooms u db)) = map rm_created_dt (rank_match_snapshots db)"
    by (simp add: touch_rank_matches_def map_update_where_frame)
  then have "rm_created_dt ` set (rank_match_snapshots (touch_rank_matches rooms u db)) = rm_created_dt ` set (rank_match_snapshots db)"
    by (simp only: list.set_map [symmetric])
  moreover have "no_later t h \<longleftrightarrow> (\<forall>x\<in>rm_created_dt ` set (rank_match_snapshots h). x \<le> t)" for h
    by (auto simp: no_later_def)
  ultimately show ?thesis by (simp only:)
qed

lemma stats_no_later [simp]:
  "no_later t (record_daily_matched_players npids u db) = no_later t db"
  "no_later t (record_activity_snapshot dbnow a db) = no_later t db"
  by (simp_all add: no_later_def record_daily_matched_players_def record_activity_snapshot_def)

lemma collect_once_no_later:
  "u \<le> t \<Longrightarrow> no_later t (co_db s) \<Longrightarrow> no_later t (co_db (snd (collect_once fails u dbnow npids ob s)))"
  unfolding collect_once_def
  by (auto split: sum.splits if_splits simp: Let_def store_daily_def store_activity_def record_new_rank_matches_def store_touch_def
      to_snapshot_record_def
      intro!: then_step_keeps [where P = "\<lambda>s. no_later t (co_db s)"] record_snapshot_no_later)

lemma collector_run_no_later:
  "\<forall>c\<in>set cycles. cy_at c \<le> t \<Longrightarrow> no_later t (co_db s) \<Longrightarrow> no_later t (co_db (snd (collector_run cycles s)))"
  by (induction cycles arbitrary: s) (simp_all add: split_beta collect_once_no_later)

lemma collector_run_append:
  "collector_run (cs @ ds) s =
     (let (log, s1) = collector_run cs s; (log2, s2) = collector_run ds s1 in (log @ log2, s2))"
  by (induction cs arbitrary: s) (auto simp: split_beta)

lemma collect_once_records:
  assumes ok: "history_ok (co_db s)" and past: "no_later t (co_db s)"
    and run: "collect_once fails t dbnow npids (Inr ob) s = (True, s')"
    and room: "room \<in> set (ao_rank_matches ob)" "rd_room_id room \<notin> co_prev s"
  shows "\<exists>r\<in>set (rank_match_snapshots (co_db s')). room_key r = snapshot_key (to_snapshot_record t room) \<and>
    rm_created_dt r \<le> t \<and> rm_last_seen_at r = t"
proof -
  let ?recs = "map (to_snapshot_record t)"
  from run obtain s1 s2 s3 where steps: "store_daily fails npids t s = Inr s1"
    "\<exists>a. store_activity fails dbnow a s1 = Inr s2" "record_new_rank_matches fails (ao_rank_matches ob) t s2 = Inr s3"
    "store_touch fails (?recs (ao_rank_matches ob)) t s3 = Inr s'"
    by (auto simp: collect_once_def then_step_True simp del: then_step.simps)
  have s2: "rank_match_snapshots (co_db s2) = rank_match_snapshots (co_db s)" "co_prev s2 = co_prev s"
    using steps(1,2) by (auto simp: store_daily_def store_activity_def record_daily_matched_players_def
        record_activity_snapshot_def split: if_splits)
  have ok2: "history_ok (co_db s2)"
    using ok steps(1,2) by (auto simp: store_daily_def store_activity_def intro: daily_ok split: if_splits)
  have past2: "no_later t (co_db s2)" using past by (simp add: no_later_def s2)
  define new where "new = filter (\<lambda>r. rd_room_id r \<notin> co_prev s) (ao_rank_matches ob)"
  have new: "room \<in> set new" using room by (simp add: new_def)
  then have s3: "co_db s3 = record_snapshot (?recs new) (co_db s2)"
    using steps(3) by (auto simp: record_new_rank_matches_def Let_def s2 new_def [symmetric] split: if_splits)
  have "on_record t (snapshot_key (to_snapshot_record t room)) (rank_match_snapshots (co_db s3))"
    unfolding s3 using record_snapshot_records [OF ok2 past2, of "?recs new"] new
    by (auto simp: to_snapshot_record_def Let_def)
  moreover have "co_db s' = touch_rank_matches (?recs (ao_rank_matches ob)) t (co_db s3)"
    using steps(4) room(1) by (auto simp: store_touch_def split: if_splits)
  ultimately show ?thesis using touch_records room(1) by simp
qed

lemma find_rank_room_Some:
  assumes "r \<in> set (rank_match_snapshots db)" and "in_room_at npid t r"
  shows "\<exists>m\<in>set (rank_match_snapshots db). in_room_at npid t m \<and> rm_created_dt r \<le> rm_created_dt m \<and>
    find_rank_room npid t db = Some \<lparr>rr_room_snapshot_id = rm_id m, rr_user1_npid = rm_user1_npid m,
      rr_user2_npid = rm_user2_npid m\<rparr>"
proof -
  let ?rows = "sort_key (\<lambda>r. - rm_created_dt r) (filter (in_room_at npid t) (rank_match_snapshots db))"
  have mem: "r \<in> set ?rows" using assms by simp
  then obtain m rest where m: "?rows = m # rest" by (cases ?rows) auto
  have "sorted (map (\<lambda>r. - rm_created_dt r) (m # rest))" unfolding m [symmetric] by simp
  moreover have "r = m \<or> r \<in> set rest" using mem m by auto
  ultimately have "rm_created_dt r \<le> rm_created_dt m" by auto
  moreover have "m \<in> set ?rows" unfolding m by simp
  then have "m \<in> set (rank_match_snapshots db)" "in_room_at npid t m" by simp_all
  ultimately show ?thesis by (intro bexI [of _ m]) (simp_all add: find_rank_room_def m)
qed

end
