(* ===== verification/Records_Domain.thy ===== *)
theory Records_Domain
  imports Collector
begin

text \<open>
  \<open>src/records/domain.py\<close> and the data of \<open>models.py\<close>: finding a finished match by comparing two saves of a
  player, and telling the sides of a match apart.
\<close>

section \<open>Data\<close>

datatype outcome = WIN | LOSS
datatype side = P1 | P2

fun other :: "side \<Rightarrow> side" where
  "other P1 = P2"
| "other P2 = P1"

datatype event_status = PENDING | DONE | DEAD

record char_tally =
  ct_wins :: int
  ct_losses :: int
  ct_rank :: "nat option"

record player_save =
  sv_npid :: string
  sv_data_id :: nat
  sv_saved_at :: instant
  sv_wins :: int
  sv_losses :: int
  sv_tallies :: "(nat \<times> char_tally) list"
  sv_entered_chars :: "nat list"

text \<open>A save as save-admin answers it; \<open>saved_utc\<close> is text, which \<open>datetime.fromisoformat\<close> reads or refuses.\<close>

record answer_char =
  ac_id :: nat
  ac_wins :: int
  ac_losses :: int
  ac_rank :: "nat option"

record save_answer =
  sa_npid :: string
  sa_data_id :: nat
  sa_saved_utc :: string
  sa_wins :: int
  sa_losses :: int
  sa_chars :: "answer_char list"
  sa_own_chars :: "nat list"

definition from_answer :: "(string \<Rightarrow> 'x + instant) \<Rightarrow> save_answer \<Rightarrow> 'x + player_save" where
  "from_answer fromisoformat a =
     bindR (fromisoformat (sa_saved_utc a)) (\<lambda>saved.
     Inr \<lparr>sv_npid = sa_npid a, sv_data_id = sa_data_id a, sv_saved_at = saved, sv_wins = sa_wins a,
          sv_losses = sa_losses a,
          sv_tallies = fold (\<lambda>c. AList.update (ac_id c)
             \<lparr>ct_wins = ac_wins c, ct_losses = ac_losses c, ct_rank = ac_rank c\<rparr>) (sa_chars a) [],
          sv_entered_chars = sa_own_chars a\<rparr>)"

record player_match =
  pm_outcome :: outcome
  pm_chars :: "nat list"
  pm_ranks :: "nat option list"

record comparison =
  cp_match :: "player_match option"
  cp_merged :: bool

section \<open>Comparing\<close>

datatype key_error = Key_Error

definition no_tally :: char_tally where
  "no_tally = \<lparr>ct_wins = 0, ct_losses = 0, ct_rank = None\<rparr>"

definition tally_of :: "player_save \<Rightarrow> nat \<Rightarrow> char_tally" where
  "tally_of save c = (case map_of (sv_tallies save) c of None \<Rightarrow> no_tally | Some t \<Rightarrow> t)"

fun count_of :: "char_tally \<Rightarrow> outcome \<Rightarrow> int" where
  "count_of t WIN = ct_wins t"
| "count_of t LOSS = ct_losses t"

definition raised :: "player_save \<Rightarrow> player_save \<Rightarrow> outcome \<Rightarrow> nat list" where
  "raised before after out =
     map fst (filter (\<lambda>(c, t). count_of t out > count_of (tally_of before c) out) (sv_tallies after))"

definition played :: "player_save \<Rightarrow> player_save \<Rightarrow> outcome \<Rightarrow> nat list" where
  "played before after out =
     (if set (sv_entered_chars before) = set (raised before after out) then sv_entered_chars before
      else sorted_list_of_set (set (raised before after out)))"

definition rank_going_in :: "player_save \<Rightarrow> player_save \<Rightarrow> nat \<Rightarrow> key_error + nat option" where
  "rank_going_in before after c =
     (case ct_rank (tally_of before c) of
        None \<Rightarrow> (case map_of (sv_tallies after) c of None \<Rightarrow> Inl Key_Error | Some t \<Rightarrow> Inr (ct_rank t))
      | Some r \<Rightarrow> Inr (Some r))"

definition one_match :: "int \<times> int \<Rightarrow> outcome option" where
  "one_match change = (if change = (1, 0) then Some WIN else if change = (0, 1) then Some LOSS else None)"

definition compare :: "player_save \<Rightarrow> player_save \<Rightarrow> key_error + comparison" where
  "compare before after =
     (let change = (sv_wins after - sv_wins before, sv_losses after - sv_losses before) in
      if change = (0, 0) then Inr \<lparr>cp_match = None, cp_merged = False\<rparr>
      else case one_match change of
        None \<Rightarrow> Inr \<lparr>cp_match = None, cp_merged = True\<rparr>
      | Some out \<Rightarrow>
          let chars = played before after out in
          bindR (mapR (rank_going_in before after) chars) (\<lambda>ranks.
          Inr \<lparr>cp_match = Some \<lparr>pm_outcome = out, pm_chars = chars, pm_ranks = ranks\<rparr>, cp_merged = False\<rparr>))"

lemma set_played: "set (played before after out) = set (raised before after out)"
  by (simp add: played_def)

text \<open>Every character a match was played with is in the save after it, so no rank lookup can fail.\<close>

definition rank_at :: "player_save \<Rightarrow> player_save \<Rightarrow> nat \<Rightarrow> nat option" where
  "rank_at before after c =
     (case ct_rank (tally_of before c) of None \<Rightarrow> ct_rank (tally_of after c) | Some r \<Rightarrow> Some r)"

lemma rank_going_in_raised:
  assumes "c \<in> set (raised before after out)"
  shows "rank_going_in before after c = Inr (rank_at before after c)"
proof -
  have "c \<in> set (map fst (sv_tallies after))" using assms by (auto simp: raised_def)
  then obtain t where "map_of (sv_tallies after) c = Some t"
    by (metis map_of_eq_None_iff not_None_eq set_map)
  then show ?thesis by (simp add: rank_going_in_def rank_at_def tally_of_def split: option.splits)
qed

lemma compare_eq:
  "compare before after = Inr
     (if sv_wins after = sv_wins before \<and> sv_losses after = sv_losses before then \<lparr>cp_match = None, cp_merged = False\<rparr>
      else case one_match (sv_wins after - sv_wins before, sv_losses after - sv_losses before) of
        None \<Rightarrow> \<lparr>cp_match = None, cp_merged = True\<rparr>
      | Some out \<Rightarrow> \<lparr>cp_match = Some \<lparr>pm_outcome = out, pm_chars = played before after out,
            pm_ranks = map (rank_at before after) (played before after out)\<rparr>, cp_merged = False\<rparr>)"
proof -
  have "mapR (rank_going_in before after) (played before after out) = Inr (map (rank_at before after) (played before after out))" for out
    by (rule mapR_pure) (simp add: rank_going_in_raised [of _ _ _ out] set_played)
  then show ?thesis
    by (auto simp: compare_def Let_def split: option.splits)
qed

section \<open>Sides\<close>

definition side_of :: "rank_room option \<Rightarrow> string \<Rightarrow> side" where
  "side_of room npid = (case room of None \<Rightarrow> P1 | Some r \<Rightarrow> if rr_user1_npid r = npid then P1 else P2)"

definition winner_of :: "side \<Rightarrow> outcome \<Rightarrow> side" where
  "winner_of s out = (if out = WIN then s else other s)"

definition outcome_of :: "side \<Rightarrow> side \<Rightarrow> outcome" where
  "outcome_of s winner = (if s = winner then WIN else LOSS)"

lemma outcome_of_winner [simp]: "outcome_of s (winner_of s out) = out"
  by (cases s; cases out) (simp_all add: outcome_of_def winner_of_def)

lemma winner_of_outcome [simp]: "winner_of s (outcome_of s w) = w"
  by (cases s; cases w) (simp_all add: outcome_of_def winner_of_def)

lemma outcome_of_other: "outcome_of (other s) w = WIN \<longleftrightarrow> outcome_of s w = LOSS"
  by (cases s; cases w) (simp_all add: outcome_of_def)

section \<open>Answers\<close>

record match_player =
  mp_npid :: string
  mp_online_name :: "string option"
  mp_outcome :: outcome
  mp_chars :: "nat list option"
  mp_ranks :: "nat option list option"

record recorded_match =
  rec_id :: nat
  rec_played_at :: instant
  rec_p1 :: match_player
  rec_p2 :: "match_player option"

record record_char_out =
  rc_name :: "nat + string"
  rc_rank :: "(string \<times> tier) option"

text \<open>A character outside the table is named by its number, the \<open>Inl\<close>; a rank outside it is shown as none.\<close>

definition record_char_out_of :: "nat \<Rightarrow> nat option \<Rightarrow> record_char_out" where
  "record_char_out_of c r =
     \<lparr>rc_name = (case map_of ttt2_characters c of None \<Rightarrow> Inl c | Some n \<Rightarrow> Inr n),
      rc_rank = (case r of None \<Rightarrow> None | Some k \<Rightarrow> map_of tekken_ranks k)\<rparr>"

definition chars_out :: "match_player \<Rightarrow> record_char_out list option" where
  "chars_out p =
     (case mp_chars p of
        None \<Rightarrow> None
      | Some chars \<Rightarrow>
          let ranks = (case mp_ranks p of None \<Rightarrow> replicate (length chars) None
                       | Some rs \<Rightarrow> if rs = [] then replicate (length chars) None else rs)
          in Some (map (\<lambda>(c, r). record_char_out_of c r) (zip chars ranks)))"

record record_player_out =
  ro_npid :: string
  ro_online_name :: "string option"
  ro_result :: outcome
  ro_chars :: "record_char_out list option"

definition record_player_out_of :: "match_player \<Rightarrow> record_player_out" where
  "record_player_out_of p = \<lparr>ro_npid = mp_npid p, ro_online_name = mp_online_name p, ro_result = mp_outcome p,
     ro_chars = chars_out p\<rparr>"

record match_record_out =
  mo_id :: nat
  mo_played_at :: instant
  mo_p1 :: record_player_out
  mo_p2 :: "record_player_out option"

definition match_record_out_of :: "recorded_match \<Rightarrow> match_record_out" where
  "match_record_out_of m = \<lparr>mo_id = rec_id m, mo_played_at = rec_played_at m,
     mo_p1 = record_player_out_of (rec_p1 m), mo_p2 = map_option record_player_out_of (rec_p2 m)\<rparr>"

record match_record_page =
  mg_matches :: "match_record_out list"
  mg_next_before :: "nat option"

end
