(* ===== verification/Records_Repo.thy ===== *)
theory Records_Repo
  imports Records_Domain
begin

text \<open>
  \<open>src/records/adapters/postgresql.py\<close> and \<open>service.py\<close>: the saves last compared, the queue of match
  events, the matches they resolve to, and the queries over them.
\<close>

section \<open>Tables\<close>

record save_state_row =
  ss_save :: player_save
  ss_merged_count :: nat

record event_row =
  me_id :: nat
  me_npid :: string
  me_data_id :: nat
  me_result :: outcome
  me_chars :: "nat list"
  me_ranks :: "nat option list option"
  me_saved_at :: instant
  me_status :: event_status
  me_attempts :: nat
  me_available_at :: instant
  me_last_error :: "string option"

record match_row =
  mt_id :: nat
  mt_played_at :: instant
  mt_room_snapshot_id :: "nat option"
  mt_p1_npid :: string
  mt_p2_npid :: "string option"
  mt_winner :: side
  mt_p1_event_id :: "nat option"
  mt_p2_event_id :: "nat option"

record recdb =
  save_states :: "(string \<times> save_state_row) list"
  match_events :: "event_row list"
  matches :: "match_row list"
  next_event_id :: nat
  next_match_id :: nat

definition empty_recdb :: recdb where
  "empty_recdb = \<lparr>save_states = [], match_events = [], matches = [], next_event_id = 1, next_match_id = 1\<rparr>"

definition event_on :: "side \<Rightarrow> match_row \<Rightarrow> nat option" where
  "event_on s m = (case s of P1 \<Rightarrow> mt_p1_event_id m | P2 \<Rightarrow> mt_p2_event_id m)"

definition set_event :: "side \<Rightarrow> nat \<Rightarrow> match_row \<Rightarrow> match_row" where
  "set_event s e m = (case s of P1 \<Rightarrow> m\<lparr>mt_p1_event_id := Some e\<rparr> | P2 \<Rightarrow> m\<lparr>mt_p2_event_id := Some e\<rparr>)"

section \<open>Capture\<close>

definition capture_limit :: nat where "capture_limit = 200"
definition capture_overlap :: nat where "capture_overlap = 16"

definition latest_data_id :: "recdb \<Rightarrow> nat" where
  "latest_data_id db = fold max (map (\<lambda>(_, r). sv_data_id (ss_save r)) (save_states db)) 0"

definition lock_state :: "string \<Rightarrow> recdb \<Rightarrow> player_save option" where
  "lock_state npid db = map_option ss_save (map_of (save_states db) npid)"

definition save_state :: "player_save \<Rightarrow> bool \<Rightarrow> recdb \<Rightarrow> recdb" where
  "save_state save merged db =
     (let n = (case map_of (save_states db) (sv_npid save) of
                 None \<Rightarrow> 0 | Some r \<Rightarrow> ss_merged_count r + (if merged then 1 else 0))
      in db\<lparr>save_states := AList.update (sv_npid save) \<lparr>ss_save = save, ss_merged_count = n\<rparr> (save_states db)\<rparr>)"

definition add_event :: "player_save \<Rightarrow> player_match \<Rightarrow> instant \<Rightarrow> recdb \<Rightarrow> recdb" where
  "add_event save m now db =
     (let row = \<lparr>me_id = next_event_id db, me_npid = sv_npid save, me_data_id = sv_data_id save,
                 me_result = pm_outcome m, me_chars = pm_chars m, me_ranks = Some (pm_ranks m),
                 me_saved_at = sv_saved_at save, me_status = PENDING, me_attempts = 0, me_available_at = now,
                 me_last_error = None\<rparr>;
          rows = match_events db
      in db\<lparr>match_events := (if (me_npid row, me_data_id row) \<in> set (map (\<lambda>e. (me_npid e, me_data_id e)) rows)
                               then rows else rows @ [row]),
            next_event_id := Suc (next_event_id db)\<rparr>)"

text \<open>One transaction per save; an exception leaves the tables alone.\<close>

definition compare_save :: "instant \<Rightarrow> player_save \<Rightarrow> recdb \<Rightarrow> key_error + (unit \<times> recdb)" where
  "compare_save now save db =
     (case lock_state (sv_npid save) db of
        None \<Rightarrow> Inr ((), save_state save False db)
      | Some before \<Rightarrow>
          if sv_data_id save \<le> sv_data_id before then Inr ((), db)
          else bindR (compare before save) (\<lambda>c.
            let db1 = save_state save (cp_merged c) db in
            Inr ((), case cp_match c of None \<Rightarrow> db1 | Some m \<Rightarrow> add_event save m now db1)))"

definition capture_one :: "(string \<Rightarrow> 'x + instant) \<Rightarrow> instant \<Rightarrow> save_answer \<Rightarrow> recdb \<Rightarrow> recdb" where
  "capture_one fromisoformat now a db =
     (case from_answer fromisoformat a of Inl _ \<Rightarrow> db | Inr save \<Rightarrow> snd (transact (compare_save now save) db))"

definition capture ::
  "(nat \<Rightarrow> nat \<Rightarrow> 'e + save_answer list) \<Rightarrow> (string \<Rightarrow> 'x + instant) \<Rightarrow> instant \<Rightarrow> recdb \<Rightarrow> 'e + recdb" where
  "capture read_changed fromisoformat now db =
     bindR (read_changed (latest_data_id db - capture_overlap) capture_limit) (\<lambda>answers.
     Inr (fold (capture_one fromisoformat now) answers db))"

section \<open>The queue\<close>

definition max_attempts :: nat where "max_attempts = 5"
definition retry_delay :: int where "retry_delay = 30 * second"

definition claim_event :: "instant \<Rightarrow> recdb \<Rightarrow> event_row option" where
  "claim_event now db =
     (case sort_key me_id (filter (\<lambda>e. me_status e = PENDING \<and> me_available_at e \<le> now) (match_events db)) of
        [] \<Rightarrow> None | e # _ \<Rightarrow> Some e)"

definition finish_event :: "nat \<Rightarrow> recdb \<Rightarrow> recdb" where
  "finish_event eid db = db\<lparr>match_events := update_where (\<lambda>e. me_id e = eid)
     (\<lambda>e. e\<lparr>me_status := DONE, me_last_error := None\<rparr>) (match_events db)\<rparr>"

definition failed :: "nat \<Rightarrow> string \<Rightarrow> instant \<Rightarrow> event_row \<Rightarrow> event_row" where
  "failed attempts msg now e = e\<lparr>me_attempts := attempts, me_last_error := Some msg,
     me_available_at := now + retry_delay * int attempts,
     me_status := if attempts \<ge> max_attempts then DEAD else PENDING\<rparr>"

definition fail_event :: "event_row \<Rightarrow> string \<Rightarrow> instant \<Rightarrow> recdb \<Rightarrow> recdb" where
  "fail_event event msg now db =
     db\<lparr>match_events := update_where (\<lambda>e. me_id e = me_id event) (failed (me_attempts event + 1) msg now) (match_events db)\<rparr>"

section \<open>Matches\<close>

definition same_match_window :: int where "same_match_window = 60 * second"

definition fillable :: "event_row \<Rightarrow> rank_room \<Rightarrow> side \<Rightarrow> side \<Rightarrow> match_row \<Rightarrow> bool" where
  "fillable e room s winner m \<longleftrightarrow>
     mt_room_snapshot_id m = Some (rr_room_snapshot_id room) \<and> mt_winner m = winner \<and> event_on s m = None \<and>
     me_saved_at e - same_match_window \<le> mt_played_at m \<and> mt_played_at m \<le> me_saved_at e + same_match_window"

definition fill_side :: "event_row \<Rightarrow> rank_room \<Rightarrow> side \<Rightarrow> side \<Rightarrow> recdb \<Rightarrow> bool \<times> recdb" where
  "fill_side e room s winner db =
     (case sort_key (\<lambda>m. \<bar>mt_played_at m - me_saved_at e\<bar>) (filter (fillable e room s winner) (matches db)) of
        [] \<Rightarrow> (False, db)
      | m # _ \<Rightarrow> (True, db\<lparr>matches := update_where (\<lambda>x. mt_id x = mt_id m) (set_event s (me_id e)) (matches db)\<rparr>))"

definition new_match :: "nat \<Rightarrow> event_row \<Rightarrow> rank_room option \<Rightarrow> side \<Rightarrow> side \<Rightarrow> match_row" where
  "new_match i e room s winner =
     \<lparr>mt_id = i, mt_played_at = me_saved_at e, mt_room_snapshot_id = map_option rr_room_snapshot_id room,
      mt_p1_npid = (case room of None \<Rightarrow> me_npid e | Some r \<Rightarrow> rr_user1_npid r),
      mt_p2_npid = map_option rr_user2_npid room, mt_winner = winner,
      mt_p1_event_id = (if s = P1 then Some (me_id e) else None),
      mt_p2_event_id = (if s = P2 then Some (me_id e) else None)\<rparr>"

definition add_match :: "event_row \<Rightarrow> rank_room option \<Rightarrow> side \<Rightarrow> side \<Rightarrow> recdb \<Rightarrow> recdb" where
  "add_match e room s winner db =
     db\<lparr>matches := matches db @ [new_match (next_match_id db) e room s winner],
        next_match_id := Suc (next_match_id db)\<rparr>"

text \<open>The room is read through the history service, in a session of its own that may fail.\<close>

definition resolve :: "event_row \<Rightarrow> (string + rank_room option) \<Rightarrow> recdb \<Rightarrow> string + (unit \<times> recdb)" where
  "resolve e looked_up db =
     bindR looked_up (\<lambda>room.
     let s = side_of room (me_npid e); winner = winner_of s (me_result e) in
     case room of
       None \<Rightarrow> Inr ((), add_match e None s winner db)
     | Some r \<Rightarrow>
         (case fill_side e r s winner db of
            (True, db1) \<Rightarrow> Inr ((), db1)
          | (False, db1) \<Rightarrow> Inr ((), add_match e (Some r) s winner db1)))"

text \<open>The savepoint: a failure keeps nothing of the resolution and counts one attempt.\<close>

definition attempt :: "event_row \<Rightarrow> instant \<Rightarrow> (string + rank_room option) \<Rightarrow> recdb \<Rightarrow> recdb" where
  "attempt e now looked_up db =
     (case transact (\<lambda>d. bindR (resolve e looked_up d) (\<lambda>(u, d1). Inr (u, finish_event (me_id e) d1))) db of
        (Inl msg, db1) \<Rightarrow> fail_event e msg now db1
      | (Inr _, db1) \<Rightarrow> db1)"

definition process_next :: "instant \<Rightarrow> (event_row \<Rightarrow> string + rank_room option) \<Rightarrow> recdb \<Rightarrow> bool \<times> recdb" where
  "process_next now look_up db =
     (case claim_event now db of
        None \<Rightarrow> (False, db)
      | Some e \<Rightarrow> (True, attempt e now (look_up e) db))"

section \<open>The list of matches\<close>

definition match_player_of ::
  "string \<Rightarrow> side \<Rightarrow> match_row \<Rightarrow> event_row option \<Rightarrow> rank_match_row option \<Rightarrow> match_player" where
  "match_player_of npid s m event room =
     \<lparr>mp_npid = npid, mp_online_name = (case room of None \<Rightarrow> None | Some r \<Rightarrow> online_name_of r npid),
      mp_outcome = outcome_of s (mt_winner m), mp_chars = map_option me_chars event,
      mp_ranks = (case event of None \<Rightarrow> None | Some e \<Rightarrow> me_ranks e)\<rparr>"

definition find_event :: "nat option \<Rightarrow> recdb \<Rightarrow> event_row option" where
  "find_event eid db = (case eid of None \<Rightarrow> None | Some i \<Rightarrow> find (\<lambda>e. me_id e = i) (match_events db))"

definition find_room :: "nat option \<Rightarrow> hdb \<Rightarrow> rank_match_row option" where
  "find_room rid h = (case rid of None \<Rightarrow> None | Some i \<Rightarrow> find (\<lambda>r. rm_id r = i) (rank_match_snapshots h))"

definition recorded_match_of :: "hdb \<Rightarrow> recdb \<Rightarrow> match_row \<Rightarrow> recorded_match" where
  "recorded_match_of h db m =
     (let room = find_room (mt_room_snapshot_id m) h in
      \<lparr>rec_id = mt_id m, rec_played_at = mt_played_at m,
       rec_p1 = match_player_of (mt_p1_npid m) P1 m (find_event (mt_p1_event_id m) db) room,
       rec_p2 = map_option (\<lambda>n. match_player_of n P2 m (find_event (mt_p2_event_id m) db) room) (mt_p2_npid m)\<rparr>)"

text \<open>
  \<open>name.ilike(pattern, escape="\\")\<close>: \<open>%\<close> stands for any text, \<open>_\<close> for any character, a backslash makes the next
  character plain; letters compare without case.
\<close>

abbreviation (input) backslash :: char where "backslash \<equiv> CHR 0x5C"

function like :: "string \<Rightarrow> string \<Rightarrow> bool" where
  "like [] s \<longleftrightarrow> s = []"
| "like (p # ps) s \<longleftrightarrow>
     (if p = CHR ''%'' then like ps s \<or> (case s of [] \<Rightarrow> False | _ # cs \<Rightarrow> like (p # ps) cs)
      else if p = backslash \<and> ps \<noteq> [] then
        (case s of [] \<Rightarrow> False | c # cs \<Rightarrow> hd ps = c \<and> like (tl ps) cs)
      else case s of [] \<Rightarrow> False | c # cs \<Rightarrow> (p = CHR ''_'' \<or> p = c) \<and> like ps cs)"
  by pat_completeness auto
termination by (relation "measure (\<lambda>(p, s). length p + length s)") (auto simp: neq_Nil_conv)

definition ilike :: "string \<Rightarrow> string \<Rightarrow> bool" where
  "ilike pattern s = like (casefold pattern) (casefold s)"

definition escape_char :: "char \<Rightarrow> string" where
  "escape_char c = (if c = backslash \<or> c = CHR ''%'' \<or> c = CHR ''_'' then [backslash, c] else [c])"

definition escape_like :: "string \<Rightarrow> string" where
  "escape_like txt = concat (map escape_char txt)"

definition name_matches :: "string \<Rightarrow> hdb \<Rightarrow> match_row \<Rightarrow> bool" where
  "name_matches q h m =
     (let pattern = ''%'' @ escape_like q @ ''%'';
          room = find_room (mt_room_snapshot_id m) h;
          names = [Some (mt_p1_npid m), mt_p2_npid m, map_option rm_user1_online_name room, map_option rm_user2_online_name room]
      in \<exists>n\<in>set names. case n of None \<Rightarrow> False | Some s \<Rightarrow> ilike pattern s)"

definition match_wanted :: "string option \<Rightarrow> string option \<Rightarrow> nat option \<Rightarrow> hdb \<Rightarrow> match_row \<Rightarrow> bool" where
  "match_wanted npid name_query before h m \<longleftrightarrow>
     (case before of None \<Rightarrow> True | Some b \<Rightarrow> mt_id m < b) \<and>
     (case npid of None \<Rightarrow> True | Some n \<Rightarrow> mt_p1_npid m = n \<or> mt_p2_npid m = Some n) \<and>
     (case name_query of None \<Rightarrow> True | Some q \<Rightarrow> q = [] \<or> name_matches q h m)"

definition repo_list_matches ::
  "string option \<Rightarrow> string option \<Rightarrow> nat option \<Rightarrow> nat \<Rightarrow> hdb \<Rightarrow> recdb \<Rightarrow> recorded_match list" where
  "repo_list_matches npid name_query before limit h db =
     map (recorded_match_of h db)
       (take limit (sort_key (\<lambda>m. - int (mt_id m)) (filter (match_wanted npid name_query before h) (matches db))))"

definition list_matches ::
  "string option \<Rightarrow> string option \<Rightarrow> nat option \<Rightarrow> nat \<Rightarrow> hdb \<Rightarrow> recdb \<Rightarrow> match_record_page" where
  "list_matches npid name_query before limit h db =
     (let found = repo_list_matches npid name_query before (limit + 1) h db in
      \<lparr>mg_matches = map match_record_out_of (take limit found),
       mg_next_before = (if length found > limit then Some (rec_id (found ! (limit - 1))) else None)\<rparr>)"

section \<open>Tallies of players\<close>

record player_view =
  pv_played_at :: instant
  pv_room_snapshot_id :: "nat option"
  pv_npid :: "string option"
  pv_opponent :: "string option"
  pv_won :: bool
  pv_seen :: bool

text \<open>Every match once per player.\<close>

definition players :: "recdb \<Rightarrow> player_view list" where
  "players db =
     map (\<lambda>m. \<lparr>pv_played_at = mt_played_at m, pv_room_snapshot_id = mt_room_snapshot_id m,
               pv_npid = Some (mt_p1_npid m), pv_opponent = mt_p2_npid m, pv_won = (mt_winner m = P1),
               pv_seen = (mt_p1_event_id m \<noteq> None)\<rparr>) (matches db) @
     map (\<lambda>m. \<lparr>pv_played_at = mt_played_at m, pv_room_snapshot_id = mt_room_snapshot_id m,
               pv_npid = mt_p2_npid m, pv_opponent = Some (mt_p1_npid m), pv_won = (mt_winner m = P2),
               pv_seen = (mt_p2_event_id m \<noteq> None)\<rparr>) (matches db)"

record player_tally =
  pt_npid :: string
  pt_online_name :: string
  pt_match_count :: nat
  pt_wins :: nat
  pt_losses :: nat

definition room_name_of :: "rank_match_row \<Rightarrow> string option \<Rightarrow> string" where
  "room_name_of r npid = (if Some (rm_user1_npid r) = npid then rm_user1_online_name r else rm_user2_online_name r)"

text \<open>
  \<open>GROUP BY who\<close> over the views joined with their rooms, most matches first and then by name; \<open>max\<close> of the
  names is the greatest in the text order.
\<close>

definition tally_by ::
  "(player_view \<Rightarrow> string option) \<Rightarrow> (player_view \<Rightarrow> bool) \<Rightarrow> nat \<Rightarrow> hdb \<Rightarrow> recdb \<Rightarrow> player_tally list" where
  "tally_by who P limit h db =
     (let joined = concat (map (\<lambda>v. case find_room (pv_room_snapshot_id v) h of None \<Rightarrow> [] | Some r \<Rightarrow> [(v, r)])
                     (filter (\<lambda>v. pv_seen v \<and> pv_opponent v \<noteq> None \<and> P v) (players db)));
          names = remdups (concat (map (\<lambda>(v, r). case who v of None \<Rightarrow> [] | Some n \<Rightarrow> [n]) joined));
          tally = (\<lambda>n. let g = filter (\<lambda>(v, r). who v = Some n) joined in
            \<lparr>pt_npid = n,
             pt_online_name = foldr max (map (\<lambda>(v, r). room_name_of r (who v)) g) [],
             pt_match_count = length g,
             pt_wins = length (filter (\<lambda>(v, r). pv_won v) g),
             pt_losses = length (filter (\<lambda>(v, r). \<not> pv_won v) g)\<rparr>)
      in take limit (sort_key (\<lambda>t. - int (pt_match_count t)) (sort_key pt_npid (map tally names))))"

definition weekly_top_players :: "instant \<Rightarrow> nat \<Rightarrow> string list \<Rightarrow> hdb \<Rightarrow> recdb \<Rightarrow> player_tally list" where
  "weekly_top_players since_at limit excluded h db =
     tally_by pv_npid
       (\<lambda>v. pv_played_at v \<ge> since_at \<and> (case pv_npid v of None \<Rightarrow> False | Some n \<Rightarrow> casefold n \<notin> set (map casefold excluded)))
       limit h db"

definition frequent_opponents :: "string \<Rightarrow> instant \<Rightarrow> nat \<Rightarrow> hdb \<Rightarrow> recdb \<Rightarrow> player_tally list" where
  "frequent_opponents npid since_at limit h db =
     tally_by pv_opponent (\<lambda>v. pv_npid v = Some npid \<and> pv_played_at v \<ge> since_at) limit h db"

definition week :: int where "week = 7 * day"
definition opponent_limit :: nat where "opponent_limit = 4"

definition cached_weekly_top ::
  "int \<Rightarrow> instant \<Rightarrow> string \<Rightarrow> instant \<Rightarrow> nat \<Rightarrow> string list \<Rightarrow> hdb \<Rightarrow> recdb \<Rightarrow> player_tally list dict_cache \<Rightarrow>
     (unit + player_tally list) \<times> player_tally list dict_cache" where
  "cached_weekly_top ttl mnow key now limit excluded h db c =
     read_through dict_get dict_set (\<lambda>v. v \<noteq> []) key ttl mnow (Inr (weekly_top_players (now - week) limit excluded h db)) c"

definition cached_opponents ::
  "int \<Rightarrow> instant \<Rightarrow> string \<Rightarrow> instant \<Rightarrow> string \<Rightarrow> int \<Rightarrow> hdb \<Rightarrow> recdb \<Rightarrow> player_tally list dict_cache \<Rightarrow>
     (unit + player_tally list) \<times> player_tally list dict_cache" where
  "cached_opponents ttl mnow key now npid days h db c =
     read_through dict_get dict_set (\<lambda>v. v \<noteq> []) key ttl mnow
       (Inr (frequent_opponents npid (now - days * day) opponent_limit h db)) c"

end
