(* ===== verification/Records_Invariant.thy ===== *)
theory Records_Invariant
  imports Records_Repo
begin

text \<open>
  What the match records keep: a match event is resolved onto at most one side of one match, never over
  another event, and the match agrees with the event about who won; a query matches names literally, and
  following the pages of the list gives every match once.
\<close>

section \<open>Capture\<close>

definition save_ids :: "recdb \<Rightarrow> string \<Rightarrow> nat option" where
  "save_ids db npid = map_option sv_data_id (lock_state npid db)"

lemma lock_save_state: "lock_state n (save_state save merged db) = (if n = sv_npid save then Some save else lock_state n db)"
  by (simp add: lock_state_def save_state_def Let_def update_conv)

lemma lock_add_event [simp]: "lock_state n (add_event save m now db) = lock_state n db"
  by (simp add: lock_state_def add_event_def Let_def)

lemma compare_save_total: "\<exists>db'. compare_save now save db = Inr ((), db')"
  by (auto simp: compare_save_def compare_eq Let_def split: option.splits)

text \<open>The state kept for a player only moves on to newer saves.\<close>

lemma compare_save_lock:
  assumes "compare_save now save db = Inr (u, db')"
  shows "lock_state n db' =
    (if n = sv_npid save \<and> (case lock_state n db of None \<Rightarrow> True | Some b \<Rightarrow> sv_data_id b < sv_data_id save)
     then Some save else lock_state n db)"
  using assms
  by (auto simp: compare_save_def compare_eq Let_def lock_save_state split: option.splits if_splits)

lemma compare_save_again:
  assumes "compare_save now save db = Inr (u, db')"
  shows "compare_save now' save db' = Inr ((), db')"
proof -
  have "\<exists>b. lock_state (sv_npid save) db' = Some b \<and> sv_data_id save \<le> sv_data_id b"
    using compare_save_lock [OF assms, of "sv_npid save"]
    by (cases "lock_state (sv_npid save) db") (auto split: if_splits)
  then show ?thesis by (auto simp: compare_save_def)
qed

section \<open>Events and sides\<close>

definition sides_of :: "match_row \<Rightarrow> (side \<times> nat) list" where
  "sides_of m = (case mt_p1_event_id m of None \<Rightarrow> [] | Some e \<Rightarrow> [(P1, e)]) @
                (case mt_p2_event_id m of None \<Rightarrow> [] | Some e \<Rightarrow> [(P2, e)])"

text \<open>Every event id on any side of any match.\<close>

definition placed :: "recdb \<Rightarrow> nat list" where
  "placed db = concat (map (\<lambda>m. map snd (sides_of m)) (matches db))"

definition npid_on :: "side \<Rightarrow> match_row \<Rightarrow> string option" where
  "npid_on s m = (case s of P1 \<Rightarrow> Some (mt_p1_npid m) | P2 \<Rightarrow> mt_p2_npid m)"

definition side_agrees :: "recdb \<Rightarrow> match_row \<Rightarrow> side \<Rightarrow> nat \<Rightarrow> bool" where
  "side_agrees db m s eid \<longleftrightarrow> (\<exists>e\<in>set (match_events db). me_id e = eid \<and> me_status e = DONE \<and>
     npid_on s m = Some (me_npid e) \<and> outcome_of s (mt_winner m) = me_result e \<and>
     \<bar>mt_played_at m - me_saved_at e\<bar> \<le> same_match_window)"

definition room_agrees :: "hdb \<Rightarrow> match_row \<Rightarrow> bool" where
  "room_agrees h m \<longleftrightarrow>
     (case mt_room_snapshot_id m of
        None \<Rightarrow> mt_p2_npid m = None \<and> mt_p2_event_id m = None
      | Some i \<Rightarrow> \<exists>r\<in>set (rank_match_snapshots h). rm_id r = i \<and> mt_p1_npid m = rm_user1_npid r \<and>
          mt_p2_npid m = Some (rm_user2_npid r))"

definition match_ok :: "hdb \<Rightarrow> recdb \<Rightarrow> match_row \<Rightarrow> bool" where
  "match_ok h db m \<longleftrightarrow> sides_of m \<noteq> [] \<and> room_agrees h m \<and> (\<forall>(s, e)\<in>set (sides_of m). side_agrees db m s e)"

definition records_ok :: "hdb \<Rightarrow> recdb \<Rightarrow> bool" where
  "records_ok h db \<longleftrightarrow>
     distinct (map me_id (match_events db)) \<and> (\<forall>e\<in>set (match_events db). me_id e < next_event_id db) \<and>
     distinct (map (\<lambda>e. (me_npid e, me_data_id e)) (match_events db)) \<and>
     distinct (map mt_id (matches db)) \<and> (\<forall>m\<in>set (matches db). mt_id m < next_match_id db) \<and>
     distinct (placed db) \<and>
     (\<forall>e\<in>set (match_events db). me_status e = DONE \<longleftrightarrow> me_id e \<in> set (placed db)) \<and>
     (\<forall>m\<in>set (matches db). match_ok h db m)"

lemma empty_records_ok: "records_ok h empty_recdb"
  by (simp add: records_ok_def empty_recdb_def placed_def)

lemma set_sides_of: "(s, e) \<in> set (sides_of m) \<longleftrightarrow> event_on s m = Some e"
  by (cases s) (auto simp: sides_of_def event_on_def split: option.splits)

lemma placed_event_on: "e \<in> set (placed db) \<longleftrightarrow> (\<exists>m\<in>set (matches db). \<exists>s. event_on s m = Some e)"
  by (force simp: placed_def set_sides_of [symmetric])

section \<open>Every operation keeps them\<close>

lemma match_ok_events:
  assumes "match_ok h db m"
    and "\<And>e. e \<in> set (match_events db) \<Longrightarrow> me_status e = DONE \<Longrightarrow> \<exists>e'\<in>set (match_events db'). me_id e' = me_id e \<and>
      me_status e' = DONE \<and> me_npid e' = me_npid e \<and> me_result e' = me_result e \<and> me_saved_at e' = me_saved_at e"
  shows "match_ok h db' m"
proof -
  have "side_agrees db' m s i" if "side_agrees db m s i" for s i
    using that assms(2) unfolding side_agrees_def by metis
  then show ?thesis using assms(1) by (auto simp: match_ok_def)
qed

lemma save_state_ok [simp]: "records_ok h (save_state save merged db) = records_ok h db"
  by (simp add: records_ok_def save_state_def Let_def match_ok_def side_agrees_def placed_def)

lemma placed_add_event [simp]: "placed (add_event save m now db) = placed db"
  by (simp add: placed_def add_event_def Let_def)

lemma placed_known: "records_ok h db \<Longrightarrow> i \<in> set (placed db) \<Longrightarrow> \<exists>e\<in>set (match_events db). me_id e = i \<and> me_status e = DONE"
  unfolding placed_event_on records_ok_def match_ok_def
  by (metis (no_types, lifting) case_prodD set_sides_of side_agrees_def)

lemma add_event_ok:
  assumes ok: "records_ok h db"
  shows "records_ok h (add_event save m now db)"
proof -
  have fresh: "next_event_id db \<notin> set (placed db)"
    using placed_known [OF ok] ok unfolding records_ok_def by (metis less_irrefl_nat)
  have m: "match_ok h (add_event save m now db) x" if "match_ok h db x" for x
    by (rule match_ok_events [OF that]) (auto simp: add_event_def Let_def)
  show ?thesis using ok fresh m unfolding records_ok_def placed_add_event
    by (auto simp: add_event_def Let_def less_Suc_eq)
qed

lemma compare_save_ok: "records_ok h db \<Longrightarrow> compare_save now save db = Inr (u, db') \<Longrightarrow> records_ok h db'"
  by (auto simp: compare_save_def compare_eq Let_def split: option.splits if_splits intro: add_event_ok)

lemma capture_ok:
  assumes "records_ok h db" and "capture read_changed rd now db = Inr db'"
  shows "records_ok h db'"
proof -
  have one: "records_ok h (capture_one rd now a d)" if "records_ok h d" for a d
    using that compare_save_ok by (auto simp: capture_one_def transact_def split: sum.splits prod.splits)
  from assms obtain answers where "db' = fold (capture_one rd now) answers db" by (auto simp: capture_def)
  then show ?thesis using fold_keeps [where P = "records_ok h", OF assms(1)] one by metis
qed

lemma fail_event_ok:
  assumes ok: "records_ok h db" and e: "e \<in> set (match_events db)" "me_status e = PENDING"
  shows "records_ok h (fail_event e msg now db)"
proof -
  let ?f = "failed (me_attempts e + 1) msg now" and ?db = "fail_event e msg now db"
  have k: "me_id (?f x) = me_id x" "(me_npid (?f x), me_data_id (?f x)) = (me_npid x, me_data_id x)"
    "me_status (?f x) \<noteq> DONE" for x
    by (simp_all add: failed_def)
  have rows: "match_events ?db = update_where (\<lambda>x. me_id x = me_id e) ?f (match_events db)" "placed ?db = placed db"
    "matches ?db = matches db" "next_event_id ?db = next_event_id db" "next_match_id ?db = next_match_id db"
    by (simp_all add: fail_event_def placed_def)
  have only: "x = e" if "x \<in> set (match_events db)" "me_id x = me_id e" for x
    using ok e(1) that distinct_map_eq [of me_id] by (metis records_ok_def)
  have "me_id e \<notin> set (placed db)" using ok e unfolding records_ok_def by (metis event_status.distinct(1))
  then have settled: "\<forall>x\<in>set (match_events ?db). me_status x = DONE \<longleftrightarrow> me_id x \<in> set (placed db)"
    using ok k only unfolding rows(1) records_ok_def by (auto simp: set_update_where)
  have "match_ok h ?db m" if "match_ok h db m" for m
    by (rule match_ok_events [OF that]) (use only e in \<open>force simp: rows(1) set_update_where\<close>)
  moreover have "map me_id (match_events ?db) = map me_id (match_events db)"
    "map (\<lambda>x. (me_npid x, me_data_id x)) (match_events ?db) = map (\<lambda>x. (me_npid x, me_data_id x)) (match_events db)"
    "(\<forall>x\<in>set (match_events ?db). me_id x < n) = (\<forall>x\<in>set (match_events db). me_id x < n)" for n
    unfolding rows(1) by (intro map_update_where_frame ball_update_where; simp add: failed_def)+
  ultimately show ?thesis using ok settled unfolding records_ok_def rows(2-5) by simp
qed

text \<open>A room as the history service gives it for an event.\<close>

definition lookup_ok :: "hdb \<Rightarrow> event_row \<Rightarrow> rank_room option \<Rightarrow> bool" where
  "lookup_ok h e room \<longleftrightarrow> (case room of None \<Rightarrow> True | Some r \<Rightarrow>
     (rr_user1_npid r = me_npid e \<or> rr_user2_npid r = me_npid e) \<and>
     (\<exists>x\<in>set (rank_match_snapshots h). rm_id x = rr_room_snapshot_id r \<and> rm_user1_npid x = rr_user1_npid r \<and>
        rm_user2_npid x = rr_user2_npid r))"

lemma find_rank_room_lookup_ok: "find_rank_room (me_npid e) t h = room \<Longrightarrow> lookup_ok h e room"
proof -
  assume room: "find_rank_room (me_npid e) t h = room"
  let ?rows = "sort_key (\<lambda>r. - rm_created_dt r) (filter (in_room_at (me_npid e) t) (rank_match_snapshots h))"
  show ?thesis
  proof (cases ?rows)
    case Nil
    then show ?thesis using room by (simp add: find_rank_room_def lookup_ok_def)
  next
    case (Cons m rest)
    then have "m \<in> set ?rows" by (metis list.set_intros(1))
    then have "m \<in> set (rank_match_snapshots h)" "in_room_at (me_npid e) t m" by simp_all
    then show ?thesis using room Cons by (auto simp: find_rank_room_def lookup_ok_def in_room_at_def)
  qed
qed

lemma side_of_npid:
  "lookup_ok h e (Some r) \<Longrightarrow>
    (case side_of (Some r) (me_npid e) of P1 \<Rightarrow> rr_user1_npid r | P2 \<Rightarrow> rr_user2_npid r) = me_npid e"
  by (auto simp: lookup_ok_def side_of_def)

text \<open>An event put on an empty side of one match.\<close>

lemma place_ok:
  assumes ok: "records_ok h db" and e: "e \<in> set (match_events db)" "me_status e \<noteq> DONE"
    and db1: "match_events db1 = match_events db" "next_event_id db1 = next_event_id db"
    and ids: "distinct (map mt_id (matches db1))" "\<forall>m\<in>set (matches db1). mt_id m < next_match_id db1"
    and placed: "mset (placed db1) = add_mset (me_id e) (mset (placed db))"
    and new: "\<And>m. m \<in> set (matches db1) \<Longrightarrow> (m \<in> set (matches db) \<or>
      (\<exists>s m0. sides_of m \<noteq> [] \<and> room_agrees h m \<and> (m0 \<in> set (matches db) \<or> sides_of m0 = []) \<and>
        mt_winner m = mt_winner m0 \<and> mt_played_at m = mt_played_at m0 \<and> npid_on P1 m = npid_on P1 m0 \<and> npid_on P2 m = npid_on P2 m0 \<and>
        set (sides_of m) = insert (s, me_id e) (set (sides_of m0)) \<and> npid_on s m = Some (me_npid e) \<and>
        outcome_of s (mt_winner m) = me_result e \<and> \<bar>mt_played_at m - me_saved_at e\<bar> \<le> same_match_window))"
  shows "records_ok h (finish_event (me_id e) db1)"
proof -
  let ?f = "\<lambda>e. e\<lparr>me_status := DONE, me_last_error := None\<rparr>" and ?db = "finish_event (me_id e) db1"
  have k: "me_id (?f x) = me_id x" "(me_npid (?f x), me_data_id (?f x)) = (me_npid x, me_data_id x)" for x by simp_all
  have rows: "match_events ?db = update_where (\<lambda>x. me_id x = me_id e) ?f (match_events db)" "placed ?db = placed db1"
    "matches ?db = matches db1" "next_event_id ?db = next_event_id db" "next_match_id ?db = next_match_id db1"
    by (simp_all add: finish_event_def placed_def db1)
  have only: "x = e" if "x \<in> set (match_events db)" "me_id x = me_id e" for x
    using ok e(1) that distinct_map_eq [of me_id] by (metis records_ok_def)
  have unplaced: "me_id e \<notin> set (placed db)" using ok e unfolding records_ok_def by metis
  then have dist: "distinct (placed db1)"
    using ok placed unfolding records_ok_def by (metis distinct.simps(2) mset.simps(2) mset_eq_imp_distinct_iff)
  have set_placed: "set (placed db1) = insert (me_id e) (set (placed db))"
    using placed by (metis set_mset_add_mset_insert set_mset_mset)
  have settled: "\<forall>x\<in>set (match_events ?db). me_status x = DONE \<longleftrightarrow> me_id x \<in> set (placed ?db)"
    using ok e only unfolding rows set_placed records_ok_def by (auto simp: set_update_where)
  have mem: "(if me_id x = me_id e then ?f x else x) \<in> set (match_events ?db)" if "x \<in> set (match_events db)" for x
    using that by (auto simp: rows(1) update_where_def)
  have kept: "\<exists>e'\<in>set (match_events ?db). me_id e' = me_id x \<and> me_status e' = DONE \<and> me_npid e' = me_npid x \<and>
      me_result e' = me_result x \<and> me_saved_at e' = me_saved_at x"
    if "x \<in> set (match_events db)" "me_status x = DONE \<or> x = e" for x
    using that only [OF that(1)] by (intro bexI [OF _ mem [OF that(1)]]) auto
  have old: "match_ok h ?db m" if "match_ok h db m" for m
    by (rule match_ok_events [OF that]) (use kept in blast)
  have m: "match_ok h ?db m" if "m \<in> set (matches db1)" for m
    using new [OF that]
  proof
    assume "m \<in> set (matches db)"
    then show ?thesis using old ok by (simp add: records_ok_def)
  next
    assume "\<exists>s m0. sides_of m \<noteq> [] \<and> room_agrees h m \<and> (m0 \<in> set (matches db) \<or> sides_of m0 = []) \<and>
        mt_winner m = mt_winner m0 \<and> mt_played_at m = mt_played_at m0 \<and> npid_on P1 m = npid_on P1 m0 \<and> npid_on P2 m = npid_on P2 m0 \<and>
        set (sides_of m) = insert (s, me_id e) (set (sides_of m0)) \<and> npid_on s m = Some (me_npid e) \<and>
        outcome_of s (mt_winner m) = me_result e \<and> \<bar>mt_played_at m - me_saved_at e\<bar> \<le> same_match_window"
    then obtain s m0 where m: "sides_of m \<noteq> []" "room_agrees h m" "m0 \<in> set (matches db) \<or> sides_of m0 = []"
      "mt_winner m = mt_winner m0" "mt_played_at m = mt_played_at m0" "npid_on P1 m = npid_on P1 m0" "npid_on P2 m = npid_on P2 m0"
      "set (sides_of m) = insert (s, me_id e) (set (sides_of m0))" "npid_on s m = Some (me_npid e)"
      "outcome_of s (mt_winner m) = me_result e" "\<bar>mt_played_at m - me_saved_at e\<bar> \<le> same_match_window"
      by blast
    have same: "npid_on t m = npid_on t m0" for t using m(6,7) by (cases t) simp_all
    have "side_agrees ?db m t i" if "(t, i) \<in> set (sides_of m)" for t i
    proof (cases "(t, i) = (s, me_id e)")
      case True
      then show ?thesis using m kept [of e] e(1) by (force simp: side_agrees_def)
    next
      case False
      then have i: "(t, i) \<in> set (sides_of m0)" using m(8) that by auto
      then have "m0 \<in> set (matches db)" using m(3) by auto
      with i have "match_ok h ?db m0" using old ok by (simp add: records_ok_def)
      with i show ?thesis using same m(4,5) unfolding match_ok_def side_agrees_def by fastforce
    qed
    then show ?thesis using m(1,2) by (auto simp: match_ok_def)
  qed
  have "map me_id (match_events ?db) = map me_id (match_events db)"
    "map (\<lambda>x. (me_npid x, me_data_id x)) (match_events ?db) = map (\<lambda>x. (me_npid x, me_data_id x)) (match_events db)"
    "(\<forall>x\<in>set (match_events ?db). me_id x < n) = (\<forall>x\<in>set (match_events db). me_id x < n)" for n
    unfolding rows(1) by (intro map_update_where_frame ball_update_where; simp)+
  then show ?thesis using ok settled dist ids m unfolding records_ok_def rows(2-5) by simp
qed

lemma placed_update:
  assumes "distinct (map mt_id ms)" and "m \<in> set ms" and "event_on s m = None"
  shows "mset (concat (map (\<lambda>m. map snd (sides_of m)) (update_where (\<lambda>x. mt_id x = mt_id m) (set_event s i) ms))) =
    add_mset i (mset (concat (map (\<lambda>m. map snd (sides_of m)) ms)))"
  using assms
proof (induction ms)
  case (Cons a ms)
  show ?case
  proof (cases "a = m")
    case True
    then have "update_where (\<lambda>x. mt_id x = mt_id m) (set_event s i) ms = ms"
      using Cons.prems(1) by (auto simp: update_where_def rev_image_eqI intro!: map_idI)
    moreover have "mset (map snd (sides_of (set_event s i m))) = add_mset i (mset (map snd (sides_of m)))"
      using Cons.prems(3) by (cases s) (auto simp: sides_of_def set_event_def event_on_def split: option.splits)
    ultimately show ?thesis using True by simp
  next
    case False
    then have "m \<in> set ms" "mt_id a \<noteq> mt_id m" using Cons.prems by (auto simp: rev_image_eqI)
    with Cons show ?thesis by simp
  qed
qed simp

lemma fill_side_cases:
  obtains "fill_side e room s w db = (False, db)"
  | m where "m \<in> set (matches db)" "fillable e room s w m" "fill_side e room s w db =
      (True, db\<lparr>matches := update_where (\<lambda>x. mt_id x = mt_id m) (set_event s (me_id e)) (matches db)\<rparr>)"
proof (cases "sort_key (\<lambda>m. \<bar>mt_played_at m - me_saved_at e\<bar>) (filter (fillable e room s w) (matches db))")
  case Nil
  then show ?thesis using that(1) by (simp add: fill_side_def)
next
  case (Cons m rest)
  then have "m \<in> set (sort_key (\<lambda>m. \<bar>mt_played_at m - me_saved_at e\<bar>) (filter (fillable e room s w) (matches db)))"
    by (metis list.set_intros(1))
  then have "m \<in> set (matches db)" "fillable e room s w m" by simp_all
  then show ?thesis using that(2) Cons by (simp add: fill_side_def)
qed

lemma event_on_set_event: "event_on t (set_event s i m) = (if t = s then Some i else event_on t m)"
  by (cases s; cases t) (simp_all add: event_on_def set_event_def)

lemma set_event_frame [simp]:
  "mt_id (set_event s i m) = mt_id m" "mt_winner (set_event s i m) = mt_winner m"
  "mt_played_at (set_event s i m) = mt_played_at m" "npid_on t (set_event s i m) = npid_on t m"
  "mt_room_snapshot_id (set_event s i m) = mt_room_snapshot_id m" "mt_p1_npid (set_event s i m) = mt_p1_npid m"
  "mt_p2_npid (set_event s i m) = mt_p2_npid m"
  by (cases s; cases t; simp add: set_event_def npid_on_def)+

lemma fill_ok:
  assumes ok: "records_ok h db" and e: "e \<in> set (match_events db)" "me_status e \<noteq> DONE" and look: "lookup_ok h e (Some r)"
    and hist: "distinct (map rm_id (rank_match_snapshots h))"
    and m: "m \<in> set (matches db)" "fillable e r s (winner_of s (me_result e)) m" and s: "s = side_of (Some r) (me_npid e)"
  shows "records_ok h (finish_event (me_id e) (db\<lparr>matches :=
    update_where (\<lambda>x. mt_id x = mt_id m) (set_event s (me_id e)) (matches db)\<rparr>))" (is "records_ok h (finish_event _ ?db1)")
proof (rule place_ok [OF ok e])
  have d: "distinct (map mt_id (matches db))" using ok by (simp add: records_ok_def)
  show "distinct (map mt_id (matches ?db1))" using d by (simp add: map_update_where_frame)
  show "\<forall>x\<in>set (matches ?db1). mt_id x < next_match_id ?db1"
    using ok by (simp add: records_ok_def ball_update_where)
  show "mset (placed ?db1) = add_mset (me_id e) (mset (placed db))"
    unfolding placed_def using placed_update [OF d m(1)] m(2) by (simp add: fillable_def)
  fix x
  assume "x \<in> set (matches ?db1)"
  then consider "x \<in> set (matches db)" | m' where "m' \<in> set (matches db)" "mt_id m' = mt_id m" "x = set_event s (me_id e) m'"
    by (auto simp: set_update_where)
  then show "x \<in> set (matches db) \<or> (\<exists>s m0. sides_of x \<noteq> [] \<and> room_agrees h x \<and> (m0 \<in> set (matches db) \<or> sides_of m0 = []) \<and>
        mt_winner x = mt_winner m0 \<and> mt_played_at x = mt_played_at m0 \<and> npid_on P1 x = npid_on P1 m0 \<and> npid_on P2 x = npid_on P2 m0 \<and>
        set (sides_of x) = insert (s, me_id e) (set (sides_of m0)) \<and> npid_on s x = Some (me_npid e) \<and>
        outcome_of s (mt_winner x) = me_result e \<and> \<bar>mt_played_at x - me_saved_at e\<bar> \<le> same_match_window)"
  proof cases
    case 2
    then have m': "m' = m" using d m(1) distinct_map_eq by metis
    have old: "match_ok h db m" using ok m(1) by (simp add: records_ok_def)
    have set: "set (sides_of x) = insert (s, me_id e) (set (sides_of m))"
      using m(2) by (auto simp: 2(3) m' set_sides_of event_on_set_event fillable_def split: if_splits)
    then have ne: "sides_of x \<noteq> []" by auto
    have room: "room_agrees h x" using old m(2) by (auto simp: 2(3) m' match_ok_def room_agrees_def fillable_def)
    from old m(2) obtain row where row: "row \<in> set (rank_match_snapshots h)" "rm_id row = rr_room_snapshot_id r"
      "mt_p1_npid m = rm_user1_npid row" "mt_p2_npid m = Some (rm_user2_npid row)"
      by (auto simp: match_ok_def room_agrees_def fillable_def)
    from look obtain y where y: "y \<in> set (rank_match_snapshots h)" "rm_id y = rr_room_snapshot_id r"
      "rm_user1_npid y = rr_user1_npid r" "rm_user2_npid y = rr_user2_npid r"
      by (auto simp: lookup_ok_def)
    have "row = y" using hist row(1,2) y(1,2) distinct_map_eq [of rm_id] by metis
    then have npid: "npid_on s x = Some (me_npid e)"
      using side_of_npid [OF look] row y by (cases s) (simp_all add: s [symmetric] 2(3) m' npid_on_def)
    have "outcome_of s (mt_winner x) = me_result e" "\<bar>mt_played_at x - me_saved_at e\<bar> \<le> same_match_window"
      using m(2) by (simp_all add: 2(3) m' fillable_def abs_le_iff)
    then show ?thesis using ne room set npid m(1) 2(3) m'
      by (intro disjI2 exI [of _ s] exI [of _ m]) simp
  qed blast
qed simp_all

lemma add_match_ok:
  assumes ok: "records_ok h db" and e: "e \<in> set (match_events db)" "me_status e \<noteq> DONE" and look: "lookup_ok h e room"
    and s: "s = side_of room (me_npid e)"
  shows "records_ok h (finish_event (me_id e) (add_match e room s (winner_of s (me_result e)) db))"
    (is "records_ok h (finish_event _ ?db1)")
proof (rule place_ok [OF ok e])
  let ?m = "new_match (next_match_id db) e room s (winner_of s (me_result e))"
  have sides: "sides_of ?m = [(s, me_id e)]" by (cases s) (simp_all add: sides_of_def new_match_def)
  show "distinct (map mt_id (matches ?db1))" "\<forall>x\<in>set (matches ?db1). mt_id x < next_match_id ?db1"
    using ok by (auto simp: records_ok_def add_match_def new_match_def less_Suc_eq)
  show "mset (placed ?db1) = add_mset (me_id e) (mset (placed db))"
    by (simp add: placed_def add_match_def sides)
  have room: "room_agrees h ?m"
  proof (cases room)
    case None
    then show ?thesis using s by (simp add: room_agrees_def new_match_def side_of_def)
  next
    case (Some r)
    then show ?thesis using look by (fastforce simp: room_agrees_def new_match_def lookup_ok_def)
  qed
  have npid: "npid_on s ?m = Some (me_npid e)"
  proof (cases room)
    case None
    then show ?thesis using s by (simp add: npid_on_def new_match_def side_of_def)
  next
    case (Some r)
    then show ?thesis using side_of_npid [of h e r] look s by (cases s) (simp_all add: npid_on_def new_match_def)
  qed
  fix x
  assume "x \<in> set (matches ?db1)"
  then consider "x \<in> set (matches db)" | "x = ?m" by (auto simp: add_match_def)
  then show "x \<in> set (matches db) \<or> (\<exists>s m0. sides_of x \<noteq> [] \<and> room_agrees h x \<and> (m0 \<in> set (matches db) \<or> sides_of m0 = []) \<and>
        mt_winner x = mt_winner m0 \<and> mt_played_at x = mt_played_at m0 \<and> npid_on P1 x = npid_on P1 m0 \<and> npid_on P2 x = npid_on P2 m0 \<and>
        set (sides_of x) = insert (s, me_id e) (set (sides_of m0)) \<and> npid_on s x = Some (me_npid e) \<and>
        outcome_of s (mt_winner x) = me_result e \<and> \<bar>mt_played_at x - me_saved_at e\<bar> \<le> same_match_window)"
  proof cases
    case 2
    then show ?thesis using sides room npid
      by (intro disjI2 exI [of _ s] exI [of _ "?m\<lparr>mt_p1_event_id := None, mt_p2_event_id := None\<rparr>"])
        (simp add: sides_of_def npid_on_def new_match_def same_match_window_def)
  qed blast
qed (simp_all add: add_match_def)

lemma attempt_ok:
  assumes "records_ok h db" and hist: "distinct (map rm_id (rank_match_snapshots h))" and e: "e \<in> set (match_events db)" "me_status e = PENDING"
    and look: "\<And>room. looked_up = Inr room \<Longrightarrow> lookup_ok h e room"
  shows "records_ok h (attempt e now looked_up db)"
proof (cases looked_up)
  case (Inl msg)
  then show ?thesis using fail_event_ok [OF assms(1) e] by (simp add: attempt_def resolve_def transact_def Let_def)
next
  case (Inr room)
  have nd: "me_status e \<noteq> DONE" using e(2) by simp
  show ?thesis
  proof (cases room)
    case None
    then show ?thesis using add_match_ok [OF assms(1) e(1) nd look [OF Inr] refl] Inr
      by (simp add: attempt_def resolve_def transact_def Let_def)
  next
    case (Some r)
    let ?s = "side_of (Some r) (me_npid e)"
    show ?thesis
    proof (rule fill_side_cases [of e r ?s "winner_of ?s (me_result e)" db])
      assume "fill_side e r ?s (winner_of ?s (me_result e)) db = (False, db)"
      then show ?thesis using add_match_ok [OF assms(1) e(1) nd look [OF Inr] refl] Inr Some
        by (simp add: attempt_def resolve_def transact_def Let_def)
    next
      fix m
      assume "m \<in> set (matches db)" "fillable e r ?s (winner_of ?s (me_result e)) m"
        "fill_side e r ?s (winner_of ?s (me_result e)) db =
          (True, db\<lparr>matches := update_where (\<lambda>x. mt_id x = mt_id m) (set_event ?s (me_id e)) (matches db)\<rparr>)"
      then show ?thesis using fill_ok [OF assms(1) e(1) nd _ hist _ _ refl] look [OF Inr] Inr Some
        by (simp add: attempt_def resolve_def transact_def Let_def)
    qed
  qed
qed

lemma claim_event_Some:
  assumes "claim_event now db = Some e"
  shows "e \<in> set (match_events db) \<and> me_status e = PENDING \<and> me_available_at e \<le> now \<and>
    (\<forall>x\<in>set (match_events db). me_status x = PENDING \<and> me_available_at x \<le> now \<longrightarrow> me_id e \<le> me_id x)"
proof -
  let ?rows = "sort_key me_id (filter (\<lambda>e. me_status e = PENDING \<and> me_available_at e \<le> now) (match_events db))"
  obtain rest where r: "?rows = e # rest" using assms by (cases ?rows) (auto simp: claim_event_def)
  have "e \<in> set ?rows" unfolding r by simp
  moreover have "sorted (map me_id (e # rest))" unfolding r [symmetric] by simp
  moreover have "x \<in> set (e # rest)" if "x \<in> set (match_events db)" "me_status x = PENDING" "me_available_at x \<le> now" for x
    using that unfolding r [symmetric] by simp
  ultimately show ?thesis by auto
qed

lemma process_next_ok:
  assumes "records_ok h db" and "distinct (map rm_id (rank_match_snapshots h))" and "\<And>e room. look_up e = Inr room \<Longrightarrow> lookup_ok h e room"
  shows "records_ok h (snd (process_next now look_up db))"
  using assms by (auto simp: process_next_def split: option.splits dest: claim_event_Some intro!: attempt_ok)

end
