(* ===== verification/Records_Reading.thy ===== *)
theory Records_Reading
  imports Records_Invariant
begin

text \<open>
  The reads over the match records: a name query matches its text and nothing else, and the pages of
  the list partition it.
\<close>

section \<open>A name query is matched as it is written\<close>

lemma like_any: "like ''%'' s"
  by (induction s) simp_all

lemma backslash_neq: "backslash \<noteq> CHR ''%''" "backslash \<noteq> CHR ''_''"
  by simp_all

lemma like_escaped_char: "like (escape_char c @ ps) s \<longleftrightarrow> (\<exists>cs. s = c # cs \<and> like ps cs)"
  by (cases s) (auto simp: escape_char_def)

lemma like_escaped: "like (escape_like q @ ps) s \<longleftrightarrow> (\<exists>cs. s = q @ cs \<and> like ps cs)"
proof (induction q arbitrary: s)
  case (Cons c q)
  have "escape_like (c # q) @ ps = escape_char c @ (escape_like q @ ps)" by (simp add: escape_like_def)
  then show ?case using Cons by (auto simp del: like.simps simp: like_escaped_char)
qed (simp add: escape_like_def)

lemma like_skip: "like (CHR ''%'' # ps) s \<longleftrightarrow> (\<exists>pre cs. s = pre @ cs \<and> like ps cs)"
proof (induction s)
  case Nil
  then show ?case by auto
next
  case (Cons c s)
  have "like (CHR ''%'' # ps) (c # s) \<longleftrightarrow> like ps (c # s) \<or> like (CHR ''%'' # ps) s" by simp
  also have "\<dots> \<longleftrightarrow> (\<exists>pre cs. c # s = pre @ cs \<and> like ps cs)"
    unfolding Cons by (metis Cons_eq_append_conv)
  finally show ?case .
qed

lemma code_lower_char:
  "(of_char (lower_char c) :: nat) = (if 65 \<le> (of_char c :: nat) \<and> (of_char c :: nat) \<le> 90 then of_char c + 32 else of_char c)"
  by (simp add: lower_char_def Let_def)

lemma lower_char_not_letter:
  assumes "(of_char d :: nat) < 65 \<or> 90 < (of_char d :: nat) \<and> (of_char d :: nat) < 97"
  shows "lower_char c = d \<longleftrightarrow> c = d"
proof -
  have eq: "x = y \<longleftrightarrow> (of_char x :: nat) = of_char y" for x y by (metis of_char_eq_iff)
  show ?thesis unfolding eq code_lower_char using assms by auto
qed

lemma casefold_escape: "casefold (escape_like q) = escape_like (casefold q)"
proof -
  have eq: "lower_char c = backslash \<longleftrightarrow> c = backslash" "lower_char c = CHR ''%'' \<longleftrightarrow> c = CHR ''%''"
    "lower_char c = CHR ''_'' \<longleftrightarrow> c = CHR ''_''" for c
    by (rule lower_char_not_letter; simp)+
  have "lower_char backslash = backslash" by (simp add: lower_char_def)
  with eq have "map lower_char (escape_char c) = escape_char (lower_char c)" for c
    by (simp add: escape_char_def)
  then show ?thesis by (simp add: casefold_def escape_like_def map_concat comp_def)
qed

lemma ilike_contains: "ilike (''%'' @ escape_like q @ ''%'') s \<longleftrightarrow> sublist (casefold q) (casefold s)"
proof -
  have "casefold (''%'' @ escape_like q @ ''%'') = CHR ''%'' # (escape_like (casefold q) @ ''%'')"
    using casefold_escape [of q] by (simp add: casefold_def lower_char_def)
  then show ?thesis
    by (auto simp add: ilike_def like_skip like_escaped sublist_def like.simps(1) simp del: like.simps(2))
qed

section \<open>Pages\<close>

text \<open>What is asked for, newest first.\<close>

definition wanted :: "string option \<Rightarrow> string option \<Rightarrow> nat option \<Rightarrow> hdb \<Rightarrow> recdb \<Rightarrow> match_row list" where
  "wanted npid q before h db = sort_key (\<lambda>m. - int (mt_id m)) (filter (match_wanted npid q before h) (matches db))"

text \<open>Follow \<open>next_before\<close> for at most \<open>n\<close> pages.\<close>

fun follow :: "nat \<Rightarrow> string option \<Rightarrow> string option \<Rightarrow> nat option \<Rightarrow> nat \<Rightarrow> hdb \<Rightarrow> recdb \<Rightarrow> match_record_out list" where
  "follow 0 npid q before limit h db = []"
| "follow (Suc n) npid q before limit h db =
     (let page = list_matches npid q before limit h db in
      mg_matches page @ (case mg_next_before page of None \<Rightarrow> [] | Some b \<Rightarrow> follow n npid q (Some b) limit h db))"

lemma wanted_before:
  assumes d: "distinct (map mt_id (matches db))" and w: "wanted npid q before h db = xs @ m # ys"
  shows "wanted npid q (Some (mt_id m)) h db = ys"
proof -
  let ?k = "\<lambda>m. - int (mt_id m)"
  have mem: "m \<in> set (wanted npid q before h db)" unfolding w by simp
  then have b: "case before of None \<Rightarrow> True | Some b \<Rightarrow> mt_id m < b" by (auto simp: wanted_def match_wanted_def)
  have "match_wanted npid q (Some (mt_id m)) h = (\<lambda>x. match_wanted npid q before h x \<and> mt_id x < mt_id m)"
    using b by (auto simp: match_wanted_def split: option.splits)
  then have "wanted npid q (Some (mt_id m)) h db = filter (\<lambda>x. mt_id x < mt_id m) (wanted npid q before h db)"
    unfolding wanted_def by (simp add: filter_sort [symmetric])
  also have "\<dots> = filter (\<lambda>x. mt_id x < mt_id m) (xs @ m # ys)" by (simp add: w)
  also have "\<dots> = ys"
  proof -
    have s: "sorted (map ?k (xs @ m # ys))" unfolding w [symmetric] by (simp add: wanted_def)
    have "distinct (map mt_id (wanted npid q before h db))"
      unfolding wanted_def using d by (metis (no_types, lifting) distinct_map distinct_filter distinct_sort filter_is_subset inj_on_subset set_sort)
    then have "distinct (map mt_id (xs @ m # ys))" by (simp add: w)
    then have "\<forall>y\<in>set ys. mt_id y \<noteq> mt_id m" by (metis distinct.simps(2) distinct_append image_eqI list.set_map list.simps(9) map_append)
    moreover have "\<forall>x\<in>set xs. mt_id m \<le> mt_id x" "\<forall>y\<in>set ys. mt_id y \<le> mt_id m"
      using s by (auto simp: sorted_append)
    ultimately have "\<forall>x\<in>set xs. \<not> mt_id x < mt_id m" "\<forall>y\<in>set ys. mt_id y < mt_id m" by force+
    then show ?thesis by (simp add: filter_empty_conv)
  qed
  finally show ?thesis .
qed

lemma follow_all:
  assumes d: "distinct (map mt_id (matches db))" and l: "0 < limit"
    and "length (wanted npid q before h db) < n"
  shows "follow n npid q before limit h db = map (match_record_out_of \<circ> recorded_match_of h db) (wanted npid q before h db)"
  using assms(3)
proof (induction n arbitrary: before)
  case (Suc n)
  let ?w = "wanted npid q before h db"
  have found: "repo_list_matches npid q before (Suc limit) h db = map (recorded_match_of h db) (take (Suc limit) ?w)"
    by (simp add: repo_list_matches_def wanted_def)
  show ?case
  proof (cases "length ?w > limit")
    case False
    then show ?thesis by (simp add: list_matches_def found Let_def comp_def)
  next
    case True
    then have split: "?w = take (limit - 1) ?w @ ?w ! (limit - 1) # drop limit ?w"
      using l by (metis Suc_diff_1 Suc_lessD id_take_nth_drop less_trans_Suc)
    have rest: "wanted npid q (Some (mt_id (?w ! (limit - 1)))) h db = drop limit ?w"
      by (rule wanted_before [OF d split])
    have nb: "mg_next_before (list_matches npid q before limit h db) = Some (mt_id (?w ! (limit - 1)))"
      using True l by (simp add: list_matches_def found Let_def recorded_match_of_def)
    have "length (drop limit ?w) < n" using Suc.prems True l by simp
    then have "follow n npid q (Some (mt_id (?w ! (limit - 1)))) limit h db =
        map (match_record_out_of \<circ> recorded_match_of h db) (drop limit ?w)"
      by (rule Suc.IH [of "Some (mt_id (?w ! (limit - 1)))", unfolded rest])
    moreover have "mg_matches (list_matches npid q before limit h db) =
        map (match_record_out_of \<circ> recorded_match_of h db) (take limit ?w)"
      by (simp add: list_matches_def found Let_def take_map comp_def)
    ultimately show ?thesis by (simp add: nb map_append [symmetric] del: map_append)
  qed
qed simp

end
