(* ===== verification/Records_System.thy ===== *)
theory Records_System
  imports Records_Reading Collector
begin

text \<open>
  The match records as a whole: the collector watches the rooms, the capture reads the saves, the queue
  joins the two, and the reader pages through the result.  The steps of a run come in any order.
\<close>

section \<open>Runs\<close>

type_synonym record_state = "collector \<times> recdb"

text \<open>\<open>rank_room\<close> reads the history in a session of its own, which may fail.\<close>

definition looks_up :: "(event_row \<Rightarrow> string + rank_room option) \<Rightarrow> hdb \<Rightarrow> bool" where
  "looks_up look_up h \<longleftrightarrow> (\<forall>e. isl (look_up e) \<or> look_up e = Inr (find_rank_room (me_npid e) (me_saved_at e) h))"

inductive recording :: "record_state \<Rightarrow> record_state \<Rightarrow> bool" where
  collect_step: "recording (s, db) (snd (collect_once fails t dbnow npids observed s), db)"
| capture_step: "capture (read_changed :: nat \<Rightarrow> nat \<Rightarrow> unit + save_answer list) (fromisoformat :: string \<Rightarrow> unit + instant) now db =
    Inr db' \<Longrightarrow> recording (s, db) (s, db')"
| process_step: "looks_up look_up (co_db s) \<Longrightarrow> recording (s, db) (s, snd (process_next now look_up db))"

inductive_cases recordingE: "recording x y"

definition recorded :: "record_state \<Rightarrow> bool" where
  "recorded = recording\<^sup>*\<^sup>* (new_collector empty_hdb, empty_recdb)"

section \<open>A room's row stays\<close>

text \<open>What a match keeps of a room: its row's number and its two players.\<close>

definition room_rows :: "hdb \<Rightarrow> (nat \<times> string \<times> string) set" where
  "room_rows h = (\<lambda>r. (rm_id r, rm_user1_npid r, rm_user2_npid r)) ` set (rank_match_snapshots h)"

lemma room_agrees_rows:
  "room_agrees h m \<longleftrightarrow> (case mt_room_snapshot_id m of
     None \<Rightarrow> mt_p2_npid m = None \<and> mt_p2_event_id m = None
   | Some i \<Rightarrow> \<exists>n. mt_p2_npid m = Some n \<and> (i, mt_p1_npid m, n) \<in> room_rows h)"
  unfolding room_agrees_def room_rows_def by (cases "mt_room_snapshot_id m") auto

lemma room_agrees_mono: "room_rows h \<subseteq> room_rows h' \<Longrightarrow> room_agrees h m \<Longrightarrow> room_agrees h' m"
  unfolding room_agrees_rows by (cases "mt_room_snapshot_id m") auto

lemma records_ok_mono: "room_rows h \<subseteq> room_rows h' \<Longrightarrow> records_ok h db \<Longrightarrow> records_ok h' db"
  using room_agrees_mono unfolding records_ok_def match_ok_def by blast

lemma room_rows_touch [simp]: "room_rows (touch_rank_matches rooms t h) = room_rows h"
proof -
  have "map (\<lambda>r. (rm_id r, rm_user1_npid r, rm_user2_npid r)) (rank_match_snapshots (touch_rank_matches rooms t h)) =
      map (\<lambda>r. (rm_id r, rm_user1_npid r, rm_user2_npid r)) (rank_match_snapshots h)"
    by (simp add: touch_rank_matches_def map_update_where_frame)
  then show ?thesis by (simp only: room_rows_def list.set_map [symmetric])
qed

lemma room_rows_insert: "room_rows h \<subseteq> room_rows (insert_snapshot room h)"
  by (auto simp: room_rows_def insert_snapshot_def Let_def)

lemma room_rows_record: "room_rows h \<subseteq> room_rows (record_snapshot rooms h)"
  unfolding record_snapshot_def
  by (rule fold_keeps [where P = "\<lambda>h'. room_rows h \<subseteq> room_rows h'"]) (use room_rows_insert in blast)+

lemma room_rows_stats [simp]: "room_rows (record_daily_matched_players npids t h) = room_rows h"
  "room_rows (record_activity_snapshot dbnow a h) = room_rows h"
  by (simp_all add: room_rows_def record_daily_matched_players_def record_activity_snapshot_def)

definition keeps_rooms :: "hdb \<Rightarrow> collector \<Rightarrow> bool" where
  "keeps_rooms h s \<longleftrightarrow> room_rows h \<subseteq> room_rows (co_db s)"

lemma keeps_rooms_steps:
  "keeps_rooms h s \<Longrightarrow> store_daily fails npids t s = Inr s' \<Longrightarrow> keeps_rooms h s'"
  "keeps_rooms h s \<Longrightarrow> store_activity fails dbnow a s = Inr s' \<Longrightarrow> keeps_rooms h s'"
  "keeps_rooms h s \<Longrightarrow> record_new_rank_matches fails rooms t s = Inr s' \<Longrightarrow> keeps_rooms h s'"
  "keeps_rooms h s \<Longrightarrow> store_touch fails snaps t s = Inr s' \<Longrightarrow> keeps_rooms h s'"
  using room_rows_record
  by (fastforce simp: keeps_rooms_def store_daily_def store_activity_def record_new_rank_matches_def store_touch_def Let_def
      split: if_splits)+

lemma room_rows_collect: "room_rows (co_db s) \<subseteq> room_rows (co_db (snd (collect_once fails t dbnow npids observed s)))"
proof -
  let ?h = "co_db s"
  have "keeps_rooms ?h s" by (simp add: keeps_rooms_def)
  then have "keeps_rooms ?h (snd (collect_once fails t dbnow npids observed s))"
    unfolding collect_once_def
    by (auto split: sum.splits intro!: then_step_keeps [where P = "keeps_rooms ?h"] elim: keeps_rooms_steps simp del: then_step.simps)
  then show ?thesis by (simp add: keeps_rooms_def)
qed

section \<open>The invariant of a run\<close>

lemma recording_ok:
  assumes "recording (s, db) (s', db')" and "history_ok (co_db s)" and "records_ok (co_db s) db"
  shows "history_ok (co_db s') \<and> records_ok (co_db s') db'"
  using assms(1)
proof (cases rule: recording.cases)
  case (collect_step fails t dbnow npids observed)
  then show ?thesis using collect_once_ok [OF assms(2)] records_ok_mono [OF room_rows_collect assms(3)] by simp
next
  case (capture_step read_changed fromisoformat now)
  then show ?thesis using assms capture_ok by simp
next
  case (process_step look_up now)
  have "lookup_ok (co_db s) e room" if "look_up e = Inr room" for e room
    using process_step(3) that find_rank_room_lookup_ok unfolding looks_up_def by (metis isl_def sum.distinct(1) sum.inject(2))
  moreover have "distinct (map rm_id (rank_match_snapshots (co_db s)))" using assms(2) by (simp add: history_ok_def)
  ultimately show ?thesis using process_step assms process_next_ok by blast
qed

lemma recorded_ok: "recorded (s, db) \<Longrightarrow> history_ok (co_db s) \<and> records_ok (co_db s) db"
  unfolding recorded_def
proof (induction "(s, db)" arbitrary: s db rule: rtranclp_induct)
  case base
  then show ?case by (simp add: new_collector_def empty_history_ok empty_records_ok)
next
  case (step y)
  then show ?case using recording_ok by (cases y) blast
qed

lemma distinct_concat_pick:
  "distinct (concat (map f xs)) \<Longrightarrow> x \<in> set xs \<Longrightarrow> y \<in> set xs \<Longrightarrow> a \<in> set (f x) \<Longrightarrow> a \<in> set (f y) \<Longrightarrow> x = y"
  by (induction xs) auto

lemma placed_once:
  assumes ok: "records_ok h db" and m: "m \<in> set (matches db)" "event_on s m = Some i" and m': "m' \<in> set (matches db)" "event_on s' m' = Some i"
  shows "m' = m \<and> s' = s"
proof -
  have d: "distinct (concat (map (\<lambda>m. map snd (sides_of m)) (matches db)))" using ok by (simp add: records_ok_def placed_def)
  have mem: "i \<in> set (map snd (sides_of m))" "i \<in> set (map snd (sides_of m'))"
    using m(2) m'(2) by (force simp: set_sides_of [symmetric])+
  then have eq: "m' = m" using distinct_concat_pick [OF d m(1) m'(1)] by blast
  have "distinct (map snd (sides_of m))" using d m(1) by (auto simp: distinct_concat_iff)
  then have "s' = s" using m(2) m'(2) unfolding eq by (cases s; cases s') (auto simp: sides_of_def event_on_def)
  with eq show ?thesis by simp
qed

section \<open>Properties\<close>

text \<open>C2: In every state the recording can reach, whatever fails and in whatever order the room watch, the save
  capture and the queue take their turns: an event is resolved exactly when it stands on a side of a match, and then
  on one side of one match only, which names its player there, gives that side the event's result and was played
  within a minute of it; an event that is pending or dead stands nowhere.  Every match is of such events, and one
  that names an opponent names the two players of one observed room.\<close>

theorem records_always_right:
  assumes "recorded (s, db)"
  shows "distinct (map me_id (match_events db)) \<and>
    (\<forall>e\<in>set (match_events db).
      if me_status e = DONE
      then \<exists>m\<in>set (matches db). \<exists>p. event_on p m = Some (me_id e) \<and> npid_on p m = Some (me_npid e) \<and>
        outcome_of p (mt_winner m) = me_result e \<and> \<bar>mt_played_at m - me_saved_at e\<bar> \<le> 60 * second \<and>
        (\<forall>m'\<in>set (matches db). \<forall>p'. event_on p' m' = Some (me_id e) \<longrightarrow> m' = m \<and> p' = p)
      else \<forall>m\<in>set (matches db). \<forall>p. event_on p m \<noteq> Some (me_id e)) \<and>
    (\<forall>m\<in>set (matches db). (\<exists>p i. event_on p m = Some i) \<and>
      (\<forall>p i. event_on p m = Some i \<longrightarrow> (\<exists>e\<in>set (match_events db). me_id e = i \<and> me_status e = DONE)) \<and>
      (\<forall>n. mt_p2_npid m = Some n \<longrightarrow> (\<exists>r\<in>set (rank_match_snapshots (co_db s)).
        rm_user1_npid r = mt_p1_npid m \<and> rm_user2_npid r = n)))"
proof -
  have ok: "records_ok (co_db s) db" using recorded_ok [OF assms] by simp
  then have ids: "distinct (map me_id (match_events db))" by (simp add: records_ok_def)
  have stands: "me_status e = DONE \<longleftrightarrow> (\<exists>m\<in>set (matches db). \<exists>p. event_on p m = Some (me_id e))" if "e \<in> set (match_events db)" for e
    using ok that unfolding records_ok_def placed_event_on by blast
  have agrees: "side_agrees db m p i" if "m \<in> set (matches db)" "event_on p m = Some i" for m p i
    using ok that set_sides_of unfolding records_ok_def match_ok_def by blast
  have right: "npid_on p m = Some (me_npid e) \<and> outcome_of p (mt_winner m) = me_result e \<and>
      \<bar>mt_played_at m - me_saved_at e\<bar> \<le> 60 * second"
    if m: "m \<in> set (matches db)" "event_on p m = Some (me_id e)" and e: "e \<in> set (match_events db)" for m p e
    using agrees [OF m] distinct_map_eq [OF ids _ e] by (auto simp: side_agrees_def same_match_window_def)
  have rooms: "\<forall>n. mt_p2_npid m = Some n \<longrightarrow> (\<exists>r\<in>set (rank_match_snapshots (co_db s)). rm_user1_npid r = mt_p1_npid m \<and> rm_user2_npid r = n)"
    if "m \<in> set (matches db)" for m
  proof -
    have "room_agrees (co_db s) m" using ok that by (simp add: records_ok_def match_ok_def)
    then show ?thesis by (auto simp: room_agrees_def split: option.splits)
  qed
  have some: "\<exists>p i. event_on p m = Some i" if "m \<in> set (matches db)" for m
    using ok that set_sides_of unfolding records_ok_def match_ok_def by (metis last_in_set surj_pair)
  have events: "if me_status e = DONE
      then \<exists>m\<in>set (matches db). \<exists>p. event_on p m = Some (me_id e) \<and> npid_on p m = Some (me_npid e) \<and>
        outcome_of p (mt_winner m) = me_result e \<and> \<bar>mt_played_at m - me_saved_at e\<bar> \<le> 60 * second \<and>
        (\<forall>m'\<in>set (matches db). \<forall>p'. event_on p' m' = Some (me_id e) \<longrightarrow> m' = m \<and> p' = p)
      else \<forall>m\<in>set (matches db). \<forall>p. event_on p m \<noteq> Some (me_id e)" if e: "e \<in> set (match_events db)" for e
  proof (cases "me_status e = DONE")
    case True
    then obtain m p where m: "m \<in> set (matches db)" "event_on p m = Some (me_id e)" using stands [OF e] by blast
    have "event_on p m = Some (me_id e) \<and> npid_on p m = Some (me_npid e) \<and> outcome_of p (mt_winner m) = me_result e \<and>
        \<bar>mt_played_at m - me_saved_at e\<bar> \<le> 60 * second \<and>
        (\<forall>m'\<in>set (matches db). \<forall>p'. event_on p' m' = Some (me_id e) \<longrightarrow> m' = m \<and> p' = p)"
      using m(2) right [OF m e] placed_once [OF ok m] by blast
    then show ?thesis unfolding if_P [OF True] using m(1) by blast
  next
    case False
    then show ?thesis using stands [OF e] by simp
  qed
  have "\<exists>e\<in>set (match_events db). me_id e = i \<and> me_status e = DONE" if "m \<in> set (matches db)" "event_on p m = Some i" for m p i
    using agrees [OF that] by (auto simp: side_agrees_def)
  then show ?thesis using ids events some rooms by (intro conjI ballI) blast+
qed

abbreviation demo_answer :: "nat \<Rightarrow> int \<Rightarrow> save_answer" where
  "demo_answer i w \<equiv> \<lparr>sa_npid = ''kim'', sa_data_id = i, sa_saved_utc = [], sa_wins = w, sa_losses = 0,
     sa_chars = [\<lparr>ac_id = 3, ac_wins = w, ac_losses = 0, ac_rank = Some 5\<rparr>], sa_own_chars = [3]\<rparr>"

abbreviation demo_read :: "nat \<Rightarrow> nat \<Rightarrow> unit + save_answer list" where
  "demo_read a l \<equiv> Inr [demo_answer 1 0, demo_answer 2 1]"

abbreviation demo_look :: "event_row \<Rightarrow> string + rank_room option" where
  "demo_look e \<equiv> Inr (find_rank_room (me_npid e) (me_saved_at e) empty_hdb)"

definition demo_captured :: recdb where
  "demo_captured = (case capture demo_read (\<lambda>_. Inr 0 :: unit + instant) 0 empty_recdb of Inl _ \<Rightarrow> empty_recdb | Inr db \<Rightarrow> db)"

definition demo_resolved :: recdb where
  "demo_resolved = snd (process_next 0 demo_look demo_captured)"

lemma demo_recorded: "recorded (new_collector empty_hdb, demo_resolved)"
proof -
  have c: "recording (new_collector empty_hdb, empty_recdb) (new_collector empty_hdb, demo_captured)"
    by (rule capture_step [of demo_read "\<lambda>_. Inr 0" 0]) (simp add: demo_captured_def capture_def)
  have "looks_up demo_look (co_db (new_collector empty_hdb))" by (simp add: looks_up_def new_collector_def)
  from process_step [OF this] have "recording (new_collector empty_hdb, demo_captured) (new_collector empty_hdb, demo_resolved)"
    unfolding demo_resolved_def by blast
  with c show ?thesis unfolding recorded_def by (rule rtranclp.rtrancl_into_rtrancl [OF r_into_rtranclp])
qed

theorem records_always_right_witness:
  "\<exists>m. matches demo_resolved = [m] \<and> event_on P1 m = Some 1 \<and> mt_winner m = P1 \<and>
    (\<exists>e\<in>set (match_events demo_resolved). me_id e = 1 \<and> me_result e = WIN)"
proof -
  let ?db = demo_resolved
  have "map mt_id (matches ?db) = [1]" "map (event_on P1) (matches ?db) = [Some 1]" "map mt_winner (matches ?db) = [P1]"
    by code_simp+
  then obtain m where m: "matches ?db = [m]" "event_on P1 m = Some 1" "mt_winner m = P1" by (cases "matches ?db") auto
  have "map me_id (match_events ?db) = [1]" "map me_status (match_events ?db) = [DONE]" by code_simp+
  then obtain e where e: "match_events ?db = [e]" "me_id e = 1" "me_status e = DONE" by (cases "match_events ?db") auto
  have "\<exists>m'\<in>set (matches ?db). \<exists>p. event_on p m' = Some 1 \<and> outcome_of p (mt_winner m') = me_result e \<and>
      (\<forall>m''\<in>set (matches ?db). \<forall>p'. event_on p' m'' = Some 1 \<longrightarrow> m'' = m' \<and> p' = p)"
    using records_always_right [OF demo_recorded, THEN conjunct2, THEN conjunct1] by (simp add: e) blast
  then obtain p where "outcome_of p (mt_winner m) = me_result e" "P1 = p" using m by auto
  then show ?thesis using m e by (auto simp: outcome_of_def)
qed

text \<open>What a pass has compared stays compared: the save kept for its player is that one or a newer one.\<close>

definition compared_to :: "recdb \<Rightarrow> player_save \<Rightarrow> bool" where
  "compared_to db save \<longleftrightarrow> (\<exists>b. lock_state (sv_npid save) db = Some b \<and> sv_data_id save \<le> sv_data_id b)"

lemma compare_save_compared:
  assumes "compare_save now s db = Inr (u, db')"
  shows "compared_to db' s" and "compared_to db x \<Longrightarrow> compared_to db' x"
proof -
  note lock = compare_save_lock [OF assms]
  show "compared_to db' s" by (cases "lock_state (sv_npid s) db") (auto simp: compared_to_def lock)
  show "compared_to db' x" if "compared_to db x" using that by (auto simp: compared_to_def lock)
qed

lemma capture_one_cases:
  obtains "\<exists>e. from_answer rd a = Inl e" "capture_one rd now a db = db"
  | s db' where "from_answer rd a = Inr s" "compare_save now s db = Inr ((), db')" "capture_one rd now a db = db'"
proof (cases "from_answer rd a")
  case (Inr s)
  obtain db' where "compare_save now s db = Inr ((), db')" using compare_save_total by blast
  with Inr that(2) show ?thesis by (simp add: capture_one_def transact_def)
qed (use that(1) in \<open>simp add: capture_one_def\<close>)

lemma capture_one_compared:
  "from_answer rd a = Inr s \<Longrightarrow> compared_to (capture_one rd now a db) s"
  "compared_to db x \<Longrightarrow> compared_to (capture_one rd now a db) x"
  by (rule capture_one_cases [of rd a now db]; use compare_save_compared in fastforce)+

lemma captured_compared:
  "a \<in> set answers \<and> from_answer rd a = Inr x \<or> compared_to db x \<Longrightarrow> compared_to (fold (capture_one rd now) answers db) x"
proof (induction answers arbitrary: db)
  case (Cons b answers)
  have "a \<in> set answers \<and> from_answer rd a = Inr x \<or> compared_to (capture_one rd now b db) x"
    using Cons.prems capture_one_compared(1) [of rd b x now db] capture_one_compared(2) [of db x rd now b] by auto
  from Cons.IH [OF this] show ?case by simp
qed simp

lemma capture_one_again: "(\<And>s. from_answer rd a = Inr s \<Longrightarrow> compared_to db s) \<Longrightarrow> capture_one rd now a db = db"
  by (auto simp: capture_one_def transact_def compare_save_def compared_to_def split: sum.split)

text \<open>C23: Reading saves again changes nothing, so the overlap the capture asks for is harmless: when a capture is
  answered, in whatever order, with saves of any players that an earlier capture was answered with, or with older
  ones of the same players, or with answers that cannot be read, the records stay as they are.\<close>

theorem capture_replay:
  assumes first: "capture read_changed rd now db = Inr db'"
    and answers: "read_changed (latest_data_id db - 16) 200 = Inr answers"
    and again: "read_again (latest_data_id db' - 16) 200 = Inr answers'"
    and old: "\<forall>a'\<in>set answers'. \<forall>s'. from_answer rd a' = Inr s' \<longrightarrow>
      (\<exists>a\<in>set answers. \<exists>s. from_answer rd a = Inr s \<and> sv_npid s = sv_npid s' \<and> sv_data_id s' \<le> sv_data_id s)"
  shows "capture read_again rd now' db' = Inr db'"
proof -
  have db': "db' = fold (capture_one rd now) answers db"
    using first answers by (simp add: capture_def capture_overlap_def capture_limit_def)
  have same: "capture_one rd now' a' db' = db'" if a': "a' \<in> set answers'" for a'
  proof (rule capture_one_again)
    fix s'
    assume "from_answer rd a' = Inr s'"
    then obtain a s where a: "a \<in> set answers" "from_answer rd a = Inr s" "sv_npid s = sv_npid s'" "sv_data_id s' \<le> sv_data_id s"
      using old a' by blast
    have "compared_to db' s" unfolding db' using captured_compared a(1,2) by blast
    then show "compared_to db' s'" using a(3,4) by (auto simp: compared_to_def)
  qed
  have "fold (capture_one rd now') as db' = db'" if "set as \<subseteq> set answers'" for as
    using that by (induction as) (simp_all add: same)
  then show ?thesis using again by (simp add: capture_def capture_overlap_def capture_limit_def)
qed

abbreviation demo_lee :: save_answer where "demo_lee \<equiv> (demo_answer 5 0)\<lparr>sa_npid := ''lee''\<rparr>"

theorem capture_replay_witness:
  "\<exists>db. capture (\<lambda>_ _. Inr [demo_answer 1 0, demo_lee, demo_answer 2 1] :: unit + save_answer list) (\<lambda>_. Inr 0 :: unit + instant) 0 empty_recdb = Inr db \<and>
    capture (\<lambda>_ _. Inr [demo_answer 2 1, demo_lee, demo_answer 1 0] :: unit + save_answer list) (\<lambda>_. Inr 0 :: unit + instant) 9 db = Inr db"
proof -
  let ?as = "[demo_answer 1 0, demo_lee, demo_answer 2 1]" and ?again = "[demo_answer 2 1, demo_lee, demo_answer 1 0]"
  let ?rd = "\<lambda>_. Inr 0 :: unit + instant"
  obtain db where db: "capture (\<lambda>_ _. Inr ?as :: unit + save_answer list) ?rd 0 empty_recdb = Inr db" by (simp add: capture_def)
  have "\<forall>a'\<in>set ?again. \<forall>s'. from_answer ?rd a' = Inr s' \<longrightarrow>
      (\<exists>a\<in>set ?as. \<exists>s. from_answer ?rd a = Inr s \<and> sv_npid s = sv_npid s' \<and> sv_data_id s' \<le> sv_data_id s)"
    by auto
  from capture_replay [OF db refl, of "\<lambda>_ _. Inr ?again", OF refl this] db show ?thesis by blast
qed

abbreviation demo_save :: "nat \<Rightarrow> player_save" where
  "demo_save i \<equiv> \<lparr>sv_npid = ''kim'', sv_data_id = i, sv_saved_at = 0, sv_wins = int i, sv_losses = 0, sv_tallies = [], sv_entered_chars = []\<rparr>"

text \<open>Comparing two saves never fails on a character the earlier one lacks; it finds a match exactly when one
  win or one loss was added, with the characters whose own count of that result rose and the rank each went in with,
  and anything more at once is reported as merged.\<close>

theorem compare_finds_one_match:
  "\<exists>c. compare before after = Inr c \<and>
    (let w = sv_wins after - sv_wins before; l = sv_losses after - sv_losses before in
     (cp_match c \<noteq> None \<longleftrightarrow> (w = 1 \<and> l = 0) \<or> (w = 0 \<and> l = 1)) \<and>
     (cp_merged c \<longleftrightarrow> \<not> (w = 0 \<and> l = 0) \<and> cp_match c = None) \<and>
     (\<forall>m. cp_match c = Some m \<longrightarrow> (pm_outcome m = WIN \<longleftrightarrow> w = 1) \<and> length (pm_ranks m) = length (pm_chars m) \<and>
        (\<forall>ch. ch \<in> set (pm_chars m) \<longleftrightarrow> (\<exists>t. (ch, t) \<in> set (sv_tallies after) \<and>
           count_of (tally_of before ch) (pm_outcome m) < count_of t (pm_outcome m)))))"
proof -
  have "ch \<in> set (played before after out) \<longleftrightarrow>
      (\<exists>t. (ch, t) \<in> set (sv_tallies after) \<and> count_of (tally_of before ch) out < count_of t out)" for ch out
    unfolding set_played by (force simp: raised_def)
  then show ?thesis by (simp add: compare_eq one_match_def Let_def)
qed

abbreviation demo_tally :: "int \<Rightarrow> nat \<Rightarrow> player_save" where
  "demo_tally w i \<equiv> (demo_save i)\<lparr>sv_wins := w, sv_tallies := [(3, \<lparr>ct_wins = w, ct_losses = 0, ct_rank = Some 10\<rparr>)]\<rparr>"

theorem compare_finds_one_match_witness:
  "\<exists>c m. compare (demo_tally 4 1) (demo_tally 5 2) = Inr c \<and> cp_match c = Some m \<and> pm_outcome m = WIN \<and> 3 \<in> set (pm_chars m)"
proof -
  have wl: "sv_wins (demo_tally 5 2) - sv_wins (demo_tally 4 1) = 1" "sv_losses (demo_tally 5 2) - sv_losses (demo_tally 4 1) = 0"
    by simp_all
  obtain c m where c: "compare (demo_tally 4 1) (demo_tally 5 2) = Inr c" "cp_match c = Some m" "pm_outcome m = WIN"
    and chars: "\<And>ch. ch \<in> set (pm_chars m) \<longleftrightarrow> (\<exists>t. (ch, t) \<in> set (sv_tallies (demo_tally 5 2)) \<and>
      count_of (tally_of (demo_tally 4 1) ch) (pm_outcome m) < count_of t (pm_outcome m))"
    using compare_finds_one_match [of "demo_tally 4 1" "demo_tally 5 2"] unfolding Let_def wl by auto
  have "count_of (tally_of (demo_tally 4 1) 3) WIN < count_of \<lparr>ct_wins = 5, ct_losses = 0, ct_rank = Some 10\<rparr> WIN" by code_simp
  then have "3 \<in> set (pm_chars m)" using chars [of 3] c(3) by simp
  with c show ?thesis by blast
qed

text \<open>A name query finds a match exactly when the text of the query, letter case aside, stands in the name of
  a player: the wildcards and the escape of SQL patterns are plain characters in it.\<close>

theorem name_query_literal:
  "name_matches q h m \<longleftrightarrow>
    sublist (casefold q) (casefold (mt_p1_npid m)) \<or>
    (\<exists>n. mt_p2_npid m = Some n \<and> sublist (casefold q) (casefold n)) \<or>
    (\<exists>r. find_room (mt_room_snapshot_id m) h = Some r \<and>
       (sublist (casefold q) (casefold (rm_user1_online_name r)) \<or> sublist (casefold q) (casefold (rm_user2_online_name r))))"
  by (auto simp: name_matches_def Let_def ilike_contains [simplified] split: option.splits)

text \<open>Following the pages of the match list from any point gives every wanted match once and in order, newest
  first, whatever the page size: no row is skipped or repeated at a page's edge.\<close>

theorem pages_list_all:
  assumes "recorded (s, db)" and "0 < limit" and "length (matches db) < n"
  shows "follow n npid q before limit (co_db s) db =
    map (match_record_out_of \<circ> recorded_match_of (co_db s) db) (wanted npid q before (co_db s) db) \<and>
    distinct (map mo_id (follow n npid q before limit (co_db s) db))"
proof -
  have d: "distinct (map mt_id (matches db))" using recorded_ok [OF assms(1)] by (simp add: records_ok_def)
  have "length (wanted npid q before (co_db s) db) \<le> length (matches db)"
    by (simp add: wanted_def)
  then have f: "follow n npid q before limit (co_db s) db =
      map (match_record_out_of \<circ> recorded_match_of (co_db s) db) (wanted npid q before (co_db s) db)"
    using assms(3) by (intro follow_all [OF d assms(2)]) simp
  have "mo_id ((match_record_out_of \<circ> recorded_match_of (co_db s) db) m) = mt_id m" for m
    by (simp add: match_record_out_of_def recorded_match_of_def Let_def)
  then have "mo_id \<circ> (match_record_out_of \<circ> recorded_match_of (co_db s) db) = mt_id" by (auto simp: fun_eq_iff)
  then have "map mo_id (follow n npid q before limit (co_db s) db) = map mt_id (wanted npid q before (co_db s) db)"
    by (simp only: f map_map)
  moreover have "distinct (map mt_id (wanted npid q before (co_db s) db))"
    using d unfolding wanted_def by (auto simp: distinct_map intro: inj_on_subset)
  ultimately show ?thesis using f by (simp only: simp_thms)
qed

theorem pages_list_all_witness:
  "length (follow 2 None None None 1 (co_db (new_collector empty_hdb)) demo_resolved) = 1"
proof -
  let ?db = demo_resolved
  have "map mt_id (matches ?db) = [1]" by code_simp
  then obtain m where m: "matches ?db = [m]" by (cases "matches ?db") auto
  have "length (wanted None None None (co_db (new_collector empty_hdb)) demo_resolved) = 1"
    by (simp add: m wanted_def match_wanted_def)
  then show ?thesis using pages_list_all [OF demo_recorded, of 1 2 None None None] m by (metis One_nat_def length_map less_2_cases_iff list.size(3) list.size(4) zero_less_one length_Cons)
qed

text \<open>A match in progress whose room was not there in the cycle before is on record after one good cycle, as
  seen from no later than now until now.\<close>

theorem collector_records:
  assumes "history_ok (co_db s)" and "no_later t (co_db s)"
    and "collect_once fails t dbnow npids (Inr ob) s = (True, s')"
    and "room \<in> set (ao_rank_matches ob)" and "rd_room_id room \<notin> co_prev s"
  shows "\<exists>r\<in>set (rank_match_snapshots (co_db s')).
    (rm_room_id r, rm_user1_npid r, rm_user2_npid r) = snapshot_key (to_snapshot_record t room) \<and>
    rm_created_dt r \<le> t \<and> rm_last_seen_at r = t"
  using collect_once_records [OF assms] by (simp add: room_key_def)

abbreviation demo_match :: "string \<Rightarrow> room_dto" where
  "demo_match other_npid \<equiv> \<lparr>rd_room_id = 7, rd_owner_npid = ''kim'', rd_owner_online_name = ''Kim'', rd_current_members = 2,
     rd_max_slots = 2, rd_room_type = RANK_MATCH, rd_rank_info = Some (Rank 3),
     rd_users = [\<lparr>ru_online_name = ''Kim'', ru_avatar_url = [], ru_npid = ''kim''\<rparr>,
                 \<lparr>ru_online_name = other_npid, ru_avatar_url = [], ru_npid = other_npid\<rparr>]\<rparr>"

abbreviation demo_seen :: "string \<Rightarrow> activity_observation" where
  "demo_seen other_npid \<equiv> \<lparr>ao_rank_player_npids = {''kim'', other_npid}, ao_total_players = 2, ao_total_rooms = 1,
     ao_rank_players = 2, ao_rank_rooms = 1, ao_rank_matches = [demo_match other_npid]\<rparr>"

theorem collector_records_witness:
  "\<exists>r\<in>set (rank_match_snapshots (co_db (snd (collect_once (\<lambda>_. False) 5 5 [] (Inr (demo_seen ''lee'')) (new_collector empty_hdb))))).
    rm_user2_npid r = ''lee'' \<and> rm_last_seen_at r = 5"
proof -
  let ?r = "collect_once (\<lambda>_. False) 5 5 [] (Inr (demo_seen ''lee'')) (new_collector empty_hdb)"
  have run: "?r = (True, snd ?r)"
    by (simp add: collect_once_def store_daily_def store_activity_def record_new_rank_matches_def store_touch_def Let_def new_collector_def)
  have "history_ok (co_db (new_collector empty_hdb))" "no_later 5 (co_db (new_collector empty_hdb))"
    using empty_history_ok by (simp_all add: new_collector_def no_later_def) (simp add: empty_hdb_def)
  from collector_records [OF this run, of "demo_match ''lee''"] show ?thesis
    by (auto simp: new_collector_def snapshot_key_def to_snapshot_record_def)
qed


abbreviation "fresh_collector \<equiv> new_collector empty_hdb"


abbreviation "demo_outage \<equiv> \<lparr>cy_fails = \<lambda>_. False, cy_at = 4, cy_dbnow = 4, cy_npids = [], cy_observed = Inl ()\<rparr>"

abbreviation "demo_cycle \<equiv> \<lparr>cy_fails = \<lambda>_. False, cy_at = 5, cy_dbnow = 5, cy_npids = [], cy_observed = Inr (demo_seen ''lee'')\<rparr>"


text \<open>An opponent who takes the free seat of a room between two cycles is never put on record: the room's number
  was there before, so the second pair has no row, and the queue finds no room for that player's match.\<close>

theorem second_opponent_unrecorded:
  "let s1 = snd (collect_once (\<lambda>_. False) 0 0 [] (Inr (demo_seen ''lee'')) (new_collector empty_hdb));
       (good, s2) = collect_once (\<lambda>_. False) (30 * second) (30 * second) [] (Inr (demo_seen ''park'')) s1
   in good \<and> (\<forall>t. find_rank_room ''park'' t (co_db s2) = None)"
proof -
  let ?s1 = "snd (collect_once (\<lambda>_. False) 0 0 [] (Inr (demo_seen ''lee'')) (new_collector empty_hdb))"
  let ?r = "collect_once (\<lambda>_. False) (30 * second) (30 * second) [] (Inr (demo_seen ''park'')) ?s1"
  have "fst ?r" by code_simp
  moreover have "list_all (\<lambda>r. rm_user1_npid r \<noteq> ''park'' \<and> rm_user2_npid r \<noteq> ''park'') (rank_match_snapshots (co_db (snd ?r)))"
    by code_simp
  then have "filter (in_room_at ''park'' t) (rank_match_snapshots (co_db (snd ?r))) = []" for t
    by (auto simp: list_all_iff in_room_at_def filter_empty_conv)
  ultimately show ?thesis by (simp add: find_rank_room_def Let_def case_prod_beta)
qed

end
