(* ===== verification/Places.thy ===== *)
theory Places
  imports Prelude "HOL-Library.Multiset"
begin

text \<open>
  Competition places (1, 2, 2, 4), as the two boards of the program assign them: \<open>itertools.groupby\<close> over
  a sorted list, everyone in a group at the same place and the next group behind all of them.
\<close>

function place_groups :: "('a \<Rightarrow> 'k) \<Rightarrow> nat \<Rightarrow> 'a list \<Rightarrow> (nat \<times> 'a) list" where
  "place_groups key place [] = []"
| "place_groups key place (x # xs) =
     (let tied = x # takeWhile (\<lambda>y. key y = key x) xs in
      map (\<lambda>y. (place, y)) tied @ place_groups key (place + length tied) (dropWhile (\<lambda>y. key y = key x) xs))"
  by pat_completeness auto
termination by (relation "measure (\<lambda>(key, place, xs). length xs)") (auto simp: less_Suc_eq_le length_dropWhile_le)

definition place_among :: "('a \<Rightarrow> 'k :: linorder) \<Rightarrow> 'a list \<Rightarrow> 'a \<Rightarrow> nat" where
  "place_among key xs x = 1 + length (filter (\<lambda>y. key y < key x) xs)"

lemma sorted_takeWhile_eq:
  fixes key :: "'a \<Rightarrow> 'k :: linorder"
  assumes "sorted (map key (x # xs))"
  shows "takeWhile (\<lambda>y. key y = key x) xs = filter (\<lambda>y. key y = key x) xs"
    and "dropWhile (\<lambda>y. key y = key x) xs = filter (\<lambda>y. key x < key y) xs"
proof -
  have "takeWhile (\<lambda>y. key y = key x) xs = filter (\<lambda>y. key y = key x) xs \<and>
    dropWhile (\<lambda>y. key y = key x) xs = filter (\<lambda>y. key x < key y) xs"
    using assms
  proof (induction xs)
    case (Cons y xs)
    show ?case
    proof (cases "key y = key x")
      case True
      then show ?thesis using Cons by simp
    next
      case False
      then have "key x < key y" using Cons.prems by force
      then have "\<forall>z\<in>set (y # xs). key x < key z" using Cons.prems by fastforce
      then have "filter (\<lambda>z. key z = key x) (y # xs) = []" "filter (\<lambda>z. key x < key z) (y # xs) = y # xs"
        by (force simp: filter_empty_conv filter_id_conv)+
      then show ?thesis using False by simp
    qed
  qed simp
  then show "takeWhile (\<lambda>y. key y = key x) xs = filter (\<lambda>y. key y = key x) xs"
    and "dropWhile (\<lambda>y. key y = key x) xs = filter (\<lambda>y. key x < key y) xs" by simp_all
qed

lemma place_groups_sorted:
  fixes key :: "'a \<Rightarrow> 'k :: linorder"
  assumes "sorted (map key xs)"
  shows "place_groups key place xs = map (\<lambda>x. (place + length (filter (\<lambda>y. key y < key x) xs), x)) xs"
  using assms
proof (induction key place xs rule: place_groups.induct)
  case (2 key place x xs)
  define tied where "tied = x # takeWhile (\<lambda>y. key y = key x) xs"
  define rest where "rest = dropWhile (\<lambda>y. key y = key x) xs"
  have split: "x # xs = tied @ rest" by (simp add: tied_def rest_def)
  have t: "\<forall>y\<in>set tied. key y = key x" by (auto simp: tied_def dest: set_takeWhileD)
  have r: "\<forall>y\<in>set rest. key x < key y" using sorted_takeWhile_eq [OF 2(2)] by (simp add: rest_def)
  have "sorted (map key (tied @ rest))" using 2(2) split by simp
  then have "sorted (map key rest)" by (simp add: sorted_append)
  from 2(1) [OF tied_def this [unfolded rest_def]]
  have IH: "place_groups key (place + length tied) rest =
      map (\<lambda>x. (place + length tied + length (filter (\<lambda>y. key y < key x) rest), x)) rest"
    by (simp add: rest_def)
  have "place_groups key place (x # xs) = map (\<lambda>y. (place, y)) tied @ place_groups key (place + length tied) rest"
    by (simp add: tied_def rest_def)
  also have "\<dots> = map (\<lambda>z. (place + length (filter (\<lambda>y. key y < key z) (tied @ rest)), z)) (tied @ rest)"
  proof -
    have "filter (\<lambda>y. key y < key z) tied = []" "filter (\<lambda>y. key y < key z) rest = []" if "z \<in> set tied" for z
      using that t r by (auto simp: filter_empty_conv)
    moreover have "filter (\<lambda>y. key y < key z) tied = tied" if "z \<in> set rest" for z
      using that t r by (auto simp: filter_id_conv)
    ultimately show ?thesis unfolding IH by simp
  qed
  finally show ?case unfolding split .
qed simp

lemma place_groups_places:
  fixes key :: "'a \<Rightarrow> 'k :: linorder"
  assumes "sorted (map key xs)"
  shows "place_groups key 1 xs = map (\<lambda>x. (place_among key xs x, x)) xs"
  unfolding place_groups_sorted [OF assms] by (simp add: place_among_def)

text \<open>Sorting on a key and then a tie-breaker sorts on the key.\<close>

lemma sorted_sort_key_fst:
  fixes key :: "'a \<Rightarrow> 'k :: linorder" and tie :: "'a \<Rightarrow> 't :: linorder"
  shows "sorted (map key (sort_key (\<lambda>x. (key x, tie x)) xs))"
proof -
  have "sorted (map (\<lambda>x. (key x, tie x)) (sort_key (\<lambda>x. (key x, tie x)) xs))" by simp
  then have "sorted_wrt (\<lambda>x y. (key x, tie x) \<le> (key y, tie y)) (sort_key (\<lambda>x. (key x, tie x)) xs)"
    by (simp add: sorted_map)
  then have "sorted_wrt (\<lambda>x y. key x \<le> key y) (sort_key (\<lambda>x. (key x, tie x)) xs)"
    by (rule sorted_wrt_mono_rel [rotated]) (auto simp: less_eq_prod_def)
  then show ?thesis by (simp add: sorted_map)
qed

lemma place_among_mset: "mset xs = mset ys \<Longrightarrow> place_among key xs x = place_among key ys x"
  unfolding place_among_def by (metis mset_filter size_mset)

end
