(* ===== verification/Saves.thy ===== *)
theory Saves
  imports Places Ttt2 Cache Matching_Service Errors
begin

text \<open>
  \<open>src/saves/\<close>: who stands where at their current rank (\<open>domain.py\<close>), the cached answers of \<open>service.py\<close> and
  the calls to save-admin's server with its refusals (\<open>adapters/save_admin_server.py\<close>).  The text
  \<open>saved_utc\<close>, which save-admin always writes in ISO form, is kept as the instant it denotes.
\<close>

section \<open>Current ranks\<close>

record ranked_char =
  kc_id :: nat
  kc_character :: string
  kc_rank :: int
  kc_rank_name :: string
  kc_tier :: string
  kc_points :: int
  kc_streak :: int
  kc_wins :: nat
  kc_losses :: nat

record player_ranks =
  pk_npid :: string
  pk_saved_at :: instant
  pk_account_rank :: int
  pk_chars :: "ranked_char list"

record holder =
  ho_npid :: string
  ho_saved_at :: instant
  ho_account_rank :: int
  ho_place :: nat
  ho_chars :: "nat list"

record board_entry =
  be_rank :: nat
  be_username :: string
  be_saved_at :: instant
  be_account_rank :: int
  be_chars :: "ranked_char list"

definition holder_ranks :: "int list" where
  "holder_ranks = [10..42]"

definition saved_within :: "('a \<Rightarrow> instant) \<Rightarrow> int option \<Rightarrow> instant \<Rightarrow> 'a list \<Rightarrow> 'a list" where
  "saved_within saved_at days now ps =
     (case days of None \<Rightarrow> ps | Some d \<Rightarrow> filter (\<lambda>p. saved_at p \<ge> now - d * day) ps)"

text \<open>Python's sort in reverse keeps equal elements in order, as sorting on the negated key does.\<close>

definition top_two :: "ranked_char list \<Rightarrow> ranked_char list" where
  "top_two chars = take 2 (sort_key (\<lambda>c. (- kc_rank c, - kc_points c)) chars)"

definition holds_its_rank :: "ranked_char \<Rightarrow> bool" where
  "holds_its_rank c \<longleftrightarrow> (kc_wins c \<noteq> 0 \<or> kc_losses c \<noteq> 0) \<and> kc_rank c \<in> set holder_ranks"

definition add_played :: "ranked_char \<Rightarrow> (int \<times> nat list) list \<Rightarrow> (int \<times> nat list) list" where
  "add_played c by_rank = AList.update (kc_rank c)
     ((case map_of by_rank (kc_rank c) of None \<Rightarrow> [] | Some ids \<Rightarrow> ids) @ [kc_id c]) by_rank"

definition played_ids_by_rank :: "ranked_char list \<Rightarrow> (int \<times> nat list) list" where
  "played_ids_by_rank chars = fold add_played (filter holds_its_rank chars) []"

text \<open>A player's two best characters, rank before points, as the board compares them.\<close>

definition standing :: "player_ranks \<Rightarrow> int \<times> int \<times> int \<times> int" where
  "standing p = (case map (\<lambda>c. (kc_rank c, kc_points c)) (pk_chars p) @ [(-1, -1), (-1, -1)] of
     (r1, n1) # (r2, n2) # _ \<Rightarrow> (- r1, - r2, - n1, - n2))"

definition entry :: "nat \<Rightarrow> player_ranks \<Rightarrow> board_entry" where
  "entry place p = \<lparr>be_rank = place, be_username = pk_npid p, be_saved_at = pk_saved_at p,
     be_account_rank = pk_account_rank p, be_chars = pk_chars p\<rparr>"

definition ranked_players :: "player_ranks list \<Rightarrow> player_ranks list" where
  "ranked_players ps = sort_key (\<lambda>p. (standing p, casefold (pk_npid p))) (filter (\<lambda>p. pk_chars p \<noteq> []) ps)"

definition current_rank_board :: "player_ranks list \<Rightarrow> board_entry list" where
  "current_rank_board ps = map (\<lambda>(place, p). entry place p) (place_groups standing 1 (ranked_players ps))"

datatype lookup_error = No_Key

text \<open>\<open>places[...]\<close> and \<open>by_rank[...]\<close> raise \<open>KeyError\<close> for a key they lack.\<close>

definition add_holder ::
  "(string \<times> nat) list \<Rightarrow> player_ranks \<Rightarrow> int \<times> nat list \<Rightarrow> (int \<times> holder list) list \<Rightarrow> lookup_error + (int \<times> holder list) list" where
  "add_holder places p ri by_rank =
     (case (map_of by_rank (fst ri), map_of places (pk_npid p)) of
        (Some hs, Some place) \<Rightarrow>
          Inr (AList.update (fst ri) (hs @ [\<lparr>ho_npid = pk_npid p, ho_saved_at = pk_saved_at p,
             ho_account_rank = pk_account_rank p, ho_place = place, ho_chars = snd ri\<rparr>]) by_rank)
      | _ \<Rightarrow> Inl No_Key)"

fun foldR :: "('a \<Rightarrow> 's \<Rightarrow> 'e + 's) \<Rightarrow> 'a list \<Rightarrow> 's \<Rightarrow> 'e + 's" where
  "foldR f [] s = Inr s"
| "foldR f (x # xs) s = bindR (f x s) (foldR f xs)"

definition holders_by_rank :: "player_ranks list \<Rightarrow> (string \<times> nat) list \<Rightarrow> lookup_error + (int \<times> holder list) list" where
  "holders_by_rank ps places =
     foldR (\<lambda>p. foldR (add_holder places p) (played_ids_by_rank (pk_chars p))) ps (map (\<lambda>r. (r, [])) holder_ranks)"

section \<open>Places on the board\<close>

lemma sorted_ranked: "sorted (map standing (ranked_players ps))"
  unfolding ranked_players_def by (rule sorted_sort_key_fst)

lemma current_rank_board_eq:
  "current_rank_board ps =
    map (\<lambda>p. entry (place_among standing (filter (\<lambda>p. pk_chars p \<noteq> []) ps) p) p) (ranked_players ps)"
proof -
  have "place_among standing (ranked_players ps) p = place_among standing (filter (\<lambda>p. pk_chars p \<noteq> []) ps) p" for p
    by (rule place_among_mset) (simp add: ranked_players_def)
  then show ?thesis
    unfolding current_rank_board_def place_groups_places [OF sorted_ranked] by simp
qed

lemma board_usernames: "set (map be_username (current_rank_board ps)) = pk_npid ` {p \<in> set ps. pk_chars p \<noteq> []}"
  by (auto simp: current_rank_board_eq entry_def ranked_players_def)

section \<open>Holders\<close>

text \<open>What a rank should list: every player with a character they played at it, with those characters.\<close>

definition holds_at :: "int \<Rightarrow> ranked_char list \<Rightarrow> nat list" where
  "holds_at r chars = map kc_id (filter (\<lambda>c. holds_its_rank c \<and> kc_rank c = r) chars)"

definition holder_of :: "(string \<times> nat) list \<Rightarrow> int \<Rightarrow> player_ranks \<Rightarrow> holder list" where
  "holder_of places r p =
     (if holds_at r (pk_chars p) = [] then []
      else [\<lparr>ho_npid = pk_npid p, ho_saved_at = pk_saved_at p, ho_account_rank = pk_account_rank p,
             ho_place = the (map_of places (pk_npid p)), ho_chars = holds_at r (pk_chars p)\<rparr>])"

lemma map_of_played_ids:
  "map_of (played_ids_by_rank chars) r = (if holds_at r chars = [] then None else Some (holds_at r chars))"
proof -
  have "map_of (fold add_played cs acc) r =
      (let ids = map kc_id (filter (\<lambda>c. kc_rank c = r) cs) in
       if ids = [] then map_of acc r
       else Some ((case map_of acc r of None \<Rightarrow> [] | Some js \<Rightarrow> js) @ ids))" for cs acc
  proof (induction cs arbitrary: acc)
    case (Cons c cs)
    show ?case unfolding fold.simps comp_apply Cons
      by (auto simp: add_played_def update_conv Let_def)
  qed (simp add: Let_def)
  then show ?thesis
    by (auto simp: played_ids_by_rank_def holds_at_def Let_def filter_empty_conv conj_commute)
qed

lemma distinct_played_ids: "distinct (map fst (played_ids_by_rank chars))"
  unfolding played_ids_by_rank_def
  by (rule fold_keeps [where P = "\<lambda>s. distinct (map fst s)"]) (simp_all add: add_played_def distinct_update)

lemma played_ids_ranks: "fst ` set (played_ids_by_rank chars) \<subseteq> set holder_ranks"
proof
  fix r
  assume "r \<in> fst ` set (played_ids_by_rank chars)"
  then have "map_of (played_ids_by_rank chars) r \<noteq> None" by (simp add: map_of_eq_None_iff)
  then show "r \<in> set holder_ranks"
    by (auto simp: map_of_played_ids holds_at_def holds_its_rank_def filter_empty_conv split: if_splits)
qed

lemma add_holders:
  assumes "distinct (map fst ris)" and "fst ` set ris \<subseteq> dom (map_of m)" and "map_of places (pk_npid p) = Some pl"
  shows "\<exists>m'. foldR (add_holder places p) ris m = Inr m' \<and>
    (\<forall>r. map_of m' r = (case map_of ris r of
        None \<Rightarrow> map_of m r
      | Some ids \<Rightarrow> Some (the (map_of m r) @ [\<lparr>ho_npid = pk_npid p, ho_saved_at = pk_saved_at p,
             ho_account_rank = pk_account_rank p, ho_place = pl, ho_chars = ids\<rparr>])))"
  using assms
proof (induction ris arbitrary: m)
  case (Cons ri ris)
  obtain r ids where ri: "ri = (r, ids)" by (cases ri)
  obtain hs where hs: "map_of m r = Some hs" using Cons.prems(2) ri by auto
  define m1 where "m1 = AList.update r (hs @ [\<lparr>ho_npid = pk_npid p, ho_saved_at = pk_saved_at p,
             ho_account_rank = pk_account_rank p, ho_place = pl, ho_chars = ids\<rparr>]) m"
  have m1: "map_of m1 = (map_of m)(r \<mapsto> hs @ [\<lparr>ho_npid = pk_npid p, ho_saved_at = pk_saved_at p,
             ho_account_rank = pk_account_rank p, ho_place = pl, ho_chars = ids\<rparr>])"
    by (simp add: m1_def update_conv')
  have step: "add_holder places p ri m = Inr m1" using hs Cons.prems(3) by (simp add: add_holder_def ri m1_def)
  have "fst ` set ris \<subseteq> dom (map_of m1)" "distinct (map fst ris)" using Cons.prems(1,2) by (auto simp: m1 ri)
  then obtain m' where m': "foldR (add_holder places p) ris m1 = Inr m'" "\<forall>k. map_of m' k = (case map_of ris k of
        None \<Rightarrow> map_of m1 k
      | Some ids \<Rightarrow> Some (the (map_of m1 k) @ [\<lparr>ho_npid = pk_npid p, ho_saved_at = pk_saved_at p,
             ho_account_rank = pk_account_rank p, ho_place = pl, ho_chars = ids\<rparr>]))"
    using Cons.IH [OF _ _ Cons.prems(3)] by blast
  have "map_of ris r = None" using Cons.prems(1) ri by (simp add: map_of_eq_None_iff)
  then show ?case using step m' hs by (auto simp: ri m1 split: option.splits)
qed simp

lemma holders_by_rank_lists:
  assumes "\<forall>p\<in>set ps. pk_chars p \<noteq> [] \<longrightarrow> map_of places (pk_npid p) \<noteq> None"
  shows "\<exists>m. holders_by_rank ps places = Inr m \<and>
    (\<forall>r. map_of m r = (if r \<in> set holder_ranks then Some (concat (map (holder_of places r) ps)) else None))"
proof -
  have "\<exists>m'. foldR (\<lambda>p. foldR (add_holder places p) (played_ids_by_rank (pk_chars p))) ps m = Inr m' \<and>
      (\<forall>r. map_of m' r = (if r \<in> set holder_ranks then Some (the (map_of m r) @ concat (map (holder_of places r) ps)) else None))"
    if "\<forall>r. map_of m r = None \<longleftrightarrow> r \<notin> set holder_ranks" for m
    using assms that
  proof (induction ps arbitrary: m)
    case Nil
    then show ?case by (metis append_Nil2 concat.simps(1) foldR.simps(1) list.simps(8) option.collapse)
  next
    case (Cons p ps)
    let ?ris = "played_ids_by_rank (pk_chars p)"
    have sub: "fst ` set ?ris \<subseteq> dom (map_of m)"
      using played_ids_ranks [of "pk_chars p"] Cons.prems(2) by (auto simp: domIff)
    have "\<exists>m1. foldR (add_holder places p) ?ris m = Inr m1 \<and>
        (\<forall>r. map_of m1 r = (if r \<in> set holder_ranks then Some (the (map_of m r) @ holder_of places r p) else None))"
    proof (cases "pk_chars p = []")
      case True
      then show ?thesis using Cons.prems(2)
        by (auto simp: played_ids_by_rank_def holder_of_def holds_at_def)
    next
      case False
      then obtain pl where pl: "map_of places (pk_npid p) = Some pl" using Cons.prems(1) by auto
      obtain m1 where m1: "foldR (add_holder places p) ?ris m = Inr m1" "\<forall>r. map_of m1 r = (case map_of ?ris r of
        None \<Rightarrow> map_of m r
      | Some ids \<Rightarrow> Some (the (map_of m r) @ [\<lparr>ho_npid = pk_npid p, ho_saved_at = pk_saved_at p,
             ho_account_rank = pk_account_rank p, ho_place = pl, ho_chars = ids\<rparr>]))"
        using add_holders [OF distinct_played_ids sub pl] by blast
      have "map_of m1 r = (if r \<in> set holder_ranks then Some (the (map_of m r) @ holder_of places r p) else None)" for r
      proof (cases "holds_at r (pk_chars p) = []")
        case True
        then show ?thesis using m1(2) Cons.prems(2) by (auto simp: map_of_played_ids holder_of_def)
      next
        case False
        then have "r \<in> set holder_ranks" by (auto simp: holds_at_def holds_its_rank_def filter_empty_conv)
        then show ?thesis using m1(2) False pl by (simp add: map_of_played_ids holder_of_def)
      qed
      then show ?thesis using m1(1) by blast
    qed
    then obtain m1 where m1: "foldR (add_holder places p) ?ris m = Inr m1"
      "\<forall>r. map_of m1 r = (if r \<in> set holder_ranks then Some (the (map_of m r) @ holder_of places r p) else None)"
      by blast
    then have "\<forall>r. map_of m1 r = None \<longleftrightarrow> r \<notin> set holder_ranks" by simp
    from Cons.IH [OF _ this] Cons.prems(1) m1 show ?case by auto
  qed
  note run = this
  have start: "map_of (map (\<lambda>r. (r, [] :: holder list)) holder_ranks) r = (if r \<in> set holder_ranks then Some [] else None)" for r
    by (simp add: map_of_map_restrict restrict_map_def)
  then have "\<forall>r. map_of (map (\<lambda>r. (r, [] :: holder list)) holder_ranks) r = None \<longleftrightarrow> r \<notin> set holder_ranks" by simp
  from run [OF this] show ?thesis unfolding holders_by_rank_def start by (auto cong: if_cong)
qed

section \<open>The service\<close>

datatype saves_error = Save_Not_Found | Backup_Not_Found | Save_Conflict | Save_Request | Saves_Unavailable
  | Admin_Password | Not_Admin | Account_Not_Found | Key_Missing

record profile =
  pf_username :: string
  pf_saved_at :: instant
  pf_account_rank :: int
  pf_total :: nat
  pf_wins :: nat
  pf_losses :: nat
  pf_chars :: "ranked_char list"

record saves_cache =
  sc_profiles :: "profile option dict_cache"
  sc_board :: "player_ranks list dict_cache"
  sc_holders :: "holder list dict_cache"

definition empty_saves_cache :: saves_cache where
  "empty_saves_cache = \<lparr>sc_profiles = Map.empty, sc_board = Map.empty, sc_holders = Map.empty\<rparr>"

definition profile_key :: "string \<Rightarrow> string" where
  "profile_key npid = ''saves:player:'' @ casefold npid"

definition current_rank_key :: string where "current_rank_key = ''saves:current-rank-leaderboard''"

definition holders_key :: "(int \<Rightarrow> string) \<Rightarrow> int \<Rightarrow> string" where
  "holders_key str r = ''saves:current-rank-holders:'' @ str r"

text \<open>A missing save is cached too: the entry is the answer, \<open>None\<close> included.\<close>

definition get_player_save ::
  "int \<Rightarrow> string \<Rightarrow> instant \<Rightarrow> (saves_error + profile option) \<Rightarrow> saves_cache \<Rightarrow> (saves_error + profile) \<times> saves_cache" where
  "get_player_save ttl npid now read c =
     (let (entry, profiles) = read_through dict_get dict_set (\<lambda>_. True) (profile_key npid) ttl now read (sc_profiles c) in
      (bindR entry (\<lambda>save. case save of None \<Rightarrow> Inl Save_Not_Found | Some p \<Rightarrow> Inr p), c\<lparr>sc_profiles := profiles\<rparr>))"

text \<open>One read of every save, kept as the board's players and as each rank's holders.\<close>

definition fill_current_rank_cache ::
  "(int \<Rightarrow> string) \<Rightarrow> int \<Rightarrow> instant \<Rightarrow> (saves_error + player_ranks list) \<Rightarrow> saves_cache \<Rightarrow>
     (saves_error + (player_ranks list \<times> (int \<times> holder list) list)) \<times> saves_cache" where
  "fill_current_rank_cache str ttl now read c =
     (case read of
        Inl e \<Rightarrow> (Inl e, c)
      | Inr ps \<Rightarrow>
          let board = map (\<lambda>p. p\<lparr>pk_chars := top_two (pk_chars p)\<rparr>) ps;
              places = fold (\<lambda>e. AList.update (be_username e) (be_rank e)) (current_rank_board board) []
          in case holders_by_rank ps places of
               Inl _ \<Rightarrow> (Inl Key_Missing, c)
             | Inr by_rank \<Rightarrow>
                 (Inr (board, by_rank),
                  c\<lparr>sc_board := dict_set current_rank_key board ttl now (sc_board c),
                    sc_holders := fold (\<lambda>(r, hs). dict_set (holders_key str r) hs ttl now) by_rank (sc_holders c)\<rparr>))"

definition not_excluded :: "string list \<Rightarrow> ('a \<Rightarrow> string) \<Rightarrow> 'a list \<Rightarrow> 'a list" where
  "not_excluded excluded npid ps = filter (\<lambda>p. \<not> is_ranking_excluded excluded (npid p)) ps"

definition get_current_rank_leaderboard ::
  "(int \<Rightarrow> string) \<Rightarrow> int \<Rightarrow> string list \<Rightarrow> nat \<Rightarrow> int option \<Rightarrow> instant \<Rightarrow> instant \<Rightarrow>
   (saves_error + player_ranks list) \<Rightarrow> saves_cache \<Rightarrow> (saves_error + (nat \<times> board_entry list)) \<times> saves_cache" where
  "get_current_rank_leaderboard str ttl excluded n days mnow now read c =
     (let (cached, b) = dict_get current_rank_key mnow (sc_board c); c1 = c\<lparr>sc_board := b\<rparr>;
          (players, c2) = (case cached of
             Some ps \<Rightarrow> (Inr ps, c1)
           | None \<Rightarrow> (let (r, c2) = fill_current_rank_cache str ttl mnow read c1 in (bindR r (\<lambda>x. Inr (fst x)), c2)))
      in (bindR players (\<lambda>ps.
            let board = current_rank_board (saved_within pk_saved_at days now (not_excluded excluded pk_npid ps)) in
            Inr (length board, take n board)), c2))"

definition get_current_rank_holders ::
  "(int \<Rightarrow> string) \<Rightarrow> int \<Rightarrow> string list \<Rightarrow> int \<Rightarrow> nat \<Rightarrow> int \<Rightarrow> instant \<Rightarrow> instant \<Rightarrow>
   (saves_error + player_ranks list) \<Rightarrow> saves_cache \<Rightarrow> (saves_error + (nat \<times> holder list)) \<times> saves_cache" where
  "get_current_rank_holders str ttl excluded r n days mnow now read c =
     (let (cached, h) = dict_get (holders_key str r) mnow (sc_holders c); c1 = c\<lparr>sc_holders := h\<rparr>;
          (holders, c2) = (case cached of
             Some hs \<Rightarrow> (Inr hs, c1)
           | None \<Rightarrow> (let (f, c2) = fill_current_rank_cache str ttl mnow read c1 in
               (bindR f (\<lambda>x. case map_of (snd x) r of None \<Rightarrow> Inl Key_Missing | Some hs \<Rightarrow> Inr hs), c2)))
      in (bindR holders (\<lambda>hs.
            let found = sort_key (\<lambda>h. (- int (ho_place h), casefold (ho_npid h)))
                          (saved_within ho_saved_at (Some days) now (not_excluded excluded ho_npid hs)) in
            Inr (length found, take n found)), c2))"

text \<open>A written edit drops the profile; a preview does not.\<close>

definition edit_save :: "(saves_error + (string \<times> bool \<times> 'r)) \<Rightarrow> saves_cache \<Rightarrow> (saves_error + (string \<times> bool \<times> 'r)) \<times> saves_cache" where
  "edit_save answer c =
     (answer, case answer of
        Inl _ \<Rightarrow> c
      | Inr (username, applied, _) \<Rightarrow>
          if applied then c\<lparr>sc_profiles := dict_delete (profile_key username) (sc_profiles c)\<rparr> else c)"

text \<open>\<open>os.path.splitext(os.path.basename(path))[0]\<close>: leading dots are no extension.\<close>

definition basename :: "string \<Rightarrow> string" where
  "basename path = rev (takeWhile (\<lambda>c. c \<noteq> CHR ''/'') (rev path))"

definition label :: "string \<Rightarrow> string" where
  "label path =
     (let b = basename path; stem = rev (tl (dropWhile (\<lambda>c. c \<noteq> CHR ''.'') (rev b))) in
      if (\<exists>c\<in>set stem. c \<noteq> CHR ''.'') then stem else b)"

section \<open>The save server\<close>

record http_answer =
  hr_status :: nat
  hr_is_object :: bool
  hr_error :: "string option"

definition refusals :: "(string \<times> saves_error) list" where
  "refusals = [(''invalid_credentials'', Admin_Password), (''forbidden'', Not_Admin), (''user_not_found'', Account_Not_Found),
     (''ambiguous_user'', Save_Request), (''save_not_found'', Save_Not_Found), (''backup_not_found'', Backup_Not_Found),
     (''online'', Save_Conflict), (''save_changed'', Save_Conflict), (''likely_demoted'', Save_Conflict),
     (''online_unknown'', Saves_Unavailable), (''rpcn_unavailable'', Saves_Unavailable)]"

definition not_found :: "string list" where
  "not_found = [''user_not_found'', ''save_not_found'']"

definition error_code :: "http_answer \<Rightarrow> string option" where
  "error_code r = (if hr_is_object r then hr_error r else None)"

definition refusal :: "http_answer \<Rightarrow> saves_error" where
  "refusal r =
     (case error_code r of
        None \<Rightarrow> Saves_Unavailable
      | Some code \<Rightarrow>
          (case map_of refusals code of
             Some e \<Rightarrow> e
           | None \<Rightarrow> if code = ''invalid_request'' then Save_Request else Saves_Unavailable))"

text \<open>The request itself: an unconfigured server and an unreachable one are both unavailable.\<close>

definition send_request :: "string \<Rightarrow> string \<Rightarrow> ('x + http_answer) \<Rightarrow> saves_error + http_answer" where
  "send_request base_url api_key response =
     (if base_url = [] \<or> api_key = [] then Inl Saves_Unavailable
      else case response of Inl _ \<Rightarrow> Inl Saves_Unavailable | Inr r \<Rightarrow> Inr r)"

text \<open>\<open>None\<close> is a profile with nothing to show, \<open>Some\<close> the answer.\<close>

definition read_profile :: "string \<Rightarrow> string \<Rightarrow> ('x + http_answer) \<Rightarrow> saves_error + http_answer option" where
  "read_profile base_url api_key response =
     bindR (send_request base_url api_key response) (\<lambda>r.
     if hr_status r = 200 \<and> hr_is_object r then Inr (Some r)
     else if (case error_code r of None \<Rightarrow> False | Some code \<Rightarrow> code \<in> set not_found) then Inr None
     else Inl Saves_Unavailable)"

definition read_list :: "string \<Rightarrow> string \<Rightarrow> ('x + http_answer) \<Rightarrow> saves_error + http_answer" where
  "read_list base_url api_key response =
     bindR (send_request base_url api_key response) (\<lambda>r.
     if hr_status r = 200 \<and> hr_is_object r then Inr r else Inl Saves_Unavailable)"

definition server_call :: "string \<Rightarrow> string \<Rightarrow> ('x + http_answer) \<Rightarrow> saves_error + http_answer" where
  "server_call base_url api_key response =
     bindR (send_request base_url api_key response) (\<lambda>r.
     if hr_status r = 200 \<and> hr_is_object r then Inr r else Inl (refusal r))"

section \<open>Every holder is on the board\<close>

lemma keys_fold_update: "dom (map_of (fold (\<lambda>e. AList.update (k e) (v e)) es ps)) = dom (map_of ps) \<union> k ` set es"
  by (induction es arbitrary: ps) (auto simp: update_conv')

lemma top_two_empty [simp]: "top_two chars = [] \<longleftrightarrow> chars = []"
  by (simp add: top_two_def) (metis length_0_conv length_sort)

lemma fill_finds_places:
  "\<exists>m. holders_by_rank ps (fold (\<lambda>e. AList.update (be_username e) (be_rank e))
     (current_rank_board (map (\<lambda>p. p\<lparr>pk_chars := top_two (pk_chars p)\<rparr>) ps)) []) = Inr m \<and>
   (\<forall>r\<in>set holder_ranks. map_of m r \<noteq> None)"
proof -
  let ?board = "map (\<lambda>p. p\<lparr>pk_chars := top_two (pk_chars p)\<rparr>) ps"
  let ?places = "fold (\<lambda>e. AList.update (be_username e) (be_rank e)) (current_rank_board ?board) []"
  have "map_of ?places (pk_npid p) \<noteq> None" if "p \<in> set ps" "pk_chars p \<noteq> []" for p
  proof -
    have "pk_npid p \<in> pk_npid ` {p \<in> set ?board. pk_chars p \<noteq> []}"
      using that by (intro image_eqI [of _ _ "p\<lparr>pk_chars := top_two (pk_chars p)\<rparr>"]) auto
    then have "pk_npid p \<in> be_username ` set (current_rank_board ?board)" using board_usernames [of ?board] by simp
    then have "pk_npid p \<in> dom (map_of ?places)" unfolding keys_fold_update by simp
    then show ?thesis by auto
  qed
  then show ?thesis using holders_by_rank_lists [of ps ?places] by auto
qed

section \<open>Properties\<close>











text \<open>Filling the cache never fails for want of a place, and lists at every rank exactly the players who played a
  character to it, in the order read, each with those characters and the place the board gives them; a rank
  outside the table is listed nowhere.\<close>

theorem holders_complete:
  "let places = fold (\<lambda>e. AList.update (be_username e) (be_rank e))
         (current_rank_board (map (\<lambda>p. p\<lparr>pk_chars := top_two (pk_chars p)\<rparr>) ps)) [] in
   \<exists>m. holders_by_rank ps places = Inr m \<and>
     (\<forall>r. map_of m r = (if 10 \<le> r \<and> r \<le> 42 then Some (concat (map (\<lambda>p.
        if holds_at r (pk_chars p) = [] then []
        else [\<lparr>ho_npid = pk_npid p, ho_saved_at = pk_saved_at p, ho_account_rank = pk_account_rank p,
               ho_place = the (map_of places (pk_npid p)), ho_chars = holds_at r (pk_chars p)\<rparr>]) ps)) else None))"
proof -
  define places where "places = fold (\<lambda>e. AList.update (be_username e) (be_rank e))
         (current_rank_board (map (\<lambda>p. p\<lparr>pk_chars := top_two (pk_chars p)\<rparr>) ps)) []"
  have "pk_npid p \<in> dom (map_of places)" if "p \<in> set ps" "pk_chars p \<noteq> []" for p
  proof -
    have "pk_npid p \<in> set (map be_username (current_rank_board (map (\<lambda>p. p\<lparr>pk_chars := top_two (pk_chars p)\<rparr>) ps)))"
      unfolding board_usernames by (rule image_eqI [of _ _ "p\<lparr>pk_chars := top_two (pk_chars p)\<rparr>"]) (use that in auto)
    then show ?thesis by (simp add: places_def keys_fold_update)
  qed
  then have "\<forall>p\<in>set ps. pk_chars p \<noteq> [] \<longrightarrow> map_of places (pk_npid p) \<noteq> None" by blast
  note lists = holders_by_rank_lists [OF this]
  have mem: "r \<in> set holder_ranks \<longleftrightarrow> 10 \<le> r \<and> r \<le> 42" for r
    by (simp only: holder_ranks_def set_upto atLeastAtMost_iff)
  have held: "holder_of places r = (\<lambda>p. if holds_at r (pk_chars p) = [] then []
      else [\<lparr>ho_npid = pk_npid p, ho_saved_at = pk_saved_at p, ho_account_rank = pk_account_rank p,
             ho_place = the (map_of places (pk_npid p)), ho_chars = holds_at r (pk_chars p)\<rparr>])" for r
    by (rule ext) (simp only: holder_of_def)
  show ?thesis using lists unfolding places_def [symmetric] Let_def mem held .
qed

end
