(* ===== verification/Event.thy ===== *)
theory Event
  imports Saves
begin

text \<open>
  \<open>src/event/\<close>: what each player must reach in the rank event and who has reached it (\<open>domain.py\<close>), the
  saves the event began with (\<open>baseline.py\<close>) and the cached answers (\<open>service.py\<close>).  A baseline holds one
  state per character, 59 of them, which is what the loader builds.
\<close>

section \<open>Conditions\<close>

definition character_count :: nat where "character_count = 59"
definition capacity :: nat where "capacity = 20"
definition third_dan :: int where "third_dan = 12"
definition disciple :: int where "disciple = 13"
definition brawler :: int where "brawler = 17"
definition warrior :: int where "warrior = 21"
definition vanquisher :: int where "vanquisher = 25"
definition first_dan :: int where "first_dan = 10"
definition second_dan :: int where "second_dan = 11"
definition master :: int where "master = 15"
definition berserker :: int where "berserker = 20"
definition pugilist :: int where "pugilist = 24"
definition sub_steps :: int where "sub_steps = 3"

lemmas rank_defs = third_dan_def disciple_def brawler_def warrior_def vanquisher_def first_dan_def
  second_dan_def master_def berserker_def pugilist_def sub_steps_def

definition same_character :: "nat \<Rightarrow> nat option" where
  "same_character c = map_of [(11, 43), (43, 11), (7, 48), (48, 7)] c"

definition pugilist_start :: "string list" where
  "pugilist_start = [''unnamed'', ''six_miri'', ''daddyking_'']"

record char_state =
  st_rank :: int
  st_wins :: nat
  st_losses :: nat

record baseline =
  bl_npid :: string
  bl_chars :: "char_state list"
  bl_account_rank :: int
  bl_new_player :: bool

definition baseline_ok :: "baseline \<Rightarrow> bool" where
  "baseline_ok b \<longleftrightarrow> length (bl_chars b) = character_count"

definition top_rank :: "baseline \<Rightarrow> int" where
  "top_rank b = Max (set (map st_rank (bl_chars b)))"

definition best_rank :: "baseline \<Rightarrow> int" where
  "best_rank b = max (bl_account_rank b) (top_rank b)"

definition main_steps :: "baseline \<Rightarrow> int" where
  "main_steps b = (let steps = (if top_rank b \<ge> vanquisher then 1 else 2) in
     if best_rank b \<noteq> top_rank b then steps + 1 else steps)"

definition sub_floor :: "baseline \<Rightarrow> int" where
  "sub_floor b = (let best = best_rank b in
     if best \<ge> vanquisher then (if casefold (bl_npid b) \<in> set pugilist_start then pugilist else berserker)
     else if best \<ge> warrior then master
     else if best \<ge> brawler then third_dan
     else if best \<ge> disciple then second_dan
     else first_dan)"

definition number_only :: "baseline \<Rightarrow> bool" where
  "number_only b \<longleftrightarrow> best_rank b \<le> third_dan"

record slot =
  sl_char_id :: nat
  sl_main :: bool
  sl_start :: int
  sl_steps :: int
  sl_rank :: int
  sl_played :: bool

definition target :: "slot \<Rightarrow> int" where "target s = sl_start s + sl_steps s"
definition gain :: "slot \<Rightarrow> int" where "gain s = sl_rank s - sl_start s"
definition achieved :: "slot \<Rightarrow> bool" where "achieved s \<longleftrightarrow> sl_played s \<and> sl_rank s \<ge> target s"

record player_standing =
  sn_baseline :: baseline
  sn_slots :: "slot list"

text \<open>Python's \<open>max\<close> keeps the first of equal elements.\<close>

fun first_max :: "('a \<Rightarrow> int) \<Rightarrow> 'a list \<Rightarrow> 'a option" where
  "first_max f [] = None"
| "first_max f (x # xs) = (case first_max f xs of None \<Rightarrow> Some x | Some y \<Rightarrow> if f y > f x then Some y else Some x)"

definition best_slot :: "player_standing \<Rightarrow> slot option" where
  "best_slot s = first_max gain (filter achieved (sn_slots s))"

definition start_rank :: "baseline \<Rightarrow> nat \<Rightarrow> int" where
  "start_rank b c = (case same_character c of
     None \<Rightarrow> st_rank (bl_chars b ! c)
   | Some c' \<Rightarrow> max (st_rank (bl_chars b ! c)) (st_rank (bl_chars b ! c')))"

definition slot_of :: "baseline \<Rightarrow> nat \<Rightarrow> char_state \<Rightarrow> slot" where
  "slot_of b c now =
     (let before = bl_chars b ! c; r = start_rank b c; main = (r = top_rank b) in
      \<lparr>sl_char_id = c, sl_main = main, sl_start = (if main then r else max r (sub_floor b)),
       sl_steps = (if main then main_steps b else sub_steps), sl_rank = st_rank now,
       sl_played = ((st_wins now, st_losses now) \<noteq> (st_wins before, st_losses before))\<rparr>)"

datatype event_error = Event_Closed | Event_Player_Not_Found | Event_Index | Event_Saves saves_error

text \<open>\<open>now[char["id"]] = ...\<close> raises for an id past the last character.\<close>

definition put_state :: "nat \<times> char_state \<Rightarrow> char_state list \<Rightarrow> event_error + char_state list" where
  "put_state c now = (if fst c < length now then Inr (now[fst c := snd c]) else Inl Event_Index)"

definition judge :: "baseline \<Rightarrow> (nat \<times> char_state) list \<Rightarrow> event_error + player_standing" where
  "judge b chars =
     bindR (foldR put_state chars (bl_chars b)) (\<lambda>now.
     Inr \<lparr>sn_baseline = b, sn_slots = map (\<lambda>(i, s). slot_of b i s) (enumerate 0 now)\<rparr>)"

definition best_gain :: "player_standing \<Rightarrow> int" where
  "best_gain s = (case best_slot s of None \<Rightarrow> 0 | Some x \<Rightarrow> gain x)"

definition done_standings :: "player_standing list \<Rightarrow> player_standing list" where
  "done_standings ss = sort_key (\<lambda>s. (- best_gain s, casefold (bl_npid (sn_baseline s))))
     (filter (\<lambda>s. best_slot s \<noteq> None) ss)"

definition achievers :: "player_standing list \<Rightarrow> (nat \<times> player_standing) list" where
  "achievers ss = place_groups best_gain 1 (done_standings ss)"

section \<open>What the conditions promise\<close>

lemma first_max_None [simp]: "first_max f xs = None \<longleftrightarrow> xs = []"
  by (cases xs) (auto split: option.splits)

lemma first_max_Some: "first_max f xs = Some x \<Longrightarrow> x \<in> set xs \<and> (\<forall>y\<in>set xs. f y \<le> f x)"
proof (induction xs arbitrary: x)
  case (Cons a xs)
  show ?case
  proof (cases "first_max f xs")
    case None
    then show ?thesis using Cons.prems by auto
  next
    case (Some y)
    with Cons.IH [OF Some] Cons.prems show ?thesis by (auto split: if_splits)
  qed
qed simp

lemma main_steps_bounds: "1 \<le> main_steps b \<and> main_steps b \<le> 3"
  by (simp add: main_steps_def Let_def)

lemma best_slot_Some:
  "best_slot s = Some x \<Longrightarrow> x \<in> set (sn_slots s) \<and> achieved x \<and> (\<forall>y\<in>set (sn_slots s). achieved y \<longrightarrow> gain y \<le> gain x)"
  unfolding best_slot_def by (auto dest: first_max_Some)

lemma place_groups_neg:
  fixes f :: "'a \<Rightarrow> int"
  shows "place_groups f place xs = place_groups (\<lambda>x. - f x) place xs"
proof (induction "\<lambda>x. - f x" place xs rule: place_groups.induct)
  case (2 place x xs)
  then show ?case by (simp add: Let_def)
qed simp

lemma achievers_eq:
  "achievers ss = map (\<lambda>s. (1 + length (filter (\<lambda>t. best_gain t > best_gain s) (filter (\<lambda>t. best_slot t \<noteq> None) ss)), s))
    (done_standings ss)"
proof -
  have srt: "sorted (map (\<lambda>s. - best_gain s) (done_standings ss))"
    unfolding done_standings_def by (rule sorted_sort_key_fst)
  have "place_among (\<lambda>s. - best_gain s) (done_standings ss) s =
      1 + length (filter (\<lambda>t. best_gain t > best_gain s) (filter (\<lambda>t. best_slot t \<noteq> None) ss))" for s
  proof -
    have "place_among (\<lambda>s. - best_gain s) (done_standings ss) s =
        place_among (\<lambda>s. - best_gain s) (filter (\<lambda>t. best_slot t \<noteq> None) ss) s"
      by (rule place_among_mset) (simp add: done_standings_def)
    then show ?thesis by (simp add: place_among_def)
  qed
  then show ?thesis
    unfolding achievers_def place_groups_neg [of best_gain] place_groups_places [OF srt] by simp
qed

text \<open>The two halves of one character start alike.\<close>

lemma same_character_sym: "same_character c = Some d \<Longrightarrow> same_character d = Some c \<and> c < character_count \<and> d < character_count"
  by (auto simp: same_character_def character_count_def split: if_splits)

lemma start_rank_halves: "same_character c = Some d \<Longrightarrow> start_rank b c = start_rank b d"
  using same_character_sym [of c d] by (simp add: start_rank_def max.commute)

lemma slot_of_halves:
  "same_character c = Some d \<Longrightarrow> sl_main (slot_of b c s) = sl_main (slot_of b d t) \<and>
    sl_start (slot_of b c s) = sl_start (slot_of b d t) \<and> sl_steps (slot_of b c s) = sl_steps (slot_of b d t)"
  by (simp add: slot_of_def Let_def start_rank_halves)

lemma start_rank_bounds:
  assumes "baseline_ok b" and "c < character_count"
  shows "st_rank (bl_chars b ! c) \<le> start_rank b c \<and> start_rank b c \<le> top_rank b"
proof -
  have le: "st_rank (bl_chars b ! i) \<le> top_rank b" if "i < character_count" for i
    using that assms(1) by (auto simp: top_rank_def baseline_ok_def intro!: Max_ge)
  then show ?thesis using assms(2) same_character_sym [of c] by (auto simp: start_rank_def split: option.splits)
qed

text \<open>Every player has a main.\<close>

lemma some_main:
  assumes "baseline_ok b"
  shows "\<exists>c<character_count. start_rank b c = top_rank b"
proof -
  have "bl_chars b \<noteq> []" using assms by (auto simp: baseline_ok_def character_count_def)
  then have "top_rank b \<in> set (map st_rank (bl_chars b))" unfolding top_rank_def by (intro Max_in) auto
  then obtain c where c: "c < character_count" "st_rank (bl_chars b ! c) = top_rank b"
    using assms by (auto simp: in_set_conv_nth baseline_ok_def)
  then show ?thesis using start_rank_bounds [OF assms c(1)] by (intro exI [of _ c]) simp
qed

lemma foldR_put_state_length: "foldR put_state cs now = Inr now' \<Longrightarrow> length now' = length now"
  by (induction cs arbitrary: now) (auto simp: put_state_def split: if_splits)

lemma judge_slots:
  assumes "judge b chars = Inr s" and "x \<in> set (sn_slots s)"
  shows "\<exists>now. x = slot_of b (sl_char_id x) now \<and> sl_char_id x < length (bl_chars b)"
  using assms foldR_put_state_length by (fastforce simp: judge_def in_set_enumerate_eq slot_of_def Let_def)

text \<open>An achievement is at least one rank climbed, by a played character, past where its rule starts it.\<close>

lemma achieved_gain: "x = slot_of b c now \<Longrightarrow> achieved x \<Longrightarrow> sl_played x \<and> sl_steps x \<le> gain x \<and> 1 \<le> gain x"
  using main_steps_bounds [of b] by (auto simp: achieved_def target_def gain_def slot_of_def Let_def sub_steps_def)

section \<open>Baselines\<close>

definition no_save :: char_state where "no_save = \<lparr>st_rank = 0, st_wins = 0, st_losses = 0\<rparr>"

record baseline_row =
  jb_npid :: string
  jb_chars :: "(nat \<times> char_state) list"
  jb_account_rank :: int
  jb_new_player :: bool

definition baseline_of :: "baseline_row \<Rightarrow> event_error + baseline" where
  "baseline_of p =
     bindR (foldR put_state (jb_chars p) (replicate character_count no_save)) (\<lambda>chars.
     Inr \<lparr>bl_npid = jb_npid p, bl_chars = chars, bl_account_rank = jb_account_rank p, bl_new_player = jb_new_player p\<rparr>)"

text \<open>The file's rows, or the exception that reading or decoding it raises.\<close>

definition load_baselines :: "string \<Rightarrow> ('x + baseline_row list) \<Rightarrow> baseline list" where
  "load_baselines path file =
     (if path = [] then []
      else case file of
        Inl _ \<Rightarrow> []
      | Inr rows \<Rightarrow> (case mapR baseline_of rows of Inl _ \<Rightarrow> [] | Inr bs \<Rightarrow> bs))"

lemma load_baselines_ok: "b \<in> set (load_baselines path file) \<Longrightarrow> baseline_ok b"
proof -
  have "baseline_ok b" if "baseline_of p = Inr b" for p b
    using that foldR_put_state_length by (fastforce simp: baseline_of_def baseline_ok_def)
  then show "b \<in> set (load_baselines path file) \<Longrightarrow> baseline_ok b"
    by (auto simp: load_baselines_def mapR_Inr_iff list_all2_conv_all_nth in_set_conv_nth split: if_splits sum.splits)
qed

section \<open>The service\<close>

text \<open>
  A rank's name is read from the table, a rank above its last from the last; ranks are at least 0.
\<close>

definition event_rank :: "int \<Rightarrow> int \<times> (string \<times> tier) option" where
  "event_rank code = (code, map_of tekken_ranks (nat (min code 42)))"

record achiever =
  av_place :: nat
  av_username :: string
  av_gain :: int
  av_main :: bool
  av_char :: "nat \<times> string option"
  av_from_rank :: "int \<times> (string \<times> tier) option"
  av_to_rank :: "int \<times> (string \<times> tier) option"
  av_new_player :: bool
  av_number_only :: bool

definition event_char :: "slot \<Rightarrow> nat \<times> string option" where
  "event_char s = (sl_char_id s, map_of ttt2_characters (sl_char_id s))"

definition achiever_of :: "nat \<Rightarrow> player_standing \<Rightarrow> slot \<Rightarrow> achiever" where
  "achiever_of place s best =
     \<lparr>av_place = place, av_username = bl_npid (sn_baseline s), av_gain = gain best, av_main = sl_main best,
      av_char = event_char best, av_from_rank = event_rank (sl_start best), av_to_rank = event_rank (sl_rank best),
      av_new_player = bl_new_player (sn_baseline s), av_number_only = number_only (sn_baseline s)\<rparr>"

record slot_out =
  so_char :: "nat \<times> string option"
  so_main :: bool
  so_start :: "int \<times> (string \<times> tier) option"
  so_target :: "int \<times> (string \<times> tier) option"
  so_rank :: "int \<times> (string \<times> tier) option"
  so_achieved :: bool

definition slot_out_of :: "slot \<Rightarrow> slot_out" where
  "slot_out_of s = \<lparr>so_char = event_char s, so_main = sl_main s, so_start = event_rank (sl_start s),
     so_target = event_rank (target s), so_rank = event_rank (sl_rank s), so_achieved = achieved s\<rparr>"

record player_progress =
  pp_username :: string
  pp_top_rank :: "int \<times> (string \<times> tier) option"
  pp_best_rank :: "int \<times> (string \<times> tier) option"
  pp_main_steps :: int
  pp_sub_steps :: int
  pp_sub_floor :: "int \<times> (string \<times> tier) option"
  pp_achieved :: bool
  pp_place :: "nat option"
  pp_new_player :: bool
  pp_number_only :: bool
  pp_slots :: "slot_out list"

definition slot_order :: "slot \<Rightarrow> bool \<times> bool \<times> int \<times> nat" where
  "slot_order s = (\<not> sl_main s, \<not> achieved s, - gain s, sl_char_id s)"

definition progress_of :: "player_standing \<Rightarrow> nat option \<Rightarrow> player_progress" where
  "progress_of s place =
     (let b = sn_baseline s;
          shown = filter (\<lambda>x. sl_played x \<or> (sl_main x \<and> sl_rank x = top_rank b)) (sn_slots s)
      in \<lparr>pp_username = bl_npid b, pp_top_rank = event_rank (top_rank b), pp_best_rank = event_rank (best_rank b),
          pp_main_steps = main_steps b, pp_sub_steps = sub_steps, pp_sub_floor = event_rank (sub_floor b),
          pp_achieved = (best_slot s \<noteq> None), pp_place = place, pp_new_player = bl_new_player b,
          pp_number_only = number_only b, pp_slots = map slot_out_of (sort_key slot_order shown)\<rparr>)"

text \<open>The board and every player share one cache; an entry is one or the other.\<close>

datatype event_entry = Board_Entry "achiever list" | Player_Entry player_progress

definition board_key :: string where "board_key = ''event:board''"

definition player_key :: "string \<Rightarrow> string" where
  "player_key npid = ''event:player:'' @ casefold npid"

text \<open>\<open>{b.npid.casefold(): b for b in baselines}\<close>.\<close>

definition baseline_table :: "baseline list \<Rightarrow> (string \<times> baseline) list" where
  "baseline_table bs = fold (\<lambda>b. AList.update (casefold (bl_npid b)) b) bs []"

definition event_standings ::
  "(string \<times> baseline) list \<Rightarrow> (string \<times> (nat \<times> char_state) list) list \<Rightarrow> event_error + player_standing list" where
  "event_standings table players =
     (let saved = fold (\<lambda>(npid, chars). AList.update (casefold npid) chars) players [] in
      mapR (\<lambda>(name, b). judge b (case map_of saved name of None \<Rightarrow> [] | Some chars \<Rightarrow> chars)) table)"

definition event_ranking :: "string list \<Rightarrow> player_standing list \<Rightarrow> (nat \<times> player_standing) list" where
  "event_ranking excluded ss = achievers (filter (\<lambda>s. \<not> is_ranking_excluded excluded (bl_npid (sn_baseline s))) ss)"

definition board_of :: "(nat \<times> player_standing) list \<Rightarrow> achiever list" where
  "board_of ranked = concat (map (\<lambda>(place, s). case best_slot s of None \<Rightarrow> [] | Some x \<Rightarrow> [achiever_of place s x]) ranked)"

definition event_refresh ::
  "(string \<Rightarrow> event_entry \<Rightarrow> int \<Rightarrow> instant \<Rightarrow> 'c \<Rightarrow> 'c) \<Rightarrow> int \<Rightarrow> string list \<Rightarrow> (string \<times> baseline) list \<Rightarrow> instant \<Rightarrow>
   (saves_error + (string \<times> (nat \<times> char_state) list) list) \<Rightarrow> 'c \<Rightarrow> (event_error + achiever list) \<times> 'c" where
  "event_refresh cset ttl excluded table mnow read c =
     (case read of
        Inl e \<Rightarrow> (Inl (Event_Saves e), c)
      | Inr players \<Rightarrow>
          (case event_standings table players of
             Inl e \<Rightarrow> (Inl e, c)
           | Inr ss \<Rightarrow>
               let ranked = event_ranking excluded ss;
                   places = fold (\<lambda>(place, s). AList.update (bl_npid (sn_baseline s)) place) ranked [];
                   c1 = fold (\<lambda>s. cset (player_key (bl_npid (sn_baseline s)))
                          (Player_Entry (progress_of s (map_of places (bl_npid (sn_baseline s))))) ttl mnow) ss c
               in (Inr (board_of ranked), cset board_key (Board_Entry (board_of ranked)) ttl mnow c1)))"

definition event_board ::
  "(string \<Rightarrow> instant \<Rightarrow> 'c \<Rightarrow> event_entry option \<times> 'c) \<Rightarrow> (string \<Rightarrow> event_entry \<Rightarrow> int \<Rightarrow> instant \<Rightarrow> 'c \<Rightarrow> 'c) \<Rightarrow>
   int \<Rightarrow> string list \<Rightarrow> (string \<times> baseline) list \<Rightarrow> instant option \<Rightarrow> instant \<Rightarrow> instant \<Rightarrow>
   (saves_error + (string \<times> (nat \<times> char_state) list) list) \<Rightarrow> 'c \<Rightarrow> (event_error + (bool \<times> achiever list)) \<times> 'c" where
  "event_board cget cset ttl excluded table end_at now mnow read c =
     (if table = [] then (Inl Event_Closed, c)
      else
        let (cached, c1) = cget board_key mnow c;
            (r, c2) = (case cached of
               Some (Board_Entry b) \<Rightarrow> (Inr b, c1)
             | _ \<Rightarrow> event_refresh cset ttl excluded table mnow read c1)
        in (bindR r (\<lambda>b. Inr ((case end_at of None \<Rightarrow> False | Some t \<Rightarrow> now > t), b)), c2))"

text \<open>The answer after a refresh is read back from the cache, at the clock's reading \<open>mnow'\<close>.\<close>

definition event_player ::
  "(string \<Rightarrow> instant \<Rightarrow> 'c \<Rightarrow> event_entry option \<times> 'c) \<Rightarrow> (string \<Rightarrow> event_entry \<Rightarrow> int \<Rightarrow> instant \<Rightarrow> 'c \<Rightarrow> 'c) \<Rightarrow>
   int \<Rightarrow> string list \<Rightarrow> (string \<times> baseline) list \<Rightarrow> string \<Rightarrow> instant \<Rightarrow> instant \<Rightarrow>
   (saves_error + (string \<times> (nat \<times> char_state) list) list) \<Rightarrow> 'c \<Rightarrow> (event_error + event_entry option) \<times> 'c" where
  "event_player cget cset ttl excluded table npid mnow mnow' read c =
     (if table = [] then (Inl Event_Closed, c)
      else if casefold npid \<notin> set (map fst table) then (Inl Event_Player_Not_Found, c)
      else
        let (cached, c1) = cget (player_key npid) mnow c in
        case cached of
          Some v \<Rightarrow> (Inr (Some v), c1)
        | None \<Rightarrow>
            (case event_refresh cset ttl excluded table mnow read c1 of
               (Inl e, c2) \<Rightarrow> (Inl e, c2)
             | (Inr _, c2) \<Rightarrow> (let (again, c3) = cget (player_key npid) mnow' c2 in (Inr again, c3))))"

lemma table_names: "\<forall>(name, b)\<in>set (baseline_table bs). name = casefold (bl_npid b)"
proof -
  have "\<forall>(name, b)\<in>set (fold (\<lambda>b. AList.update (casefold (bl_npid b)) b) bs acc). name = casefold (bl_npid b)"
    if "\<forall>(name, b)\<in>set acc. name = casefold (bl_npid b)" for acc
    using that
  proof (induction bs arbitrary: acc)
    case (Cons b bs)
    have "\<forall>(name, x)\<in>set (AList.update (casefold (bl_npid b)) b acc). name = casefold (bl_npid x)"
      using Cons.prems by (auto dest!: set_alist_update)
    from Cons.IH [OF this] show ?case by simp
  qed simp
  from this [of "[]"] show ?thesis by (simp add: baseline_table_def)
qed

lemma set_fold_dict_set:
  fixes k :: "'a \<Rightarrow> string"
  assumes "x \<in> set xs" and "k x = key"
  shows "\<exists>v. fold (\<lambda>x. dict_set (k x) (f x) ttl now) xs c key = Some (v, now + ttl * second) \<and> (\<exists>y\<in>set xs. v = f y \<and> k y = key)"
  using assms
proof (induction xs arbitrary: c rule: rev_induct)
  case (snoc y xs)
  show ?case
  proof (cases "k y = key")
    case True
    then show ?thesis by (auto simp: dict_set_def)
  next
    case False
    then have "x \<in> set xs" using snoc.prems by auto
    from snoc.IH [OF this snoc.prems(2), of c] False show ?thesis by (auto simp: dict_set_def)
  qed
qed simp

lemma judge_baseline: "judge b chars = Inr s \<Longrightarrow> sn_baseline s = b"
  by (auto simp: judge_def)

text \<open>A player of the event is answered, as long as what was just cached is still there to be read.\<close>

lemma event_player_answers:
  assumes name: "casefold npid \<in> set (map fst (baseline_table bs))"
    and run: "event_player dict_get dict_set ttl excluded (baseline_table bs) npid mnow mnow' read c = (Inr answer, c')"
    and time: "mnow' < mnow + ttl * second"
  shows "answer \<noteq> None"
proof (cases "fst (dict_get (player_key npid) mnow c)")
  case (Some v)
  then have "answer = Some v"
    using run name by (auto simp: event_player_def split: prod.splits if_splits)
  then show ?thesis by simp
next
  case None
  obtain c1 where c1: "dict_get (player_key npid) mnow c = (None, c1)" using None by (cases "dict_get (player_key npid) mnow c") auto
  from run name c1 obtain board c2 where r: "event_refresh dict_set ttl excluded (baseline_table bs) mnow read c1 = (Inr board, c2)"
    and a: "answer = fst (dict_get (player_key npid) mnow' c2)"
    by (auto simp: event_player_def split: prod.splits sum.splits if_splits)
  from r obtain players ss where ss: "event_standings (baseline_table bs) players = Inr ss"
    and c2: "c2 = dict_set board_key (Board_Entry (board_of (event_ranking excluded ss))) ttl mnow
      (fold (\<lambda>s. dict_set (player_key (bl_npid (sn_baseline s))) (Player_Entry (progress_of s (map_of
        (fold (\<lambda>(place, s). AList.update (bl_npid (sn_baseline s)) place) (event_ranking excluded ss) []) (bl_npid (sn_baseline s))))) ttl mnow) ss c1)"
    by (auto simp: event_refresh_def Let_def split: sum.splits)
  define F where "F = (\<lambda>s. Player_Entry (progress_of s (map_of
        (fold (\<lambda>(place, s). AList.update (bl_npid (sn_baseline s)) place) (event_ranking excluded ss) []) (bl_npid (sn_baseline s)))))"
  have c2: "c2 = dict_set board_key (Board_Entry (board_of (event_ranking excluded ss))) ttl mnow
      (fold (\<lambda>s. dict_set (player_key (bl_npid (sn_baseline s))) (F s) ttl mnow) ss c1)"
    unfolding c2 F_def by simp
  from name obtain b where b: "(casefold npid, b) \<in> set (baseline_table bs)" by auto
  then obtain i where i: "i < length (baseline_table bs)" "baseline_table bs ! i = (casefold npid, b)"
    by (auto simp: in_set_conv_nth)
  have l2: "list_all2 (\<lambda>(name, b) s. sn_baseline s = b) (baseline_table bs) ss"
    using ss unfolding event_standings_def Let_def mapR_Inr_iff
    by (rule list_all2_mono) (auto dest: judge_baseline)
  then have s: "ss ! i \<in> set ss" "sn_baseline (ss ! i) = b"
    using i by (auto simp: list_all2_conv_all_nth)
  have "player_key (bl_npid (sn_baseline (ss ! i))) = player_key npid"
    using table_names [of bs] b s(2) by (auto simp: player_key_def)
  note stored = set_fold_dict_set [where k = "\<lambda>s. player_key (bl_npid (sn_baseline s))", OF s(1) this]
  have "player_key npid \<noteq> board_key" by (simp add: board_key_def player_key_def)
  then have "c2 (player_key npid) = fold (\<lambda>s. dict_set (player_key (bl_npid (sn_baseline s))) (F s) ttl mnow) ss c1 (player_key npid)"
    unfolding c2 dict_set_def [of board_key] by simp
  moreover obtain v where "fold (\<lambda>s. dict_set (player_key (bl_npid (sn_baseline s))) (F s) ttl mnow) ss c1 (player_key npid) =
      Some (v, mnow + ttl * second)"
    using stored [of F ttl mnow c1] by blast
  ultimately have "c2 (player_key npid) = Some (v, mnow + ttl * second)" by simp
  then show ?thesis using a time by (simp add: dict_get_def)
qed

section \<open>Properties\<close>

text \<open>The achievers are exactly the standings with a slot past its target, each once, most gained first and then
  by name, at competition places: one more than the number that gained strictly more.\<close>

theorem achiever_places:
  "map snd (achievers ss) = done_standings ss \<and>
    mset (done_standings ss) = mset (filter (\<lambda>s. \<exists>x\<in>set (sn_slots s). achieved x) ss) \<and>
    (\<forall>(place, s)\<in>set (achievers ss). place = 1 + length (filter (\<lambda>t. best_gain s < best_gain t)
      (filter (\<lambda>s. \<exists>x\<in>set (sn_slots s). achieved x) ss))) \<and>
    sorted (map (\<lambda>s. (- best_gain s, casefold (bl_npid (sn_baseline s)))) (map snd (achievers ss)))"
proof -
  have "best_slot s \<noteq> None \<longleftrightarrow> (\<exists>x\<in>set (sn_slots s). achieved x)" for s
    unfolding best_slot_def using first_max_None [of gain] by (auto simp: filter_empty_conv)
  then have eq: "(\<lambda>s. best_slot s \<noteq> None) = (\<lambda>s. \<exists>x\<in>set (sn_slots s). achieved x)" by (rule ext)
  have "map snd (achievers ss) = done_standings ss" by (simp add: achievers_eq comp_def)
  moreover have "\<forall>(place, s)\<in>set (achievers ss). place = 1 + length (filter (\<lambda>t. best_gain s < best_gain t)
      (filter (\<lambda>s. \<exists>x\<in>set (sn_slots s). achieved x) ss))"
    unfolding achievers_eq eq by auto
  moreover have "mset (done_standings ss) = mset (filter (\<lambda>s. \<exists>x\<in>set (sn_slots s). achieved x) ss)"
    unfolding done_standings_def eq by simp
  moreover have "sorted (map (\<lambda>s. (- best_gain s, casefold (bl_npid (sn_baseline s)))) (done_standings ss))"
    unfolding done_standings_def by (rule sorted_sort_key)
  ultimately show ?thesis by simp
qed

abbreviation demo_climber :: "string \<Rightarrow> int \<Rightarrow> player_standing" where
  "demo_climber n g \<equiv> \<lparr>sn_baseline = \<lparr>bl_npid = n, bl_chars = [], bl_account_rank = 0, bl_new_player = False\<rparr>,
     sn_slots = [\<lparr>sl_char_id = 0, sl_main = True, sl_start = 5, sl_steps = 2, sl_rank = 5 + g, sl_played = True\<rparr>]\<rparr>"

theorem achiever_places_witness:
  "list_all (\<lambda>(place, s). place = 1 + length (filter (\<lambda>t. best_gain s < best_gain t) [demo_climber ''a'' 2, demo_climber ''b'' 4]))
     (achievers [demo_climber ''a'' 2, demo_climber ''b'' 4, demo_climber ''c'' 1])"
proof -
  have f: "filter (\<lambda>s. \<exists>x\<in>set (sn_slots s). achieved x) [demo_climber ''a'' 2, demo_climber ''b'' 4, demo_climber ''c'' 1] =
      [demo_climber ''a'' 2, demo_climber ''b'' 4]"
    by (simp add: achieved_def target_def)
  show ?thesis
    using achiever_places [of "[demo_climber ''a'' 2, demo_climber ''b'' 4, demo_climber ''c'' 1]"]
    unfolding f list_all_iff by blast
qed

text \<open>The saves' last word on each character is the one judged.\<close>

lemma put_states:
  "foldR put_state chars now = Inr now' \<Longrightarrow>
    now' ! i = (case map_of (rev chars) i of None \<Rightarrow> now ! i | Some st \<Rightarrow> st)"
proof (induction chars arbitrary: now)
  case (Cons c chars)
  then obtain now1 where now1: "put_state c now = Inr now1" "foldR put_state chars now1 = Inr now'" by auto
  then have c: "fst c < length now" "foldR put_state chars (now[fst c := snd c]) = Inr now'"
    by (simp_all add: put_state_def split: if_splits)
  show ?case using Cons.IH [OF c(2)] c(1)
    by (cases c) (auto simp: map_add_def split: option.splits)
qed simp

lemma achieved_slot:
  assumes "judge b chars = Inr s" and "x \<in> set (sn_slots s)" and "achieved x"
  shows "\<exists>st. map_of (rev chars) (sl_char_id x) = Some st \<and> x = slot_of b (sl_char_id x) st \<and>
    (st_wins st, st_losses st) \<noteq> (st_wins (bl_chars b ! sl_char_id x), st_losses (bl_chars b ! sl_char_id x))"
proof -
  obtain now where now: "foldR put_state chars (bl_chars b) = Inr now" "sn_slots s = map (\<lambda>(i, s). slot_of b i s) (enumerate 0 now)"
    using assms(1) by (auto simp: judge_def)
  then obtain i where x: "x = slot_of b i (now ! i)" using assms(2) by (auto simp: in_set_enumerate_eq)
  then have i: "sl_char_id x = i" by (simp add: slot_of_def Let_def)
  have played: "(st_wins (now ! i), st_losses (now ! i)) \<noteq> (st_wins (bl_chars b ! i), st_losses (bl_chars b ! i))"
    using assms(3) unfolding x achieved_def by (simp add: slot_of_def Let_def)
  then obtain st where "map_of (rev chars) i = Some st" "now ! i = st"
    using put_states [OF now(1), of i] by (cases "map_of (rev chars) i") auto
  then show ?thesis using x i played by simp
qed

text \<open>C25: What puts a player on the board is earned: the slot shown is of a character whose wins and losses, in the saves'
  last word on it, are not those of the baseline, and whose rank there is at least the steps of its rule above its
  start: from the better of its own and its other half's rank in the baseline, a main the steps of a main, any other
  three from there or from the floor of the subs, whichever is higher.  So it climbed at least one rank, and no achieved slot
  of the player climbed more.\<close>

theorem achievement_earned:
  assumes "judge b chars = Inr s" and "(place, s) \<in> set (achievers ss)"
  shows "\<exists>x\<in>set (sn_slots s). \<exists>st. best_slot s = Some x \<and> map_of (rev chars) (sl_char_id x) = Some st \<and>
    (let before = bl_chars b ! sl_char_id x;
         from_rank = (case same_character (sl_char_id x) of None \<Rightarrow> st_rank before
           | Some other \<Rightarrow> max (st_rank before) (st_rank (bl_chars b ! other)))
     in (st_wins st \<noteq> st_wins before \<or> st_losses st \<noteq> st_losses before) \<and>
        (if from_rank = top_rank b then from_rank + main_steps b \<le> st_rank st \<and> gain x = st_rank st - from_rank
         else max from_rank (sub_floor b) + 3 \<le> st_rank st \<and> gain x = st_rank st - max from_rank (sub_floor b))) \<and>
    1 \<le> gain x \<and> best_gain s = gain x \<and> (\<forall>y\<in>set (sn_slots s). achieved y \<longrightarrow> gain y \<le> gain x)"
proof -
  have "s \<in> set (done_standings ss)" using assms(2) by (auto simp: achievers_eq)
  then obtain x where x: "best_slot s = Some x" by (auto simp: done_standings_def)
  note best = best_slot_Some [OF x]
  obtain st where st: "map_of (rev chars) (sl_char_id x) = Some st" "x = slot_of b (sl_char_id x) st"
    "(st_wins st, st_losses st) \<noteq> (st_wins (bl_chars b ! sl_char_id x), st_losses (bl_chars b ! sl_char_id x))"
    using achieved_slot [OF assms(1)] best by blast
  define r where "r = start_rank b (sl_char_id x)"
  have "sl_start x = (if r = top_rank b then r else max r (sub_floor b))"
    "sl_steps x = (if r = top_rank b then main_steps b else 3)" "sl_rank x = st_rank st"
    by (subst st(2); simp add: slot_of_def Let_def r_def sub_steps_def)+
  then have climbed: "if r = top_rank b then r + main_steps b \<le> st_rank st \<and> gain x = st_rank st - r
      else max r (sub_floor b) + 3 \<le> st_rank st \<and> gain x = st_rank st - max r (sub_floor b)"
    using best by (auto simp: achieved_def target_def gain_def)
  have "1 \<le> gain x" using achieved_gain [OF st(2)] best by blast
  then show ?thesis using best x st(1,3) climbed
    by (intro bexI [of _ x] exI [of _ st]) (auto simp: best_gain_def r_def start_rank_def Let_def)
qed

abbreviation demo_baseline :: baseline where
  "demo_baseline \<equiv> \<lparr>bl_npid = ''kim'', bl_chars = replicate 59 \<lparr>st_rank = 5, st_wins = 0, st_losses = 0\<rparr>, bl_account_rank = 5, bl_new_player = False\<rparr>"

theorem achievement_earned_witness:
  "\<exists>s. judge demo_baseline [(0, \<lparr>st_rank = 9, st_wins = 3, st_losses = 0\<rparr>)] = Inr s \<and> best_gain s \<ge> 1"
proof -
  let ?j = "judge demo_baseline [(0, \<lparr>st_rank = 9, st_wins = 3, st_losses = 0\<rparr>)]"
  obtain s where s: "?j = Inr s" by (simp add: judge_def put_state_def)
  have "case ?j of Inl _ \<Rightarrow> False | Inr s \<Rightarrow> map fst (achievers [s]) = [1]" by code_simp
  then have "map fst (achievers [s]) = [1]" by (simp add: s)
  then have "(1, s) \<in> set (achievers [s])" by (auto simp: achievers_eq done_standings_def split: if_splits)
  from achievement_earned [OF s this] show ?thesis using s by auto
qed

text \<open>The two halves of one character are one to the event: whichever the player takes up, it is a main or not
  alike, starts from the better of the two ranks and has the same way to go.\<close>

theorem halves_start_alike:
  assumes "same_character c = Some d"
  shows "sl_main (slot_of b c s) = sl_main (slot_of b d t) \<and> sl_start (slot_of b c s) = sl_start (slot_of b d t) \<and>
    target (slot_of b c s) = target (slot_of b d t) \<and>
    (baseline_ok b \<longrightarrow> st_rank (bl_chars b ! c) \<le> sl_start (slot_of b d t) \<and> st_rank (bl_chars b ! d) \<le> sl_start (slot_of b c s))"
proof -
  have d: "c < character_count" "d < character_count" "same_character d = Some c" using same_character_sym [OF assms] by simp_all
  have "start_rank b x \<le> sl_start (slot_of b x u)" for x u by (simp add: slot_of_def Let_def)
  then show ?thesis
    using slot_of_halves [OF assms, of b s t] start_rank_bounds [of b c] start_rank_bounds [of b d] d start_rank_halves [OF assms, of b]
    by (fastforce simp: target_def intro: order_trans)
qed

theorem halves_start_alike_witness:
  "sl_start (slot_of demo_baseline 11 no_save) = sl_start (slot_of demo_baseline 43 no_save)"
  using halves_start_alike [of 11 43 demo_baseline no_save no_save] by (simp add: same_character_def)

text \<open>A player of the event is always answered with a progress, as long as what the refresh has just cached can
  still be read: every name of the table is cached under the key it is asked for by.\<close>

theorem player_answered:
  assumes "casefold npid \<in> set (map fst (baseline_table bs))"
    and "event_player dict_get dict_set ttl excluded (baseline_table bs) npid mnow mnow' read c = (Inr answer, c')"
    and "mnow' < mnow + ttl * second"
  shows "\<exists>v. answer = Some v"
  using event_player_answers [OF assms] by simp

definition demo_table :: "(string \<times> baseline) list" where
  "demo_table = baseline_table [demo_baseline]"

lemma demo_judged: "\<exists>s. judge demo_baseline [] = Inr s"
  by (simp add: judge_def)

lemma demo_standings: "\<exists>ss. event_standings demo_table [] = Inr ss"
  using demo_judged by (auto simp: event_standings_def demo_table_def baseline_table_def)

theorem player_answered_witness:
  "\<exists>v c'. event_player dict_get dict_set 60 [] demo_table ''KIM'' 0 1 (Inr []) Map.empty = (Inr (Some v), c')"
proof -
  have name: "casefold ''KIM'' \<in> set (map fst demo_table)" by code_simp
  then have ne: "demo_table \<noteq> []" by auto
  obtain ss where ss: "event_standings demo_table [] = Inr ss" using demo_standings by blast
  obtain board c2 where r: "event_refresh dict_set 60 [] demo_table 0 (Inr []) Map.empty = (Inr board, c2)"
    using ss by (simp add: event_refresh_def Let_def)
  have g: "dict_get (player_key ''KIM'') 0 Map.empty = (None, Map.empty)" by (simp add: dict_get_def)
  obtain answer c' where a: "dict_get (player_key ''KIM'') 1 c2 = (answer, c')" by fastforce
  have run: "event_player dict_get dict_set 60 [] demo_table ''KIM'' 0 1 (Inr []) Map.empty = (Inr answer, c')"
    unfolding event_player_def g using name ne r a by simp
  from player_answered [OF name [unfolded demo_table_def] run [unfolded demo_table_def]] run show ?thesis by auto
qed

text \<open>Where nothing written to the cache can be read back, as when Redis is away, a player of the event is
  answered with nothing at all, although the standings were read and judged without fault.\<close>

theorem player_lost_with_the_cache:
  assumes "casefold npid \<in> set (map fst table)" and "event_standings table players = Inr ss"
  shows "event_player (\<lambda>key now c. (None, c)) (\<lambda>key v ttl now c. c) ttl excluded table npid mnow mnow' (Inr players) c = (Inr None, c)"
proof -
  have "fold (\<lambda>s c. c) ss c = c" for c :: 'c by (induction ss) simp_all
  then show ?thesis using assms by (auto simp: event_player_def event_refresh_def Let_def)
qed

theorem player_lost_with_the_cache_witness:
  "event_player (\<lambda>key now c. (None, c)) (\<lambda>key v ttl now c. c) 60 [] demo_table ''kim'' 0 0 (Inr []) () = (Inr None, ())"
proof -
  have "casefold ''kim'' \<in> set (map fst demo_table)" by code_simp
  moreover obtain ss where "event_standings demo_table [] = Inr ss" using demo_standings by blast
  ultimately show ?thesis by (rule player_lost_with_the_cache)
qed

end
