(* ===== verification/Community.thy ===== *)
theory Community
  imports Idempotency Cache Ttt2 "HOL-Library.AList"
begin

text \<open>
  \<open>src/community/\<close>: the request rules (\<open>models.py\<close>), the tables and their queries
  (\<open>adapters/postgresql.py\<close>, \<open>entities.py\<close>) and the rules, the comment tree and the cached use cases of
  \<open>service.py\<close>.  The four Korean post types are romanised.  Listings order by the creation time, newest
  first; rows of one instant keep their order.
\<close>

section \<open>Requests\<close>

definition notice_post_type :: string where "notice_post_type = ''gongji''"

definition valid_post_types :: "string list" where
  "valid_post_types = [''jayu'', ''geonui'', ''gongnyak'', notice_post_type]"

definition character_names :: "string list" where
  "character_names = filter (\<lambda>n. n \<noteq> [] \<and> n \<noteq> ''?'') (map snd ttt2_characters)"

definition max_post_characters :: nat where "max_post_characters = 2"

definition validate_characters :: "string list \<Rightarrow> bool" where
  "validate_characters names \<longleftrightarrow> (\<forall>n\<in>set names. n \<in> set character_names) \<and> distinct names"

record post_request =
  pq_title :: string
  pq_body :: string
  pq_post_type :: string
  pq_characters :: "string list"
  pq_youtube_video_id :: "string option"

definition video_char :: "char \<Rightarrow> bool" where
  "video_char c = (let n = (of_char c :: nat) in (65 \<le> n \<and> n \<le> 90) \<or> (97 \<le> n \<and> n \<le> 122) \<or> (48 \<le> n \<and> n \<le> 57)
     \<or> n = 95 \<or> n = 45)"

definition create_post_ok :: "post_request \<Rightarrow> bool" where
  "create_post_ok q \<longleftrightarrow> 1 \<le> length (pq_title q) \<and> length (pq_title q) \<le> 100 \<and>
     1 \<le> length (pq_body q) \<and> length (pq_body q) \<le> 1000 \<and> pq_post_type q \<in> set valid_post_types \<and>
     length (pq_characters q) \<le> max_post_characters \<and> validate_characters (pq_characters q) \<and>
     pred_option (\<lambda>v. length v = 11 \<and> (\<forall>c\<in>set v. video_char c)) (pq_youtube_video_id q)"

text \<open>An edit's title and body are kept stripped, and neither may be blank.\<close>

definition update_post_request :: "post_request \<Rightarrow> post_request option" where
  "update_post_request q =
     (if create_post_ok q \<and> strip (pq_title q) \<noteq> [] \<and> strip (pq_body q) \<noteq> []
      then Some (q\<lparr>pq_title := strip (pq_title q), pq_body := strip (pq_body q)\<rparr>) else None)"

definition comment_request_ok :: "string \<Rightarrow> bool" where
  "comment_request_ok body \<longleftrightarrow> 1 \<le> length body \<and> length body \<le> 1000"

definition direction_int :: "string \<Rightarrow> int option" where
  "direction_int d = map_of [(''up'', 1), (''down'', -1)] d"

section \<open>Tables\<close>

record post_row =
  po_id :: nat
  po_author :: string
  po_title :: string
  po_body :: string
  po_post_type :: string
  po_characters :: "string list"
  po_youtube_video_id :: "string option"
  po_thumbs_up :: nat
  po_thumbs_down :: nat
  po_created_at :: instant

record post_comment =
  pc_id :: nat
  pc_post_id :: nat
  pc_parent_id :: "nat option"
  pc_author :: string
  pc_body :: string
  pc_created_at :: instant
  pc_deleted_at :: "instant option"

record thumb_row =
  th_post_id :: nat
  th_voter :: string
  th_direction :: int

record cdb =
  posts :: "post_row list"
  post_comments :: "post_comment list"
  thumbs :: "thumb_row list"
  next_post_id :: nat
  next_post_comment_id :: nat

definition empty_cdb :: cdb where
  "empty_cdb = \<lparr>posts = [], post_comments = [], thumbs = [], next_post_id = 1, next_post_comment_id = 1\<rparr>"

datatype community_error = Post_Not_Found | Comment_Not_Found | Parent_Not_Found | Not_Your_Post | Not_Your_Comment
  | Notice_Admin_Only | Nesting_Depth | Already_Voted

fun community_base :: "community_error \<Rightarrow> domain_error" where
  "community_base Post_Not_Found = NotFoundError"
| "community_base Comment_Not_Found = NotFoundError"
| "community_base Parent_Not_Found = NotFoundError"
| "community_base Not_Your_Post = ForbiddenError"
| "community_base Not_Your_Comment = ForbiddenError"
| "community_base Notice_Admin_Only = ForbiddenError"
| "community_base Nesting_Depth = ValidationError"
| "community_base Already_Voted = ConflictError"

section \<open>Queries\<close>

definition find_post :: "nat \<Rightarrow> cdb \<Rightarrow> post_row option" where
  "find_post pid db = find (\<lambda>p. po_id p = pid) (posts db)"

definition find_comment :: "nat \<Rightarrow> cdb \<Rightarrow> post_comment option" where
  "find_comment cid db = find (\<lambda>c. pc_id c = cid) (post_comments db)"

definition live_count :: "nat \<Rightarrow> cdb \<Rightarrow> nat" where
  "live_count pid db = length (filter (\<lambda>c. pc_post_id c = pid \<and> pc_deleted_at c = None) (post_comments db))"

text \<open>The unfiltered list leaves the notices out; a team filter keeps posts that name all of it.\<close>

definition post_listed :: "string option \<Rightarrow> string list \<Rightarrow> post_row \<Rightarrow> bool" where
  "post_listed post_type characters p \<longleftrightarrow>
     (case post_type of
        None \<Rightarrow> po_post_type p \<noteq> notice_post_type
      | Some t \<Rightarrow> if t = [] then po_post_type p \<noteq> notice_post_type else po_post_type p = t) \<and>
     (\<forall>c\<in>set characters. c \<in> set (po_characters p))"

definition repo_list_posts :: "nat \<Rightarrow> nat \<Rightarrow> string option \<Rightarrow> string list \<Rightarrow> cdb \<Rightarrow> (post_row \<times> nat) list \<times> nat" where
  "repo_list_posts page page_size post_type characters db =
     (let found = filter (post_listed post_type characters) (posts db) in
      (map (\<lambda>p. (p, live_count (po_id p) db))
         (take page_size (drop ((page - 1) * page_size) (sort_key (\<lambda>p. - po_created_at p) found))), length found))"

definition repo_get_post :: "nat \<Rightarrow> cdb \<Rightarrow> community_error + post_row" where
  "repo_get_post pid db = (case find_post pid db of None \<Rightarrow> Inl Post_Not_Found | Some p \<Rightarrow> Inr p)"

definition get_post_comments :: "nat \<Rightarrow> cdb \<Rightarrow> post_comment list" where
  "get_post_comments pid db = sort_key pc_created_at (filter (\<lambda>c. pc_post_id c = pid) (post_comments db))"

definition is_live_on :: "nat \<Rightarrow> post_comment option \<Rightarrow> bool" where
  "is_live_on pid c = (case c of None \<Rightarrow> False | Some x \<Rightarrow> pc_post_id x = pid \<and> pc_deleted_at x = None)"

definition repo_get_comment :: "nat \<Rightarrow> nat \<Rightarrow> cdb \<Rightarrow> community_error + post_comment" where
  "repo_get_comment pid cid db =
     (let c = find_comment cid db in
      if \<not> is_live_on pid c then Inl Comment_Not_Found else Inr (the c))"

section \<open>Writes\<close>

definition repo_create_post :: "instant \<Rightarrow> string \<Rightarrow> post_request \<Rightarrow> cdb \<Rightarrow> community_error + (post_row \<times> cdb)" where
  "repo_create_post dbnow author q db =
     (let p = \<lparr>po_id = next_post_id db, po_author = author, po_title = pq_title q, po_body = pq_body q,
               po_post_type = pq_post_type q, po_characters = pq_characters q,
               po_youtube_video_id = pq_youtube_video_id q, po_thumbs_up = 0, po_thumbs_down = 0, po_created_at = dbnow\<rparr>
      in Inr (p, db\<lparr>posts := posts db @ [p], next_post_id := Suc (next_post_id db)\<rparr>))"

definition edited :: "post_request \<Rightarrow> post_row \<Rightarrow> post_row" where
  "edited q p = p\<lparr>po_title := pq_title q, po_body := pq_body q, po_post_type := pq_post_type q,
     po_characters := pq_characters q, po_youtube_video_id := pq_youtube_video_id q\<rparr>"

definition repo_update_post :: "nat \<Rightarrow> post_request \<Rightarrow> cdb \<Rightarrow> community_error + ((post_row \<times> nat) \<times> cdb)" where
  "repo_update_post pid q db =
     bindR (repo_get_post pid db) (\<lambda>p.
     Inr ((edited q p, live_count pid db),
          db\<lparr>posts := update_where (\<lambda>x. po_id x = pid) (edited q) (posts db)\<rparr>))"

text \<open>The foreign keys cascade: a post takes its comments and its votes along.\<close>

definition repo_delete_post :: "nat \<Rightarrow> cdb \<Rightarrow> community_error + (unit \<times> cdb)" where
  "repo_delete_post pid db =
     bindR (repo_get_post pid db) (\<lambda>_.
     Inr ((), db\<lparr>posts := filter (\<lambda>p. po_id p \<noteq> pid) (posts db),
                post_comments := filter (\<lambda>c. pc_post_id c \<noteq> pid) (post_comments db),
                thumbs := filter (\<lambda>t. th_post_id t \<noteq> pid) (thumbs db)\<rparr>))"

definition ensure_repliable :: "nat \<Rightarrow> nat \<Rightarrow> cdb \<Rightarrow> community_error + unit" where
  "ensure_repliable pid parent_id db =
     (let parent = find_comment parent_id db in
      if \<not> is_live_on pid parent then Inl Parent_Not_Found
      else if pc_parent_id (the parent) \<noteq> None then Inl Nesting_Depth else Inr ())"

definition repo_create_comment ::
  "instant \<Rightarrow> nat \<Rightarrow> string \<Rightarrow> string \<Rightarrow> nat option \<Rightarrow> cdb \<Rightarrow> community_error + (post_comment \<times> cdb)" where
  "repo_create_comment dbnow pid author body parent_id db =
     bindR (repo_get_post pid db) (\<lambda>_.
     bindR (case parent_id of None \<Rightarrow> Inr () | Some i \<Rightarrow> ensure_repliable pid i db) (\<lambda>_.
     let c = \<lparr>pc_id = next_post_comment_id db, pc_post_id = pid, pc_parent_id = parent_id, pc_author = author,
              pc_body = body, pc_created_at = dbnow, pc_deleted_at = None\<rparr>
     in Inr (c, db\<lparr>post_comments := post_comments db @ [c], next_post_comment_id := Suc (next_post_comment_id db)\<rparr>)))"

definition comment_repo_delete :: "instant \<Rightarrow> nat \<Rightarrow> cdb \<Rightarrow> cdb" where
  "comment_repo_delete dbnow cid db =
     db\<lparr>post_comments := update_where (\<lambda>c. pc_id c = cid) (\<lambda>c. c\<lparr>pc_deleted_at := Some dbnow\<rparr>) (post_comments db)\<rparr>"

definition votes :: "nat \<Rightarrow> int \<Rightarrow> cdb \<Rightarrow> nat" where
  "votes pid direction db = length (filter (\<lambda>t. th_post_id t = pid \<and> th_direction t = direction) (thumbs db))"

definition repo_add_thumb :: "nat \<Rightarrow> string \<Rightarrow> int \<Rightarrow> cdb \<Rightarrow> community_error + ((nat \<times> nat) \<times> cdb)" where
  "repo_add_thumb pid voter direction db =
     bindR (repo_get_post pid db) (\<lambda>_.
     if (\<exists>t\<in>set (thumbs db). th_post_id t = pid \<and> th_voter t = voter) then Inl Already_Voted
     else
       let db1 = db\<lparr>thumbs := thumbs db @ [\<lparr>th_post_id = pid, th_voter = voter, th_direction = direction\<rparr>]\<rparr>;
           up = votes pid 1 db1; down = votes pid (-1) db1
       in Inr ((up, down), db1\<lparr>posts := update_where (\<lambda>p. po_id p = pid)
                                 (\<lambda>p. p\<lparr>po_thumbs_up := up, po_thumbs_down := down\<rparr>) (posts db1)\<rparr>))"

section \<open>Rules\<close>

record user =
  us_username :: string
  us_admin :: bool

definition ensure_can_use_post_type :: "string \<Rightarrow> user \<Rightarrow> community_error + unit" where
  "ensure_can_use_post_type post_type u = ensure (\<not> (post_type = notice_post_type \<and> \<not> us_admin u)) Notice_Admin_Only"

definition ensure_can_manage_post :: "post_row \<Rightarrow> user \<Rightarrow> community_error + unit" where
  "ensure_can_manage_post p u =
     (let owns = (po_author p = us_username u); co_admin = (po_post_type p = notice_post_type \<and> us_admin u) in
      ensure (owns \<or> co_admin) Not_Your_Post)"

definition ensure_can_delete_comment :: "post_comment \<Rightarrow> user \<Rightarrow> community_error + unit" where
  "ensure_can_delete_comment c u = ensure (\<not> (pc_author c \<noteq> us_username u \<and> \<not> us_admin u)) Not_Your_Comment"

section \<open>The comment tree\<close>

record shown_comment =
  sh_comment :: post_comment
  sh_deleted :: bool

definition tombstone :: "post_comment \<Rightarrow> shown_comment" where
  "tombstone c = \<lparr>sh_comment = c\<lparr>pc_body := []\<rparr>, sh_deleted = True\<rparr>"

definition hide_deleted :: "post_comment list \<Rightarrow> shown_comment list" where
  "hide_deleted cs =
     (let heads = set (concat (map (\<lambda>c. case pc_parent_id c of None \<Rightarrow> []
          | Some i \<Rightarrow> if pc_deleted_at c = None \<and> i \<noteq> 0 then [i] else []) cs)) in
      map (\<lambda>c. if pc_deleted_at c \<noteq> None then tombstone c else \<lparr>sh_comment = c, sh_deleted = False\<rparr>)
        (filter (\<lambda>c. pc_deleted_at c = None \<or> pc_id c \<in> heads) cs))"

text \<open>
  \<open>_nest_replies\<close> appends each comment to its parent's list of replies, both held by reference in
  \<open>by_id\<close>: the store maps an id to its comment and the ids of its replies so far.
\<close>

type_synonym nest_store = "(nat \<times> (shown_comment \<times> nat list)) list"

definition by_id_of :: "shown_comment list \<Rightarrow> nest_store" where
  "by_id_of cs = fold (\<lambda>c. AList.update (pc_id (sh_comment c)) (c, [])) cs []"

definition nest_step :: "nat \<times> (shown_comment \<times> nat list) \<Rightarrow> nest_store \<times> nat list \<Rightarrow> nest_store \<times> nat list" where
  "nest_step e st =
     (let (store, top_level) = st; i = fst e;
          parent = (case pc_parent_id (sh_comment (fst (snd e))) of
                      None \<Rightarrow> None | Some p \<Rightarrow> if p = 0 then None else map_of store p)
      in case parent of
           None \<Rightarrow> (store, top_level @ [i])
         | Some (pc, replies) \<Rightarrow> (AList.update (pc_id (sh_comment pc)) (pc, replies @ [i]) store, top_level))"

datatype nested = Nested shown_comment "nested list"

text \<open>The references followed, to the depth the answer is read; a tree of n comments is n deep at most.\<close>

fun follow_refs :: "nat \<Rightarrow> nest_store \<Rightarrow> nat \<Rightarrow> nested list" where
  "follow_refs 0 store i = []"
| "follow_refs (Suc n) store i =
     (case map_of store i of None \<Rightarrow> [] | Some (c, replies) \<Rightarrow> [Nested c (concat (map (follow_refs n store) replies))])"

definition nest_replies :: "shown_comment list \<Rightarrow> nested list" where
  "nest_replies cs =
     (let (store, top_level) = fold nest_step (by_id_of cs) (by_id_of cs, []) in
      concat (map (follow_refs (length cs) store) top_level))"

section \<open>The use cases\<close>

type_synonym post_detail = "post_row \<times> nested list"
type_synonym post_page = "(post_row \<times> nat) list \<times> nat \<times> nat \<times> nat"

text \<open>The cache keys.\<close>

definition post_key :: "nat \<Rightarrow> string" where
  "post_key pid = ''community:post:'' @ decimal pid"

fun join_plus :: "string list \<Rightarrow> string" where
  "join_plus [] = []"
| "join_plus [s] = s"
| "join_plus (s # ss) = s @ ''+'' @ join_plus ss"

definition or_all :: "string \<Rightarrow> string" where
  "or_all s = (if s = [] then ''all'' else s)"

definition list_key :: "nat \<Rightarrow> nat \<Rightarrow> string option \<Rightarrow> string list \<Rightarrow> string" where
  "list_key page page_size post_type team =
     ''community:posts:p'' @ decimal page @ '':s'' @ decimal page_size @
     '':t'' @ or_all (case post_type of None \<Rightarrow> [] | Some t \<Rightarrow> t) @ '':c'' @ or_all (join_plus team)"

record 'j cstate =
  cs_tx :: "('j, cdb) txstate"
  cs_lists :: "post_page dict_cache"
  cs_posts :: "post_detail dict_cache"

definition list_posts ::
  "int \<Rightarrow> instant \<Rightarrow> nat \<Rightarrow> nat \<Rightarrow> string option \<Rightarrow> string list \<Rightarrow> 'j cstate \<Rightarrow> (community_error + post_page) \<times> 'j cstate" where
  "list_posts ttl now page page_size post_type characters s =
     (let team = sort (remdups characters);
          (ps, n) = repo_list_posts page page_size post_type team (app (cs_tx s));
          (r, c) = read_through dict_get dict_set (\<lambda>_. True) (list_key page page_size post_type team) ttl now
                     (Inr (ps, n, page, page_size)) (cs_lists s)
      in (r, s\<lparr>cs_lists := c\<rparr>))"

definition load_post :: "nat \<Rightarrow> cdb \<Rightarrow> community_error + post_detail" where
  "load_post pid db = bindR (repo_get_post pid db) (\<lambda>p. Inr (p, nest_replies (hide_deleted (get_post_comments pid db))))"

definition get_post :: "int \<Rightarrow> instant \<Rightarrow> nat \<Rightarrow> 'j cstate \<Rightarrow> (community_error + post_detail) \<times> 'j cstate" where
  "get_post ttl now pid s =
     (let (r, c) = read_through dict_get dict_set (\<lambda>_. True) (post_key pid) ttl now (load_post pid (app (cs_tx s))) (cs_posts s)
      in (r, s\<lparr>cs_posts := c\<rparr>))"

definition invalidate_lists :: "'j cstate \<Rightarrow> 'j cstate" where
  "invalidate_lists s = s\<lparr>cs_lists := dict_delete_pattern ''community:posts:*'' (cs_lists s)\<rparr>"

definition invalidate_post :: "nat \<Rightarrow> 'j cstate \<Rightarrow> 'j cstate" where
  "invalidate_post pid s = s\<lparr>cs_posts := dict_delete (post_key pid) (cs_posts s)\<rparr>"

text \<open>A transaction, and what is done once it has committed; an exception skips it.\<close>

definition committing :: "(('j, cdb) txstate \<Rightarrow> 'e + ('a \<times> ('j, cdb) txstate)) \<Rightarrow> ('j cstate \<Rightarrow> 'j cstate) \<Rightarrow> 'j cstate \<Rightarrow>
  ('e + 'a) \<times> 'j cstate" where
  "committing t after s =
     (case transact t (cs_tx s) of
        (Inl e, tx) \<Rightarrow> (Inl e, s\<lparr>cs_tx := tx\<rparr>)
      | (Inr a, tx) \<Rightarrow> (Inr a, after (s\<lparr>cs_tx := tx\<rparr>)))"

definition create_post ::
  "(post_row \<Rightarrow> 'j) \<Rightarrow> (string \<Rightarrow> string) \<Rightarrow> (string \<Rightarrow> post_request \<Rightarrow> string) \<Rightarrow> instant \<Rightarrow> user \<Rightarrow> post_request \<Rightarrow> string \<Rightarrow>
     'j cstate \<Rightarrow> (community_error idem_error + 'j) \<times> 'j cstate" where
  "create_post jsonable sha can dbnow author q key s =
     (case ensure_can_use_post_type (pq_post_type q) author of
        Inl e \<Rightarrow> (Inl (WriteError e), s)
      | Inr _ \<Rightarrow>
          committing (run_once pg_claim pg_complete jsonable (us_username author) key (fingerprint sha can ''community.post'' q)
             (on_app (repo_create_post dbnow (us_username author) q))) invalidate_lists s)"

definition update_post :: "nat \<Rightarrow> user \<Rightarrow> post_request \<Rightarrow> 'j cstate \<Rightarrow> (community_error + (post_row \<times> nat)) \<times> 'j cstate" where
  "update_post pid u q s =
     (case ensure_can_use_post_type (pq_post_type q) u of
        Inl e \<Rightarrow> (Inl e, s)
      | Inr _ \<Rightarrow>
          committing (on_app (\<lambda>db. bindR (bindR (repo_get_post pid db) (\<lambda>p. ensure_can_manage_post p u)) (\<lambda>_.
             repo_update_post pid q db))) (invalidate_post pid \<circ> invalidate_lists) s)"

definition delete_post :: "nat \<Rightarrow> user \<Rightarrow> 'j cstate \<Rightarrow> (community_error + unit) \<times> 'j cstate" where
  "delete_post pid u s =
     committing (on_app (\<lambda>db. bindR (bindR (repo_get_post pid db) (\<lambda>p. ensure_can_manage_post p u)) (\<lambda>_.
        repo_delete_post pid db))) (invalidate_post pid \<circ> invalidate_lists) s"

type_synonym comment_request = "nat \<times> string \<times> nat option"

definition create_comment ::
  "(post_comment \<Rightarrow> 'j) \<Rightarrow> (string \<Rightarrow> string) \<Rightarrow> (string \<Rightarrow> comment_request \<Rightarrow> string) \<Rightarrow> instant \<Rightarrow> user \<Rightarrow> comment_request \<Rightarrow> string \<Rightarrow>
     'j cstate \<Rightarrow> (community_error idem_error + 'j) \<times> 'j cstate" where
  "create_comment jsonable sha can dbnow author q key s =
     (let (pid, body, parent_id) = q in
      committing (run_once pg_claim pg_complete jsonable (us_username author) key (fingerprint sha can ''community.comment'' q)
        (on_app (repo_create_comment dbnow pid (us_username author) body parent_id))) (invalidate_post pid) s)"

definition delete_comment :: "instant \<Rightarrow> nat \<Rightarrow> nat \<Rightarrow> user \<Rightarrow> 'j cstate \<Rightarrow> (community_error + unit) \<times> 'j cstate" where
  "delete_comment dbnow pid cid u s =
     committing (on_app (\<lambda>db. bindR (bindR (repo_get_comment pid cid db) (\<lambda>c. ensure_can_delete_comment c u)) (\<lambda>_.
        Inr ((), comment_repo_delete dbnow cid db)))) (invalidate_post pid) s"

definition add_thumb :: "nat \<Rightarrow> user \<Rightarrow> int \<Rightarrow> 'j cstate \<Rightarrow> (community_error + (nat \<times> nat)) \<times> 'j cstate" where
  "add_thumb pid voter direction s =
     committing (on_app (repo_add_thumb pid (us_username voter) direction)) (invalidate_post pid) s"

end
