(* ===== verification/Cached_View.thy ===== *)
theory Cached_View
  imports Cache
begin

text \<open>
  What several services do with the cache: an answer computed from a table is kept under a key, and every
  write that could change the answer deletes the key once it has committed.  The locale states that contract
  over the cache's interface, and its lemmas say what it buys: a read answers what the table holds.
\<close>

locale cached_view = cache_backend cget cset cdel cdel_pattern
  for cget :: "string \<Rightarrow> instant \<Rightarrow> 'c \<Rightarrow> 'j option \<times> 'c"
    and cset :: "string \<Rightarrow> 'j \<Rightarrow> int \<Rightarrow> instant \<Rightarrow> 'c \<Rightarrow> 'c"
    and cdel :: "string \<Rightarrow> 'c \<Rightarrow> 'c"
    and cdel_pattern :: "string \<Rightarrow> 'c \<Rightarrow> 'c" +
  fixes key :: "'k \<Rightarrow> string" and view :: "'k \<Rightarrow> 'd \<Rightarrow> 'e + 'j"
  assumes key_inj: "key k = key k' \<Longrightarrow> k = k'"
    and get_forgets: "fst (cget s now' (snd (cget s' now c))) = Some v \<Longrightarrow> fst (cget s now' c) = Some v"
begin

definition coherent :: "'d \<Rightarrow> 'c \<Rightarrow> bool" where
  "coherent d c \<longleftrightarrow> (\<forall>k now v. fst (cget (key k) now c) = Some v \<longrightarrow> view k d = Inr v)"

lemma coherentD: "coherent d c \<Longrightarrow> fst (cget (key k) now c) = Some v \<Longrightarrow> view k d = Inr v"
  by (simp add: coherent_def)

lemma coherent_empty: "(\<And>s now. fst (cget s now c) = None) \<Longrightarrow> coherent d c"
  by (simp add: coherent_def)

lemma coherent_get: "coherent d c \<Longrightarrow> coherent d (snd (cget s now c))"
  unfolding coherent_def using get_forgets by blast

lemma coherent_set: "coherent d c \<Longrightarrow> view k d = Inr v \<Longrightarrow> coherent d (cset (key k) v ttl now c)"
  unfolding coherent_def
proof (intro allI impI)
  fix k' now' w
  assume c: "\<forall>k now v. fst (cget (key k) now c) = Some v \<longrightarrow> view k d = Inr v" and v: "view k d = Inr v"
    and w: "fst (cget (key k') now' (cset (key k) v ttl now c)) = Some w"
  show "view k' d = Inr w"
  proof (cases "k' = k")
    case True
    then show ?thesis using w v by (simp add: get_after_set split: if_splits)
  next
    case False
    then have "key k' \<noteq> key k" using key_inj by blast
    then show ?thesis using w c by (simp add: get_set_other)
  qed
qed

text \<open>A read answers what the source holds, and leaves the cache coherent.\<close>

lemma read_stored:
  assumes c: "coherent d c" and hit: "\<And>v. hit v"
  shows "fst (read_through cget cset hit (key k) ttl now (view k d) c) = view k d"
    and "coherent d (snd (read_through cget cset hit (key k) ttl now (view k d) c))"
proof -
  show "fst (read_through cget cset hit (key k) ttl now (view k d) c) = view k d"
    using coherentD [OF c, of k now] hit
    by (cases "view k d"; cases "fst (cget (key k) now c)") (auto simp: read_cases)
  show "coherent d (snd (read_through cget cset hit (key k) ttl now (view k d) c))"
    using coherent_get [OF c] coherent_set [OF coherent_get [OF c], of k] hit
    by (cases "view k d"; cases "fst (cget (key k) now c)") (auto simp: read_cases)
qed

text \<open>A write that changes one view and deletes its key keeps the others, and one that changes none keeps them all.\<close>

lemma write_coherent:
  assumes "coherent d c" and "\<And>k'. k' \<noteq> k \<Longrightarrow> view k' d' = view k' d"
  shows "coherent d' (cdel (key k) c)"
  using assms unfolding coherent_def by (auto simp: get_after_delete split: if_splits) metis

lemma same_views_coherent: "coherent d c \<Longrightarrow> (\<And>k. view k d' = view k d) \<Longrightarrow> coherent d' c"
  by (simp add: coherent_def)

end

lemma dict_get_forgets: "fst (dict_get s now' (snd (dict_get s' now c))) = Some v \<Longrightarrow> fst (dict_get s now' c) = Some v"
  by (auto simp: dict_get_def split: option.splits if_splits prod.splits)

text \<open>What the dictionary holds, read at a moment before its time is up.\<close>

lemma dict_entry_iff: "(\<forall>v t. c s = Some (v, t) \<longrightarrow> P v) \<longleftrightarrow> (\<forall>now v. fst (dict_get s now c) = Some v \<longrightarrow> P v)"
proof
  assume all: "\<forall>now v. fst (dict_get s now c) = Some v \<longrightarrow> P v"
  show "\<forall>v t. c s = Some (v, t) \<longrightarrow> P v"
  proof (intro allI impI)
    fix v t assume "c s = Some (v, t)"
    then have "fst (dict_get s (t - 1) c) = Some v" by (simp add: dict_get_def)
    with all show "P v" by blast
  qed
qed (auto simp: dict_get_def split: option.splits if_splits)

end
