(* ===== verification/Community_Invariant.thy ===== *)
theory Community_Invariant
  imports Community Cached_View
begin

text \<open>
  What the board keeps: keys, two levels of comments, one vote per voter and counters that count the
  votes; a cached post is always the post as stored; and the tree of comments shows every live comment once.
\<close>

section \<open>The tables\<close>

definition comments_ok :: "cdb \<Rightarrow> bool" where
  "comments_ok db \<longleftrightarrow>
     distinct (map pc_id (post_comments db)) \<and>
     (\<forall>c\<in>set (post_comments db). 0 < pc_id c \<and> pc_id c < next_post_comment_id db \<and>
        (\<exists>p\<in>set (posts db). po_id p = pc_post_id c) \<and>
        (\<forall>i. pc_parent_id c = Some i \<longrightarrow>
           (\<exists>d\<in>set (post_comments db). pc_id d = i \<and> pc_post_id d = pc_post_id c \<and> pc_parent_id d = None)))"

definition votes_ok :: "cdb \<Rightarrow> bool" where
  "votes_ok db \<longleftrightarrow> distinct (map (\<lambda>t. (th_post_id t, th_voter t)) (thumbs db)) \<and>
     (\<forall>t\<in>set (thumbs db). th_post_id t < next_post_id db) \<and>
     (\<forall>p\<in>set (posts db). po_thumbs_up p = votes (po_id p) 1 db \<and> po_thumbs_down p = votes (po_id p) (-1) db)"

definition community_ok :: "cdb \<Rightarrow> bool" where
  "community_ok db \<longleftrightarrow> distinct (map po_id (posts db)) \<and> (\<forall>p\<in>set (posts db). po_id p < next_post_id db) \<and>
     0 < next_post_comment_id db \<and> comments_ok db \<and> votes_ok db"

lemma empty_community_ok: "community_ok empty_cdb"
  by (simp add: community_ok_def comments_ok_def votes_ok_def empty_cdb_def)

lemma repo_get_post_Inr: "repo_get_post pid db = Inr p \<longleftrightarrow> find_post pid db = Some p"
  by (simp add: repo_get_post_def split: option.splits)

lemma find_post_Some: "find_post pid db = Some p \<Longrightarrow> p \<in> set (posts db) \<and> po_id p = pid"
  unfolding find_post_def using find_Some_set by fastforce

lemma find_comment_Some: "find_comment cid db = Some c \<Longrightarrow> c \<in> set (post_comments db) \<and> pc_id c = cid"
  unfolding find_comment_def using find_Some_set by fastforce

lemma create_post_ok: "community_ok db \<Longrightarrow> repo_create_post dbnow author q db = Inr (p, db') \<Longrightarrow> community_ok db'"
proof -
  assume ok: "community_ok db" and run: "repo_create_post dbnow author q db = Inr (p, db')"
  have "votes (next_post_id db) d db = 0" for d
    using ok by (auto simp: votes_def community_ok_def votes_ok_def filter_empty_conv)
  moreover have "votes pid d db' = votes pid d db" for pid d
    using run by (auto simp: repo_create_post_def Let_def votes_def)
  moreover have "next_post_id db \<notin> po_id ` set (posts db)" using ok by (force simp: community_ok_def)
  ultimately show "community_ok db'"
    using ok run by (auto simp: repo_create_post_def Let_def community_ok_def comments_ok_def votes_ok_def less_Suc_eq)
qed

lemma update_posts_ok:
  assumes ok: "community_ok db" and f: "\<And>p. po_id (f p) = po_id p"
    and v: "\<And>p. p \<in> set (posts db) \<Longrightarrow> po_id p = pid \<Longrightarrow>
      po_thumbs_up (f p) = votes pid 1 db \<and> po_thumbs_down (f p) = votes pid (-1) db"
  shows "community_ok (db\<lparr>posts := update_where (\<lambda>x. po_id x = pid) f (posts db)\<rparr>)"
proof -
  have "(\<exists>p\<in>set (update_where (\<lambda>x. po_id x = pid) f (posts db)). po_id p = i) = (\<exists>p\<in>set (posts db). po_id p = i)" for i
    by (rule bex_update_where) (simp add: f)
  moreover have "(\<forall>p\<in>set (update_where (\<lambda>x. po_id x = pid) f (posts db)). po_id p < n) = (\<forall>p\<in>set (posts db). po_id p < n)" for n
    by (rule ball_update_where) (simp add: f)
  moreover have "map po_id (update_where (\<lambda>x. po_id x = pid) f (posts db)) = map po_id (posts db)"
    by (rule map_update_where_frame) (simp add: f)
  moreover have "votes i d (db\<lparr>posts := update_where (\<lambda>x. po_id x = pid) f (posts db)\<rparr>) = votes i d db" for i d
    by (simp add: votes_def)
  ultimately show ?thesis
    using ok v by (auto simp: community_ok_def comments_ok_def votes_ok_def set_update_where f)
qed

lemma update_post_ok: "community_ok db \<Longrightarrow> repo_update_post pid q db = Inr (r, db') \<Longrightarrow> community_ok db'"
proof -
  assume ok: "community_ok db" and run: "repo_update_post pid q db = Inr (r, db')"
  have "community_ok (db\<lparr>posts := update_where (\<lambda>x. po_id x = pid) (edited q) (posts db)\<rparr>)"
    by (rule update_posts_ok [OF ok]) (use ok in \<open>auto simp: edited_def community_ok_def votes_ok_def\<close>)
  with run show "community_ok db'" by (auto simp: repo_update_post_def)
qed

lemma delete_post_ok: "community_ok db \<Longrightarrow> repo_delete_post pid db = Inr (u, db') \<Longrightarrow> community_ok db'"
proof -
  assume ok: "community_ok db" and run: "repo_delete_post pid db = Inr (u, db')"
  have "filter (\<lambda>t. th_post_id t = i \<and> th_direction t = d) (filter (\<lambda>t. th_post_id t \<noteq> pid) (thumbs db)) =
      filter (\<lambda>t. th_post_id t = i \<and> th_direction t = d) (thumbs db)" if "i \<noteq> pid" for i d
    using that by (auto intro: filter_cong)
  then have "votes i d db' = votes i d db" if "i \<noteq> pid" for i d
    using run that by (auto simp: repo_delete_post_def votes_def simp del: filter_filter)
  then show "community_ok db'"
    using ok run by (fastforce simp: repo_delete_post_def community_ok_def comments_ok_def votes_ok_def distinct_map_filter)
qed

lemma create_comment_ok:
  assumes ok: "community_ok db" and run: "repo_create_comment dbnow pid author body parent_id db = Inr (c, db')"
  shows "community_ok db'"
proof -
  from run obtain p where p: "find_post pid db = Some p"
    by (auto simp: repo_create_comment_def repo_get_post_Inr)
  have db': "db' = db\<lparr>post_comments := post_comments db @ [c], next_post_comment_id := Suc (next_post_comment_id db)\<rparr>"
    and c: "pc_id c = next_post_comment_id db" "pc_post_id c = pid" "pc_parent_id c = parent_id"
    using run by (auto simp: repo_create_comment_def Let_def)
  have parent: "\<exists>d\<in>set (post_comments db). pc_id d = i \<and> pc_post_id d = pid \<and> pc_parent_id d = None" if "parent_id = Some i" for i
  proof -
    have "ensure_repliable pid i db = Inr ()" using run that by (auto simp: repo_create_comment_def)
    then obtain d where "find_comment i db = Some d" "pc_post_id d = pid" "pc_parent_id d = None"
      by (auto simp: ensure_repliable_def is_live_on_def Let_def split: if_splits option.splits)
    then show ?thesis using find_comment_Some by blast
  qed
  have "comments_ok db'"
    using ok parent find_post_Some [OF p] c unfolding db' community_ok_def comments_ok_def
    by (auto simp: less_Suc_eq)
  then show ?thesis using ok by (simp add: community_ok_def db' votes_ok_def votes_def)
qed

lemma comment_repo_delete_ok: "community_ok db \<Longrightarrow> community_ok (comment_repo_delete dbnow cid db)"
proof -
  assume ok: "community_ok db"
  let ?f = "\<lambda>c :: post_comment. c\<lparr>pc_deleted_at := Some dbnow\<rparr>" and ?P = "\<lambda>c :: post_comment. pc_id c = cid"
  have "(\<exists>d\<in>set (update_where ?P ?f cs). pc_id d = i \<and> pc_post_id d = j \<and> pc_parent_id d = None) =
      (\<exists>d\<in>set cs. pc_id d = i \<and> pc_post_id d = j \<and> pc_parent_id d = None)" for cs i j
    by (rule bex_update_where) simp
  moreover have "map pc_id (update_where ?P ?f cs) = map pc_id cs" for cs
    by (rule map_update_where_frame) simp
  ultimately show "community_ok (comment_repo_delete dbnow cid db)"
    using ok by (simp add: community_ok_def comments_ok_def votes_ok_def votes_def comment_repo_delete_def ball_update_where)
qed

lemma add_thumb_ok:
  assumes ok: "community_ok db" and run: "repo_add_thumb pid voter d db = Inr (r, db')"
  shows "community_ok db' \<and> r = (votes pid 1 db', votes pid (-1) db')"
proof -
  let ?db1 = "db\<lparr>thumbs := thumbs db @ [\<lparr>th_post_id = pid, th_voter = voter, th_direction = d\<rparr>]\<rparr>"
  let ?f = "\<lambda>p. p\<lparr>po_thumbs_up := votes pid 1 ?db1, po_thumbs_down := votes pid (-1) ?db1\<rparr>"
  from run obtain p where p: "find_post pid db = Some p" and new: "\<not> (\<exists>t\<in>set (thumbs db). th_post_id t = pid \<and> th_voter t = voter)"
    and db': "db' = ?db1\<lparr>posts := update_where (\<lambda>x. po_id x = pid) ?f (posts ?db1)\<rparr>"
    and r: "r = (votes pid 1 ?db1, votes pid (-1) ?db1)"
    by (auto simp: repo_add_thumb_def repo_get_post_Inr Let_def split: if_splits)
  have v: "votes i e db' = votes i e ?db1" for i e by (simp add: db' votes_def)
  have other: "votes i e ?db1 = votes i e db" if "i \<noteq> pid" for i e using that by (simp add: votes_def)
  have lt: "pid < next_post_id db" using find_post_Some [OF p] ok by (auto simp: community_ok_def)
  have ids: "map po_id (posts db') = map po_id (posts db)" unfolding db' by (simp add: map_update_where_frame)
  have bex: "(\<exists>p\<in>set (posts db'). po_id p = i) = (\<exists>p\<in>set (posts db). po_id p = i)" for i
    using ids by (metis (mono_tags, lifting) image_iff list.set_map)
  have ball: "(\<forall>p\<in>set (posts db'). po_id p < n) = (\<forall>p\<in>set (posts db). po_id p < n)" for n
    unfolding db' by (simp add: ball_update_where)
  have c: "\<forall>p\<in>set (posts db'). po_thumbs_up p = votes (po_id p) 1 db' \<and> po_thumbs_down p = votes (po_id p) (-1) db'"
    using ok other unfolding v community_ok_def votes_ok_def by (auto simp: db' set_update_where)
  have "votes_ok db'"
    using ok new lt c by (auto simp: votes_ok_def community_ok_def db')
  moreover have "comments_ok db'"
    using ok bex by (simp add: comments_ok_def community_ok_def) (simp add: db')
  ultimately show ?thesis
    using ok ball ids r v by (simp add: community_ok_def) (simp add: db')
qed

section \<open>Cached posts are the stored ones\<close>

lemma post_key_inj: "post_key a = post_key b \<longleftrightarrow> a = b"
  unfolding post_key_def by simp

definition posts_coherent :: "'j cstate \<Rightarrow> bool" where
  "posts_coherent s \<longleftrightarrow> (\<forall>pid v t. cs_posts s (post_key pid) = Some (v, t) \<longrightarrow> load_post pid (app (cs_tx s)) = Inr v)"

interpretation cached_post: cached_view dict_get dict_set dict_delete dict_delete_pattern post_key load_post
  by unfold_locales (auto simp: post_key_inj dest: dict_get_forgets)

lemma posts_coherent_iff: "posts_coherent s \<longleftrightarrow> cached_post.coherent (app (cs_tx s)) (cs_posts s)"
  by (simp only: posts_coherent_def cached_post.coherent_def dict_entry_iff [symmetric])

lemma get_post_stored:
  assumes "posts_coherent s"
  shows "fst (get_post ttl now pid s) = load_post pid (app (cs_tx s))"
    and "posts_coherent (snd (get_post ttl now pid s))"
  using cached_post.read_stored [OF assms [unfolded posts_coherent_iff], of "\<lambda>_. True" pid ttl now]
  by (simp_all add: get_post_def split_beta posts_coherent_iff)

lemma committing_coherent:
  assumes s: "posts_coherent s"
    and t: "\<And>a tx pid'. t (cs_tx s) = Inr (a, tx) \<Longrightarrow> pid' \<noteq> pid \<Longrightarrow> load_post pid' (app tx) = load_post pid' (app (cs_tx s))"
    and after: "\<And>x. cs_tx (after x) = cs_tx x \<and> cs_posts (after x) = dict_delete (post_key pid) (cs_posts x)"
  shows "posts_coherent (snd (committing t after s))"
proof (cases "t (cs_tx s)")
  case (Inl e)
  then show ?thesis using s by (simp add: committing_def transact_def posts_coherent_def)
next
  case (Inr r)
  then show ?thesis
    using cached_post.write_coherent [OF s [unfolded posts_coherent_iff], of pid "app (snd r)"] t [of "fst r" "snd r"]
    by (simp add: committing_def transact_def split_beta posts_coherent_iff after)
qed

end
