(* ===== verification/Community_System.thy ===== *)
theory Community_System
  imports Community_Invariant "HOL-Library.Multiset"
begin

text \<open>
  The comment tree as a reader should see it, runs of the board's calls, and the two list requests that
  share one cache entry.
\<close>

section \<open>The tree of comments\<close>

definition live :: "post_comment \<Rightarrow> bool" where
  "live c \<longleftrightarrow> pc_deleted_at c = None"

definition live_replies :: "post_comment list \<Rightarrow> post_comment \<Rightarrow> post_comment list" where
  "live_replies cs c = filter (\<lambda>r. live r \<and> pc_parent_id r = Some (pc_id c)) cs"

definition shown :: "post_comment \<Rightarrow> shown_comment" where
  "shown c = (if live c then \<lparr>sh_comment = c, sh_deleted = False\<rparr> else tombstone c)"

definition comment_tree :: "post_comment list \<Rightarrow> nested list" where
  "comment_tree cs =
     map (\<lambda>c. Nested (shown c) (map (\<lambda>r. Nested (shown r) []) (live_replies cs c)))
       (filter (\<lambda>c. pc_parent_id c = None \<and> (live c \<or> live_replies cs c \<noteq> [])) cs)"

definition two_level :: "post_comment list \<Rightarrow> bool" where
  "two_level cs \<longleftrightarrow> distinct (map pc_id cs) \<and> (\<forall>c\<in>set cs. 0 < pc_id c \<and>
     (\<forall>i. pc_parent_id c = Some i \<longrightarrow> (\<exists>d\<in>set cs. pc_id d = i \<and> pc_parent_id d = None)))"

abbreviation sid :: "shown_comment \<Rightarrow> nat" where "sid c \<equiv> pc_id (sh_comment c)"
abbreviation sparent :: "shown_comment \<Rightarrow> nat option" where "sparent c \<equiv> pc_parent_id (sh_comment c)"

lemma shown_ids [simp]: "sid (shown c) = pc_id c" "sparent (shown c) = pc_parent_id c"
  by (simp_all add: shown_def tombstone_def)

lemma hide_deleted_eq:
  assumes "two_level cs"
  shows "hide_deleted cs = map shown (filter (\<lambda>c. live c \<or> pc_parent_id c = None \<and> live_replies cs c \<noteq> []) cs)"
proof -
  let ?heads = "{i. \<exists>c\<in>set cs. pc_deleted_at c = None \<and> pc_parent_id c = Some i \<and> i \<noteq> 0}"
  have "pc_id c \<in> ?heads \<longleftrightarrow> pc_parent_id c = None \<and> live_replies cs c \<noteq> []" if c: "c \<in> set cs" for c
  proof
    assume "pc_id c \<in> ?heads"
    then obtain r where r: "r \<in> set cs" "live r" "pc_parent_id r = Some (pc_id c)" by (auto simp: live_def)
    then obtain d where "d \<in> set cs" "pc_id d = pc_id c" "pc_parent_id d = None" using assms by (fastforce simp: two_level_def)
    moreover from this have "d = c" using assms c distinct_map_eq [of pc_id cs] by (simp add: two_level_def)
    ultimately show "pc_parent_id c = None \<and> live_replies cs c \<noteq> []" using r by (auto simp: live_replies_def filter_empty_conv)
  next
    assume "pc_parent_id c = None \<and> live_replies cs c \<noteq> []"
    then show "pc_id c \<in> ?heads" using assms c by (auto simp: live_replies_def filter_empty_conv two_level_def live_def)
  qed
  moreover have "set (concat (map (\<lambda>c. case pc_parent_id c of None \<Rightarrow> []
      | Some i \<Rightarrow> if pc_deleted_at c = None \<and> i \<noteq> 0 then [i] else []) cs)) = ?heads"
    by (auto split: option.splits if_splits)
  ultimately have "filter (\<lambda>c. pc_deleted_at c = None \<or> pc_id c \<in> set (concat (map (\<lambda>c. case pc_parent_id c of None \<Rightarrow> []
      | Some i \<Rightarrow> if pc_deleted_at c = None \<and> i \<noteq> 0 then [i] else []) cs))) cs =
      filter (\<lambda>c. live c \<or> pc_parent_id c = None \<and> live_replies cs c \<noteq> []) cs"
    by (intro filter_cong) (auto simp: live_def)
  then show ?thesis
    unfolding hide_deleted_def Let_def by (simp add: shown_def live_def)
qed

lemma update_map_keyed:
  "distinct (map k hs) \<Longrightarrow> h \<in> set hs \<Longrightarrow>
    AList.update (k h) v (map (\<lambda>c. (k c, g c)) hs) = map (\<lambda>c. (k c, if k c = k h then v else g c)) hs"
proof (induction hs)
  case (Cons a hs)
  show ?case
  proof (cases "k a = k h")
    case True
    then have "\<forall>c\<in>set hs. k c \<noteq> k h" using Cons.prems(1) by (metis distinct.simps(2) image_eqI list.set_map list.simps(9))
    then show ?thesis using True by simp
  next
    case False
    then show ?thesis using Cons by auto
  qed
qed simp

lemma update_fresh: "k \<notin> fst ` set ps \<Longrightarrow> AList.update k v ps = ps @ [(k, v)]"
  by (induction ps) auto

lemma by_id_of_eq: "distinct (map sid hs) \<Longrightarrow> by_id_of hs = map (\<lambda>c. (sid c, (c, []))) hs"
proof (induction hs rule: rev_induct)
  case (snoc c hs)
  then show ?case by (simp add: by_id_of_def update_fresh image_image)
qed (simp add: by_id_of_def)

text \<open>The store once the comments of \<open>P\<close> have been hung.\<close>

definition hung :: "shown_comment list \<Rightarrow> shown_comment list \<Rightarrow> nest_store" where
  "hung hs P = map (\<lambda>c. (sid c, (c, map sid (filter (\<lambda>r. sparent r = Some (sid c)) P)))) hs"

lemma map_of_hung:
  "distinct (map sid hs) \<Longrightarrow> c \<in> set hs \<Longrightarrow> map_of (hung hs P) (sid c) = Some (c, map sid (filter (\<lambda>r. sparent r = Some (sid c)) P))"
  unfolding hung_def by (rule map_of_is_SomeI) (auto simp: comp_def)

lemma nest_step_top: "sparent c = None \<Longrightarrow> nest_step (i, (c, rs)) (store, top_level) = (store, top_level @ [i])"
  by (simp add: nest_step_def)

lemma nest_step_reply:
  "sparent c = Some p \<Longrightarrow> p \<noteq> 0 \<Longrightarrow> map_of store p = Some (pc, replies) \<Longrightarrow>
    nest_step (i, (c, rs)) (store, top_level) = (AList.update (sid pc) (pc, replies @ [i]) store, top_level)"
  by (simp add: nest_step_def)

lemma nest_steps:
  assumes d: "distinct (map sid hs)" and pos: "\<forall>c\<in>set hs. 0 < sid c"
    and par: "\<forall>c\<in>set hs. \<forall>i. sparent c = Some i \<longrightarrow> (\<exists>p\<in>set hs. sid p = i)" and "set P \<subseteq> set hs"
  shows "fold nest_step (map (\<lambda>c. (sid c, (c, []))) P) (hung hs [], []) =
    (hung hs P, map sid (filter (\<lambda>c. sparent c = None) P))"
  using assms(4)
proof (induction P rule: rev_induct)
  case (snoc c P)
  then have IH: "fold nest_step (map (\<lambda>c. (sid c, (c, []))) P) (hung hs [], []) =
      (hung hs P, map sid (filter (\<lambda>c. sparent c = None) P))" and c: "c \<in> set hs"
    by simp_all
  show ?case
  proof (cases "sparent c")
    case None
    then have "hung hs (P @ [c]) = hung hs P" by (simp add: hung_def)
    then show ?thesis using None by (simp add: IH nest_step_top)
  next
    case (Some i)
    with par c obtain p where p: "p \<in> set hs" "sid p = i" by blast
    then have i: "i \<noteq> 0" using pos by auto
    note look = map_of_hung [OF d p(1), of P]
    have "AList.update (sid p) (p, map sid (filter (\<lambda>r. sparent r = Some (sid p)) P) @ [sid c]) (hung hs P) = hung hs (P @ [c])"
      unfolding hung_def update_map_keyed [OF d p(1)]
      using Some p d by (auto simp: distinct_map inj_on_def)
    then show ?thesis using Some nest_step_reply [OF _ i look [unfolded p(2)]] p by (simp add: IH)
  qed
qed simp

lemma nest_hide:
  assumes two: "two_level cs"
  shows "nest_replies (hide_deleted cs) = comment_tree cs"
proof -
  define keep where "keep = (\<lambda>c. live c \<or> pc_parent_id c = None \<and> live_replies cs c \<noteq> [])"
  define hs where "hs = map shown (filter keep cs)"
  have h: "hide_deleted cs = hs" using hide_deleted_eq [OF two] by (simp add: hs_def keep_def)
  have ids: "map sid hs = map pc_id (filter keep cs)" by (simp add: hs_def)
  have d: "distinct (map sid hs)" unfolding ids using two by (simp add: two_level_def distinct_map_filter)
  have pos: "\<forall>c\<in>set hs. 0 < sid c" using two by (auto simp: hs_def two_level_def)
  have kept_parent: "\<exists>p\<in>set (filter keep cs). pc_id p = i \<and> pc_parent_id p = None"
    if c: "c \<in> set cs" "keep c" "pc_parent_id c = Some i" for c i
  proof -
    have l: "live c" using c by (simp add: keep_def)
    obtain p where p: "p \<in> set cs" "pc_id p = i" "pc_parent_id p = None" using two c(1,3) unfolding two_level_def by blast
    have "c \<in> set (live_replies cs p)" using c l p by (simp add: live_replies_def)
    then have "keep p" using p(3) by (auto simp: keep_def)
    then show ?thesis using p by auto
  qed
  have par: "\<forall>c\<in>set hs. \<forall>i. sparent c = Some i \<longrightarrow> (\<exists>p\<in>set hs. sid p = i)"
    using kept_parent by (fastforce simp: hs_def)
  have start: "by_id_of hs = hung hs []" "by_id_of hs = map (\<lambda>c. (sid c, (c, []))) hs"
    using by_id_of_eq [OF d] by (simp_all add: hung_def)
  have run: "fold nest_step (by_id_of hs) (by_id_of hs, []) = (hung hs hs, map sid (filter (\<lambda>c. sparent c = None) hs))"
    using nest_steps [OF d pos par, of hs] start by simp
  have replies: "filter (\<lambda>r. sparent r = Some (pc_id c)) hs = map shown (live_replies cs c)" if "c \<in> set cs" for c
  proof -
    have "filter (\<lambda>r. keep r \<and> pc_parent_id r = Some (pc_id c)) cs = live_replies cs c"
      unfolding live_replies_def by (rule filter_cong) (auto simp: keep_def)
    then show ?thesis by (simp add: hs_def filter_map comp_def conj_commute)
  qed
  have look: "map_of (hung hs hs) (pc_id c) = Some (shown c, map pc_id (live_replies cs c))" if "c \<in> set cs" "keep c" for c
    using map_of_hung [OF d, of "shown c" hs] that replies [OF that(1)] by (simp add: hs_def comp_def)
  have leaf: "live_replies cs r = []" if r: "r \<in> set (live_replies cs c)" for r c
  proof -
    have "False" if "x \<in> set (live_replies cs r)" for x
    proof -
      from that two obtain y where y: "y \<in> set cs" "pc_id y = pc_id r" "pc_parent_id y = None"
        by (fastforce simp: live_replies_def two_level_def)
      then have "y = r" using two r distinct_map_eq [of pc_id cs y r]
        by (simp add: live_replies_def two_level_def)
      then show False using y(3) r by (simp add: live_replies_def)
    qed
    then show ?thesis by (meson equals0I set_empty)
  qed
  have two_deep: "follow_refs (length hs) (hung hs hs) (pc_id c) = [Nested (shown c) (map (\<lambda>r. Nested (shown r) []) (live_replies cs c))]"
    if c: "c \<in> set cs" "keep c" "pc_parent_id c = None" for c
  proof -
    have "shown c \<in> set hs" using c by (simp add: hs_def)
    then obtain n where n: "length hs = Suc n" by (cases hs) auto
    have "follow_refs n (hung hs hs) (pc_id r) = [Nested (shown r) []]" if r: "r \<in> set (live_replies cs c)" for r
    proof -
      have rk: "r \<in> set cs" "keep r" "r \<noteq> c" using r c(3) by (auto simp: live_replies_def keep_def)
      then have "{pc_id r, pc_id c} \<subseteq> set (map sid hs)" using c by (auto simp: hs_def)
      moreover have "pc_id r \<noteq> pc_id c" using rk c(1) two distinct_map_eq [of pc_id cs r c] by (auto simp: two_level_def)
      ultimately have "2 \<le> card (set (map sid hs))" using card_mono [of "set (map sid hs)" "{pc_id r, pc_id c}"] by simp
      then have "2 \<le> length hs" using card_length [of "map sid hs"] by simp
      then obtain m where "n = Suc m" using n by (cases n) auto
      then show ?thesis using look [OF rk(1,2)] leaf [OF r] by simp
    qed
    then have "map (\<lambda>r. follow_refs n (hung hs hs) (pc_id r)) (live_replies cs c) = map (\<lambda>r. [Nested (shown r) []]) (live_replies cs c)"
      by simp
    then have "concat (map (\<lambda>r. follow_refs n (hung hs hs) (pc_id r)) (live_replies cs c)) = map (\<lambda>r. Nested (shown r) []) (live_replies cs c)"
      by (simp only: concat_map_singleton)
    then show ?thesis using look [OF c(1,2)] by (simp add: n comp_def)
  qed
  have top: "filter (\<lambda>c. sparent c = None) hs = map shown (filter (\<lambda>c. keep c \<and> pc_parent_id c = None) cs)"
    by (simp add: hs_def filter_map comp_def conj_commute)
  have "nest_replies hs = concat (map (follow_refs (length hs) (hung hs hs)) (map pc_id (filter (\<lambda>c. keep c \<and> pc_parent_id c = None) cs)))"
    unfolding nest_replies_def run by (simp add: top comp_def)
  also have "\<dots> = map (\<lambda>c. Nested (shown c) (map (\<lambda>r. Nested (shown r) []) (live_replies cs c)))
      (filter (\<lambda>c. keep c \<and> pc_parent_id c = None) cs)"
  proof -
    let ?tops = "filter (\<lambda>c. keep c \<and> pc_parent_id c = None) cs"
    have "map (\<lambda>c. follow_refs (length hs) (hung hs hs) (pc_id c)) ?tops =
        map (\<lambda>c. [Nested (shown c) (map (\<lambda>r. Nested (shown r) []) (live_replies cs c))]) ?tops"
      using two_deep by simp
    then show ?thesis by (simp only: map_map comp_def concat_map_singleton)
  qed
  also have "\<dots> = comment_tree cs"
  proof -
    have "filter (\<lambda>c. keep c \<and> pc_parent_id c = None) cs =
        filter (\<lambda>c. pc_parent_id c = None \<and> (live c \<or> live_replies cs c \<noteq> [])) cs"
      by (rule filter_cong) (auto simp: keep_def)
    then show ?thesis by (simp add: comment_tree_def)
  qed
  finally show ?thesis by (simp add: h)
qed

text \<open>The comments of the tree, read row by row.\<close>

definition tree_rows :: "nested list \<Rightarrow> shown_comment list" where
  "tree_rows ns = concat (map (\<lambda>n. case n of Nested c rs \<Rightarrow> c # map (\<lambda>r. case r of Nested d _ \<Rightarrow> d) rs) ns)"

lemma distinct_concat_map:
  "distinct xs \<Longrightarrow> (\<And>x. x \<in> set xs \<Longrightarrow> distinct (f x)) \<Longrightarrow>
    (\<And>x y. x \<in> set xs \<Longrightarrow> y \<in> set xs \<Longrightarrow> x \<noteq> y \<Longrightarrow> set (f x) \<inter> set (f y) = {}) \<Longrightarrow> distinct (concat (map f xs))"
proof (induction xs)
  case (Cons x xs)
  have "set (f x) \<inter> set (f y) = {}" if "y \<in> set xs" for y using Cons.prems(1,3) that by auto
  then show ?case using Cons by auto
qed simp

lemma tree_rows_mset:
  assumes two: "two_level cs"
  shows "mset (tree_rows (comment_tree cs)) =
    mset (map shown (filter (\<lambda>c. live c \<or> pc_parent_id c = None \<and> live_replies cs c \<noteq> []) cs))"
proof -
  define tops where "tops = filter (\<lambda>c. pc_parent_id c = None \<and> (live c \<or> live_replies cs c \<noteq> [])) cs"
  let ?f = "\<lambda>c. c # live_replies cs c" and ?keep = "filter (\<lambda>c. live c \<or> pc_parent_id c = None \<and> live_replies cs c \<noteq> []) cs"
  have dcs: "distinct cs" using two by (simp add: two_level_def distinct_map)
  have same: "c = d" if "c \<in> set cs" "d \<in> set cs" "pc_id c = pc_id d" for c d
    using two that distinct_map_eq [of pc_id cs c d] by (simp add: two_level_def)
  have "distinct (concat (map ?f tops))"
    by (rule distinct_concat_map) (use dcs same in \<open>auto simp: tops_def live_replies_def\<close>)
  moreover have "set (concat (map ?f tops)) = set ?keep"
  proof
    show "set (concat (map ?f tops)) \<subseteq> set ?keep" by (auto simp: tops_def live_replies_def)
    show "set ?keep \<subseteq> set (concat (map ?f tops))"
    proof
      fix c
      assume c: "c \<in> set ?keep"
      show "c \<in> set (concat (map ?f tops))"
      proof (cases "pc_parent_id c")
        case None
        then have "c \<in> set tops" using c by (auto simp: tops_def)
        then show ?thesis by auto
      next
        case (Some i)
        then obtain d where d: "d \<in> set cs" "pc_id d = i" "pc_parent_id d = None" using two c unfolding two_level_def by auto
        have "c \<in> set (live_replies cs d)" using c Some d by (auto simp: live_replies_def)
        moreover from this have "d \<in> set tops" using d by (auto simp: tops_def)
        ultimately show ?thesis by auto
      qed
    qed
  qed
  ultimately have "mset (concat (map ?f tops)) = mset ?keep"
    using dcs set_eq_iff_mset_eq_distinct [of "concat (map ?f tops)" ?keep] by simp
  then have "mset (map shown (concat (map ?f tops))) = mset (map shown ?keep)" by simp
  moreover have "tree_rows (comment_tree cs) = map shown (concat (map ?f tops))"
    by (simp add: tree_rows_def comment_tree_def tops_def map_concat comp_def)
  ultimately show ?thesis by simp
qed

lemma two_level_of_post:
  assumes "community_ok db"
  shows "two_level (get_post_comments pid db)"
proof -
  let ?cs = "filter (\<lambda>c. pc_post_id c = pid) (post_comments db)"
  have "distinct (map pc_id ?cs)" using assms by (simp add: community_ok_def comments_ok_def distinct_map_filter)
  then have "distinct (map pc_id (get_post_comments pid db))"
    unfolding get_post_comments_def by (simp add: distinct_map)
  then show ?thesis
    using assms by (fastforce simp: two_level_def get_post_comments_def community_ok_def comments_ok_def)
qed

section \<open>Runs\<close>

datatype board_call =
    Create_Post instant user post_request string
  | Update_Post nat user post_request
  | Delete_Post nat user
  | Create_Comment instant user comment_request string
  | Delete_Comment instant nat nat user
  | Add_Thumb nat user int
  | Get_Post int instant nat
  | List_Posts int instant nat nat "string option" "string list"

type_synonym 'j codec = "(post_row \<Rightarrow> 'j) \<times> (post_comment \<Rightarrow> 'j) \<times> (string \<Rightarrow> string) \<times>
  (string \<Rightarrow> post_request \<Rightarrow> string) \<times> (string \<Rightarrow> comment_request \<Rightarrow> string)"

fun run_board :: "'j codec \<Rightarrow> board_call \<Rightarrow> 'j cstate \<Rightarrow> 'j cstate" where
  "run_board (jp, jc, sha, cp, cc) (Create_Post dbnow u q key) s = snd (create_post jp sha cp dbnow u q key s)"
| "run_board (jp, jc, sha, cp, cc) (Update_Post pid u q) s = snd (update_post pid u q s)"
| "run_board (jp, jc, sha, cp, cc) (Delete_Post pid u) s = snd (delete_post pid u s)"
| "run_board (jp, jc, sha, cp, cc) (Create_Comment dbnow u q key) s = snd (create_comment jc sha cc dbnow u q key s)"
| "run_board (jp, jc, sha, cp, cc) (Delete_Comment dbnow pid cid u) s = snd (delete_comment dbnow pid cid u s)"
| "run_board (jp, jc, sha, cp, cc) (Add_Thumb pid u d) s = snd (add_thumb pid u d s)"
| "run_board (jp, jc, sha, cp, cc) (Get_Post ttl now pid) s = snd (get_post ttl now pid s)"
| "run_board (jp, jc, sha, cp, cc) (List_Posts ttl now page psize post_type chars) s = snd (list_posts ttl now page psize post_type chars s)"

definition empty_cstate :: "'j cstate" where
  "empty_cstate = \<lparr>cs_tx = \<lparr>idem_rows = [], app = empty_cdb\<rparr>, cs_lists = Map.empty, cs_posts = Map.empty\<rparr>"

definition run_board_calls :: "'j codec \<Rightarrow> board_call list \<Rightarrow> 'j cstate \<Rightarrow> 'j cstate" where
  "run_board_calls codec cs s = fold (run_board codec) cs s"

text \<open>What a committed transaction of a use case did to the tables.\<close>

lemma on_app_Inr: "on_app w tx = Inr (a, tx') \<Longrightarrow> w (app tx) = Inr (a, app tx')"
  by (auto simp: on_app_def split: sum.splits)

lemma run_once_on_app:
  fixes tx :: "('a, 'c) txstate"
  assumes "run_once pg_claim pg_complete js sub k fp (on_app w) tx = (Inr (j, tx') :: 'b idem_error + _)"
  shows "app tx' = app tx \<or> (\<exists>a. w (app tx) = Inr (a, app tx'))"
proof (cases "pg_claim sub k fp tx :: 'b idem_error + ('a option \<times> ('a, 'c) txstate)")
  case (Inl e)
  with assms show ?thesis by (simp add: run_once_def)
next
  case (Inr v)
  then obtain stored tx1 where c: "(pg_claim sub k fp tx :: 'b idem_error + _) = Inr (stored, tx1)" by (cases v) auto
  have "app tx1 = app tx" using c by (auto simp: pg_claim_def split: option.splits if_splits)
  then show ?thesis using assms c
    by (cases stored) (auto simp: run_once_def on_app_def pg_complete_def split: sum.splits)
qed

lemma committing_keeps:
  assumes "P (app (cs_tx s))" and "\<And>a tx. t (cs_tx s) = Inr (a, tx) \<Longrightarrow> P (app tx)" and "\<And>x. cs_tx (after x) = cs_tx x"
  shows "P (app (cs_tx (snd (committing t after s))))"
  using assms by (auto simp: committing_def transact_def split: sum.splits prod.splits)

lemma reads_keep_tx [simp]: "cs_tx (snd (get_post ttl now pid s)) = cs_tx s"
  "cs_tx (snd (list_posts ttl now page psize post_type chars s)) = cs_tx s"
  "cs_posts (snd (list_posts ttl now page psize post_type chars s)) = cs_posts s"
  by (simp_all add: get_post_def list_posts_def Let_def split: prod.splits)

lemma invalidate_tx [simp]: "cs_tx (invalidate_lists s) = cs_tx s" "cs_tx (invalidate_post pid s) = cs_tx s"
  "cs_posts (invalidate_lists s) = cs_posts s" "cs_posts (invalidate_post pid s) = dict_delete (post_key pid) (cs_posts s)"
  by (simp_all add: invalidate_lists_def invalidate_post_def)

lemma run_board_ok: "community_ok (app (cs_tx s)) \<Longrightarrow> community_ok (app (cs_tx (run_board codec c s)))"
proof -
  assume ok: "community_ok (app (cs_tx s))"
  obtain jp jc sha cp cc where codec: "codec = (jp, jc, sha, cp, cc)" by (cases codec)
  show ?thesis
  proof (cases c)
    case (Create_Post dbnow u q key)
    show ?thesis unfolding codec Create_Post run_board.simps create_post_def
      using ok by (auto split: sum.splits intro!: committing_keeps [where P = community_ok]
        dest!: run_once_on_app intro: create_post_ok)
  next
    case (Update_Post pid u q)
    show ?thesis unfolding codec Update_Post run_board.simps update_post_def
      using ok by (auto split: sum.splits intro!: committing_keeps [where P = community_ok] dest!: on_app_Inr intro: update_post_ok)
  next
    case (Delete_Post pid u)
    show ?thesis unfolding codec Delete_Post run_board.simps delete_post_def
      using ok by (auto intro!: committing_keeps [where P = community_ok] dest!: on_app_Inr intro: delete_post_ok)
  next
    case (Create_Comment dbnow u q key)
    show ?thesis unfolding codec Create_Comment run_board.simps create_comment_def Let_def
      using ok by (auto split: prod.splits intro!: committing_keeps [where P = community_ok]
        dest!: run_once_on_app intro: create_comment_ok)
  next
    case (Delete_Comment dbnow pid cid u)
    show ?thesis unfolding codec Delete_Comment run_board.simps delete_comment_def
      using ok comment_repo_delete_ok [OF ok, of dbnow cid]
      by (auto intro!: committing_keeps [where P = community_ok] dest!: on_app_Inr)
  next
    case (Add_Thumb pid u d)
    show ?thesis unfolding codec Add_Thumb run_board.simps add_thumb_def
      using ok by (auto intro!: committing_keeps [where P = community_ok] dest!: on_app_Inr dest: add_thumb_ok)
  qed (use ok codec in simp_all)
qed

section \<open>A cached post is the stored one\<close>

lemma load_post_cong:
  "find_post pid db' = find_post pid db \<Longrightarrow>
    filter (\<lambda>c. pc_post_id c = pid) (post_comments db') = filter (\<lambda>c. pc_post_id c = pid) (post_comments db) \<Longrightarrow>
    load_post pid db' = load_post pid db"
  by (simp add: load_post_def repo_get_post_def get_post_comments_def)

lemma find_post_update:
  "(\<And>p. po_id (f p) = po_id p) \<Longrightarrow> pid' \<noteq> pid \<Longrightarrow>
    find_post pid' (db\<lparr>posts := update_where (\<lambda>x. po_id x = pid) f (posts db)\<rparr>) = find_post pid' db"
  by (cases "find_post pid' db") (simp_all add: find_post_def find_update_where [of po_id])

lemma find_filter_other: "i \<noteq> j \<Longrightarrow> find (\<lambda>x. k x = i) (filter (\<lambda>x. k x \<noteq> j) xs) = find (\<lambda>x. k x = i) xs"
  by (induction xs) auto

lemma load_update: "repo_update_post pid q db = Inr (r, db') \<Longrightarrow> pid' \<noteq> pid \<Longrightarrow> load_post pid' db' = load_post pid' db"
  by (rule load_post_cong) (auto simp: repo_update_post_def edited_def intro: find_post_update)

lemma load_delete: "repo_delete_post pid db = Inr (r, db') \<Longrightarrow> pid' \<noteq> pid \<Longrightarrow> load_post pid' db' = load_post pid' db"
  by (rule load_post_cong)
    (auto simp: repo_delete_post_def find_post_def find_filter_other intro: filter_cong)

lemma load_comment: "repo_create_comment dbnow pid a b i db = Inr (r, db') \<Longrightarrow> pid' \<noteq> pid \<Longrightarrow> load_post pid' db' = load_post pid' db"
  by (rule load_post_cong) (auto simp: repo_create_comment_def find_post_def Let_def)

lemma load_thumb: "repo_add_thumb pid voter d db = Inr (r, db') \<Longrightarrow> pid' \<noteq> pid \<Longrightarrow> load_post pid' db' = load_post pid' db"
  by (rule load_post_cong) (auto simp: repo_add_thumb_def Let_def find_post_def find_update_where [of po_id] option.map_ident split: if_splits)

lemma load_uncomment:
  assumes "repo_get_comment pid cid db = Inr c" and "distinct (map pc_id (post_comments db))" and "pid' \<noteq> pid"
  shows "load_post pid' (comment_repo_delete dbnow cid db) = load_post pid' db"
proof (rule load_post_cong)
  show "find_post pid' (comment_repo_delete dbnow cid db) = find_post pid' db"
    by (simp add: comment_repo_delete_def find_post_def)
  from assms(1) have c: "c \<in> set (post_comments db)" "pc_id c = cid" "pc_post_id c = pid"
    using find_comment_Some [of cid db c] by (auto simp: repo_get_comment_def is_live_on_def Let_def split: if_splits option.splits)
  have "pc_post_id x \<noteq> pid'" if "x \<in> set (post_comments db)" "pc_id x = cid" for x
    using distinct_map_eq [OF assms(2) that(1) c(1)] that(2) c assms(3) by simp
  then show "filter (\<lambda>c. pc_post_id c = pid') (post_comments (comment_repo_delete dbnow cid db)) =
      filter (\<lambda>c. pc_post_id c = pid') (post_comments db)"
    by (simp add: comment_repo_delete_def) (rule filter_update_where_same; simp)
qed


lemma committing_coherent_fresh:
  assumes s: "posts_coherent s" and fresh: "cs_posts s (post_key pid) = None"
    and t: "\<And>a tx pid'. t (cs_tx s) = Inr (a, tx) \<Longrightarrow> pid' \<noteq> pid \<Longrightarrow> load_post pid' (app tx) = load_post pid' (app (cs_tx s))"
    and after: "\<And>x. cs_tx (after x) = cs_tx x" "\<And>x. cs_posts (after x) = cs_posts x"
  shows "posts_coherent (snd (committing t after s))"
proof (cases "t (cs_tx s)")
  case (Inl e)
  then show ?thesis using s by (simp add: committing_def transact_def posts_coherent_def)
next
  case (Inr r)
  obtain a tx where r: "r = (a, tx)" by (cases r)
  have "load_post pid' (app tx) = Inr v" if "cs_posts s (post_key pid') = Some (v, u)" for pid' v u
  proof -
    have "pid' \<noteq> pid" using that fresh by auto
    then have "load_post pid' (app tx) = load_post pid' (app (cs_tx s))" using t [OF Inr [unfolded r]] by blast
    moreover have "load_post pid' (app (cs_tx s)) = Inr v" using s that unfolding posts_coherent_def by blast
    ultimately show ?thesis by simp
  qed
  then show ?thesis using after Inr by (auto simp: committing_def transact_def posts_coherent_def r)
qed

definition board_ok :: "'j cstate \<Rightarrow> bool" where
  "board_ok s \<longleftrightarrow> community_ok (app (cs_tx s)) \<and> posts_coherent s"

lemma post_not_there: "community_ok db \<Longrightarrow> load_post (next_post_id db) db = Inl Post_Not_Found"
proof -
  assume "community_ok db"
  then have "find_post (next_post_id db) db = None" by (auto simp: find_post_def find_None_iff community_ok_def)
  then show ?thesis by (simp add: load_post_def repo_get_post_def)
qed

lemma load_create:
  "repo_create_post dbnow author q db = Inr (r, db') \<Longrightarrow> pid' \<noteq> next_post_id db \<Longrightarrow> load_post pid' db' = load_post pid' db"
  by (rule load_post_cong) (auto simp: repo_create_post_def Let_def find_post_def find_append split: option.splits)

lemma run_board_coherent:
  fixes s :: "'j cstate"
  assumes ok: "community_ok (app (cs_tx s))" and s: "posts_coherent s"
  shows "posts_coherent (run_board codec c s)"
proof -
  obtain jp jc sha cp cc where codec: "codec = (jp, jc, sha, cp, cc)" by (cases codec)
  show ?thesis
  proof (cases c)
    case (Create_Post dbnow u q key)
    let ?pid = "next_post_id (app (cs_tx s))"
    have fresh: "cs_posts s (post_key ?pid) = None"
    proof (rule ccontr)
      assume "cs_posts s (post_key ?pid) \<noteq> None"
      then obtain v t where "cs_posts s (post_key ?pid) = Some (v, t)" by auto
      then have "load_post ?pid (app (cs_tx s)) = Inr v" using s unfolding posts_coherent_def by blast
      then show False using post_not_there [OF ok] by simp
    qed
    have keep: "posts_coherent (snd (committing (run_once pg_claim pg_complete jp (us_username u) key fp
        (on_app (repo_create_post dbnow (us_username u) q)) :: _ \<Rightarrow> community_error idem_error + _) invalidate_lists s))" for fp
    proof (rule committing_coherent_fresh [OF s fresh])
      fix j tx pid'
      assume "(run_once pg_claim pg_complete jp (us_username u) key fp
        (on_app (repo_create_post dbnow (us_username u) q)) (cs_tx s) :: community_error idem_error + _) = Inr (j, tx)" and "pid' \<noteq> ?pid"
      then show "load_post pid' (app tx) = load_post pid' (app (cs_tx s))"
        using run_once_on_app load_create by metis
    qed simp_all
    show ?thesis unfolding codec Create_Post run_board.simps create_post_def
      using keep s by (auto split: sum.splits)
  next
    case (Update_Post pid u q)
    show ?thesis unfolding codec Update_Post run_board.simps update_post_def
      using s by (auto split: sum.splits intro!: committing_coherent [where pid = pid] dest!: on_app_Inr intro: load_update)
  next
    case (Delete_Post pid u)
    show ?thesis unfolding codec Delete_Post run_board.simps delete_post_def
      using s by (auto intro!: committing_coherent [where pid = pid] dest!: on_app_Inr intro: load_delete)
  next
    case (Create_Comment dbnow u q key)
    obtain pid body parent where q: "q = (pid, body, parent)" by (cases q)
    show ?thesis unfolding codec Create_Comment run_board.simps create_comment_def Let_def q prod.case
    proof (rule committing_coherent [OF s, where pid = pid])
      fix j tx pid'
      assume run: "(run_once pg_claim pg_complete jc (us_username u) key (fingerprint sha cc ''community.comment'' (pid, body, parent))
        (on_app (repo_create_comment dbnow pid (us_username u) body parent)) (cs_tx s) :: community_error idem_error + _) = Inr (j, tx)"
        and other: "pid' \<noteq> pid"
      show "load_post pid' (app tx) = load_post pid' (app (cs_tx s))"
        using run_once_on_app [OF run] load_comment [OF _ other] by auto
    qed simp
  next
    case (Delete_Comment dbnow pid cid u)
    show ?thesis unfolding codec Delete_Comment run_board.simps delete_comment_def
    proof (rule committing_coherent [OF s, where pid = pid])
      fix a :: unit and tx pid'
      assume "on_app (\<lambda>db. bindR (bindR (repo_get_comment pid cid db) (\<lambda>c. ensure_can_delete_comment c u))
        (\<lambda>_. Inr ((), comment_repo_delete dbnow cid db))) (cs_tx s) = Inr (a, tx)" and other: "pid' \<noteq> pid"
      then obtain c where "repo_get_comment pid cid (app (cs_tx s)) = Inr c" "app tx = comment_repo_delete dbnow cid (app (cs_tx s))"
        by (auto dest!: on_app_Inr)
      then show "load_post pid' (app tx) = load_post pid' (app (cs_tx s))"
        using load_uncomment other ok by (simp add: community_ok_def comments_ok_def)
    qed simp
  next
    case (Add_Thumb pid u d)
    show ?thesis unfolding codec Add_Thumb run_board.simps add_thumb_def
      using s by (auto intro!: committing_coherent [where pid = pid] dest!: on_app_Inr intro: load_thumb)
  next
    case (Get_Post ttl now pid)
    then show ?thesis using get_post_stored(2) [OF s] codec by simp
  next
    case (List_Posts ttl now page psize post_type chars)
    then show ?thesis using s codec by (simp add: posts_coherent_def)
  qed
qed

lemma board_calls_ok: "board_ok s \<Longrightarrow> board_ok (run_board_calls codec cs s)"
  unfolding run_board_calls_def
  by (induction cs arbitrary: s) (simp_all add: board_ok_def run_board_ok run_board_coherent)

lemma board_empty: "board_ok empty_cstate"
  by (simp add: board_ok_def empty_cstate_def posts_coherent_def community_ok_def comments_ok_def votes_ok_def empty_cdb_def votes_def)

section \<open>Properties\<close>

lemma reached_ok: "board_ok (run_board_calls codec cs empty_cstate)"
  by (rule board_calls_ok) (rule board_empty)

text \<open>C4: After any sequence of calls on the board, failed and replayed ones included, a post's two counters are the
  numbers of votes cast on it, nobody has voted twice on one post, a comment stands on a post that exists, and
  a reply stands under a comment of the same post that is not itself a reply.\<close>

theorem board_always_right:
  fixes cs :: "board_call list"
  assumes "db = app (cs_tx (run_board_calls codec cs empty_cstate))"
  shows "(\<forall>p\<in>set (posts db). po_thumbs_up p = votes (po_id p) 1 db \<and> po_thumbs_down p = votes (po_id p) (-1) db) \<and>
    distinct (map (\<lambda>t. (th_post_id t, th_voter t)) (thumbs db)) \<and>
    (\<forall>c\<in>set (post_comments db). (\<exists>p\<in>set (posts db). po_id p = pc_post_id c) \<and>
       (\<forall>i. pc_parent_id c = Some i \<longrightarrow> (\<exists>d\<in>set (post_comments db). pc_id d = i \<and> pc_post_id d = pc_post_id c \<and> pc_parent_id d = None)))"
  using reached_ok [of codec cs] unfolding assms by (simp add: board_ok_def community_ok_def votes_ok_def comments_ok_def)

abbreviation demo_user :: "string \<Rightarrow> user" where "demo_user n \<equiv> \<lparr>us_username = n, us_admin = False\<rparr>"

abbreviation demo_post :: post_request where
  "demo_post \<equiv> \<lparr>pq_title = ''t'', pq_body = ''b'', pq_post_type = ''jayu'', pq_characters = [], pq_youtube_video_id = None\<rparr>"

abbreviation demo_codec :: "nat codec" where
  "demo_codec \<equiv> (po_id, pc_id, id, (\<lambda>scope q. scope), (\<lambda>scope q. scope))"

abbreviation demo_calls :: "board_call list" where
  "demo_calls \<equiv> [Create_Post 0 (demo_user ''kim'') demo_post ''k'', Create_Post 1 (demo_user ''kim'') demo_post ''k'',
     Create_Comment 2 (demo_user ''lee'') (1, ''hi'', None) ''k'', Create_Comment 3 (demo_user ''lee'') (1, ''re'', Some 1) ''k2'',
     Delete_Comment 4 1 1 (demo_user ''lee''), Add_Thumb 1 (demo_user ''lee'') 1, Add_Thumb 1 (demo_user ''lee'') (-1)]"

definition demo_board :: "nat cstate" where "demo_board = run_board_calls demo_codec demo_calls empty_cstate"

theorem board_always_right_witness:
  "map po_thumbs_up (posts (app (cs_tx demo_board))) = [1] \<and> votes 1 1 (app (cs_tx demo_board)) = 1"
proof -
  let ?db = "app (cs_tx demo_board)"
  have "map po_id (posts ?db) = [1]" "map po_thumbs_up (posts ?db) = [1]" by code_simp+
  then show ?thesis using board_always_right [of ?db demo_codec demo_calls] unfolding demo_board_def
    by (cases "posts (app (cs_tx (run_board_calls demo_codec demo_calls empty_cstate)))") auto
qed

text \<open>A post read through the cache is the post as it is stored, after any sequence of calls: no edit, deletion,
  comment or vote that went through is missing from the answer, and a post that is gone is not found.\<close>

theorem cached_post_is_stored:
  fixes cs :: "board_call list"
  assumes "s = run_board_calls codec cs empty_cstate"
  shows "fst (get_post ttl now pid s) = load_post pid (app (cs_tx s))"
  using reached_ok [of codec cs] get_post_stored(1) unfolding assms board_ok_def by blast

theorem cached_post_is_stored_witness:
  "fst (get_post 60 1 1 (run_board_calls demo_codec (demo_calls @ [Get_Post 60 0 1, Delete_Post 1 (demo_user ''kim'')]) empty_cstate)) =
    Inl Post_Not_Found"
proof -
  let ?s = "run_board_calls demo_codec (demo_calls @ [Get_Post 60 0 1, Delete_Post 1 (demo_user ''kim'')]) empty_cstate"
  have "map po_id (posts (app (cs_tx ?s))) = []" by code_simp
  then have "load_post 1 (app (cs_tx ?s)) = Inl Post_Not_Found" by (simp add: load_post_def repo_get_post_def find_post_def)
  then show ?thesis using cached_post_is_stored [of ?s demo_codec _ 60 1 1] by simp
qed

text \<open>C17: A post is shown with every live comment once, each under its parent and in the order they were written; a
  deleted comment is shown only while a live reply stands under it, and then without its words.\<close>

theorem comment_tree_shown:
  fixes cs :: "board_call list"
  assumes "db = app (cs_tx (run_board_calls codec cs empty_cstate))" and "load_post pid db = Inr (p, tree)"
  shows "tree = comment_tree (get_post_comments pid db) \<and>
    mset (tree_rows tree) =
      mset (map shown (filter (\<lambda>c. live c \<or> pc_parent_id c = None \<and> live_replies (get_post_comments pid db) c \<noteq> [])
        (get_post_comments pid db)))"
proof -
  let ?cs = "get_post_comments pid db"
  have two: "two_level ?cs" using reached_ok [of codec cs] two_level_of_post unfolding assms(1) board_ok_def by blast
  have t: "tree = comment_tree ?cs" using assms(2) nest_hide [OF two] by (auto simp: load_post_def)
  show ?thesis using t tree_rows_mset [OF two] by simp
qed

theorem comment_tree_shown_witness:
  "case load_post 1 (app (cs_tx demo_board)) of Inl _ \<Rightarrow> False
   | Inr (p, tree) \<Rightarrow> map (\<lambda>c. (pc_id (sh_comment c), sh_deleted c)) (tree_rows tree) = [(1, True), (2, False)] \<and>
       mset (tree_rows tree) = mset (map shown (filter (\<lambda>c. live c \<or> pc_parent_id c = None \<and>
         live_replies (get_post_comments 1 (app (cs_tx demo_board))) c \<noteq> []) (get_post_comments 1 (app (cs_tx demo_board)))))"
proof -
  have "case load_post 1 (app (cs_tx demo_board)) of Inl _ \<Rightarrow> False
   | Inr (p, tree) \<Rightarrow> map (\<lambda>c. (pc_id (sh_comment c), sh_deleted c)) (tree_rows tree) = [(1, True), (2, False)]"
    by code_simp
  then show ?thesis
    using comment_tree_shown [of "app (cs_tx demo_board)" demo_codec demo_calls 1]
    by (auto simp: demo_board_def split: sum.splits)
qed

text \<open>The list's cache key spells a missing type filter and the type \<open>all\<close> alike, so after any request for
  that type, which no post has, the unfiltered list is answered with that empty page until the entry expires or
  a post is written, whatever the board holds.\<close>

theorem all_poisons_the_list:
  assumes "cs_lists s (list_key page psize None (sort (remdups chars))) = None" and "now' < now + ttl * second"
    and "\<forall>p\<in>set (posts (app (cs_tx s))). po_post_type p \<in> set valid_post_types"
  shows "fst (list_posts ttl now' page psize None chars (snd (list_posts ttl now page psize (Some ''all'') chars s))) =
    Inr ([], 0, page, psize)"
proof -
  have "filter (post_listed (Some ''all'') (sort (remdups chars))) (posts (app (cs_tx s))) = []"
    using assms(3) by (force simp: filter_empty_conv post_listed_def valid_post_types_def notice_post_type_def)
  then have none: "repo_list_posts page psize (Some ''all'') (sort (remdups chars)) (app (cs_tx s)) = ([], 0)"
    by (simp add: repo_list_posts_def Let_def)
  have key: "list_key page psize (Some ''all'') team = list_key page psize None team" for team
    by (simp add: list_key_def or_all_def)
  show ?thesis
    using assms(1,2) by (auto simp: list_posts_def read_through_def dict_get_def dict_set_def key none Let_def split: prod.splits)
qed

theorem all_poisons_the_list_witness:
  "fst (list_posts 60 1 1 20 None [] (snd (list_posts 60 0 1 20 (Some ''all'') [] demo_board))) = Inr ([], 0, 1, 20) \<and>
    fst (snd (case fst (list_posts 60 1 1 20 None [] demo_board) of Inr r \<Rightarrow> r)) = 1"
proof -
  have l: "Option.is_none (cs_lists demo_board (list_key 1 20 None (sort (remdups []))))" by code_simp
  have t: "list_all (\<lambda>p. po_post_type p \<in> set valid_post_types) (posts (app (cs_tx demo_board)))" by code_simp
  have "fst (snd (case fst (list_posts 60 1 1 20 None [] demo_board) of Inr r \<Rightarrow> r)) = 1" by code_simp
  moreover have "fst (list_posts 60 1 1 20 None [] (snd (list_posts 60 0 1 20 (Some ''all'') [] demo_board))) = Inr ([], 0, 1, 20)"
    by (rule all_poisons_the_list) (use l t in \<open>simp_all add: Option.is_none_def list_all_iff\<close>)
  ultimately show ?thesis by blast
qed

end
