(* ===== verification/Chat.thy ===== *)
theory Chat
  imports Errors
begin

text \<open>
  \<open>src/chat/\<close>: the play day (\<open>domain.py\<close>), the two stores behind one interface (\<open>ports.py\<close>, \<open>adapters/\<close>), the bus of
  bounded queues (\<open>adapters/memory_bus.py\<close>), the use cases of \<open>service.py\<close> and the stream of \<open>router.py\<close>.
\<close>

section \<open>The play day\<close>

definition day_start_hour :: int where "day_start_hour = 6"
definition max_listed_messages :: nat where "max_listed_messages = 500"

definition day_start :: "instant \<Rightarrow> instant" where
  "day_start now =
     (let kst_now = kst_wall now; start = at_hour day_start_hour kst_now in
      from_kst_wall (if kst_now < start then start - day else start))"

definition history_start :: "instant \<Rightarrow> instant" where
  "history_start now = day_start now - day"

lemma day_start_bounds: "day_start now \<le> now" "now < day_start now + day"
  using day_split [of "kst_wall now"]
  by (auto simp: day_start_def day_start_hour_def at_hour_def Let_def from_kst_wall_def kst_wall_def)

section \<open>Messages\<close>

record message =
  ms_id :: nat
  ms_author :: string
  ms_online_name :: string
  ms_body :: string
  ms_created :: instant
  ms_admin :: bool

datatype chat_event = Posted message | Deleted nat

definition message_body :: "string \<Rightarrow> string option" where
  "message_body body = (let b = strip body in if 1 \<le> length b \<and> length b \<le> 200 then Some b else None)"

section \<open>The two stores\<close>

record chat_store =
  cr_rows :: "message list"
  cr_next :: nat

definition empty_store :: chat_store where "empty_store = \<lparr>cr_rows = [], cr_next = 1\<rparr>"

definition new_message :: "string \<Rightarrow> string \<Rightarrow> string \<Rightarrow> instant \<Rightarrow> bool \<Rightarrow> chat_store \<Rightarrow> message" where
  "new_message author name body created admin s =
     \<lparr>ms_id = cr_next s, ms_author = author, ms_online_name = name, ms_body = body, ms_created = created, ms_admin = admin\<rparr>"

text \<open>PostgreSQL keeps every row; a listing is the newest of them, oldest first.\<close>

definition pg_append :: "string \<Rightarrow> string \<Rightarrow> string \<Rightarrow> instant \<Rightarrow> bool \<Rightarrow> chat_store \<Rightarrow> message \<times> chat_store" where
  "pg_append author name body created admin s =
     (let m = new_message author name body created admin s in (m, \<lparr>cr_rows = cr_rows s @ [m], cr_next = Suc (cr_next s)\<rparr>))"

definition pg_list_since :: "nat \<Rightarrow> instant \<Rightarrow> chat_store \<Rightarrow> message list" where
  "pg_list_since max_listed boundary s =
     rev (take max_listed (sort_key (\<lambda>m. - int (ms_id m)) (filter (\<lambda>m. ms_created m \<ge> boundary) (cr_rows s))))"

definition store_get :: "nat \<Rightarrow> chat_store \<Rightarrow> message option" where
  "store_get i s = find (\<lambda>m. ms_id m = i) (cr_rows s)"

definition store_delete :: "nat \<Rightarrow> chat_store \<Rightarrow> chat_store" where
  "store_delete i s = s\<lparr>cr_rows := filter (\<lambda>m. ms_id m \<noteq> i) (cr_rows s)\<rparr>"

text \<open>The deque of a bounded length drops its oldest message for a new one.\<close>

definition mem_append :: "nat \<Rightarrow> string \<Rightarrow> string \<Rightarrow> string \<Rightarrow> instant \<Rightarrow> bool \<Rightarrow> chat_store \<Rightarrow> message \<times> chat_store" where
  "mem_append max_kept author name body created admin s =
     (let m = new_message author name body created admin s; rows = cr_rows s @ [m] in
      (m, \<lparr>cr_rows = drop (length rows - max_kept) rows, cr_next = Suc (cr_next s)\<rparr>))"

definition mem_list_since :: "instant \<Rightarrow> chat_store \<Rightarrow> message list" where
  "mem_list_since boundary s = filter (\<lambda>m. ms_created m \<ge> boundary) (cr_rows s)"

definition store_ok :: "chat_store \<Rightarrow> bool" where
  "store_ok s \<longleftrightarrow> sorted_wrt (<) (map ms_id (cr_rows s)) \<and> (\<forall>m\<in>set (cr_rows s). ms_id m < cr_next s)"

section \<open>The interface of a store\<close>

text \<open>
  What the service relies on.  \<open>kept s\<close> is what the store holds, oldest first: appending hands out a new
  greatest id and may let go of older messages, a listing is the newest part of what is recent enough, and a
  deleted message is gone.
\<close>

locale chat_repository =
  fixes append :: "string \<Rightarrow> string \<Rightarrow> string \<Rightarrow> instant \<Rightarrow> bool \<Rightarrow> 's \<Rightarrow> message \<times> 's"
    and list_since :: "instant \<Rightarrow> 's \<Rightarrow> message list"
    and get :: "nat \<Rightarrow> 's \<Rightarrow> message option"
    and remove :: "nat \<Rightarrow> 's \<Rightarrow> 's"
    and kept :: "'s \<Rightarrow> message list"
    and good :: "'s \<Rightarrow> bool"
  assumes append_good: "good s \<Longrightarrow> append u n b t a s = (m, s') \<Longrightarrow> good s'"
    and append_kept: "good s \<Longrightarrow> append u n b t a s = (m, s') \<Longrightarrow>
      m \<in> set (kept s') \<and> ms_author m = u \<and> ms_body m = b \<and> ms_created m = t \<and> ms_admin m = a \<and>
      (\<forall>x\<in>set (kept s). ms_id x < ms_id m) \<and> set (kept s') \<subseteq> insert m (set (kept s))"
    and list_recent: "good s \<Longrightarrow> x \<in> set (list_since bd s) \<Longrightarrow> x \<in> set (kept s) \<and> bd \<le> ms_created x"
    and list_ordered: "good s \<Longrightarrow> sorted_wrt (<) (map ms_id (list_since bd s))"
    and list_newest: "good s \<Longrightarrow> x \<in> set (kept s) \<Longrightarrow> bd \<le> ms_created x \<Longrightarrow> x \<notin> set (list_since bd s) \<Longrightarrow>
      list_since bd s \<noteq> [] \<and> (\<forall>y\<in>set (list_since bd s). ms_id x < ms_id y)"
    and get_kept: "get i s = find (\<lambda>m. ms_id m = i) (kept s)"
    and remove_good: "good s \<Longrightarrow> good (remove i s)"
    and remove_kept: "set (kept (remove i s)) = {m \<in> set (kept s). ms_id m \<noteq> i}"
begin

text \<open>A message just posted is in every listing that reaches back to it.\<close>

lemma posted_is_listed:
  assumes "good s" and app: "append u n b t a s = (m, s')" and "bd \<le> t"
  shows "m \<in> set (list_since bd s')"
proof (rule ccontr)
  assume out: "m \<notin> set (list_since bd s')"
  note k = append_kept [OF assms(1) app]
  have s': "good s'" by (rule append_good [OF assms(1) app])
  have ne: "list_since bd s' \<noteq> []" and less: "\<forall>y\<in>set (list_since bd s'). ms_id m < ms_id y"
    using list_newest [OF s' _ _ out] k assms(3) by simp_all
  then obtain y where y: "y \<in> set (list_since bd s')" by (cases "list_since bd s'") auto
  then have "y \<in> set (kept s')" using list_recent [OF s'] by blast
  then have "y = m \<or> y \<in> set (kept s)" using k by blast
  then have "ms_id y \<le> ms_id m" using k by (auto intro: less_imp_le)
  then show False using less y by fastforce
qed

lemma removed_is_unlisted: "good s \<Longrightarrow> x \<in> set (list_since bd (remove i s)) \<Longrightarrow> ms_id x \<noteq> i"
  using list_recent [OF remove_good] remove_kept by blast

lemma removed_is_not_got: "get i (remove i s) = None"
  using remove_kept [of i s] by (auto simp: get_kept find_None_iff)

end

text \<open>Both stores keep the interface.\<close>

lemma append_ok: "store_ok s \<Longrightarrow> store_ok \<lparr>cr_rows = drop k (cr_rows s @ [new_message u n b t a s]), cr_next = Suc (cr_next s)\<rparr>"
proof -
  assume ok: "store_ok s"
  have "sorted_wrt (<) (map ms_id (cr_rows s @ [new_message u n b t a s]))"
    using ok by (auto simp: store_ok_def sorted_wrt_append new_message_def)
  then have "sorted_wrt (<) (map ms_id (drop k (cr_rows s @ [new_message u n b t a s])))"
    using sorted_wrt_drop unfolding drop_map [symmetric] by blast
  moreover have "\<forall>m\<in>set (cr_rows s @ [new_message u n b t a s]). ms_id m < Suc (cr_next s)"
    using ok by (auto simp: store_ok_def new_message_def)
  ultimately show ?thesis unfolding store_ok_def by (auto dest: in_set_dropD)
qed

lemma delete_ok: "store_ok s \<Longrightarrow> store_ok (store_delete i s)"
  by (auto simp: store_ok_def store_delete_def sorted_wrt_map intro: sorted_wrt_filter)

text \<open>In a good store the newest first is the rows backwards.\<close>

lemma insort_greatest: "\<forall>y\<in>set ys. f y < f x \<Longrightarrow> insort_key f x ys = ys @ [x]"
  by (induction ys) auto

lemma sort_backwards:
  "sorted_wrt (<) (map ms_id ms) \<Longrightarrow> sort_key (\<lambda>m. - int (ms_id m)) ms = rev ms"
  by (induction ms) (simp_all add: insort_greatest)

lemma pg_list_eq:
  assumes "store_ok s"
  shows "pg_list_since n bd s = (let found = filter (\<lambda>m. ms_created m \<ge> bd) (cr_rows s) in drop (length found - n) found)"
proof -
  have "sorted_wrt (<) (map ms_id (filter (\<lambda>m. ms_created m \<ge> bd) (cr_rows s)))"
    using assms by (simp add: store_ok_def sorted_wrt_map sorted_wrt_filter)
  then show ?thesis by (simp add: pg_list_since_def Let_def sort_backwards rev_take)
qed

lemma newest_part:
  assumes "sorted_wrt (<) (map ms_id found)" and "0 < n" and "x \<in> set found" and "x \<notin> set (drop k found)" and "k = length found - n"
  shows "drop k found \<noteq> [] \<and> (\<forall>y\<in>set (drop k found). ms_id x < ms_id y)"
proof -
  have "found = take k found @ drop k found" by simp
  then have "x \<in> set (take k found)" using assms(3,4) by (metis Un_iff set_append)
  moreover have "sorted_wrt (<) (map ms_id (take k found @ drop k found))" using assms(1) by simp
  ultimately have "\<forall>y\<in>set (drop k found). ms_id x < ms_id y" unfolding map_append sorted_wrt_append by auto
  moreover have "k < length found" using assms(2,3,5) by (cases found) auto
  ultimately show ?thesis by simp
qed

interpretation pg: chat_repository pg_append "pg_list_since max_listed_messages" store_get store_delete cr_rows store_ok
proof unfold_locales
  fix s s' :: chat_store and u n b :: string and t bd :: instant and a :: bool and m x :: message and i :: nat
  show "store_ok s'" if "store_ok s" "pg_append u n b t a s = (m, s')"
    using append_ok [OF that(1), of 0 u n b t a] that(2) by (auto simp: pg_append_def Let_def)
  show "m \<in> set (cr_rows s') \<and> ms_author m = u \<and> ms_body m = b \<and> ms_created m = t \<and> ms_admin m = a \<and>
      (\<forall>x\<in>set (cr_rows s). ms_id x < ms_id m) \<and> set (cr_rows s') \<subseteq> insert m (set (cr_rows s))"
    if "store_ok s" "pg_append u n b t a s = (m, s')"
    using that by (auto simp: pg_append_def Let_def new_message_def store_ok_def)
  show "x \<in> set (cr_rows s) \<and> bd \<le> ms_created x" if "store_ok s" "x \<in> set (pg_list_since max_listed_messages bd s)"
    using that by (auto simp: pg_list_eq Let_def dest!: in_set_dropD)
  have srt: "sorted_wrt (<) (map ms_id (filter (\<lambda>m. ms_created m \<ge> bd) (cr_rows s)))" if "store_ok s"
    using that by (simp add: store_ok_def sorted_wrt_map sorted_wrt_filter)
  show "sorted_wrt (<) (map ms_id (pg_list_since max_listed_messages bd s))" if "store_ok s"
    using srt [OF that] by (simp add: pg_list_eq [OF that] Let_def drop_map [symmetric] sorted_wrt_drop)
  show "pg_list_since max_listed_messages bd s \<noteq> [] \<and> (\<forall>y\<in>set (pg_list_since max_listed_messages bd s). ms_id x < ms_id y)"
    if "store_ok s" "x \<in> set (cr_rows s)" "bd \<le> ms_created x" "x \<notin> set (pg_list_since max_listed_messages bd s)"
    using newest_part [OF srt [OF that(1)], of max_listed_messages x] that
    by (simp add: pg_list_eq [OF that(1)] Let_def max_listed_messages_def)
  show "store_get i s = find (\<lambda>m. ms_id m = i) (cr_rows s)" by (simp add: store_get_def)
  show "store_ok (store_delete i s)" if "store_ok s" by (rule delete_ok [OF that])
  show "set (cr_rows (store_delete i s)) = {m \<in> set (cr_rows s). ms_id m \<noteq> i}" by (auto simp: store_delete_def)
qed

text \<open>The deque as it is used, bounded by at least one message.\<close>

interpretation mem: chat_repository "mem_append (Suc k)" mem_list_since store_get store_delete cr_rows store_ok for k
proof unfold_locales
  fix s s' :: chat_store and u n b :: string and t bd :: instant and a :: bool and m x :: message and i :: nat
  show "store_ok s'" if "store_ok s" "mem_append (Suc k) u n b t a s = (m, s')"
    using append_ok [OF that(1), of "Suc (length (cr_rows s)) - Suc k" u n b t a] that(2) by (auto simp: mem_append_def Let_def)
  show "m \<in> set (cr_rows s') \<and> ms_author m = u \<and> ms_body m = b \<and> ms_created m = t \<and> ms_admin m = a \<and>
      (\<forall>x\<in>set (cr_rows s). ms_id x < ms_id m) \<and> set (cr_rows s') \<subseteq> insert m (set (cr_rows s))"
    if "store_ok s" "mem_append (Suc k) u n b t a s = (m, s')"
    using that by (auto simp: mem_append_def Let_def new_message_def store_ok_def dest: in_set_dropD)
  show "x \<in> set (cr_rows s) \<and> bd \<le> ms_created x" if "store_ok s" "x \<in> set (mem_list_since bd s)"
    using that by (simp add: mem_list_since_def)
  show "sorted_wrt (<) (map ms_id (mem_list_since bd s))" if "store_ok s"
    using that by (simp add: mem_list_since_def store_ok_def sorted_wrt_map sorted_wrt_filter)
  show "mem_list_since bd s \<noteq> [] \<and> (\<forall>y\<in>set (mem_list_since bd s). ms_id x < ms_id y)"
    if "store_ok s" "x \<in> set (cr_rows s)" "bd \<le> ms_created x" "x \<notin> set (mem_list_since bd s)"
    using that by (simp add: mem_list_since_def)
  show "store_get i s = find (\<lambda>m. ms_id m = i) (cr_rows s)" by (simp add: store_get_def)
  show "store_ok (store_delete i s)" if "store_ok s" by (rule delete_ok [OF that])
  show "set (cr_rows (store_delete i s)) = {m \<in> set (cr_rows s). ms_id m \<noteq> i}" by (auto simp: store_delete_def)
qed

end
