(* ===== verification/Chat_System.thy ===== *)
theory Chat_System
  imports Chat
begin

text \<open>
  The bus and the service at work: requests are cut at each \<open>await\<close> into steps of one transition system, the
  open streams among them, and a stream that is not dropped misses nothing.
\<close>

section \<open>The bus\<close>

text \<open>
  \<open>Subscription\<close>: a bounded queue.  \<open>su_open\<close> says the bus still publishes to it; a dropped one holds only the
  marker that ends its iteration.  The other fields are the stream's: what it opened with and what it
  has sent since.
\<close>

record stream =
  su_id :: nat
  su_queue :: "chat_event list"
  su_open :: bool
  su_snapshot :: "message list option"
  su_sent :: "chat_event list"
  su_rows :: "message list"

definition queue_size :: nat where "queue_size = 100"

definition offer :: "nat \<Rightarrow> chat_event \<Rightarrow> chat_event list \<Rightarrow> chat_event list option" where
  "offer size_limit e q = (if length q < size_limit then Some (q @ [e]) else None)"

definition close_stream :: "stream \<Rightarrow> stream" where
  "close_stream st = st\<lparr>su_queue := [], su_open := False\<rparr>"

definition publish_to :: "nat \<Rightarrow> chat_event \<Rightarrow> stream \<Rightarrow> stream" where
  "publish_to size_limit e st =
     (if \<not> su_open st then st
      else case offer size_limit e (su_queue st) of None \<Rightarrow> close_stream st | Some q \<Rightarrow> st\<lparr>su_queue := q\<rparr>)"

definition publish :: "nat \<Rightarrow> chat_event \<Rightarrow> stream list \<Rightarrow> stream list" where
  "publish size_limit e = map (publish_to size_limit e)"

section \<open>The service\<close>

datatype chat_error = Flooding | Message_Not_Found | Not_Your_Message

fun chat_error_base :: "chat_error \<Rightarrow> domain_error" where
  "chat_error_base Flooding = RateLimitedError"
| "chat_error_base Message_Not_Found = NotFoundError"
| "chat_error_base Not_Your_Message = ForbiddenError"

definition min_post_interval :: int where "min_post_interval = second"

definition ensure_not_flooding :: "instant option \<Rightarrow> instant \<Rightarrow> chat_error + unit" where
  "ensure_not_flooding last_post now =
     (case last_post of None \<Rightarrow> Inr () | Some t \<Rightarrow> ensure (\<not> now - t < min_post_interval) Flooding)"

definition ensure_deletable :: "string \<Rightarrow> bool \<Rightarrow> message option \<Rightarrow> chat_error + unit" where
  "ensure_deletable subject admin found =
     (case found of None \<Rightarrow> Inl Message_Not_Found
      | Some m \<Rightarrow> ensure (\<not> (ms_author m \<noteq> subject \<and> \<not> admin)) Not_Your_Message)"

text \<open>Where a request stands between two of its awaits.\<close>

datatype chat_task =
    Appending string string string instant bool
  | Announcing string message instant
  | Removing nat
  | Announcing_Removal nat

record chat_sys =
  ch_store :: chat_store
  ch_last_post :: "string \<Rightarrow> instant option"
  ch_streams :: "stream list"
  ch_tasks :: "chat_task list"

definition empty_chat :: chat_sys where
  "empty_chat = \<lparr>ch_store = empty_store, ch_last_post = Map.empty, ch_streams = [], ch_tasks = []\<rparr>"

definition done_task :: "chat_task \<Rightarrow> chat_sys \<Rightarrow> chat_sys" where
  "done_task t s = s\<lparr>ch_tasks := remove1 t (ch_tasks s)\<rparr>"

definition add_task :: "chat_task \<Rightarrow> chat_sys \<Rightarrow> chat_sys" where
  "add_task t s = s\<lparr>ch_tasks := t # ch_tasks s\<rparr>"

text \<open>\<open>post_message\<close>: the check; the append; what follows the append.\<close>

definition begin_post :: "string \<Rightarrow> string \<Rightarrow> string \<Rightarrow> bool \<Rightarrow> instant \<Rightarrow> chat_sys \<Rightarrow> chat_error + chat_sys" where
  "begin_post subject name body admin now s =
     bindR (ensure_not_flooding (ch_last_post s subject) now) (\<lambda>_. Inr (add_task (Appending subject name body now admin) s))"

definition append_post :: "string \<Rightarrow> string \<Rightarrow> string \<Rightarrow> instant \<Rightarrow> bool \<Rightarrow> chat_sys \<Rightarrow> chat_sys" where
  "append_post subject name body now admin s =
     (let (m, r) = pg_append subject name body now admin (ch_store s) in
      add_task (Announcing subject m now) ((done_task (Appending subject name body now admin) s)\<lparr>ch_store := r\<rparr>))"

definition announce_post :: "string \<Rightarrow> message \<Rightarrow> instant \<Rightarrow> chat_sys \<Rightarrow> chat_sys" where
  "announce_post subject m now s =
     (done_task (Announcing subject m now) s)\<lparr>ch_last_post := (ch_last_post s)(subject \<mapsto> now),
        ch_streams := publish queue_size (Posted m) (ch_streams s)\<rparr>"

text \<open>\<open>delete_message\<close> likewise.\<close>

definition begin_delete :: "nat \<Rightarrow> string \<Rightarrow> bool \<Rightarrow> chat_sys \<Rightarrow> chat_error + chat_sys" where
  "begin_delete i subject admin s =
     bindR (ensure_deletable subject admin (store_get i (ch_store s))) (\<lambda>_. Inr (add_task (Removing i) s))"

definition remove_row :: "nat \<Rightarrow> chat_sys \<Rightarrow> chat_sys" where
  "remove_row i s = add_task (Announcing_Removal i) ((done_task (Removing i) s)\<lparr>ch_store := store_delete i (ch_store s)\<rparr>)"

definition announce_removal :: "nat \<Rightarrow> chat_sys \<Rightarrow> chat_sys" where
  "announce_removal i s =
     (done_task (Announcing_Removal i) s)\<lparr>ch_streams := publish queue_size (Deleted i) (ch_streams s)\<rparr>"

definition recent_messages :: "instant \<Rightarrow> chat_sys \<Rightarrow> message list" where
  "recent_messages now s = pg_list_since max_listed_messages (history_start now) (ch_store s)"

section \<open>The streams\<close>

text \<open>\<open>stream\<close>: subscribe, then read the snapshot, then send what comes; \<open>su_rows\<close> notes the rows it was read from.\<close>

definition subscribe :: "nat \<Rightarrow> chat_sys \<Rightarrow> chat_sys" where
  "subscribe i s = s\<lparr>ch_streams := \<lparr>su_id = i, su_queue = [], su_open = True, su_snapshot = None, su_sent = [], su_rows = []\<rparr>
     # ch_streams s\<rparr>"

definition on_stream :: "nat \<Rightarrow> (stream \<Rightarrow> stream) \<Rightarrow> chat_sys \<Rightarrow> chat_sys" where
  "on_stream i f s = s\<lparr>ch_streams := update_where (\<lambda>st. su_id st = i) f (ch_streams s)\<rparr>"

definition open_with :: "message list \<Rightarrow> message list \<Rightarrow> stream \<Rightarrow> stream" where
  "open_with shown rows st =
     (if su_snapshot st = None then st\<lparr>su_snapshot := Some shown, su_rows := rows\<rparr> else st)"

definition read_snapshot :: "nat \<Rightarrow> instant \<Rightarrow> chat_sys \<Rightarrow> chat_sys" where
  "read_snapshot i now s = on_stream i (open_with (recent_messages now s) (cr_rows (ch_store s))) s"

definition send_one :: "stream \<Rightarrow> stream" where
  "send_one st = (case su_queue st of
     [] \<Rightarrow> st
   | e # q \<Rightarrow> if su_snapshot st = None then st else st\<lparr>su_queue := q, su_sent := su_sent st @ [e]\<rparr>)"

definition send_next :: "nat \<Rightarrow> chat_sys \<Rightarrow> chat_sys" where
  "send_next i s = on_stream i send_one s"

definition unsubscribe :: "nat \<Rightarrow> chat_sys \<Rightarrow> chat_sys" where
  "unsubscribe i s = s\<lparr>ch_streams := filter (\<lambda>st. su_id st \<noteq> i) (ch_streams s)\<rparr>"

section \<open>Runs\<close>

inductive chat_step :: "chat_sys \<Rightarrow> chat_sys \<Rightarrow> bool" where
  begin_post: "begin_post u n b a now s = Inr s' \<Longrightarrow> chat_step s s'"
| append_post: "Appending u n b now a \<in> set (ch_tasks s) \<Longrightarrow> chat_step s (append_post u n b now a s)"
| announce_post: "Announcing u m now \<in> set (ch_tasks s) \<Longrightarrow> chat_step s (announce_post u m now s)"
| begin_delete: "begin_delete i u a s = Inr s' \<Longrightarrow> chat_step s s'"
| remove_row: "Removing i \<in> set (ch_tasks s) \<Longrightarrow> chat_step s (remove_row i s)"
| announce_removal: "Announcing_Removal i \<in> set (ch_tasks s) \<Longrightarrow> chat_step s (announce_removal i s)"
| subscribe: "i \<notin> su_id ` set (ch_streams s) \<Longrightarrow> chat_step s (subscribe i s)"
| read_snapshot: "chat_step s (read_snapshot i now s)"
| send_next: "chat_step s (send_next i s)"
| unsubscribe: "chat_step s (unsubscribe i s)"

inductive_cases chat_stepE: "chat_step s s'"

definition chat_reachable :: "chat_sys \<Rightarrow> bool" where
  "chat_reachable = chat_step\<^sup>*\<^sup>* empty_chat"

section \<open>Nothing is missed\<close>

text \<open>What a stream has been told or is still to be told.\<close>

definition to_announce :: "chat_task list \<Rightarrow> chat_event set" where
  "to_announce ts = {Posted m | u m t. Announcing u m t \<in> set ts} \<union> {Deleted i | i. Announcing_Removal i \<in> set ts}"

definition heard :: "chat_task list \<Rightarrow> stream \<Rightarrow> chat_event set" where
  "heard ts st = set (su_sent st) \<union> set (su_queue st) \<union> to_announce ts"

definition told :: "message list \<Rightarrow> chat_task list \<Rightarrow> stream \<Rightarrow> bool" where
  "told rows ts st \<longleftrightarrow> (su_open st \<longrightarrow> su_snapshot st \<noteq> None \<longrightarrow>
     (\<forall>m\<in>set rows. m \<in> set (su_rows st) \<or> Posted m \<in> heard ts st) \<and>
     (\<forall>m\<in>set (su_rows st). m \<notin> set rows \<longrightarrow> Deleted (ms_id m) \<in> heard ts st))"

definition all_told :: "chat_sys \<Rightarrow> bool" where
  "all_told s \<longleftrightarrow> (\<forall>st\<in>set (ch_streams s). told (cr_rows (ch_store s)) (ch_tasks s) st)"

lemma told_mono:
  "told rows ts st \<Longrightarrow> to_announce ts \<subseteq> to_announce ts' \<Longrightarrow> told rows ts' st"
  by (auto simp: told_def heard_def)

lemma to_announce_simps [simp]:
  "to_announce (Appending u n b t a # ts) = to_announce ts"
  "to_announce (Removing i # ts) = to_announce ts"
  "to_announce (Announcing u m t # ts) = insert (Posted m) (to_announce ts)"
  "to_announce (Announcing_Removal i # ts) = insert (Deleted i) (to_announce ts)"
  by (auto simp: to_announce_def)

lemma told_add [simp]:
  "told rows (Appending u n b t a # ts) st = told rows ts st"
  "told rows (Removing i # ts) st = told rows ts st"
  by (simp_all add: told_def heard_def)

lemma to_announce_remove:
  "to_announce ts \<subseteq> insert (Posted m) (to_announce (remove1 (Announcing u m t) ts))"
  "to_announce ts \<subseteq> insert (Deleted i) (to_announce (remove1 (Announcing_Removal i) ts))"
  "to_announce (remove1 (Appending u n b t a) ts) = to_announce ts"
  "to_announce (remove1 (Removing i) ts) = to_announce ts"
proof -
  have "e = Posted m \<or> e \<in> to_announce (remove1 (Announcing u m t) ts)" if "e \<in> to_announce ts" for e
    using that unfolding to_announce_def by (cases e) (auto, metis chat_task.inject(2) in_set_remove1)
  then show "to_announce ts \<subseteq> insert (Posted m) (to_announce (remove1 (Announcing u m t) ts))" by blast
  have "e = Deleted i \<or> e \<in> to_announce (remove1 (Announcing_Removal i) ts)" if "e \<in> to_announce ts" for e
    using that unfolding to_announce_def by (cases e; cases "e = Deleted i") auto
  then show "to_announce ts \<subseteq> insert (Deleted i) (to_announce (remove1 (Announcing_Removal i) ts))" by blast
  show "to_announce (remove1 (Appending u n b t a) ts) = to_announce ts"
    "to_announce (remove1 (Removing i) ts) = to_announce ts"
    by (simp_all add: to_announce_def)
qed

lemma told_published:
  assumes "told rows ts st" and "to_announce ts \<subseteq> insert e (to_announce ts')"
  shows "told rows ts' (publish_to n e st)"
  using assms by (auto simp: told_def heard_def publish_to_def offer_def close_stream_def split: option.splits if_splits)

lemma told_open: "told rows ts st \<Longrightarrow> told rows ts (open_with shown rows st)"
  by (auto simp: told_def open_with_def heard_def)

lemma told_send: "told rows ts st \<Longrightarrow> told rows ts (send_one st)"
  by (auto simp: told_def send_one_def heard_def split: list.splits)

lemma chat_step_told:
  assumes "chat_step s s'" and "all_told s"
  shows "all_told s'"
  using assms
proof cases
  case (begin_post u n b a now)
  then show ?thesis using assms(2) by (auto simp: begin_post_def add_task_def all_told_def)
next
  case (append_post u n b now a)
  have "told (cr_rows (snd (pg_append u n b now a (ch_store s))))
      (Announcing u (fst (pg_append u n b now a (ch_store s))) now # remove1 (Appending u n b now a) (ch_tasks s)) st"
    if "told (cr_rows (ch_store s)) (ch_tasks s) st" for st
    using that by (auto simp: told_def heard_def pg_append_def Let_def to_announce_remove)
  then show ?thesis using assms(2) append_post
    by (simp add: all_told_def append_post_def add_task_def done_task_def split_beta)
next
  case (announce_post u m now)
  then show ?thesis using assms(2) told_published [OF _ to_announce_remove(1)]
    by (fastforce simp: all_told_def announce_post_def done_task_def publish_def)
next
  case (begin_delete i u a)
  then show ?thesis using assms(2) by (auto simp: begin_delete_def add_task_def all_told_def)
next
  case (remove_row i)
  have "told (cr_rows (store_delete i (ch_store s))) (Announcing_Removal i # remove1 (Removing i) (ch_tasks s)) st"
    if "told (cr_rows (ch_store s)) (ch_tasks s) st" for st
    using that by (auto simp: told_def heard_def store_delete_def to_announce_remove)
  then show ?thesis using assms(2) remove_row
    by (simp add: all_told_def remove_row_def add_task_def done_task_def)
next
  case (announce_removal i)
  then show ?thesis using assms(2) told_published [OF _ to_announce_remove(2)]
    by (fastforce simp: all_told_def announce_removal_def done_task_def publish_def)
next
  case (subscribe i)
  then show ?thesis using assms(2) by (simp add: all_told_def subscribe_def told_def)
next
  case (read_snapshot i now)
  then show ?thesis using assms(2)
    by (auto simp: all_told_def read_snapshot_def on_stream_def set_update_where told_open)
next
  case (send_next i)
  then show ?thesis using assms(2)
    by (auto simp: all_told_def send_next_def on_stream_def set_update_where told_send)
next
  case (unsubscribe i)
  then show ?thesis using assms(2) by (simp add: all_told_def unsubscribe_def)
qed

section \<open>The store and the queues\<close>

lemma chat_step_store:
  assumes "chat_step s s'" and "store_ok (ch_store s)"
  shows "store_ok (ch_store s')"
  using assms
proof cases
  case (append_post u n b now a)
  obtain m r where "pg_append u n b now a (ch_store s) = (m, r)" by (cases "pg_append u n b now a (ch_store s)")
  then show ?thesis using pg.append_good [OF assms(2)] append_post by (simp add: append_post_def add_task_def done_task_def)
next
  case (remove_row i)
  then show ?thesis using pg.remove_good [OF assms(2)] by (simp add: remove_row_def add_task_def done_task_def)
qed (use assms(2) in \<open>auto simp: begin_post_def begin_delete_def announce_post_def announce_removal_def add_task_def done_task_def
    subscribe_def read_snapshot_def send_next_def on_stream_def unsubscribe_def\<close>)

definition queues_ok :: "chat_sys \<Rightarrow> bool" where
  "queues_ok s \<longleftrightarrow> (\<forall>st\<in>set (ch_streams s). length (su_queue st) \<le> queue_size)"

lemma queue_publish: "length (su_queue st) \<le> n \<Longrightarrow> length (su_queue (publish_to n e st)) \<le> n"
  by (simp add: publish_to_def offer_def close_stream_def split: option.splits if_splits)

lemma queue_open [simp]: "su_queue (open_with shown rows st) = su_queue st"
  by (simp add: open_with_def)

lemma queue_send: "length (su_queue (send_one st)) \<le> length (su_queue st)"
  by (simp add: send_one_def split: list.splits)

lemma chat_step_queues:
  assumes "chat_step s s'" and "queues_ok s"
  shows "queues_ok s'"
  using assms(1)
proof cases
  case (send_next i)
  then show ?thesis using assms(2) queue_send
    by (fastforce simp: queues_ok_def send_next_def on_stream_def set_update_where intro: order_trans)
qed (use assms(2) in \<open>auto simp: queues_ok_def begin_post_def begin_delete_def append_post_def remove_row_def announce_post_def
    announce_removal_def add_task_def done_task_def publish_def queue_publish subscribe_def read_snapshot_def on_stream_def
    set_update_where unsubscribe_def split_beta\<close>)

lemma chat_reachable_ok: "chat_reachable s \<Longrightarrow> all_told s \<and> store_ok (ch_store s) \<and> queues_ok s"
  unfolding chat_reachable_def
proof (induction rule: rtranclp_induct)
  case base
  then show ?case by (simp add: all_told_def empty_chat_def store_ok_def empty_store_def queues_ok_def)
next
  case (step s s')
  then show ?case using chat_step_told chat_step_store chat_step_queues by blast
qed

lemma chat_start: "chat_reachable empty_chat"
  by (simp add: chat_reachable_def)

lemma chat_next: "chat_reachable s \<Longrightarrow> chat_step s s' \<Longrightarrow> chat_reachable s'"
  unfolding chat_reachable_def by (rule rtranclp.rtrancl_into_rtrancl)

section \<open>Properties\<close>

text \<open>C6: However posts, deletions and streams interleave, a stream the bus has not dropped misses nothing: every message
  stored since its snapshot was read, and every deletion of one that was stored then, has been sent to it, waits in
  its queue or is about to be published; and no queue ever holds more than a hundred events.\<close>

theorem stream_misses_nothing:
  assumes "chat_reachable s" and "st \<in> set (ch_streams s)" and "su_open st" and "su_snapshot st = Some shown"
  shows "(\<forall>m\<in>set (cr_rows (ch_store s)). m \<in> set (su_rows st) \<or> Posted m \<in> set (su_sent st @ su_queue st) \<union> to_announce (ch_tasks s)) \<and>
    (\<forall>m\<in>set (su_rows st). m \<notin> set (cr_rows (ch_store s)) \<longrightarrow>
       Deleted (ms_id m) \<in> set (su_sent st @ su_queue st) \<union> to_announce (ch_tasks s)) \<and>
    length (su_queue st) \<le> 100"
  using chat_reachable_ok [OF assms(1)] assms(2-4)
  by (auto simp: all_told_def told_def heard_def queues_ok_def queue_size_def)

definition demo_streaming :: chat_sys where
  "demo_streaming = append_post ''kim'' ''Kim'' ''hi'' 5 False (add_task (Appending ''kim'' ''Kim'' ''hi'' 5 False)
     (read_snapshot 1 0 (subscribe 1 empty_chat)))"

lemma demo_streaming_reachable: "chat_reachable demo_streaming"
proof -
  have s: "chat_reachable (read_snapshot 1 0 (subscribe 1 empty_chat))"
    by (rule chat_next [OF chat_next [OF chat_start chat_step.subscribe] chat_step.read_snapshot]) (simp add: empty_chat_def)
  have "chat_step (read_snapshot 1 0 (subscribe 1 empty_chat))
      (add_task (Appending ''kim'' ''Kim'' ''hi'' 5 False) (read_snapshot 1 0 (subscribe 1 empty_chat)))"
    by (rule chat_step.begin_post [of "''kim''" "''Kim''" "''hi''" False 5])
      (simp add: begin_post_def ensure_not_flooding_def read_snapshot_def on_stream_def subscribe_def empty_chat_def)
  from chat_next [OF s this] show ?thesis
    unfolding demo_streaming_def by (rule chat_next [OF _ chat_step.append_post]) (simp add: add_task_def)
qed

theorem stream_misses_nothing_witness:
  "\<exists>m. cr_rows (ch_store demo_streaming) = [m] \<and> Posted m \<in> to_announce (ch_tasks demo_streaming)"
proof -
  have one: "map ms_id (cr_rows (ch_store demo_streaming)) = [1]" "map su_open (ch_streams demo_streaming) = [True]"
    "map su_snapshot (ch_streams demo_streaming) = [Some []]" "map su_rows (ch_streams demo_streaming) = [[]]"
    "map (\<lambda>st. su_sent st @ su_queue st) (ch_streams demo_streaming) = [[]]"
    by code_simp+
  obtain m where m: "cr_rows (ch_store demo_streaming) = [m]" using one(1) by auto
  obtain st where st: "ch_streams demo_streaming = [st]" using one(2) by auto
  show ?thesis using stream_misses_nothing [OF demo_streaming_reachable, of st "[]"] one m st by auto
qed

text \<open>A listing holds only stored messages from the previous play day on, in the order of their ids and at most 500;
  a message that recent is missing from it only when every listed one is newer. What is posted is listed at
  once, and what is deleted never again.\<close>

theorem listing_right:
  assumes "chat_reachable s"
  shows "(\<forall>m\<in>set (recent_messages now s). m \<in> set (cr_rows (ch_store s)) \<and> history_start now \<le> ms_created m) \<and>
    sorted_wrt (<) (map ms_id (recent_messages now s)) \<and> length (recent_messages now s) \<le> 500 \<and>
    (\<forall>m\<in>set (cr_rows (ch_store s)). history_start now \<le> ms_created m \<longrightarrow> m \<notin> set (recent_messages now s) \<longrightarrow>
       (\<forall>x\<in>set (recent_messages now s). ms_id m < ms_id x)) \<and>
    fst (pg_append u n b now a (ch_store s)) \<in> set (recent_messages now (append_post u n b now a s)) \<and>
    (\<forall>m\<in>set (recent_messages now (remove_row i s)). ms_id m \<noteq> i)"
proof -
  have ok: "store_ok (ch_store s)" using chat_reachable_ok [OF assms] by simp
  obtain m r where app: "pg_append u n b now a (ch_store s) = (m, r)" by (cases "pg_append u n b now a (ch_store s)")
  have "history_start now \<le> now" using day_start_bounds [of now] by (simp add: history_start_def)
  from pg.posted_is_listed [OF ok app this]
  have "m \<in> set (recent_messages now (append_post u n b now a s))"
    by (simp add: recent_messages_def append_post_def app add_task_def)
  moreover have "ms_id x \<noteq> i" if "x \<in> set (recent_messages now (remove_row i s))" for x
    using pg.removed_is_unlisted [OF ok] that by (simp add: recent_messages_def remove_row_def add_task_def done_task_def)
  moreover have "length (recent_messages now s) \<le> 500"
    by (simp add: recent_messages_def pg_list_since_def max_listed_messages_def)
  ultimately show ?thesis
    using pg.list_recent [OF ok] pg.list_ordered [OF ok] pg.list_newest [OF ok] app
    unfolding recent_messages_def by auto
qed

theorem listing_right_witness:
  "map ms_id (recent_messages 6 (append_post ''lee'' ''Lee'' ''yo'' 6 False demo_streaming)) = [1, 2] \<and>
    1 \<notin> ms_id ` set (recent_messages 6 (remove_row 1 demo_streaming))"
proof -
  have "map ms_id (recent_messages 6 (append_post ''lee'' ''Lee'' ''yo'' 6 False demo_streaming)) = [1, 2]" by code_simp
  moreover have "\<forall>m\<in>set (recent_messages 6 (remove_row 1 demo_streaming)). ms_id m \<noteq> 1"
    using listing_right [OF demo_streaming_reachable, where now = 6 and i = 1] by blast
  ultimately show ?thesis by auto
qed


end
