(* ===== verification/Streaming.thy ===== *)
theory Streaming
  imports Errors
begin

text \<open>
  \<open>src/streaming/\<close>: the channel id in a pasted link (\<open>domain.py\<close>), the Chzzk adapter (\<open>adapters/chzzk.py\<close>)
  and the table of registered channels (\<open>adapters/postgresql.py\<close>).  \<open>str.lower\<close> is \<open>casefold\<close> on the
  letters the model has.
\<close>

section \<open>Channel ids\<close>

definition chzzk :: string where "chzzk = ''chzzk''"

definition hex_digit :: "char \<Rightarrow> bool" where
  "hex_digit c = (let n = (of_char c :: nat) in (48 \<le> n \<and> n \<le> 57) \<or> (97 \<le> n \<and> n \<le> 102))"

text \<open>
  \<open>_CHZZK_CHANNEL_ID.search\<close>: at each position, not after a hex digit, 32 hex digits that no hex digit
  follows.  \<open>after_hex\<close> says whether the character before the position is one.
\<close>

definition id_here :: "string \<Rightarrow> bool" where
  "id_here s \<longleftrightarrow> length (take 32 s) = 32 \<and> list_all hex_digit (take 32 s) \<and>
     (case drop 32 s of [] \<Rightarrow> True | c # _ \<Rightarrow> \<not> hex_digit c)"

fun search_id :: "bool \<Rightarrow> string \<Rightarrow> string option" where
  "search_id after_hex [] = None"
| "search_id after_hex (c # cs) =
     (if \<not> after_hex \<and> id_here (c # cs) then Some (take 32 (c # cs)) else search_id (hex_digit c) cs)"

definition parse_chzzk_channel_id :: "string \<Rightarrow> string option" where
  "parse_chzzk_channel_id txt = search_id False (casefold (strip txt))"

definition chzzk_live_url :: "string \<Rightarrow> string" where
  "chzzk_live_url channel_id = ''https://chzzk.naver.com/live/'' @ channel_id"

text \<open>What the pattern says: the first of the longest runs of hex digits that has 32 of them.\<close>

function hex_runs :: "string \<Rightarrow> string list" where
  "hex_runs s = (case dropWhile (\<lambda>c. \<not> hex_digit c) s of
     [] \<Rightarrow> []
   | c # cs \<Rightarrow> takeWhile hex_digit (c # cs) # hex_runs (dropWhile hex_digit (c # cs)))"
  by pat_completeness auto
termination
proof (relation "measure length")
  fix s :: string and c cs
  assume d: "dropWhile (\<lambda>c. \<not> hex_digit c) s = c # cs"
  then have "hex_digit c" using hd_dropWhile [of "\<lambda>c. \<not> hex_digit c" s] by simp
  then have "length (dropWhile hex_digit (c # cs)) \<le> length cs" using length_dropWhile_le [of hex_digit cs] by simp
  also have "Suc (length cs) \<le> length s" using length_dropWhile_le [of "\<lambda>c. \<not> hex_digit c" s] unfolding d by simp
  finally show "(dropWhile hex_digit (c # cs), s) \<in> measure length" by simp
qed simp

declare hex_runs.simps [simp del]

lemma hex_runs_Nil [simp]: "hex_runs [] = []"
  by (simp add: hex_runs.simps)

lemma hex_runs_skip: "\<not> hex_digit c \<Longrightarrow> hex_runs (c # cs) = hex_runs cs"
  by (subst hex_runs.simps) (simp add: hex_runs.simps [of cs])

lemma hex_runs_run: "hex_digit c \<Longrightarrow> hex_runs (c # cs) = takeWhile hex_digit (c # cs) # hex_runs (dropWhile hex_digit cs)"
  by (subst hex_runs.simps) simp

lemma id_here_iff: "id_here s \<longleftrightarrow> length (takeWhile hex_digit s) = 32"
proof
  assume id: "id_here s"
  then have t: "list_all hex_digit (take 32 s)" "length (take 32 s) = 32" by (simp_all add: id_here_def)
  have "takeWhile hex_digit (take 32 s @ drop 32 s) = take 32 s @ takeWhile hex_digit (drop 32 s)"
    using t(1) by (intro takeWhile_append2) (simp add: list_all_iff)
  moreover have "takeWhile hex_digit (drop 32 s) = []" using id by (cases "drop 32 s") (simp_all add: id_here_def)
  ultimately show "length (takeWhile hex_digit s) = 32" using t(2) by simp
next
  assume l: "length (takeWhile hex_digit s) = 32"
  then have t: "take 32 s = takeWhile hex_digit s" "drop 32 s = dropWhile hex_digit s"
    by (metis takeWhile_eq_take dropWhile_eq_drop)+
  have "list_all hex_digit (take 32 s)" unfolding t(1) by (auto simp: list_all_iff dest: set_takeWhileD)
  moreover have "case drop 32 s of [] \<Rightarrow> True | c # _ \<Rightarrow> \<not> hex_digit c"
    unfolding t(2) using hd_dropWhile [of hex_digit s] by (simp del: dropWhile_eq_Nil_conv split: list.split) force
  ultimately show "id_here s" using l by (simp add: id_here_def t(1))
qed

lemma search_after_hex: "search_id True s = search_id False (dropWhile hex_digit s)"
proof (induction s)
  case (Cons c cs)
  show ?case
  proof (cases "hex_digit c")
    case True
    then show ?thesis using Cons by simp
  next
    case False
    then have "\<not> id_here (c # cs)" by (simp add: id_here_iff)
    then show ?thesis using False by simp
  qed
qed simp

lemma search_id_runs: "search_id False s = find (\<lambda>r. length r = 32) (hex_runs s)"
proof (induction s rule: length_induct)
  case (1 s)
  show ?case
  proof (cases s)
    case (Cons c cs)
    show ?thesis
    proof (cases "hex_digit c")
      case False
      then have "\<not> id_here s" by (simp add: id_here_iff Cons)
      then show ?thesis using 1 False Cons by (simp add: hex_runs_skip)
    next
      case True
      have len: "length (dropWhile hex_digit cs) < length s" using length_dropWhile_le [of hex_digit cs] Cons by simp
      have r: "hex_runs s = takeWhile hex_digit s # hex_runs (dropWhile hex_digit cs)" using True Cons by (simp add: hex_runs_run)
      show ?thesis
      proof (cases "id_here s")
        case id: True
        then have l: "length (takeWhile hex_digit s) = 32" by (simp add: id_here_iff)
        then have "take 32 s = takeWhile hex_digit s" by (metis takeWhile_eq_take)
        then show ?thesis using id l r Cons by simp
      next
        case False
        then have "length (takeWhile hex_digit s) \<noteq> 32" by (simp add: id_here_iff)
        then show ?thesis using False 1 len r True Cons by (simp add: search_after_hex)
      qed
    qed
  qed simp
qed

definition is_channel_id :: "string \<Rightarrow> bool" where
  "is_channel_id i \<longleftrightarrow> length i = 32 \<and> list_all hex_digit i"

lemma hex_runs_hex: "r \<in> set (hex_runs s) \<Longrightarrow> list_all hex_digit r"
proof (induction s rule: hex_runs.induct)
  case (1 s)
  show ?case
  proof (cases "dropWhile (\<lambda>c. \<not> hex_digit c) s")
    case Nil
    have "hex_runs s = []" by (subst hex_runs.simps) (simp only: Nil list.case)
    then show ?thesis using 1(2) by simp
  next
    case (Cons c cs)
    then have "r = takeWhile hex_digit (c # cs) \<or> r \<in> set (hex_runs (dropWhile hex_digit (c # cs)))"
      using 1(2) by (simp add: hex_runs.simps [of s])
    then show ?thesis
    proof
      assume "r = takeWhile hex_digit (c # cs)"
      then show ?thesis by (metis list_all_iff set_takeWhileD)
    next
      assume "r \<in> set (hex_runs (dropWhile hex_digit (c # cs)))"
      then show ?thesis using 1(1) [OF Cons] by blast
    qed
  qed
qed

lemma parse_is_id: "parse_chzzk_channel_id txt = Some i \<Longrightarrow> is_channel_id i"
  unfolding parse_chzzk_channel_id_def search_id_runs is_channel_id_def
  by (auto dest!: find_Some_set hex_runs_hex)

lemma hex_not_space: "hex_digit c \<Longrightarrow> \<not> is_space c"
  by (auto simp: hex_digit_def is_space_def Let_def)

lemma lower_hex: "hex_digit c \<Longrightarrow> lower_char c = c"
  by (auto simp: hex_digit_def lower_char_def Let_def)

lemma casefold_hex: "list_all hex_digit i \<Longrightarrow> casefold i = i"
  unfolding casefold_def by (induction i) (simp_all add: lower_hex)

lemma dropWhile_hd: "s = [] \<or> \<not> P (hd s) \<Longrightarrow> dropWhile P s = s"
  by (cases s) auto

lemma strip_tight: "s = [] \<or> \<not> is_space (hd s) \<and> \<not> is_space (last s) \<Longrightarrow> strip s = s"
  unfolding strip_def by (auto simp: dropWhile_hd hd_rev)

lemma hex_runs_id: "is_channel_id i \<Longrightarrow> hex_runs i = [i]"
proof (cases i)
  case (Cons c cs)
  assume "is_channel_id i"
  then have h: "hex_digit c" "\<forall>x\<in>set cs. hex_digit x" by (auto simp: is_channel_id_def Cons list_all_iff)
  then have t: "takeWhile hex_digit cs = cs" and d: "dropWhile hex_digit cs = []" by (simp_all add: takeWhile_eq_all_conv)
  then show ?thesis using h(1) by (simp add: Cons hex_runs_run t d)
qed (simp add: is_channel_id_def)

lemma parse_id: "is_channel_id i \<Longrightarrow> parse_chzzk_channel_id i = Some i"
proof -
  assume i: "is_channel_id i"
  then have h: "\<forall>x\<in>set i. hex_digit x" "i \<noteq> []" by (auto simp: is_channel_id_def list_all_iff)
  then have "strip i = i" using hex_not_space by (intro strip_tight) simp
  moreover have "casefold i = i" using i by (simp add: is_channel_id_def casefold_hex)
  ultimately show ?thesis
    using i by (simp add: parse_chzzk_channel_id_def search_id_runs hex_runs_id) (simp add: is_channel_id_def)
qed

lemma parse_live_url: "is_channel_id i \<Longrightarrow> parse_chzzk_channel_id (chzzk_live_url i) = Some i"
proof -
  assume i: "is_channel_id i"
  then have h: "\<forall>x\<in>set i. hex_digit x" "i \<noteq> []" by (auto simp: is_channel_id_def list_all_iff)
  then have "strip (chzzk_live_url i) = chzzk_live_url i"
    using hex_not_space by (intro strip_tight) (simp add: chzzk_live_url_def is_space_def)
  moreover have "casefold (chzzk_live_url i) = chzzk_live_url i"
    using i casefold_hex [of i] by (simp add: is_channel_id_def chzzk_live_url_def casefold_def lower_char_def)
  moreover have "hex_runs (chzzk_live_url i) = [''c'', ''a'', ''e'', ''c'', ''e'', i]"
    by (simp add: chzzk_live_url_def hex_runs_skip hex_runs_run hex_digit_def hex_runs_id [OF i])
  ultimately show ?thesis
    using i by (simp add: parse_chzzk_channel_id_def search_id_runs) (simp add: is_channel_id_def)
qed

section \<open>The platform\<close>

record platform_channel =
  pl_channel_id :: string
  pl_channel_name :: string

record live_broadcast =
  lv_title :: string
  lv_viewer_count :: int
  lv_category :: string

text \<open>
  The platform's answer to a request: none, or a status with a body that is a JSON object or something else.
  \<open>content\<close> is the object under that name, of which only the fields read here are kept; a field that is
  missing or null is \<open>None\<close>.  The texts and the count are taken to be what their names say.
\<close>

record chzzk_content =
  cz_channel_id :: "string option"
  cz_channel_name :: "string option"
  cz_status :: "string option"
  cz_live_title :: "string option"
  cz_viewers :: "int option"
  cz_category :: "string option"

datatype chzzk_body = No_Object | Object "chzzk_content option"
datatype chzzk_answer = Unreachable | Answer int chzzk_body

datatype platform_error = Streaming_Unavailable

definition content_of :: "chzzk_answer \<Rightarrow> platform_error + chzzk_content option" where
  "content_of a = (case a of
     Unreachable \<Rightarrow> Inl Streaming_Unavailable
   | Answer status body \<Rightarrow>
       if status = 404 then Inr None
       else (case body of
         No_Object \<Rightarrow> Inl Streaming_Unavailable
       | Object content \<Rightarrow> if status \<noteq> 200 then Inl Streaming_Unavailable else Inr content))"

text \<open>Python's \<open>x or ""\<close> and \<open>x or 0\<close>.\<close>

definition or_empty :: "string option \<Rightarrow> string" where
  "or_empty x = (case x of None \<Rightarrow> [] | Some s \<Rightarrow> s)"

definition platform_channel_of :: "chzzk_answer \<Rightarrow> platform_error + platform_channel option" where
  "platform_channel_of a = bindR (content_of a) (\<lambda>content. Inr (case content of
     None \<Rightarrow> None
   | Some c \<Rightarrow> if or_empty (cz_channel_id c) = [] then None
       else Some \<lparr>pl_channel_id = or_empty (cz_channel_id c), pl_channel_name = or_empty (cz_channel_name c)\<rparr>))"

definition platform_live_of :: "chzzk_answer \<Rightarrow> platform_error + live_broadcast option" where
  "platform_live_of a = bindR (content_of a) (\<lambda>content. Inr (case content of
     None \<Rightarrow> None
   | Some c \<Rightarrow> if cz_status c \<noteq> Some ''OPEN'' then None
       else Some \<lparr>lv_title = or_empty (cz_live_title c),
         lv_viewer_count = (case cz_viewers c of None \<Rightarrow> 0 | Some n \<Rightarrow> n), lv_category = or_empty (cz_category c)\<rparr>))"

section \<open>The table\<close>

datatype streaming_error = Invalid_Channel | Channel_Not_Found | Channel_Taken | Platform platform_error

fun streaming_base :: "streaming_error \<Rightarrow> domain_error" where
  "streaming_base Invalid_Channel = ValidationError"
| "streaming_base Channel_Not_Found = NotFoundError"
| "streaming_base Channel_Taken = ConflictError"
| "streaming_base (Platform _) = ServiceUnavailableError"

record stream_row =
  sw_username :: string
  sw_platform :: string
  sw_channel_id :: string
  sw_channel_name :: string
  sw_created_at :: instant
  sw_updated_at :: instant

record stream_channel =
  sm_username :: string
  sm_platform :: string
  sm_channel_id :: string
  sm_channel_name :: string
  sm_registered_at :: instant

definition to_stream_channel :: "stream_row \<Rightarrow> stream_channel" where
  "to_stream_channel row = \<lparr>sm_username = sw_username row, sm_platform = sw_platform row, sm_channel_id = sw_channel_id row,
     sm_channel_name = sw_channel_name row, sm_registered_at = sw_updated_at row\<rparr>"

definition row_key :: "stream_row \<Rightarrow> string \<times> string" where
  "row_key r = (sw_username r, sw_platform r)"

definition channel_key :: "stream_row \<Rightarrow> string \<times> string" where
  "channel_key r = (sw_platform r, sw_channel_id r)"

definition stream_get :: "string \<Rightarrow> string \<Rightarrow> stream_row list \<Rightarrow> stream_channel option" where
  "stream_get username platform rows = map_option to_stream_channel (find (\<lambda>r. row_key r = (username, platform)) rows)"

definition stream_list_all :: "stream_row list \<Rightarrow> stream_channel list" where
  "stream_list_all rows = map to_stream_channel (sort_key (\<lambda>r. - sw_updated_at r) rows)"

text \<open>
  \<open>INSERT ... ON CONFLICT (username, platform) DO UPDATE\<close>: the account's own row is changed in place; a row of
  another account with the channel violates the unique constraint either way.
\<close>

definition stream_upsert ::
  "string \<Rightarrow> string \<Rightarrow> platform_channel \<Rightarrow> instant \<Rightarrow> stream_row list \<Rightarrow> streaming_error + (stream_channel \<times> stream_row list)" where
  "stream_upsert username platform ch dbnow rows =
     (if \<exists>r\<in>set rows. channel_key r = (platform, pl_channel_id ch) \<and> row_key r \<noteq> (username, platform) then Inl Channel_Taken
      else case find (\<lambda>r. row_key r = (username, platform)) rows of
        Some old \<Rightarrow>
          let new = old\<lparr>sw_channel_id := pl_channel_id ch, sw_channel_name := pl_channel_name ch, sw_updated_at := dbnow\<rparr>
          in Inr (to_stream_channel new, update_where (\<lambda>r. row_key r = (username, platform)) (\<lambda>_. new) rows)
      | None \<Rightarrow>
          let new = \<lparr>sw_username = username, sw_platform = platform, sw_channel_id = pl_channel_id ch,
                sw_channel_name = pl_channel_name ch, sw_created_at = dbnow, sw_updated_at = dbnow\<rparr>
          in Inr (to_stream_channel new, rows @ [new]))"

definition stream_delete :: "string \<Rightarrow> string \<Rightarrow> stream_row list \<Rightarrow> bool \<times> stream_row list" where
  "stream_delete username platform rows =
     (let gone = (\<lambda>r. casefold (sw_username r) = casefold username \<and> sw_platform r = platform)
      in (list_ex gone rows, filter (\<lambda>r. \<not> gone r) rows))"

text \<open>The table's two constraints.\<close>

definition streams_ok :: "stream_row list \<Rightarrow> bool" where
  "streams_ok rows \<longleftrightarrow> distinct (map row_key rows) \<and> distinct (map channel_key rows)"

lemma distinct_replace:
  assumes "distinct (map g rows)" and "distinct (map k rows)" and "\<And>r. r \<in> set rows \<Longrightarrow> k r = k new \<Longrightarrow> g r = i"
  shows "distinct (map k (update_where (\<lambda>r. g r = i) (\<lambda>_. new) rows))"
  using assms
proof (induction rows)
  case (Cons r rows)
  have IH: "distinct (map k (update_where (\<lambda>r. g r = i) (\<lambda>_. new) rows))" using Cons by simp
  show ?case
  proof (cases "g r = i")
    case True
    then have none: "x \<in> set rows \<Longrightarrow> g x \<noteq> i" for x using Cons.prems(1) by (metis distinct.simps(2) image_eqI list.simps(9) list.set_map)
    then have "k new \<notin> k ` set rows" using Cons.prems(3) by (metis imageE list.set_intros(2))
    moreover have "k ` set (update_where (\<lambda>r. g r = i) (\<lambda>_. new) rows) = k ` set rows"
      using none by (auto simp: set_update_where)
    ultimately show ?thesis using IH True by simp
  next
    case False
    then have "k new \<noteq> k r" using Cons.prems(3) [of r] by auto
    moreover have "k r \<notin> k ` set rows" using Cons.prems(2) by simp
    ultimately show ?thesis using IH False by (auto simp: set_update_where)
  qed
qed simp

lemma delete_streams_ok: "streams_ok rows \<Longrightarrow> streams_ok (snd (stream_delete username platform rows))"
  by (simp add: streams_ok_def stream_delete_def Let_def distinct_map_filter)

lemma upsert_streams_ok:
  assumes ok: "streams_ok rows" and run: "stream_upsert u p ch t rows = Inr (out, rows')"
  shows "streams_ok rows'"
proof -
  have free: "\<And>r. r \<in> set rows \<Longrightarrow> channel_key r = (p, pl_channel_id ch) \<Longrightarrow> row_key r = (u, p)"
    using run by (auto simp: stream_upsert_def split: if_splits)
  show ?thesis
  proof (cases "find (\<lambda>r. row_key r = (u, p)) rows")
    case None
    then have "(u, p) \<notin> row_key ` set rows" by (auto simp: find_eq_None)
    moreover have "(p, pl_channel_id ch) \<notin> channel_key ` set rows" using free None by (force simp: find_eq_None)
    ultimately show ?thesis
      using run ok None by (auto simp: stream_upsert_def Let_def streams_ok_def row_key_def channel_key_def split: if_splits)
  next
    case (Some old)
    define new where "new = old\<lparr>sw_channel_id := pl_channel_id ch, sw_channel_name := pl_channel_name ch, sw_updated_at := t\<rparr>"
    have old: "old \<in> set rows" "row_key old = (u, p)" using find_Some_set [OF Some] by simp_all
    have rows': "rows' = update_where (\<lambda>r. row_key r = (u, p)) (\<lambda>_. new) rows"
      using run Some by (auto simp: stream_upsert_def Let_def new_def split: if_splits)
    have nk: "row_key new = (u, p)" "channel_key new = (p, pl_channel_id ch)"
      using old(2) by (simp_all add: new_def row_key_def channel_key_def)
    have "map row_key rows' = map row_key rows" unfolding rows' using nk by (simp add: update_where_def)
    moreover have "distinct (map channel_key rows')"
      unfolding rows' using ok free nk unfolding streams_ok_def by (intro distinct_replace) auto
    ultimately show ?thesis using ok by (simp add: streams_ok_def)
  qed
qed

end
