(* ===== verification/Streaming_Service.thy ===== *)
theory Streaming_Service
  imports Streaming Cached_View "HOL-Library.AList"
begin

text \<open>
  \<open>src/streaming/service.py\<close>: registering a channel, the cached table of registered channels, and who of the
  players asked about is on air.  The table of the cache is \<open>CHANNELS_KEY\<close>'s dictionary, an association list
  by lower-cased username; a cached status \<open>None\<close> is the \<open>{}\<close> that stands for offline.
\<close>

section \<open>State and reads\<close>

record registered =
  rg_platform :: string
  rg_channel_id :: string
  rg_channel_name :: string

type_synonym channel_table = "(string \<times> registered) list"
type_synonym on_air = "string \<times> int"

record streaming =
  ss_rows :: "stream_row list"
  ss_channels :: "channel_table dict_cache"
  ss_live :: "on_air option dict_cache"

definition empty_streaming :: streaming where
  "empty_streaming = \<lparr>ss_rows = [], ss_channels = Map.empty, ss_live = Map.empty\<rparr>"

definition channels_key :: string where "channels_key = ''streaming:channels''"

definition live_key :: "string \<Rightarrow> string" where
  "live_key channel_id = ''streaming:live:'' @ channel_id"

text \<open>\<open>_LIVE_URL[platform](channel_id)\<close>; \<open>None\<close> is the \<open>KeyError\<close> of a platform that is not in the table.\<close>

definition live_url :: "string \<Rightarrow> string \<Rightarrow> string option" where
  "live_url platform channel_id = (if platform = chzzk then Some (chzzk_live_url channel_id) else None)"

record channel_out =
  cx_platform :: string
  cx_channel_id :: string
  cx_channel_name :: string
  cx_channel_url :: "string option"
  cx_registered_at :: instant

definition channel_out_of :: "stream_channel \<Rightarrow> channel_out" where
  "channel_out_of c = \<lparr>cx_platform = sm_platform c, cx_channel_id = sm_channel_id c, cx_channel_name = sm_channel_name c,
     cx_channel_url = live_url (sm_platform c) (sm_channel_id c), cx_registered_at = sm_registered_at c\<rparr>"

record stream_head =
  sh_platform :: string
  sh_channel_name :: string
  sh_url :: "string option"

definition stream_head_of :: "registered \<Rightarrow> stream_head" where
  "stream_head_of r = \<lparr>sh_platform = rg_platform r, sh_channel_name = rg_channel_name r,
     sh_url = live_url (rg_platform r) (rg_channel_id r)\<rparr>"

definition table_of :: "stream_row list \<Rightarrow> channel_table" where
  "table_of rows = fold (\<lambda>c. AList.update (casefold (sm_username c))
     \<lparr>rg_platform = sm_platform c, rg_channel_id = sm_channel_id c, rg_channel_name = sm_channel_name c\<rparr>)
     (stream_list_all rows) []"

text \<open>\<open>_registered_channels\<close>; \<open>up\<close> says whether the database answers.\<close>

definition registered_channels :: "int \<Rightarrow> instant \<Rightarrow> bool \<Rightarrow> streaming \<Rightarrow> (unit + channel_table) \<times> streaming" where
  "registered_channels ttl now up s =
     (let (r, c) = read_through dict_get dict_set (\<lambda>_. True) channels_key ttl now
        (if up then Inr (table_of (ss_rows s)) else Inl ()) (ss_channels s)
      in (r, s\<lparr>ss_channels := c\<rparr>))"

section \<open>Who is live\<close>

text \<open>\<open>_live\<close>: a failed check counts as offline and is cached as such.\<close>

definition on_air_of :: "platform_error + live_broadcast option \<Rightarrow> on_air option" where
  "on_air_of answer = (case answer of
     Inl Streaming_Unavailable \<Rightarrow> None
   | Inr broadcast \<Rightarrow> map_option (\<lambda>b. (lv_title b, lv_viewer_count b)) broadcast)"

definition live_one ::
  "int \<Rightarrow> instant \<Rightarrow> (string \<Rightarrow> platform_error + live_broadcast option) \<Rightarrow> string \<Rightarrow> on_air option dict_cache \<Rightarrow>
     on_air option \<times> on_air option dict_cache" where
  "live_one ttl now platform channel_id c =
     (let (cached, c1) = dict_get (live_key channel_id) now c in
      case cached of
        Some found \<Rightarrow> (found, c1)
      | None \<Rightarrow> let found = on_air_of (platform channel_id)
          in (found, dict_set (live_key channel_id) found ttl now c1))"

text \<open>
  \<open>asyncio.gather\<close> of the checks.  They run side by side, but each reads and writes the entry of its own
  channel only, so the order does not show.
\<close>

fun live_all ::
  "int \<Rightarrow> instant \<Rightarrow> (string \<Rightarrow> platform_error + live_broadcast option) \<Rightarrow> channel_table \<Rightarrow> on_air option dict_cache \<Rightarrow>
     (string \<times> stream_head \<times> on_air) list \<times> on_air option dict_cache" where
  "live_all ttl now platform [] c = ([], c)"
| "live_all ttl now platform ((username, r) # wanted) c =
     (let (found, c1) = live_one ttl now platform (rg_channel_id r) c;
          (rest, c2) = live_all ttl now platform wanted c1
      in ((case found of None \<Rightarrow> rest | Some b \<Rightarrow> (username, stream_head_of r, b) # rest), c2))"

definition live_for ::
  "int \<Rightarrow> int \<Rightarrow> string list \<Rightarrow> instant \<Rightarrow> bool \<Rightarrow> (string \<Rightarrow> platform_error + live_broadcast option) \<Rightarrow> streaming \<Rightarrow>
     (unit + (string \<times> stream_head \<times> on_air) list) \<times> streaming" where
  "live_for channels_ttl live_ttl npids now up platform s =
     (if npids = [] then (Inr [], s)
      else let (r, s1) = registered_channels channels_ttl now up s in
        case r of
          Inl e \<Rightarrow> (Inl e, s1)
        | Inr table \<Rightarrow>
            let wanted = filter (\<lambda>(username, _). username \<in> set (map casefold npids)) table;
                (found, c) = live_all live_ttl now platform wanted (ss_live s1)
            in (Inr found, s1\<lparr>ss_live := c\<rparr>))"

definition live_or_empty ::
  "int \<Rightarrow> int \<Rightarrow> string list \<Rightarrow> instant \<Rightarrow> bool \<Rightarrow> (string \<Rightarrow> platform_error + live_broadcast option) \<Rightarrow> streaming \<Rightarrow>
     (string \<times> stream_head \<times> on_air) list \<times> streaming" where
  "live_or_empty channels_ttl live_ttl npids now up platform s =
     (case live_for channels_ttl live_ttl npids now up platform s of (Inl _, s') \<Rightarrow> ([], s') | (Inr found, s') \<Rightarrow> (found, s'))"

section \<open>Registering\<close>

definition drop_channels :: "streaming \<Rightarrow> streaming" where
  "drop_channels s = s\<lparr>ss_channels := dict_delete channels_key (ss_channels s)\<rparr>"


definition register_channel ::
  "string \<Rightarrow> string \<Rightarrow> (string \<Rightarrow> platform_error + platform_channel option) \<Rightarrow> instant \<Rightarrow> streaming \<Rightarrow>
     (streaming_error + channel_out) \<times> streaming" where
  "register_channel username txt platform dbnow s =
     (case parse_chzzk_channel_id txt of
        None \<Rightarrow> (Inl Invalid_Channel, s)
      | Some channel_id \<Rightarrow>
          (case platform channel_id of
             Inl e \<Rightarrow> (Inl (Platform e), s)
           | Inr None \<Rightarrow> (Inl Invalid_Channel, s)
           | Inr (Some found) \<Rightarrow>
               (case transact (stream_upsert username chzzk found dbnow) (ss_rows s) of
                  (Inl e, rows) \<Rightarrow> (Inl e, s\<lparr>ss_rows := rows\<rparr>)
                | (Inr channel, rows) \<Rightarrow> (Inr (channel_out_of channel), drop_channels (s\<lparr>ss_rows := rows\<rparr>)))))"

definition unregister_channel :: "string \<Rightarrow> streaming \<Rightarrow> streaming" where
  "unregister_channel username s =
     drop_channels (s\<lparr>ss_rows := snd (stream_delete username chzzk (ss_rows s))\<rparr>)"

definition list_channels :: "streaming \<Rightarrow> (channel_out \<times> string) list" where
  "list_channels s = map (\<lambda>c. (channel_out_of c, sm_username c)) (stream_list_all (ss_rows s))"

definition remove_channel :: "string \<Rightarrow> streaming \<Rightarrow> (streaming_error + unit) \<times> streaming" where
  "remove_channel username s =
     (let (deleted, rows) = stream_delete username chzzk (ss_rows s) in
      if \<not> deleted then (Inl Channel_Not_Found, s\<lparr>ss_rows := rows\<rparr>)
      else (Inr (), drop_channels (s\<lparr>ss_rows := rows\<rparr>)))"

section \<open>Runs\<close>

datatype stream_call =
    Live_For "string list" instant bool "string \<Rightarrow> platform_error + live_broadcast option"
  | Register string string "string \<Rightarrow> platform_error + platform_channel option" instant
  | Unregister string
  | Remove string

fun stream_call_step :: "int \<Rightarrow> int \<Rightarrow> stream_call \<Rightarrow> streaming \<Rightarrow> streaming" where
  "stream_call_step ttl live_ttl (Live_For npids now up platform) s = snd (live_or_empty ttl live_ttl npids now up platform s)"
| "stream_call_step ttl live_ttl (Register username txt platform dbnow) s = snd (register_channel username txt platform dbnow s)"
| "stream_call_step ttl live_ttl (Unregister username) s = unregister_channel username s"
| "stream_call_step ttl live_ttl (Remove username) s = snd (remove_channel username s)"

definition run_streaming :: "int \<Rightarrow> int \<Rightarrow> stream_call list \<Rightarrow> streaming" where
  "run_streaming ttl live_ttl calls = fold (stream_call_step ttl live_ttl) calls empty_streaming"

interpretation cached_channels: cached_view dict_get dict_set dict_delete dict_delete_pattern
    "\<lambda>_ :: unit. channels_key" "\<lambda>_ rows. Inr (table_of rows) :: unit + channel_table"
  by unfold_locales (auto dest: dict_get_forgets)

definition streaming_ok :: "streaming \<Rightarrow> bool" where
  "streaming_ok s \<longleftrightarrow> streams_ok (ss_rows s) \<and> (\<forall>r\<in>set (ss_rows s). sw_platform r = chzzk) \<and>
     cached_channels.coherent (ss_rows s) (ss_channels s)"

lemma streaming_ok_live: "streaming_ok (s\<lparr>ss_live := c\<rparr>) = streaming_ok s"
  by (simp add: streaming_ok_def)

lemma drop_channels_ok:
  "streaming_ok s \<Longrightarrow> streams_ok rows \<Longrightarrow> \<forall>r\<in>set rows. sw_platform r = chzzk \<Longrightarrow>
    streaming_ok (drop_channels (s\<lparr>ss_rows := rows\<rparr>))"
  using cached_channels.write_coherent [of "ss_rows s" "ss_channels s" "()" rows]
  by (simp add: streaming_ok_def drop_channels_def)

lemma registered_channels_ok:
  assumes "streaming_ok s"
  shows "streaming_ok (snd (registered_channels ttl now up s))"
    and "ss_rows (snd (registered_channels ttl now up s)) = ss_rows s"
    and "up \<Longrightarrow> fst (registered_channels ttl now up s) = Inr (table_of (ss_rows s))"
    and "ss_live (snd (registered_channels ttl now up s)) = ss_live s"
proof -
  have c: "cached_channels.coherent (ss_rows s) (ss_channels s)" using assms by (simp add: streaming_ok_def)
  note read = cached_channels.read_stored [OF c, of "\<lambda>_. True" ttl now]
  have "cached_channels.coherent (ss_rows s) (snd (read_through dict_get dict_set (\<lambda>_. True) channels_key ttl now (Inl ()) (ss_channels s)))"
    using cached_channels.coherent_get [OF c] by (simp add: dict.read_cases split: option.split)
  then show "streaming_ok (snd (registered_channels ttl now up s))"
    using assms read(2) by (auto simp: registered_channels_def split_beta streaming_ok_def)
  show "up \<Longrightarrow> fst (registered_channels ttl now up s) = Inr (table_of (ss_rows s))"
    using read(1) by (simp add: registered_channels_def split_beta)
qed (simp_all add: registered_channels_def split_beta)

lemma live_for_ok:
  assumes "streaming_ok s"
  shows "streaming_ok (snd (live_for ttl live_ttl npids now up platform s))"
    and "ss_rows (snd (live_for ttl live_ttl npids now up platform s)) = ss_rows s"
proof -
  obtain r s1 where reg: "registered_channels ttl now up s = (r, s1)" by (cases "registered_channels ttl now up s")
  have s1: "streaming_ok s1" "ss_rows s1 = ss_rows s"
    using registered_channels_ok(1,2) [OF assms] reg by (metis snd_conv)+
  show "streaming_ok (snd (live_for ttl live_ttl npids now up platform s))"
    using assms s1 by (simp add: live_for_def reg streaming_ok_live split: prod.split sum.split)
  show "ss_rows (snd (live_for ttl live_ttl npids now up platform s)) = ss_rows s"
    using s1 by (simp add: live_for_def reg split: prod.split sum.split)
qed

lemma upsert_platform:
  "stream_upsert u chzzk ch t rows = Inr (out, rows') \<Longrightarrow> \<forall>r\<in>set rows. sw_platform r = chzzk \<Longrightarrow> \<forall>r\<in>set rows'. sw_platform r = chzzk"
  by (auto simp: stream_upsert_def Let_def set_update_where dest!: find_Some_set split: if_splits option.splits)

lemma drop_deleted_ok:
  assumes "streaming_ok s"
  shows "streaming_ok (drop_channels (s\<lparr>ss_rows := snd (stream_delete username chzzk (ss_rows s))\<rparr>))"
proof (rule drop_channels_ok [OF assms])
  show "streams_ok (snd (stream_delete username chzzk (ss_rows s)))"
    using assms by (simp add: streaming_ok_def delete_streams_ok)
  show "\<forall>r\<in>set (snd (stream_delete username chzzk (ss_rows s))). sw_platform r = chzzk"
    using assms by (simp add: streaming_ok_def stream_delete_def Let_def)
qed

lemma stream_call_ok: "streaming_ok s \<Longrightarrow> streaming_ok (stream_call_step ttl live_ttl call s)"
proof (cases call)
  case (Live_For npids now up platform)
  assume "streaming_ok s"
  then show ?thesis using Live_For live_for_ok(1) [of s ttl live_ttl npids now up platform]
    by (auto simp: live_or_empty_def split: prod.split sum.split)
next
  case (Register username pasted platform dbnow)
  assume ok: "streaming_ok s"
  have "streaming_ok (drop_channels (s\<lparr>ss_rows := rows\<rparr>))"
    if "stream_upsert username chzzk found dbnow (ss_rows s) = Inr (out, rows)" for found out rows
    using ok upsert_streams_ok [OF _ that] upsert_platform [OF that] by (intro drop_channels_ok) (auto simp: streaming_ok_def)
  then show ?thesis using Register ok
    by (auto simp: register_channel_def transact_def split: option.split sum.split)
next
  case (Unregister username)
  assume "streaming_ok s"
  then show ?thesis using Unregister by (simp add: unregister_channel_def drop_deleted_ok)
next
  case (Remove username)
  assume ok: "streaming_ok s"
  have "\<not> fst (stream_delete username chzzk (ss_rows s)) \<Longrightarrow> snd (stream_delete username chzzk (ss_rows s)) = ss_rows s"
    by (simp add: stream_delete_def Let_def list_ex_iff)
  then show ?thesis using Remove ok drop_deleted_ok [OF ok] by (auto simp: remove_channel_def split_beta)
qed

lemma run_streaming_ok: "streaming_ok (run_streaming ttl live_ttl calls)"
proof -
  have "streaming_ok s \<Longrightarrow> streaming_ok (fold (stream_call_step ttl live_ttl) calls s)" for s
    by (induction calls arbitrary: s) (simp_all add: stream_call_ok)
  moreover have "streaming_ok empty_streaming"
    by (auto simp: streaming_ok_def empty_streaming_def streams_ok_def dict_get_def intro: cached_channels.coherent_empty)
  ultimately show ?thesis by (simp add: run_streaming_def)
qed

section \<open>Who is shown live\<close>

definition registered_of :: "stream_row \<Rightarrow> registered" where
  "registered_of r = \<lparr>rg_platform = sw_platform r, rg_channel_id = sw_channel_id r, rg_channel_name = sw_channel_name r\<rparr>"

definition status_of :: "instant \<Rightarrow> (string \<Rightarrow> platform_error + live_broadcast option) \<Rightarrow> on_air option dict_cache \<Rightarrow> string \<Rightarrow> on_air option" where
  "status_of now platform c channel_id =
     (case fst (dict_get (live_key channel_id) now c) of Some found \<Rightarrow> found | None \<Rightarrow> on_air_of (platform channel_id))"

lemma alist_update_fresh: "k \<notin> fst ` set al \<Longrightarrow> AList.update k v al = al @ [(k, v)]"
  by (induction al) auto

lemma fold_update_fresh:
  "distinct (map k cs) \<Longrightarrow> fst ` set acc \<inter> k ` set cs = {} \<Longrightarrow>
    fold (\<lambda>c. AList.update (k c) (v c)) cs acc = acc @ map (\<lambda>c. (k c, v c)) cs"
  by (induction cs arbitrary: acc) (auto simp: alist_update_fresh)

lemma table_rows:
  assumes "distinct (map (\<lambda>r. casefold (sw_username r)) rows)"
  shows "table_of rows = map (\<lambda>r. (casefold (sw_username r), registered_of r)) (sort_key (\<lambda>r. - sw_updated_at r) rows)"
proof -
  have "distinct (map (\<lambda>r. casefold (sw_username r)) (sort_key (\<lambda>r. - sw_updated_at r) rows))"
    using assms by (simp add: distinct_map)
  then show ?thesis
    by (simp add: table_of_def stream_list_all_def fold_update_fresh comp_def to_stream_channel_def registered_of_def)
qed

lemma live_one_status: "fst (live_one ttl now platform i c) = status_of now platform c i"
  by (simp add: live_one_def status_of_def Let_def split_beta split: option.split)

lemma live_one_others: "j \<noteq> i \<Longrightarrow> status_of now platform (snd (live_one ttl now platform i c)) j = status_of now platform c j"
proof -
  assume "j \<noteq> i"
  then have "live_key j \<noteq> live_key i" by (simp add: live_key_def)
  then have "fst (dict_get (live_key j) now (snd (live_one ttl now platform i c))) = fst (dict_get (live_key j) now c)"
    by (simp add: live_one_def Let_def split_beta dict.get_set_other dict.get_after_get split: option.split)
  then show ?thesis by (simp add: status_of_def)
qed

definition shown_live ::
  "instant \<Rightarrow> (string \<Rightarrow> platform_error + live_broadcast option) \<Rightarrow> on_air option dict_cache \<Rightarrow> string \<times> registered \<Rightarrow>
     (string \<times> stream_head \<times> on_air) list" where
  "shown_live now platform c w =
     (case status_of now platform c (rg_channel_id (snd w)) of None \<Rightarrow> [] | Some b \<Rightarrow> [(fst w, stream_head_of (snd w), b)])"

lemma mem_shown_live:
  "(u, h, b) \<in> set (shown_live now platform c w) \<longleftrightarrow>
    u = fst w \<and> h = stream_head_of (snd w) \<and> status_of now platform c (rg_channel_id (snd w)) = Some b"
  by (cases "status_of now platform c (rg_channel_id (snd w))") (auto simp: shown_live_def)

lemma live_all_found:
  "distinct (map (\<lambda>w. rg_channel_id (snd w)) wanted) \<Longrightarrow>
    fst (live_all ttl now platform wanted c) = concat (map (shown_live now platform c) wanted)"
proof (induction wanted arbitrary: c)
  case (Cons w wanted)
  obtain u r where w: "w = (u, r)" by (cases w)
  define c1 where "c1 = snd (live_one ttl now platform (rg_channel_id r) c)"
  have "shown_live now platform c1 w' = shown_live now platform c w'" if "w' \<in> set wanted" for w'
  proof -
    have "rg_channel_id (snd w') \<noteq> rg_channel_id r" using Cons.prems that w by force
    then show ?thesis unfolding c1_def by (simp add: shown_live_def live_one_others)
  qed
  then have "map (shown_live now platform c1) wanted = map (shown_live now platform c) wanted"
    by (intro map_cong) auto
  moreover have "fst (live_all ttl now platform wanted c1) = concat (map (shown_live now platform c1) wanted)"
    using Cons by simp
  ultimately have rest: "fst (live_all ttl now platform wanted c1) = concat (map (shown_live now platform c) wanted)" by (simp only:)
  show ?case
    using rest [unfolded c1_def]
    by (simp add: w shown_live_def [of _ _ _ "(u, r)"] split_beta live_one_status split: option.split)
qed simp

lemma channel_ids_distinct:
  assumes "streaming_ok s"
  shows "distinct (map sw_channel_id (ss_rows s))"
proof -
  have "map channel_key (ss_rows s) = map (Pair chzzk) (map sw_channel_id (ss_rows s))"
    using assms by (simp add: streaming_ok_def channel_key_def)
  then have "distinct (map (Pair chzzk) (map sw_channel_id (ss_rows s)))"
    using assms unfolding streaming_ok_def streams_ok_def by metis
  then show ?thesis by (simp only: distinct_map)
qed

lemma live_for_found:
  assumes ok: "streaming_ok s" and names: "distinct (map (\<lambda>r. casefold (sw_username r)) (ss_rows s))"
  shows "\<exists>found s'. live_for ttl live_ttl npids now True platform s = (Inr found, s') \<and>
    ((u, h, b) \<in> set found \<longleftrightarrow> (\<exists>r\<in>set (ss_rows s). u = casefold (sw_username r) \<and> u \<in> casefold ` set npids \<and>
      h = stream_head_of (registered_of r) \<and> status_of now platform (ss_live s) (sw_channel_id r) = Some b))"
proof (cases "npids = []")
  case True
  then show ?thesis by (simp add: live_for_def)
next
  case False
  obtain r s1 where reg: "registered_channels ttl now True s = (r, s1)" by (cases "registered_channels ttl now True s")
  have s1: "r = Inr (table_of (ss_rows s))" "ss_live s1 = ss_live s"
    using registered_channels_ok(3,4) [OF ok] reg by (metis fst_conv snd_conv)+
  define wanted where "wanted = filter (\<lambda>(username, _). username \<in> set (map casefold npids)) (table_of (ss_rows s))"
  have w: "set wanted = (\<lambda>r. (casefold (sw_username r), registered_of r)) `
      {r \<in> set (ss_rows s). casefold (sw_username r) \<in> casefold ` set npids}"
    unfolding wanted_def table_rows [OF names] by (simp add: filter_map comp_def)
  have "distinct (map (\<lambda>w. rg_channel_id (snd w)) (table_of (ss_rows s)))"
    unfolding table_rows [OF names] using channel_ids_distinct [OF ok]
    by (simp add: comp_def registered_of_def distinct_map)
  then have "distinct (map (\<lambda>w. rg_channel_id (snd w)) wanted)" unfolding wanted_def by (rule distinct_map_filter)
  note found = live_all_found [OF this, of live_ttl now platform "ss_live s"]
  let ?f = "fst (live_all live_ttl now platform wanted (ss_live s))"
  have "(u, h, b) \<in> set ?f \<longleftrightarrow> (\<exists>r\<in>set (ss_rows s). u = casefold (sw_username r) \<and> u \<in> casefold ` set npids \<and>
      h = stream_head_of (registered_of r) \<and> status_of now platform (ss_live s) (sw_channel_id r) = Some b)"
    unfolding found by (simp add: w mem_shown_live Bex_def registered_of_def) blast
  then show ?thesis
    using False by (auto simp: live_for_def reg s1 wanted_def split: prod.split)
qed

section \<open>Properties\<close>



abbreviation demo_id :: string where "demo_id \<equiv> ''0123456789abcdef0123456789abcdef''"

abbreviation demo_channel :: "string \<Rightarrow> platform_error + platform_channel option" where
  "demo_channel \<equiv> \<lambda>i. Inr (Some \<lparr>pl_channel_id = i, pl_channel_name = ''Kim TV''\<rparr>)"

abbreviation demo_registered :: streaming where
  "demo_registered \<equiv> run_streaming 300 30 [Register ''Kim'' (chzzk_live_url demo_id) demo_channel 5]"


text \<open>Asked about some players, the service shows exactly those who have a channel registered now and whose channel
  is on air, each with that channel and its broadcast: a status checked less than its time to live ago is
  used again, and a channel whose check fails is offline and hides nobody else.\<close>

theorem live_marks_exact:
  assumes "s = run_streaming ttl live_ttl calls" and "distinct (map (\<lambda>r. casefold (sw_username r)) (ss_rows s))"
  shows "(u, h, b) \<in> set (fst (live_or_empty ttl live_ttl npids now True platform s)) \<longleftrightarrow>
    (\<exists>r\<in>set (ss_rows s). u = casefold (sw_username r) \<and> u \<in> casefold ` set npids \<and> h = stream_head_of (registered_of r) \<and>
      (case fst (dict_get (live_key (sw_channel_id r)) now (ss_live s)) of
         Some found \<Rightarrow> found = Some b
       | None \<Rightarrow> (case platform (sw_channel_id r) of
           Inl _ \<Rightarrow> False | Inr None \<Rightarrow> False | Inr (Some broadcast) \<Rightarrow> b = (lv_title broadcast, lv_viewer_count broadcast))))"
proof -
  have ok: "streaming_ok s" unfolding assms(1) by (rule run_streaming_ok)
  have st: "status_of now platform (ss_live s) i = Some b \<longleftrightarrow> (case fst (dict_get (live_key i) now (ss_live s)) of
      Some found \<Rightarrow> found = Some b
    | None \<Rightarrow> (case platform i of
        Inl _ \<Rightarrow> False | Inr None \<Rightarrow> False | Inr (Some broadcast) \<Rightarrow> b = (lv_title broadcast, lv_viewer_count broadcast)))" for i
    by (auto simp: status_of_def on_air_of_def split: option.split sum.split platform_error.split)
  obtain found s' where "live_for ttl live_ttl npids now True platform s = (Inr found, s')"
    "(u, h, b) \<in> set found \<longleftrightarrow> (\<exists>r\<in>set (ss_rows s). u = casefold (sw_username r) \<and> u \<in> casefold ` set npids \<and>
      h = stream_head_of (registered_of r) \<and> status_of now platform (ss_live s) (sw_channel_id r) = Some b)"
    using live_for_found [OF ok assms(2)] by blast
  then show ?thesis by (simp add: live_or_empty_def st)
qed

theorem live_marks_exact_witness:
  "(''kim'', stream_head_of \<lparr>rg_platform = chzzk, rg_channel_id = demo_id, rg_channel_name = ''Kim TV''\<rparr>, (''ranked'', 7))
    \<in> set (fst (live_or_empty 300 30 [''KIM''] 50 True
        (\<lambda>_. Inr (Some \<lparr>lv_title = ''ranked'', lv_viewer_count = 7, lv_category = ''TTT2''\<rparr>)) demo_registered))"
proof -
  have rows: "ss_rows demo_registered = [\<lparr>sw_username = ''Kim'', sw_platform = chzzk, sw_channel_id = demo_id,
      sw_channel_name = ''Kim TV'', sw_created_at = 5, sw_updated_at = 5\<rparr>]"
    and miss: "fst (dict_get (live_key demo_id) 50 (ss_live demo_registered)) = None"
    by code_simp+
  have "casefold ''Kim'' = ''kim''" "casefold ''KIM'' = ''kim''" by code_simp+
  then show ?thesis
    by (subst live_marks_exact [OF refl]) (simp_all add: rows miss registered_of_def)
qed

text \<open>The channel id is taken from whatever is pasted: it is the first of the text's longest runs of hex digits that
  has exactly 32, in any case and between any spaces; the link the site shows of a channel is read back as that
  channel, and so is the bare id.\<close>

theorem channel_link_roundtrip:
  assumes "is_channel_id i"
  shows "parse_chzzk_channel_id (chzzk_live_url i) = Some i \<and> parse_chzzk_channel_id i = Some i \<and>
    parse_chzzk_channel_id pasted = find (\<lambda>r. length r = 32) (hex_runs (casefold (strip pasted)))"
  by (simp add: parse_live_url [OF assms] parse_id [OF assms] parse_chzzk_channel_id_def [of pasted] search_id_runs)

theorem channel_link_roundtrip_witness:
  "parse_chzzk_channel_id (chzzk_live_url demo_id) = Some demo_id"
proof -
  have "is_channel_id demo_id" by code_simp
  then show ?thesis using channel_link_roundtrip by blast
qed

end
