(* ===== verification/Popup.thy ===== *)
theory Popup
  imports Errors Cached_View "HOL-Library.Word"
begin

text \<open>
  \<open>src/popup/\<close>: what a popup may hold (\<open>domain.py\<close>, the form of \<open>dependencies.py\<close>), the table
  (\<open>adapters/postgresql.py\<close>), and the service with its cached list of active popups.  SHA-256 in hex is a
  parameter.
\<close>

section \<open>Images\<close>

type_synonym octet = "8 word"

definition max_title_length :: nat where "max_title_length = 100"
definition max_body_length :: nat where "max_body_length = 2000"
definition max_image_bytes :: nat where "max_image_bytes = 5 * 1024 * 1024"
definition hash_length :: nat where "hash_length = 16"

datatype image_type = PNG | JPEG | GIF | WEBP

definition png_magic :: "octet list" where "png_magic = [0x89, 0x50, 0x4E, 0x47, 0x0D, 0x0A, 0x1A, 0x0A]"
definition jpeg_magic :: "octet list" where "jpeg_magic = [0xFF, 0xD8, 0xFF]"
definition gif_magics :: "octet list list" where
  "gif_magics = [[0x47, 0x49, 0x46, 0x38, 0x37, 0x61], [0x47, 0x49, 0x46, 0x38, 0x39, 0x61]]"
definition riff :: "octet list" where "riff = [0x52, 0x49, 0x46, 0x46]"
definition webp :: "octet list" where "webp = [0x57, 0x45, 0x42, 0x50]"

definition sniff :: "octet list \<Rightarrow> image_type option" where
  "sniff data =
     (if take (length png_magic) data = png_magic then Some PNG
      else if take (length jpeg_magic) data = jpeg_magic then Some JPEG
      else if take 6 data \<in> set gif_magics then Some GIF
      else if take 4 data = riff \<and> take 4 (drop 8 data) = webp then Some WEBP
      else None)"

record popup_image =
  im_data :: "octet list"
  im_type :: image_type
  im_hash :: string

datatype popup_error = Image_Too_Large | Image_Type_Refused | Popup_Not_Found

fun popup_base :: "popup_error \<Rightarrow> domain_error" where
  "popup_base Image_Too_Large = ValidationError"
| "popup_base Image_Type_Refused = ValidationError"
| "popup_base Popup_Not_Found = NotFoundError"

definition parse_image :: "(octet list \<Rightarrow> string) \<Rightarrow> octet list \<Rightarrow> popup_error + popup_image" where
  "parse_image sha256 data =
     (if length data > max_image_bytes then Inl Image_Too_Large
      else case sniff data of
        None \<Rightarrow> Inl Image_Type_Refused
      | Some t \<Rightarrow> Inr \<lparr>im_data = data, im_type = t, im_hash = take hash_length (sha256 data)\<rparr>)"

text \<open>\<open>image.read(MAX_IMAGE_BYTES + 1)\<close>\<close>

definition uploaded_image :: "octet list option \<Rightarrow> octet list option" where
  "uploaded_image file = map_option (take (max_image_bytes + 1)) file"

section \<open>The form\<close>

record popup_content =
  ct_title :: string
  ct_body :: string
  ct_dismiss_forever :: bool
  ct_dismiss_day :: bool
  ct_active :: bool

fun unix_lines :: "string \<Rightarrow> string" where
  "unix_lines (c # d # cs) = (if c = CHR 0x0D \<and> d = CHR 0x0A then CHR 0x0A # unix_lines cs else c # unix_lines (d # cs))"
| "unix_lines cs = cs"

definition popup_body :: "string \<Rightarrow> string option" where
  "popup_body written = (let body = strip (unix_lines written) in if length body > max_body_length then None else Some body)"

definition popup_content_form :: "string \<Rightarrow> string \<Rightarrow> bool \<Rightarrow> bool \<Rightarrow> bool \<Rightarrow> popup_content option" where
  "popup_content_form title body dismiss_forever dismiss_day active =
     (let t = strip title in
      if length t < 1 \<or> length t > max_title_length then None
      else case popup_body body of
        None \<Rightarrow> None
      | Some b \<Rightarrow> Some \<lparr>ct_title = t, ct_body = b, ct_dismiss_forever = dismiss_forever, ct_dismiss_day = dismiss_day, ct_active = active\<rparr>)"

section \<open>The table\<close>

record popup_row =
  pw_id :: nat
  pw_content :: popup_content
  pw_image :: "octet list option"
  pw_image_type :: "image_type option"
  pw_image_hash :: "string option"
  pw_created_by :: string
  pw_created_at :: instant
  pw_updated_at :: instant

record popup =
  pp_id :: nat
  pp_content :: popup_content
  pp_image_hash :: "string option"
  pp_created_by :: string
  pp_created_at :: instant
  pp_updated_at :: instant

record popup_db =
  popups :: "popup_row list"
  next_popup_id :: nat

definition empty_popup_db :: popup_db where
  "empty_popup_db = \<lparr>popups = [], next_popup_id = 1\<rparr>"

definition to_popup :: "popup_row \<Rightarrow> popup" where
  "to_popup row = \<lparr>pp_id = pw_id row, pp_content = pw_content row, pp_image_hash = pw_image_hash row,
     pp_created_by = pw_created_by row, pp_created_at = pw_created_at row, pp_updated_at = pw_updated_at row\<rparr>"

definition image_values :: "popup_image option \<Rightarrow> popup_row \<Rightarrow> popup_row" where
  "image_values img row = row\<lparr>pw_image := map_option im_data img, pw_image_type := map_option im_type img,
     pw_image_hash := map_option im_hash img\<rparr>"

definition list_popups :: "bool \<Rightarrow> popup_db \<Rightarrow> popup list" where
  "list_popups active_only db =
     map to_popup (sort_key (\<lambda>r. - int (pw_id r)) (filter (\<lambda>r. \<not> active_only \<or> ct_active (pw_content r)) (popups db)))"

definition popup_get_image :: "nat \<Rightarrow> popup_db \<Rightarrow> popup_image option" where
  "popup_get_image i db = (case find (\<lambda>r. pw_id r = i \<and> pw_image r \<noteq> None) (popups db) of
     None \<Rightarrow> None
   | Some r \<Rightarrow> Some \<lparr>im_data = the (pw_image r), im_type = the (pw_image_type r), im_hash = the (pw_image_hash r)\<rparr>)"

definition popup_create :: "instant \<Rightarrow> popup_content \<Rightarrow> popup_image option \<Rightarrow> string \<Rightarrow> popup_db \<Rightarrow> popup \<times> popup_db" where
  "popup_create dbnow content img created_by db =
     (let row = image_values img \<lparr>pw_id = next_popup_id db, pw_content = content, pw_image = None, pw_image_type = None,
            pw_image_hash = None, pw_created_by = created_by, pw_created_at = dbnow, pw_updated_at = dbnow\<rparr>
      in (to_popup row, \<lparr>popups = popups db @ [row], next_popup_id = Suc (next_popup_id db)\<rparr>))"

definition updated_popup :: "instant \<Rightarrow> popup_content \<Rightarrow> popup_image option \<Rightarrow> bool \<Rightarrow> popup_row \<Rightarrow> popup_row" where
  "updated_popup dbnow content img remove_image row =
     (let row1 = row\<lparr>pw_content := content, pw_updated_at := dbnow\<rparr>
      in if img \<noteq> None \<or> remove_image then image_values img row1 else row1)"

definition popup_update ::
  "instant \<Rightarrow> nat \<Rightarrow> popup_content \<Rightarrow> popup_image option \<Rightarrow> bool \<Rightarrow> popup_db \<Rightarrow> popup option \<times> popup_db" where
  "popup_update dbnow i content img remove_image db =
     (let f = updated_popup dbnow content img remove_image in
      (map_option (\<lambda>r. to_popup (f r)) (find (\<lambda>r. pw_id r = i) (popups db)),
       db\<lparr>popups := update_where (\<lambda>r. pw_id r = i) f (popups db)\<rparr>))"

definition popup_delete :: "nat \<Rightarrow> popup_db \<Rightarrow> bool \<times> popup_db" where
  "popup_delete i db = (list_ex (\<lambda>r. pw_id r = i) (popups db), db\<lparr>popups := filter (\<lambda>r. pw_id r \<noteq> i) (popups db)\<rparr>)"

section \<open>The service\<close>

record popup_out =
  po_out_id :: nat
  po_out_title :: string
  po_out_body :: string
  po_out_image_path :: "string option"
  po_out_dismiss_forever :: bool
  po_out_dismiss_day :: bool

definition popup_out_of :: "popup \<Rightarrow> popup_out" where
  "popup_out_of p = \<lparr>po_out_id = pp_id p, po_out_title = ct_title (pp_content p), po_out_body = ct_body (pp_content p),
     po_out_image_path = (case pp_image_hash p of
        None \<Rightarrow> None
      | Some h \<Rightarrow> if h = [] then None else Some (''popups/'' @ decimal (pp_id p) @ ''/image?v='' @ h)),
     po_out_dismiss_forever = ct_dismiss_forever (pp_content p), po_out_dismiss_day = ct_dismiss_day (pp_content p)\<rparr>"

text \<open>An admin sees the visitor's answer and the rest of the row.\<close>

definition admin_popup_out_of :: "popup \<Rightarrow> popup_out \<times> bool \<times> string \<times> instant \<times> instant" where
  "admin_popup_out_of p = (popup_out_of p, ct_active (pp_content p), pp_created_by p, pp_created_at p, pp_updated_at p)"

record popup_state =
  pst_db :: popup_db
  pst_active :: "popup_out list dict_cache"

definition empty_popup_state :: popup_state where
  "empty_popup_state = \<lparr>pst_db = empty_popup_db, pst_active = Map.empty\<rparr>"

definition active_key :: string where "active_key = ''popups:active''"

definition active_popups :: "popup_db \<Rightarrow> popup_out list" where
  "active_popups db = map popup_out_of (list_popups True db)"

definition list_active :: "int \<Rightarrow> instant \<Rightarrow> popup_state \<Rightarrow> popup_out list \<times> popup_state" where
  "list_active ttl now s =
     (let (cached, c1) = dict_get active_key now (pst_active s) in
      case cached of
        Some active \<Rightarrow> (active, s\<lparr>pst_active := c1\<rparr>)
      | None \<Rightarrow> let active = active_popups (pst_db s)
          in (active, s\<lparr>pst_active := dict_set active_key active ttl now c1\<rparr>))"

definition get_image :: "nat \<Rightarrow> popup_state \<Rightarrow> popup_error + popup_image" where
  "get_image i s = (case popup_get_image i (pst_db s) of None \<Rightarrow> Inl Popup_Not_Found | Some img \<Rightarrow> Inr img)"

definition list_all_popups :: "popup_state \<Rightarrow> (popup_out \<times> bool \<times> string \<times> instant \<times> instant) list" where
  "list_all_popups s = map admin_popup_out_of (list_popups False (pst_db s))"

definition drop_active :: "popup_state \<Rightarrow> popup_state" where
  "drop_active s = s\<lparr>pst_active := dict_delete active_key (pst_active s)\<rparr>"

definition parse_upload :: "(octet list \<Rightarrow> string) \<Rightarrow> octet list option \<Rightarrow> popup_error + popup_image option" where
  "parse_upload sha256 image_data =
     (case image_data of None \<Rightarrow> Inr None | Some data \<Rightarrow> bindR (parse_image sha256 data) (\<lambda>img. Inr (Some img)))"

definition create_popup ::
  "(octet list \<Rightarrow> string) \<Rightarrow> instant \<Rightarrow> string \<Rightarrow> popup_content \<Rightarrow> octet list option \<Rightarrow> popup_state \<Rightarrow>
     (popup_error + popup_out \<times> bool \<times> string \<times> instant \<times> instant) \<times> popup_state" where
  "create_popup sha256 dbnow admin content image_data s =
     (case parse_upload sha256 image_data of
        Inl e \<Rightarrow> (Inl e, s)
      | Inr img \<Rightarrow>
          let (p, db) = popup_create dbnow content img admin (pst_db s)
          in (Inr (admin_popup_out_of p), drop_active (s\<lparr>pst_db := db\<rparr>)))"

definition update_popup ::
  "(octet list \<Rightarrow> string) \<Rightarrow> instant \<Rightarrow> nat \<Rightarrow> popup_content \<Rightarrow> octet list option \<Rightarrow> bool \<Rightarrow> popup_state \<Rightarrow>
     (popup_error + popup_out \<times> bool \<times> string \<times> instant \<times> instant) \<times> popup_state" where
  "update_popup sha256 dbnow i content image_data remove_image s =
     (case parse_upload sha256 image_data of
        Inl e \<Rightarrow> (Inl e, s)
      | Inr img \<Rightarrow>
          let (found, db) = popup_update dbnow i content img remove_image (pst_db s)
          in case found of
               None \<Rightarrow> (Inl Popup_Not_Found, s\<lparr>pst_db := db\<rparr>)
             | Some p \<Rightarrow> (Inr (admin_popup_out_of p), drop_active (s\<lparr>pst_db := db\<rparr>)))"

definition delete_popup :: "nat \<Rightarrow> popup_state \<Rightarrow> (popup_error + unit) \<times> popup_state" where
  "delete_popup i s =
     (let (deleted, db) = popup_delete i (pst_db s) in
      if \<not> deleted then (Inl Popup_Not_Found, s\<lparr>pst_db := db\<rparr>) else (Inr (), drop_active (s\<lparr>pst_db := db\<rparr>)))"

end
