(* ===== verification/Popup_Service.thy ===== *)
theory Popup_Service
  imports Popup "HOL-Library.Multiset"
begin

text \<open>
  The routes of \<open>src/popup/router.py\<close> as runs of calls on the service of \<open>Popup\<close>, what holds after any of
  them, and what visitors and admins are then shown.  A form is parsed before its route runs, so a form or a
  path that is refused changes nothing (FastAPI answers 422).
\<close>

section \<open>Calls\<close>

definition popup_id_ok :: "int \<Rightarrow> bool" where
  "popup_id_ok i \<longleftrightarrow> 1 \<le> i \<and> i \<le> 2 ^ 63 - 1"

record popup_form =
  pf_title :: string
  pf_body :: string
  pf_forever :: bool
  pf_day :: bool
  pf_active :: bool
  pf_image :: "octet list option"

definition form_content :: "popup_form \<Rightarrow> popup_content option" where
  "form_content f = popup_content_form (pf_title f) (pf_body f) (pf_forever f) (pf_day f) (pf_active f)"

datatype popup_call =
    Show_Active instant
  | Post_Popup instant string popup_form
  | Put_Popup instant int popup_form bool
  | Delete_Popup int

fun popup_call_step :: "(octet list \<Rightarrow> string) \<Rightarrow> int \<Rightarrow> popup_call \<Rightarrow> popup_state \<Rightarrow> popup_state" where
  "popup_call_step sha256 ttl (Show_Active now) s = snd (list_active ttl now s)"
| "popup_call_step sha256 ttl (Post_Popup dbnow admin f) s =
     (case form_content f of
        None \<Rightarrow> s
      | Some content \<Rightarrow> snd (create_popup sha256 dbnow admin content (uploaded_image (pf_image f)) s))"
| "popup_call_step sha256 ttl (Put_Popup dbnow i f remove_image) s =
     (case form_content f of
        None \<Rightarrow> s
      | Some content \<Rightarrow>
          if popup_id_ok i then snd (update_popup sha256 dbnow (nat i) content (uploaded_image (pf_image f)) remove_image s) else s)"
| "popup_call_step sha256 ttl (Delete_Popup i) s = (if popup_id_ok i then snd (delete_popup (nat i) s) else s)"

definition run_popups :: "(octet list \<Rightarrow> string) \<Rightarrow> int \<Rightarrow> popup_call list \<Rightarrow> popup_state" where
  "run_popups sha256 ttl calls = fold (popup_call_step sha256 ttl) calls empty_popup_state"

section \<open>What holds of a popup\<close>

definition content_ok :: "popup_content \<Rightarrow> bool" where
  "content_ok c \<longleftrightarrow> 1 \<le> length (ct_title c) \<and> length (ct_title c) \<le> max_title_length \<and> length (ct_body c) \<le> max_body_length \<and>
     strip (ct_title c) = ct_title c \<and> strip (ct_body c) = ct_body c"

definition popup_image_ok :: "(octet list \<Rightarrow> string) \<Rightarrow> popup_row \<Rightarrow> bool" where
  "popup_image_ok sha256 r \<longleftrightarrow>
     (\<exists>img. (img = None \<or> (\<exists>i. img = Some i \<and> parse_image sha256 (im_data i) = Inr i)) \<and>
        pw_image r = map_option im_data img \<and> pw_image_type r = map_option im_type img \<and> pw_image_hash r = map_option im_hash img)"

definition popup_db_ok :: "(octet list \<Rightarrow> string) \<Rightarrow> popup_db \<Rightarrow> bool" where
  "popup_db_ok sha256 db \<longleftrightarrow> distinct (map pw_id (popups db)) \<and>
     (\<forall>r\<in>set (popups db). 1 \<le> pw_id r \<and> pw_id r < next_popup_id db \<and> content_ok (pw_content r) \<and> popup_image_ok sha256 r) \<and>
     1 \<le> next_popup_id db"

interpretation cached_active: cached_view dict_get dict_set dict_delete dict_delete_pattern
    "\<lambda>_ :: unit. active_key" "\<lambda>_ db. Inr (active_popups db) :: unit + popup_out list"
  by unfold_locales (auto dest: dict_get_forgets)

definition popup_state_ok :: "(octet list \<Rightarrow> string) \<Rightarrow> popup_state \<Rightarrow> bool" where
  "popup_state_ok sha256 s \<longleftrightarrow> popup_db_ok sha256 (pst_db s) \<and> cached_active.coherent (pst_db s) (pst_active s)"

lemma strip_strip: "strip (strip s) = strip s"
proof -
  define u where "u = dropWhile is_space s"
  have t: "strip s = rev (dropWhile is_space (rev u))" by (simp add: strip_def u_def)
  have "u = strip s @ rev (takeWhile is_space (rev u))"
    unfolding t by (metis rev_append rev_rev_ident takeWhile_dropWhile_id)
  then have "strip s \<noteq> [] \<Longrightarrow> hd u = hd (strip s)" "strip s \<noteq> [] \<Longrightarrow> u \<noteq> []" by (metis hd_append2, force)
  then have first: "strip s \<noteq> [] \<Longrightarrow> \<not> is_space (hd (strip s))"
    using hd_dropWhile [of is_space s] unfolding u_def by metis
  have "strip s \<noteq> [] \<Longrightarrow> \<not> is_space (last (strip s))"
    unfolding t using hd_dropWhile [of is_space "rev u"] by (simp add: last_rev)
  with first have "dropWhile is_space (strip s) = strip s" "dropWhile is_space (rev (strip s)) = rev (strip s)"
    by (auto simp: dropWhile_eq_self_iff hd_rev)
  then show ?thesis by (simp add: strip_def)
qed

lemma form_content_ok: "form_content f = Some c \<Longrightarrow> content_ok c"
  by (auto simp: form_content_def popup_content_form_def popup_body_def content_ok_def Let_def strip_strip Suc_le_eq
    split: if_splits option.splits)

lemma parse_image_data: "parse_image sha256 data = Inr i \<Longrightarrow> im_data i = data"
  by (auto simp: parse_image_def split: if_splits option.splits)

lemma parse_upload_img:
  "parse_upload sha256 up = Inr img \<Longrightarrow> img = None \<or> (\<exists>i. img = Some i \<and> parse_image sha256 (im_data i) = Inr i)"
  using parse_image_data by (fastforce simp: parse_upload_def split: option.splits)

lemma image_values_ok:
  assumes "parse_upload sha256 up = Inr img"
  shows "popup_image_ok sha256 (image_values img r)"
  unfolding popup_image_ok_def
  by (rule exI [of _ img]) (simp add: image_values_def parse_upload_img [OF assms])

lemma image_values_frame [simp]:
  "pw_id (image_values img r) = pw_id r" "pw_content (image_values img r) = pw_content r"
  by (simp_all add: image_values_def)

lemma updated_popup_frame [simp]:
  "pw_id (updated_popup t c img rm r) = pw_id r" "pw_content (updated_popup t c img rm r) = c"
  by (simp_all add: updated_popup_def Let_def)

lemma updated_popup_image_ok:
  "parse_upload sha256 up = Inr img \<Longrightarrow> popup_image_ok sha256 r \<Longrightarrow> popup_image_ok sha256 (updated_popup t c img rm r)"
  by (auto simp: updated_popup_def Let_def image_values_ok) (auto simp: popup_image_ok_def)

lemma popup_create_ok:
  assumes ok: "popup_db_ok sha256 db" and img: "parse_upload sha256 up = Inr img" and c: "content_ok c"
  shows "popup_db_ok sha256 (snd (popup_create t c img who db))"
proof -
  have "\<And>r. r \<in> set (popups db) \<Longrightarrow> pw_id r \<noteq> next_popup_id db" using ok by (auto simp: popup_db_ok_def)
  then show ?thesis using ok c image_values_ok [OF img]
    by (auto simp: popup_db_ok_def popup_create_def Let_def)
qed

lemma popup_update_ok:
  assumes ok: "popup_db_ok sha256 db" and img: "parse_upload sha256 up = Inr img" and c: "content_ok c"
  shows "popup_db_ok sha256 (snd (popup_update t i c img rm db))"
  using ok c updated_popup_image_ok [OF img]
  by (auto simp: popup_db_ok_def popup_update_def Let_def map_update_where_frame set_update_where)

lemma popup_delete_ok: "popup_db_ok sha256 db \<Longrightarrow> popup_db_ok sha256 (snd (popup_delete i db))"
  by (auto simp: popup_db_ok_def popup_delete_def distinct_map_filter)

lemma popup_update_none:
  assumes "fst (popup_update t i c img rm db) = None"
  shows "snd (popup_update t i c img rm db) = db"
proof -
  have "\<forall>r\<in>set (popups db). pw_id r \<noteq> i" using assms by (simp add: popup_update_def Let_def find_eq_None)
  then have "update_where (\<lambda>r. pw_id r = i) f (popups db) = popups db" for f
    by (simp add: update_where_def map_idI)
  then show ?thesis by (simp add: popup_update_def Let_def)
qed

lemma popup_delete_none: "\<not> fst (popup_delete i db) \<Longrightarrow> snd (popup_delete i db) = db"
  by (cases db) (auto simp: popup_delete_def list_ex_iff)

lemma drop_active_ok:
  "popup_state_ok sha256 s \<Longrightarrow> popup_db_ok sha256 db \<Longrightarrow> popup_state_ok sha256 (drop_active (s\<lparr>pst_db := db\<rparr>))"
  using cached_active.write_coherent [of "pst_db s" "pst_active s" "()" db]
  by (simp add: popup_state_ok_def drop_active_def)

lemma list_active_read:
  "list_active ttl now s =
    (let (r, c) = read_through dict_get dict_set (\<lambda>_. True) active_key ttl now (Inr (active_popups (pst_db s)) :: unit + popup_out list) (pst_active s)
     in (projr r, s\<lparr>pst_active := c\<rparr>))"
  by (simp add: list_active_def dict.read_cases split_beta Let_def split: option.split)

lemma list_active_ok:
  assumes "popup_state_ok sha256 s"
  shows "fst (list_active ttl now s) = active_popups (pst_db s)" and "popup_state_ok sha256 (snd (list_active ttl now s))"
  using assms cached_active.read_stored [of "pst_db s" "pst_active s" "\<lambda>_. True" ttl now]
  by (simp_all add: list_active_read split_beta popup_state_ok_def)

lemma popup_call_ok: "popup_state_ok sha256 s \<Longrightarrow> popup_state_ok sha256 (popup_call_step sha256 ttl call s)"
proof (cases call)
  case (Show_Active now)
  assume "popup_state_ok sha256 s"
  then show ?thesis using Show_Active list_active_ok by simp
next
  case (Post_Popup t who f)
  assume ok: "popup_state_ok sha256 s"
  then show ?thesis using Post_Popup drop_active_ok [OF ok] popup_create_ok [of sha256 "pst_db s"]
    by (auto simp: create_popup_def split_beta popup_state_ok_def dest: form_content_ok split: option.split sum.split)
next
  case (Put_Popup t i f rm)
  assume ok: "popup_state_ok sha256 s"
  have db: "popup_db_ok sha256 (pst_db s)" using ok by (simp add: popup_state_ok_def)
  show ?thesis
  proof (cases "form_content f")
    case (Some c)
    have upd: "popup_state_ok sha256 (snd (update_popup sha256 t (nat i) c up rm s))" for up
      using ok drop_active_ok [OF ok popup_update_ok [OF db _ form_content_ok [OF Some]]]
      by (auto simp: update_popup_def split_beta popup_update_none split: option.split sum.split)
    then show ?thesis using Put_Popup Some ok by simp
  qed (use Put_Popup ok in simp)
next
  case (Delete_Popup i)
  assume ok: "popup_state_ok sha256 s"
  then show ?thesis using Delete_Popup drop_active_ok [OF ok] popup_delete_ok [of sha256 "pst_db s"]
    by (auto simp: delete_popup_def split_beta popup_delete_none popup_state_ok_def)
qed

lemma run_popups_ok: "popup_state_ok sha256 (run_popups sha256 ttl calls)"
proof -
  have "popup_state_ok sha256 s \<Longrightarrow> popup_state_ok sha256 (fold (popup_call_step sha256 ttl) calls s)" for s
    by (induction calls arbitrary: s) (simp_all add: popup_call_ok)
  moreover have "popup_state_ok sha256 empty_popup_state"
    by (auto simp: popup_state_ok_def empty_popup_state_def popup_db_ok_def empty_popup_db_def dict_get_def intro: cached_active.coherent_empty)
  ultimately show ?thesis by (simp add: run_popups_def)
qed

section \<open>What is shown\<close>

text \<open>Reading one byte past the limit judges an upload as the whole of it would be judged.\<close>

lemma upload_truncation: "parse_upload sha256 (uploaded_image up) = parse_upload sha256 up"
proof (cases up)
  case (Some data)
  show ?thesis
    by (cases "length data \<le> max_image_bytes") (simp_all add: Some parse_upload_def uploaded_image_def parse_image_def)
qed (simp add: uploaded_image_def)

lemma parse_image_Inr:
  "parse_image sha256 data = Inr i \<longleftrightarrow>
    length data \<le> max_image_bytes \<and> im_data i = data \<and> sniff data = Some (im_type i) \<and> im_hash i = take hash_length (sha256 data)"
  by (cases i) (auto simp: parse_image_def split: option.splits)

definition row_image :: "popup_row \<Rightarrow> popup_image option" where
  "row_image r = map_option (\<lambda>d. \<lparr>im_data = d, im_type = the (pw_image_type r), im_hash = the (pw_image_hash r)\<rparr>) (pw_image r)"

lemma row_image_updated:
  "row_image (updated_popup t c img rm r) = (case img of Some i \<Rightarrow> Some i | None \<Rightarrow> if rm then None else row_image r)"
  by (cases img; cases rm) (simp_all add: row_image_def updated_popup_def image_values_def)

lemma newest_first: "distinct (map pw_id rows) \<Longrightarrow> sort_key (\<lambda>r. - int (pw_id r)) rows = rev (sort_key pw_id rows)"
proof (rule sort_key_inj_key_eq)
  assume "distinct (map pw_id rows)"
  then show "inj_on (\<lambda>r. - int (pw_id r)) (set rows)" by (auto simp: distinct_map inj_on_def)
  have "sorted_wrt (\<lambda>a b. pw_id a \<le> pw_id b) (sort_key pw_id rows)"
    using sorted_sort_key [of pw_id rows] by (simp add: sorted_wrt_map)
  then show "sorted (map (\<lambda>r. - int (pw_id r)) (rev (sort_key pw_id rows)))"
    by (simp add: sorted_wrt_map sorted_wrt_rev)
qed simp

lemma find_key_and:
  "distinct (map k rows) \<Longrightarrow> r \<in> set rows \<Longrightarrow> find (\<lambda>x. k x = k r \<and> P x) rows = (if P r then Some r else None)"
  by (induction rows) (auto simp: find_eq_None rev_image_eqI)

lemma get_image_row:
  assumes ok: "popup_state_ok sha256 s" and r: "r \<in> set (popups (pst_db s))"
  shows "get_image (pw_id r) s = (case row_image r of None \<Rightarrow> Inl Popup_Not_Found | Some i \<Rightarrow> Inr i)"
proof -
  have "distinct (map pw_id (popups (pst_db s)))" using ok by (simp add: popup_state_ok_def popup_db_ok_def)
  from find_key_and [OF this r, of "\<lambda>x. pw_image x \<noteq> None"]
  have "find (\<lambda>x. pw_id x = pw_id r \<and> pw_image x \<noteq> None) (popups (pst_db s)) = (if pw_image r = None then None else Some r)"
    by simp
  then show ?thesis by (simp add: get_image_def popup_get_image_def row_image_def split: option.split)
qed

lemma get_image_valid:
  assumes ok: "popup_state_ok sha256 s" and r: "r \<in> set (popups (pst_db s))" and img: "get_image (pw_id r) s = Inr img"
  shows "parse_image sha256 (im_data img) = Inr img" and "pw_image_hash r = Some (im_hash img)"
proof -
  have "popup_image_ok sha256 r" using ok r by (simp add: popup_state_ok_def popup_db_ok_def)
  then obtain i where i: "pw_image r = map_option im_data i" "pw_image_type r = map_option im_type i"
    "pw_image_hash r = map_option im_hash i" "i = None \<or> (\<exists>j. i = Some j \<and> parse_image sha256 (im_data j) = Inr j)"
    by (auto simp: popup_image_ok_def)
  moreover have "img = the i" "i \<noteq> None"
    using img get_image_row [OF ok r] i(1-3) by (cases i; auto simp: row_image_def)+
  ultimately show "parse_image sha256 (im_data img) = Inr img" "pw_image_hash r = Some (im_hash img)" by auto
qed

text \<open>C18: After any calls a popup has a title of 1 to 100 characters and a body of at most 2000 with no spaces around
  them, and the image it is shown with, when it has one, has at most 5 MiB, is of the type that its first bytes
  prove, and is addressed by the popup's number and the first 16 digits of the image's hash, so the address changes
  with the hash; a popup without an image has no address.  An upload is judged by its first 5 MiB and one byte exactly as
  the whole of it would be.\<close>

theorem popups_within_bounds:
  assumes "\<And>data. length (sha256 data) = 64"
    and "s = run_popups sha256 ttl calls" and "r \<in> set (popups (pst_db s))"
  shows "0 < length (ct_title (pw_content r)) \<and> length (ct_title (pw_content r)) \<le> 100 \<and> length (ct_body (pw_content r)) \<le> 2000 \<and>
    strip (ct_title (pw_content r)) = ct_title (pw_content r) \<and> strip (ct_body (pw_content r)) = ct_body (pw_content r) \<and>
    (case get_image (pw_id r) s of
       Inl e \<Rightarrow> e = Popup_Not_Found \<and> po_out_image_path (popup_out_of (to_popup r)) = None
     | Inr img \<Rightarrow> length (im_data img) \<le> 5242880 \<and> sniff (im_data img) = Some (im_type img) \<and>
         po_out_image_path (popup_out_of (to_popup r)) =
           Some (''popups/'' @ decimal (pw_id r) @ ''/image?v='' @ take 16 (sha256 (im_data img)))) \<and>
    parse_upload sha256 (uploaded_image file_sent) = parse_upload sha256 file_sent"
proof -
  have ok: "popup_state_ok sha256 s" unfolding assms(2) by (rule run_popups_ok)
  then have c: "content_ok (pw_content r)" and im: "popup_image_ok sha256 r"
    using assms(3) by (simp_all add: popup_state_ok_def popup_db_ok_def)
  have "case get_image (pw_id r) s of
       Inl e \<Rightarrow> e = Popup_Not_Found \<and> po_out_image_path (popup_out_of (to_popup r)) = None
     | Inr img \<Rightarrow> length (im_data img) \<le> 5242880 \<and> sniff (im_data img) = Some (im_type img) \<and>
         po_out_image_path (popup_out_of (to_popup r)) =
           Some (''popups/'' @ decimal (pw_id r) @ ''/image?v='' @ take 16 (sha256 (im_data img)))"
  proof (cases "get_image (pw_id r) s")
    case (Inl e)
    then have "e = Popup_Not_Found \<and> pw_image_hash r = None"
      using get_image_row [OF ok assms(3)] im by (auto simp: popup_image_ok_def row_image_def split: option.splits)
    then show ?thesis by (simp add: Inl popup_out_of_def to_popup_def)
  next
    case (Inr img)
    have "take 16 (sha256 (im_data img)) \<noteq> []" using assms(1) [of "im_data img"] by auto
    then show ?thesis using get_image_valid [OF ok assms(3) Inr]
      by (simp add: Inr parse_image_Inr max_image_bytes_def hash_length_def popup_out_of_def to_popup_def)
  qed
  then show ?thesis using c upload_truncation
    by (simp add: content_ok_def max_title_length_def max_body_length_def Suc_le_eq)
qed

definition demo_sha :: "octet list \<Rightarrow> string" where "demo_sha data = ''89abcdef01234567'' @ replicate 48 (CHR ''0'')"

abbreviation demo_form :: popup_form where
  "demo_form \<equiv> \<lparr>pf_title = '' Hi '', pf_body = [], pf_forever = True, pf_day = False, pf_active = True, pf_image = Some [0xFF, 0xD8, 0xFF, 1]\<rparr>"

definition demo_popup :: popup_row where
  "demo_popup = \<lparr>pw_id = 1, pw_content = \<lparr>ct_title = ''Hi'', ct_body = [], ct_dismiss_forever = True, ct_dismiss_day = False, ct_active = True\<rparr>,
     pw_image = Some [0xFF, 0xD8, 0xFF, 1], pw_image_type = Some JPEG, pw_image_hash = Some ''89abcdef01234567'',
     pw_created_by = ''admin'', pw_created_at = 5, pw_updated_at = 5\<rparr>"

lemma demo_run: "pst_db (run_popups demo_sha 60 [Post_Popup 5 ''admin'' demo_form]) = \<lparr>popups = [demo_popup], next_popup_id = 2\<rparr>"
proof -
  have f: "form_content demo_form = Some (pw_content demo_popup)" by code_simp
  have p: "parse_upload demo_sha (uploaded_image (pf_image demo_form)) =
      Inr (Some \<lparr>im_data = [0xFF, 0xD8, 0xFF, 1], im_type = JPEG, im_hash = ''89abcdef01234567''\<rparr>)"
    unfolding upload_truncation
    by (simp add: demo_sha_def parse_upload_def parse_image_def max_image_bytes_def hash_length_def sniff_def
      png_magic_def jpeg_magic_def)
  show ?thesis
    using f p by (simp add: demo_popup_def run_popups_def create_popup_def popup_create_def empty_popup_state_def empty_popup_db_def
      drop_active_def image_values_def Let_def)
qed

theorem popups_within_bounds_witness:
  "length (ct_title (pw_content demo_popup)) \<le> 100 \<and>
    (case get_image 1 (run_popups demo_sha 60 [Post_Popup 5 ''admin'' demo_form]) of
       Inl e \<Rightarrow> False | Inr img \<Rightarrow> sniff (im_data img) = Some (im_type img))"
proof -
  have len: "length (demo_sha data) = 64" for data by (simp add: demo_sha_def)
  have r: "demo_popup \<in> set (popups (pst_db (run_popups demo_sha 60 [Post_Popup 5 ''admin'' demo_form])))" by (simp add: demo_run)
  moreover have "pw_id demo_popup = 1" "pw_image_hash demo_popup = Some ''89abcdef01234567''" by (simp_all add: demo_popup_def)
  ultimately show ?thesis using popups_within_bounds [OF len refl r, of None]
    by (auto simp: popup_out_of_def to_popup_def split: sum.splits)
qed

text \<open>After any calls a visitor is shown exactly the active popups as they are now, newest first, each at most once and
  with an image address exactly when it has an image; the admin's page lists every popup the same way.\<close>

theorem active_popups_shown:
  assumes "s = run_popups sha256 ttl calls" and "\<And>data. sha256 data \<noteq> []"
  shows "set (fst (list_active ttl' now s)) = (popup_out_of \<circ> to_popup) ` {r \<in> set (popups (pst_db s)). ct_active (pw_content r)} \<and>
    sorted_wrt (\<lambda>a b. po_out_id b < po_out_id a) (fst (list_active ttl' now s)) \<and>
    list_all_popups s = map (admin_popup_out_of \<circ> to_popup) (rev (sort_key pw_id (popups (pst_db s)))) \<and>
    (\<forall>r\<in>set (popups (pst_db s)). (po_out_image_path (popup_out_of (to_popup r)) = None) = (pw_image r = None))"
proof -
  have ok: "popup_state_ok sha256 s" unfolding assms(1) by (rule run_popups_ok)
  then have d: "distinct (map pw_id (popups (pst_db s)))" by (simp add: popup_state_ok_def popup_db_ok_def)
  have newest: "list_popups b (pst_db s) = map to_popup (rev (sort_key pw_id (filter (\<lambda>r. \<not> b \<or> ct_active (pw_content r)) (popups (pst_db s)))))" for b
    by (simp add: list_popups_def newest_first distinct_map_filter d)
  have desc: "sorted_wrt (\<lambda>a b. pw_id b < pw_id a) (rev (sort_key pw_id rows))" if "distinct (map pw_id rows)" for rows
  proof -
    have "sorted_wrt (<) (map pw_id (sort_key pw_id rows))"
      using that by (simp add: strict_sorted_iff distinct_map)
    then show ?thesis by (simp add: sorted_wrt_rev sorted_wrt_map)
  qed
  have "(po_out_image_path (popup_out_of (to_popup r)) = None) = (pw_image r = None)" if "r \<in> set (popups (pst_db s))" for r
  proof -
    have im: "popup_image_ok sha256 r" using ok that by (simp add: popup_state_ok_def popup_db_ok_def)
    then show ?thesis using assms(2)
      by (auto simp: popup_image_ok_def popup_out_of_def to_popup_def parse_image_Inr hash_length_def)
  qed
  then show ?thesis
    using desc [OF distinct_map_filter [OF d, of "\<lambda>r. ct_active (pw_content r)"]]
    by (auto simp: list_active_ok(1) [OF ok] active_popups_def newest list_all_popups_def sorted_wrt_map popup_out_of_def to_popup_def)
qed

theorem active_popups_shown_witness:
  "map po_out_image_path (fst (list_active 60 9 (run_popups demo_sha 60 [Post_Popup 5 ''admin'' demo_form]))) =
    [Some ''popups/1/image?v=89abcdef01234567'']"
proof -
  have path: "po_out_image_path (popup_out_of (to_popup demo_popup)) = Some ''popups/1/image?v=89abcdef01234567''"
    by code_simp
  have one: "set (fst (list_active 60 9 (run_popups demo_sha 60 [Post_Popup 5 ''admin'' demo_form]))) = {popup_out_of (to_popup demo_popup)}"
    and "sorted_wrt (\<lambda>a b. po_out_id b < po_out_id a) (fst (list_active 60 9 (run_popups demo_sha 60 [Post_Popup 5 ''admin'' demo_form])))"
    using active_popups_shown [OF refl, of demo_sha 60 9 60 "[Post_Popup 5 ''admin'' demo_form]"]
    by (auto simp: demo_run, auto simp: demo_popup_def demo_sha_def)
  then have "fst (list_active 60 9 (run_popups demo_sha 60 [Post_Popup 5 ''admin'' demo_form])) = [popup_out_of (to_popup demo_popup)]"
    by (cases "fst (list_active 60 9 (run_popups demo_sha 60 [Post_Popup 5 ''admin'' demo_form]))" rule: remdups_adj.cases) auto
  then show ?thesis by (simp add: path)
qed

text \<open>Editing a popup that exists keeps its image unless a new one is uploaded or its removal is asked for, a new one
  wins over the removal, and no other popup's image changes; an upload that is refused changes nothing at all.\<close>

theorem editing_keeps_image:
  assumes "s = run_popups sha256 ttl calls" and "r \<in> set (popups (pst_db s))"
  shows "case update_popup sha256 t (pw_id r) content up remove_image s of
      (Inl e, s') \<Rightarrow> parse_upload sha256 up = Inl e \<and> s' = s
    | (Inr out, s') \<Rightarrow>
        get_image (pw_id r) s' = (case up of
            Some data \<Rightarrow> parse_image sha256 data
          | None \<Rightarrow> if remove_image then Inl Popup_Not_Found else get_image (pw_id r) s) \<and>
        (\<forall>j. j \<noteq> pw_id r \<longrightarrow> get_image j s' = get_image j s) \<and>
        fst out = popup_out_of (to_popup (updated_popup t content (projr (parse_upload sha256 up)) remove_image r))"
proof (cases "parse_upload sha256 up")
  case (Inl e)
  then show ?thesis by (simp add: update_popup_def)
next
  case (Inr img)
  let ?f = "updated_popup t content img remove_image"
  let ?s = "drop_active (s\<lparr>pst_db := (pst_db s)\<lparr>popups := update_where (\<lambda>x. pw_id x = pw_id r) ?f (popups (pst_db s))\<rparr>\<rparr>)"
  have ok: "popup_state_ok sha256 s" unfolding assms(1) by (rule run_popups_ok)
  then have d: "distinct (map pw_id (popups (pst_db s)))" by (simp add: popup_state_ok_def popup_db_ok_def)
  have f: "find (\<lambda>x. pw_id x = pw_id r) (popups (pst_db s)) = Some r" using find_distinct_key [OF d assms(2)] .
  have upd: "update_popup sha256 t (pw_id r) content up remove_image s = (Inr (admin_popup_out_of (to_popup (?f r))), ?s)"
    by (simp add: update_popup_def Inr popup_update_def Let_def f)
  have same: "find (\<lambda>x. pw_id x = j \<and> (\<exists>y. pw_image x = Some y)) (update_where (\<lambda>x. pw_id x = pw_id r) ?f rows) =
      find (\<lambda>x. pw_id x = j \<and> (\<exists>y. pw_image x = Some y)) rows" if "j \<noteq> pw_id r" for j rows
    using that by (induction rows) auto
  have other: "get_image j ?s = get_image j s" if "j \<noteq> pw_id r" for j
    by (simp add: get_image_def popup_get_image_def drop_active_def same [OF that])
  let ?rows = "update_where (\<lambda>x. pw_id x = pw_id r) ?f (popups (pst_db s))"
  have "distinct (map pw_id ?rows)" "?f r \<in> set ?rows"
    using d assms(2) by (simp_all add: map_update_where_frame set_update_where)
  from find_key_and [OF this, of "\<lambda>x. pw_image x \<noteq> None"]
  have mine: "find (\<lambda>x. pw_id x = pw_id r \<and> (\<exists>y. pw_image x = Some y)) ?rows = (if pw_image (?f r) = None then None else Some (?f r))"
    by simp
  have new: "get_image (pw_id r) ?s = (case row_image (?f r) of None \<Rightarrow> Inl Popup_Not_Found | Some i \<Rightarrow> Inr i)"
    by (simp add: get_image_def popup_get_image_def drop_active_def row_image_def mine split: option.split)
  have img: "(case up of None \<Rightarrow> img = None | Some data \<Rightarrow> \<exists>i. parse_image sha256 data = Inr i \<and> img = Some i)"
    using Inr by (auto simp: parse_upload_def split: option.splits)
  have "get_image (pw_id r) ?s = (case up of Some data \<Rightarrow> parse_image sha256 data
      | None \<Rightarrow> if remove_image then Inl Popup_Not_Found else get_image (pw_id r) s)"
  proof (cases up)
    case None
    then have "img = None" using img by simp
    then show ?thesis
      unfolding new row_image_updated get_image_row [OF ok assms(2)] by (simp add: None)
  next
    case (Some data)
    then obtain i where "parse_image sha256 data = Inr i" "img = Some i" using img by auto
    then show ?thesis unfolding new row_image_updated by (simp add: Some)
  qed
  then show ?thesis using other by (simp add: upd Inr admin_popup_out_of_def)
qed

theorem editing_keeps_image_witness:
  "get_image 1 (snd (update_popup demo_sha 9 1 (pw_content demo_popup) None False (run_popups demo_sha 60 [Post_Popup 5 ''admin'' demo_form])))
     = Inr \<lparr>im_data = [0xFF, 0xD8, 0xFF, 1], im_type = JPEG, im_hash = ''89abcdef01234567''\<rparr>"
proof -
  have r: "demo_popup \<in> set (popups (pst_db (run_popups demo_sha 60 [Post_Popup 5 ''admin'' demo_form])))" by (simp add: demo_run)
  have one: "pw_id demo_popup = 1" by (simp add: demo_popup_def)
  have g: "get_image 1 (run_popups demo_sha 60 [Post_Popup 5 ''admin'' demo_form]) =
      Inr \<lparr>im_data = [0xFF, 0xD8, 0xFF, 1], im_type = JPEG, im_hash = ''89abcdef01234567''\<rparr>"
    by (simp add: get_image_def popup_get_image_def demo_run) (simp add: demo_popup_def)
  show ?thesis
    using editing_keeps_image [OF refl r, where t = 9 and content = "pw_content demo_popup" and up = None and remove_image = False] by (auto simp: one parse_upload_def g [simplified] split: prod.splits sum.splits)
qed

end
