(* ===== verification/Account_Api.thy ===== *)
theory Account_Api
  imports Errors Complex_Main "HOL-Library.Word"
begin

text \<open>
  What login and account moderation share: the values of a JSON body as Python reads them, the exceptions the
  reading can raise, the client of \<open>src/shared/rpcn_api.py\<close> and the password derivation of
  \<open>src/shared/rpcn_password.py\<close>.  The HTTP transport and PBKDF2 are parameters.
\<close>

section \<open>JSON as Python reads it\<close>

datatype py_float = Nan | Infinite bool | Finite rat

text \<open>A \<open>JObj\<close> is the \<open>dict\<close> that \<open>json\<close> makes of an object, the key last read first in its list.\<close>

datatype json = JNull | JBool bool | JInt int | JFloat py_float | JStr string | JArr "json list" | JObj "(string \<times> json) list"

datatype py_exc = KeyError | TypeError | ValueError | AttributeError | OverflowError | OSError | RuntimeError | ResponseError

text \<open>A domain exception, or one that no handler of the application names: the server answers 500.\<close>

datatype 'e raised = Raises 'e | Escapes py_exc

fun truthy :: "json \<Rightarrow> bool" where
  "truthy JNull = False"
| "truthy (JBool b) = b"
| "truthy (JInt i) = (i \<noteq> 0)"
| "truthy (JFloat x) = (x \<noteq> Finite 0)"
| "truthy (JStr s) = (s \<noteq> [])"
| "truthy (JArr xs) = (xs \<noteq> [])"
| "truthy (JObj m) = (m \<noteq> [])"

text \<open>\<open>body[k]\<close> and \<open>body.get(k)\<close>: indexing anything but a \<open>dict\<close> with a text is a \<open>TypeError\<close>.\<close>

definition getitem :: "string \<Rightarrow> json \<Rightarrow> py_exc + json" where
  "getitem k body = (case body of
     JObj m \<Rightarrow> (case map_of m k of None \<Rightarrow> Inl KeyError | Some v \<Rightarrow> Inr v)
   | _ \<Rightarrow> Inl TypeError)"

definition get_or :: "json \<Rightarrow> string \<Rightarrow> json \<Rightarrow> py_exc + json" where
  "get_or d k body = (case body of
     JObj m \<Rightarrow> Inr (case map_of m k of None \<Rightarrow> d | Some v \<Rightarrow> v)
   | _ \<Rightarrow> Inl AttributeError)"

fun json_text :: "json \<Rightarrow> string option" where
  "json_text (JStr s) = Some s"
| "json_text _ = None"

text \<open>A model's \<open>str\<close> field takes a text only.\<close>

definition str_field :: "json \<Rightarrow> py_exc + string" where
  "str_field v = (case json_text v of None \<Rightarrow> Inl ValueError | Some s \<Rightarrow> Inr s)"

definition catching :: "py_exc set \<Rightarrow> 'e \<Rightarrow> py_exc + 'a \<Rightarrow> 'e raised + 'a" where
  "catching caught e r = (case r of
     Inl x \<Rightarrow> Inl (if x \<in> caught then Raises e else Escapes x)
   | Inr a \<Rightarrow> Inr a)"

lemma catching_Inr_iff [simp]: "catching caught e r = Inr a \<longleftrightarrow> r = Inr a"
  by (auto simp: catching_def split: sum.split)

lemma getitem_Inr_iff: "getitem k body = Inr v \<longleftrightarrow> (\<exists>m. body = JObj m \<and> map_of m k = Some v)"
  by (auto simp: getitem_def split: json.split option.split)

lemma getitem_exc: "getitem k body = Inl x \<Longrightarrow> x = KeyError \<or> x = TypeError"
  by (auto simp: getitem_def split: json.splits option.splits)

section \<open>Timestamps\<close>

definition round_half_even :: "rat \<Rightarrow> int" where
  "round_half_even q = (let f = \<lfloor>q\<rfloor>; d = q - of_int f in
     if d < 1 / 2 then f else if 1 / 2 < d then f + 1 else if even f then f else f + 1)"

text \<open>
  \<open>datetime.fromtimestamp(seconds, tz=timezone.utc)\<close> of so many microseconds: what does not fit the C types is
  an \<open>OverflowError\<close> or the \<open>OSError\<close> of \<open>gmtime\<close>, and a year outside 1 to 9999 is a \<open>ValueError\<close>.
\<close>

definition utc_moment :: "int \<Rightarrow> py_exc + instant" where
  "utc_moment us =
     (let s = us div second in
      if s < - (2 ^ 63) \<or> 2 ^ 63 - 1 < s then Inl OverflowError
      else if s < - 67768040609740800 \<or> 67768036191676799 < s then Inl OSError
      else if s < - 62135596800 \<or> 253402300799 < s then Inl ValueError
      else Inr us)"

fun from_timestamp :: "json \<Rightarrow> py_exc + instant" where
  "from_timestamp (JInt i) = utc_moment (i * second)"
| "from_timestamp (JBool b) = utc_moment (if b then second else 0)"
| "from_timestamp (JFloat (Finite q)) = utc_moment (round_half_even (q * of_int second))"
| "from_timestamp (JFloat Nan) = Inl ValueError"
| "from_timestamp (JFloat (Infinite _)) = Inl OverflowError"
| "from_timestamp _ = Inl TypeError"

definition from_epoch :: "json \<Rightarrow> py_exc + instant option" where
  "from_epoch seconds = (if seconds = JNull then Inr None else bindR (from_timestamp seconds) (\<lambda>t. Inr (Some t)))"

section \<open>The client\<close>

record api_response =
  rs_status :: int
  rs_json :: "json option"

text \<open>\<open>rs_json\<close> is what \<open>response.json()\<close> gives, \<open>None\<close> when it raises the \<open>ValueError\<close> of a body that is not JSON.\<close>

record api_client =
  ac_base_url :: string
  ac_api_key :: string
  ac_open :: bool

datatype api_failure = Not_Initialized | Not_Configured | Unreachable

type_synonym api_posts = "(string \<times> json) list"
type_synonym transport = "string \<Rightarrow> string \<Rightarrow> json \<Rightarrow> unit + api_response"

definition rstrip_slash :: "string \<Rightarrow> string" where
  "rstrip_slash s = rev (dropWhile (\<lambda>c. c = CHR ''/'') (rev s))"

definition make_api_client :: "string \<Rightarrow> string \<Rightarrow> api_client" where
  "make_api_client base_url api_key = \<lparr>ac_base_url = rstrip_slash base_url, ac_api_key = api_key, ac_open = False\<rparr>"

definition api_init :: "api_client \<Rightarrow> api_client" where "api_init api = api\<lparr>ac_open := True\<rparr>"
definition api_close :: "api_client \<Rightarrow> api_client" where "api_close api = api\<lparr>ac_open := False\<rparr>"

text \<open>
  \<open>RpcnApiClient.post\<close>.  The transport is given the key, the path and the body, and answers or fails (an
  \<open>httpx.HTTPError\<close>); the second result lists what was sent.
\<close>

definition api_post :: "transport \<Rightarrow> api_client \<Rightarrow> string \<Rightarrow> json \<Rightarrow> (api_failure + api_response) \<times> api_posts" where
  "api_post transport api path body =
     (if \<not> ac_open api then (Inl Not_Initialized, [])
      else if ac_base_url api = [] \<or> ac_api_key api = [] then (Inl Not_Configured, [])
      else case transport (ac_api_key api) path body of
        Inl _ \<Rightarrow> (Inl Unreachable, [(path, body)])
      | Inr response \<Rightarrow> (Inr response, [(path, body)]))"

lemma api_post_sent: "set (snd (api_post transport api path body)) \<subseteq> {(path, body)}"
  by (simp add: api_post_def split: sum.split)

lemma api_post_once: "length (snd (api_post transport api path body)) \<le> 1"
  by (simp add: api_post_def split: sum.split)

section \<open>Passwords\<close>

type_synonym pbkdf2 = "string \<Rightarrow> 8 word list \<Rightarrow> 8 word list \<Rightarrow> nat \<Rightarrow> nat \<Rightarrow> 8 word list"

fun utf8 :: "string \<Rightarrow> 8 word list" where
  "utf8 [] = []"
| "utf8 (c # cs) = (let n = (of_char c :: nat) in
     (if n < 128 then [of_nat n] else [of_nat (0xC0 + n div 64), of_nat (0x80 + n mod 64)]) @ utf8 cs)"

definition rpcn_salt :: string where "rpcn_salt = ''No matter where you go, everybody's connected.''"
definition rpcn_iterations :: nat where "rpcn_iterations = 200000"
definition derived_key_length :: nat where "derived_key_length = 32"

definition upper_hex :: "nat \<Rightarrow> char" where
  "upper_hex n = (if n < 10 then char_of (48 + n) else char_of (55 + n))"

definition hex_upper :: "8 word list \<Rightarrow> string" where
  "hex_upper bs = concat (map (\<lambda>b. [upper_hex (unat b div 16), upper_hex (unat b mod 16)]) bs)"

definition derive_rpcn_password :: "pbkdf2 \<Rightarrow> string \<Rightarrow> string" where
  "derive_rpcn_password pbkdf2 password =
     hex_upper (pbkdf2 ''sha3_256'' (utf8 password) (utf8 rpcn_salt) rpcn_iterations derived_key_length)"

lemma length_hex_upper: "length (hex_upper bs) = 2 * length bs"
  by (induction bs) (simp_all add: hex_upper_def)

section \<open>Statuses\<close>

definition http_status :: "('e \<Rightarrow> domain_error) \<Rightarrow> 'e raised + 'a \<Rightarrow> int" where
  "http_status base r = (case r of
     Inl (Raises e) \<Rightarrow> status_code (base e)
   | Inl (Escapes _) \<Rightarrow> 500
   | Inr _ \<Rightarrow> 200)"

lemma http_status_simps [simp]:
  "http_status base (Inl (Raises e)) = status_code (base e)"
  "http_status base (Inl (Escapes x)) = 500"
  "http_status base (Inr a) = 200"
  by (simp_all add: http_status_def)


end
