(* ===== verification/Auth.thy ===== *)
theory Auth
  imports Account_Api
begin

text \<open>
  \<open>src/auth/\<close>: RPCN checks the password and the service signs the answer (\<open>service.py\<close>,
  \<open>adapters/rpcn_api_server.py\<close>), tokens (\<open>tokens.py\<close>) and who is calling (\<open>dependencies.py\<close>).  Signing and
  checking a JWT is PyJWT's, a parameter; \<open>jwt_laws\<close> is what its documentation promises of the tokens that
  \<open>tokens.py\<close> makes.
\<close>

section \<open>Accounts and errors\<close>

record verified_account =
  va_username :: json
  va_online_name :: json
  va_avatar_url :: json
  va_admin :: bool
  va_banned :: bool

record auth_user =
  au_username :: string
  au_online_name :: string
  au_avatar_url :: string
  au_admin :: bool

datatype auth_error = Invalid_Credentials | Invalid_Token | Account_Banned | Auth_Unavailable

fun auth_base :: "auth_error \<Rightarrow> domain_error" where
  "auth_base Invalid_Credentials = UnauthorizedError"
| "auth_base Invalid_Token = UnauthorizedError"
| "auth_base Account_Banned = ForbiddenError"
| "auth_base Auth_Unavailable = ServiceUnavailableError"

type_synonym 'a auth_result = "auth_error raised + 'a"

definition credentials_ok :: "string \<Rightarrow> string \<Rightarrow> bool" where
  "credentials_ok username password \<longleftrightarrow>
     1 \<le> length username \<and> length username \<le> 64 \<and> 1 \<le> length password \<and> length password \<le> 128"

text \<open>Building an \<open>AuthUser\<close>: pydantic's error is a \<open>ValueError\<close>.\<close>

definition auth_user_of :: "json \<Rightarrow> json \<Rightarrow> json \<Rightarrow> bool \<Rightarrow> py_exc + auth_user" where
  "auth_user_of username online_name avatar_url admin =
     bindR (str_field username) (\<lambda>u. bindR (str_field online_name) (\<lambda>n. bindR (str_field avatar_url) (\<lambda>a.
       Inr \<lparr>au_username = u, au_online_name = n, au_avatar_url = a, au_admin = admin\<rparr>)))"

section \<open>Verifying with RPCN\<close>

definition verify_path :: string where "verify_path = ''/external/users/verify''"

definition read_account :: "json \<Rightarrow> py_exc + verified_account" where
  "read_account body =
     bindR (getitem ''username'' body) (\<lambda>u. bindR (getitem ''online_name'' body) (\<lambda>n.
     bindR (get_or (JStr []) ''avatar_url'' body) (\<lambda>a. bindR (get_or (JBool False) ''admin'' body) (\<lambda>ad.
     bindR (get_or (JBool False) ''banned'' body) (\<lambda>b.
       Inr \<lparr>va_username = u, va_online_name = n, va_avatar_url = a, va_admin = truthy ad, va_banned = truthy b\<rparr>)))))"

definition read_verification :: "api_response \<Rightarrow> verified_account auth_result" where
  "read_verification response =
     (if rs_status response = 401 then Inl (Raises Invalid_Credentials)
      else if rs_status response \<noteq> 200 then Inl (Raises Auth_Unavailable)
      else catching {ValueError, KeyError, TypeError} Auth_Unavailable
        (case rs_json response of None \<Rightarrow> Inl ValueError | Some body \<Rightarrow> read_account body))"

definition verify :: "pbkdf2 \<Rightarrow> transport \<Rightarrow> api_client \<Rightarrow> string \<Rightarrow> string \<Rightarrow> verified_account auth_result" where
  "verify pbkdf2 transport api username password =
     (case fst (api_post transport api verify_path
         (JObj [(''username'', JStr username), (''password'', JStr (derive_rpcn_password pbkdf2 password))])) of
        Inl Not_Initialized \<Rightarrow> Inl (Escapes RuntimeError)
      | Inl Not_Configured \<Rightarrow> Inl (Raises Auth_Unavailable)
      | Inl Unreachable \<Rightarrow> Inl (Raises Auth_Unavailable)
      | Inr response \<Rightarrow> read_verification response)"

section \<open>Tokens\<close>

datatype claim = Js json | At instant

datatype jwt_error = Expired_Signature | Other_Invalid_Token

type_synonym claims = "(string \<times> claim) list"

text \<open>
  \<open>jwt.encode(claims, secret, algorithm)\<close> and \<open>jwt.decode(token, secret, algorithms, issuer, require)\<close> at a
  moment.  A \<open>datetime\<close> claim is encoded as its whole seconds.
\<close>

type_synonym 't jwt_encode = "claims \<Rightarrow> string \<Rightarrow> string \<Rightarrow> 't"
type_synonym 't jwt_decode = "instant \<Rightarrow> 't \<Rightarrow> string \<Rightarrow> string list \<Rightarrow> string \<Rightarrow> string list \<Rightarrow> jwt_error + (string \<times> json) list"

fun claim_json :: "claim \<Rightarrow> json" where
  "claim_json (Js v) = v"
| "claim_json (At t) = JInt (t div second)"

definition jwt_algorithm :: string where "jwt_algorithm = ''HS256''"
definition jwt_issuer :: string where "jwt_issuer = ''tag2now''"
definition min_secret_bytes :: nat where "min_secret_bytes = 32"

record auth_settings =
  as_jwt_secret :: string
  as_jwt_ttl_seconds :: int

definition jwt_secret :: "auth_settings \<Rightarrow> string auth_result" where
  "jwt_secret st = (if length (utf8 (as_jwt_secret st)) < min_secret_bytes then Inl (Raises Auth_Unavailable) else Inr (as_jwt_secret st))"

definition token_claims :: "auth_user \<Rightarrow> instant \<Rightarrow> int \<Rightarrow> claims" where
  "token_claims user issued_at ttl =
     [(''iss'', Js (JStr jwt_issuer)), (''sub'', Js (JStr (au_username user))), (''name'', Js (JStr (au_online_name user))),
      (''avatar'', Js (JStr (au_avatar_url user))), (''admin'', Js (JBool (au_admin user))),
      (''iat'', At issued_at), (''exp'', At (issued_at + ttl * second))]"

text \<open>
  What is relied on of PyJWT, for the tokens of this service alone: claims as \<open>token_claims\<close> builds them, signed
  with HS256 and a key of at least 32 bytes, read back with the same key, algorithm and issuer no earlier than they
  were issued.  Such a token has expired from its last whole second on and is otherwise read as its claims.
\<close>

definition jwt_laws :: "'t jwt_encode \<Rightarrow> 't jwt_decode \<Rightarrow> bool" where
  "jwt_laws enc dec \<longleftrightarrow>
     (\<forall>user issued_at ttl secret now. min_secret_bytes \<le> length (utf8 secret) \<longrightarrow> issued_at \<le> now \<longrightarrow>
        dec now (enc (token_claims user issued_at ttl) secret jwt_algorithm) secret [jwt_algorithm] jwt_issuer
            [''exp'', ''iat'', ''iss'', ''sub''] =
          (if ((issued_at + ttl * second) div second) * second \<le> now then Inl Expired_Signature
           else Inr (map (\<lambda>(k, v). (k, claim_json v)) (token_claims user issued_at ttl))))"

definition issue_token :: "'t jwt_encode \<Rightarrow> auth_settings \<Rightarrow> auth_user \<Rightarrow> instant \<Rightarrow> ('t \<times> int) auth_result" where
  "issue_token enc st user now =
     (let ttl = as_jwt_ttl_seconds st in
      bindR (jwt_secret st) (\<lambda>secret. Inr (enc (token_claims user now ttl) secret jwt_algorithm, ttl)))"

definition claim_or :: "json \<Rightarrow> string \<Rightarrow> (string \<times> json) list \<Rightarrow> json" where
  "claim_or d k claims = (case map_of claims k of None \<Rightarrow> d | Some v \<Rightarrow> v)"

definition user_of_claims :: "(string \<times> json) list \<Rightarrow> py_exc + auth_user" where
  "user_of_claims claims =
     bindR (getitem ''sub'' (JObj claims)) (\<lambda>sub.
       auth_user_of sub (let n = claim_or JNull ''name'' claims in if truthy n then n else sub)
         (claim_or (JStr []) ''avatar'' claims) (truthy (claim_or (JBool False) ''admin'' claims)))"

definition read_token :: "'t jwt_decode \<Rightarrow> auth_settings \<Rightarrow> instant \<Rightarrow> 't \<Rightarrow> auth_user auth_result" where
  "read_token dec st now token =
     bindR (jwt_secret st) (\<lambda>secret.
       case dec now token secret [jwt_algorithm] jwt_issuer [''exp'', ''iat'', ''iss'', ''sub''] of
         Inl Expired_Signature \<Rightarrow> Inl (Raises Invalid_Token)
       | Inl Other_Invalid_Token \<Rightarrow> Inl (Raises Invalid_Token)
       | Inr claims \<Rightarrow> catching {ValueError} Invalid_Token (user_of_claims claims))"

definition current_user :: "'t jwt_decode \<Rightarrow> auth_settings \<Rightarrow> instant \<Rightarrow> 't option \<Rightarrow> auth_user auth_result" where
  "current_user dec st now credentials =
     (case credentials of None \<Rightarrow> Inl (Raises Invalid_Token) | Some token \<Rightarrow> read_token dec st now token)"

section \<open>Login\<close>

definition login_user :: "verified_account \<Rightarrow> auth_user auth_result" where
  "login_user account =
     (if va_banned account then Inl (Raises Account_Banned)
      else catching {} Auth_Unavailable
        (auth_user_of (va_username account) (if truthy (va_online_name account) then va_online_name account else va_username account)
           (va_avatar_url account) (va_admin account)))"

definition login ::
  "pbkdf2 \<Rightarrow> transport \<Rightarrow> api_client \<Rightarrow> 't jwt_encode \<Rightarrow> auth_settings \<Rightarrow> instant \<Rightarrow> string \<Rightarrow> string \<Rightarrow>
     ('t \<times> int \<times> auth_user) auth_result" where
  "login pbkdf2 transport api enc st now username password =
     bindR (verify pbkdf2 transport api username password) (\<lambda>account.
     bindR (login_user account) (\<lambda>user.
     bindR (issue_token enc st user now) (\<lambda>(token, ttl). Inr (token, ttl, user))))"

text \<open>The route: a body outside the lengths of \<open>LoginRequest\<close> is answered 422 before the service is asked.\<close>

definition login_status ::
  "pbkdf2 \<Rightarrow> transport \<Rightarrow> api_client \<Rightarrow> 't jwt_encode \<Rightarrow> auth_settings \<Rightarrow> instant \<Rightarrow> string \<Rightarrow> string \<Rightarrow> int" where
  "login_status pbkdf2 transport api enc st now username password =
     (if \<not> credentials_ok username password then 422
      else http_status auth_base (login pbkdf2 transport api enc st now username password))"

section \<open>What login promises\<close>

abbreviation verify_body :: "pbkdf2 \<Rightarrow> string \<Rightarrow> string \<Rightarrow> json" where
  "verify_body pbkdf2 username password \<equiv>
     JObj [(''username'', JStr username), (''password'', JStr (derive_rpcn_password pbkdf2 password))]"

lemma str_field_Inr_iff: "str_field v = Inr s \<longleftrightarrow> v = JStr s"
  by (cases v) (auto simp: str_field_def)

lemma auth_user_of_Inr_iff:
  "auth_user_of u n a ad = Inr user \<longleftrightarrow>
     u = JStr (au_username user) \<and> n = JStr (au_online_name user) \<and> a = JStr (au_avatar_url user) \<and> au_admin user = ad"
  by (cases user) (auto simp: auth_user_of_def str_field_Inr_iff)

text \<open>No \<open>AttributeError\<close>: by then \<open>body["username"]\<close> has shown that the body is a \<open>dict\<close>.\<close>

lemma read_account_exc: "read_account body = Inl x \<Longrightarrow> x \<in> {ValueError, KeyError, TypeError}"
  by (cases body) (auto simp: read_account_def getitem_def get_or_def bindR_Inl_iff split: option.splits)

lemma read_account_JObj: "read_account body = Inr account \<Longrightarrow> \<exists>m. body = JObj m"
  by (cases body) (auto simp: read_account_def getitem_def)

lemma read_verification_eq:
  "read_verification r =
     (if rs_status r = 401 then Inl (Raises Invalid_Credentials)
      else if rs_status r \<noteq> 200 then Inl (Raises Auth_Unavailable)
      else case rs_json r of None \<Rightarrow> Inl (Raises Auth_Unavailable)
        | Some body \<Rightarrow> (case read_account body of Inl _ \<Rightarrow> Inl (Raises Auth_Unavailable) | Inr account \<Rightarrow> Inr account))"
  using read_account_exc by (auto simp: read_verification_def catching_def split: option.split sum.split)

lemma login_user_cases:
  "login_user account =
     (if va_banned account then Inl (Raises Account_Banned)
      else case auth_user_of (va_username account) (if truthy (va_online_name account) then va_online_name account else va_username account)
             (va_avatar_url account) (va_admin account) of
        Inl x \<Rightarrow> Inl (Escapes x) | Inr user \<Rightarrow> Inr user)"
  by (auto simp: login_user_def catching_def split: sum.split)

lemma user_of_token_claims:
  assumes "au_online_name user = [] \<Longrightarrow> au_username user = []"
  shows "user_of_claims (map (\<lambda>(k, v). (k, claim_json v)) (token_claims user t ttl)) = Inr user"
  using assms by (auto simp: user_of_claims_def token_claims_def getitem_def claim_or_def auth_user_of_Inr_iff Let_def)

lemma login_user_name: "login_user account = Inr user \<Longrightarrow> au_online_name user = [] \<Longrightarrow> au_username user = []"
  by (cases "va_online_name account") (auto simp: login_user_def auth_user_of_Inr_iff split: if_splits)

lemma issued_token_read:
  assumes laws: "jwt_laws enc dec" and tok: "issue_token enc st user t = Inr (token, ttl)" and now: "t \<le> now"
    and name: "au_online_name user = [] \<Longrightarrow> au_username user = []"
  shows "current_user dec st now (Some token) =
    (if now < (t + ttl * second) div second * second then Inr user else Inl (Raises Invalid_Token))"
proof -
  have sec: "jwt_secret st = Inr (as_jwt_secret st)" "min_secret_bytes \<le> length (utf8 (as_jwt_secret st))"
    and token: "token = enc (token_claims user t ttl) (as_jwt_secret st) jwt_algorithm"
    using tok by (auto simp: issue_token_def jwt_secret_def Let_def split: if_splits)
  have "dec now token (as_jwt_secret st) [jwt_algorithm] jwt_issuer [''exp'', ''iat'', ''iss'', ''sub''] =
      (if (t + ttl * second) div second * second \<le> now then Inl Expired_Signature
       else Inr (map (\<lambda>(k, v). (k, claim_json v)) (token_claims user t ttl)))"
    unfolding token using laws sec(2) now unfolding jwt_laws_def by blast
  then show ?thesis
    using user_of_token_claims [OF name] by (simp add: current_user_def read_token_def sec catching_def)
qed

text \<open>C9: A login that succeeds was vouched for by RPCN with a 200 about an account that is not banned, and the token it
  issues signs the caller in as that account, by RPCN's own spelling of its name and with RPCN's word on whether
  it is an admin, at every moment until the token's last whole second, and as nobody from then on.\<close>

theorem signed_in_as_verified:
  assumes laws: "jwt_laws enc dec"
    and ok: "login pbkdf2 transport api enc st t username password = Inr (token, ttl, user)" and now: "t \<le> now"
  shows "\<exists>r m. transport (ac_api_key api) verify_path (verify_body pbkdf2 username password) = Inr r \<and>
      rs_status r = 200 \<and> rs_json r = Some (JObj m) \<and> map_of m ''username'' = Some (JStr (au_username user)) \<and>
      \<not> truthy (claim_or (JBool False) ''banned'' m) \<and> au_admin user = truthy (claim_or (JBool False) ''admin'' m) \<and>
      ttl = as_jwt_ttl_seconds st \<and>
      current_user dec st now (Some token) =
        (if now < (t + ttl * second) div second * second then Inr user else Inl (Raises Invalid_Token))"
proof -
  obtain account where v: "verify pbkdf2 transport api username password = Inr account" and u: "login_user account = Inr user"
    and tok: "issue_token enc st user t = Inr (token, ttl)"
    using ok by (auto simp: login_def)
  obtain r where r: "transport (ac_api_key api) verify_path (verify_body pbkdf2 username password) = Inr r"
    "read_verification r = Inr account"
    using v by (auto simp: verify_def api_post_def split: sum.splits api_failure.splits if_splits)
  then obtain body where b: "rs_status r = 200" "rs_json r = Some body" "read_account body = Inr account"
    by (auto simp: read_verification_eq split: if_splits option.splits sum.splits)
  then obtain m where m: "body = JObj m" using read_account_JObj by blast
  have ttl: "ttl = as_jwt_ttl_seconds st" using tok by (auto simp: issue_token_def Let_def)
  have "map_of m ''username'' = Some (va_username account)" "va_banned account = truthy (claim_or (JBool False) ''banned'' m)"
    "va_admin account = truthy (claim_or (JBool False) ''admin'' m)"
    using b(3) by (auto simp: m read_account_def getitem_Inr_iff get_or_def claim_or_def)
  moreover have "va_username account = JStr (au_username user)" "\<not> va_banned account" "au_admin user = va_admin account"
    using u by (auto simp: login_user_def auth_user_of_Inr_iff split: if_splits)
  ultimately show ?thesis
    using r(1) b m ttl issued_token_read [OF laws tok now login_user_name [OF u]] by auto
qed

text \<open>An encoder and a decoder that keep the laws: a token is its claims beside the key it was signed with.\<close>

definition plain_encode :: "(claims \<times> string \<times> string) jwt_encode" where
  "plain_encode claims secret alg = (claims, secret, alg)"

definition plain_decode :: "(claims \<times> string \<times> string) jwt_decode" where
  "plain_decode now token secret algs issuer required =
     (case token of (claims, signed_with, alg) \<Rightarrow>
        if signed_with \<noteq> secret \<or> alg \<notin> set algs \<or> map_of claims ''iss'' \<noteq> Some (Js (JStr issuer)) \<or>
           \<not> set required \<subseteq> fst ` set claims
        then Inl Other_Invalid_Token
        else case map_of claims ''exp'' of
          Some (At e) \<Rightarrow> if (e div second) * second \<le> now then Inl Expired_Signature else Inr (map (\<lambda>(k, v). (k, claim_json v)) claims)
        | _ \<Rightarrow> Inl Other_Invalid_Token)"

lemma plain_jwt_laws: "jwt_laws plain_encode plain_decode"
  by (simp add: jwt_laws_def plain_encode_def plain_decode_def token_claims_def)

abbreviation demo_pbkdf2 :: pbkdf2 where "demo_pbkdf2 \<equiv> \<lambda>_ _ _ _ n. replicate n 0xAB"

abbreviation demo_settings :: auth_settings where
  "demo_settings \<equiv> \<lparr>as_jwt_secret = replicate 32 (CHR ''k''), as_jwt_ttl_seconds = 60\<rparr>"

abbreviation demo_api :: api_client where "demo_api \<equiv> api_init (make_api_client ''http://rpcn/'' ''key'')"

abbreviation demo_transport :: transport where
  "demo_transport \<equiv> \<lambda>key path body. Inr \<lparr>rs_status = 200, rs_json = Some (JObj
     [(''username'', JStr ''Kim''), (''online_name'', JStr []), (''admin'', JBool True)])\<rparr>"

abbreviation demo_user :: auth_user where
  "demo_user \<equiv> \<lparr>au_username = ''Kim'', au_online_name = ''Kim'', au_avatar_url = [], au_admin = True\<rparr>"

lemma demo_login:
  "login demo_pbkdf2 demo_transport demo_api plain_encode demo_settings 5000000 ''kim'' ''pw'' =
    Inr ((token_claims demo_user 5000000 60, replicate 32 (CHR ''k''), jwt_algorithm), 60, demo_user)"
proof -
  have sec: "length (utf8 (replicate 32 (CHR ''k''))) = 32" by code_simp
  have api: "ac_open demo_api" "ac_base_url demo_api \<noteq> []" "ac_api_key demo_api \<noteq> []"
    by (simp_all add: api_init_def make_api_client_def rstrip_slash_def)
  show ?thesis
    by (simp add: login_def verify_def api_post_def api read_verification_def read_account_def getitem_def get_or_def
      login_user_def auth_user_of_def str_field_def issue_token_def jwt_secret_def sec min_secret_bytes_def plain_encode_def
      catching_def)
qed

theorem signed_in_as_verified_witness:
  "current_user plain_decode demo_settings 64000000 (Some (token_claims demo_user 5000000 60, replicate 32 (CHR ''k''), jwt_algorithm)) = Inr demo_user \<and>
   current_user plain_decode demo_settings 65000000 (Some (token_claims demo_user 5000000 60, replicate 32 (CHR ''k''), jwt_algorithm)) =
     Inl (Raises Invalid_Token)"
  using signed_in_as_verified [OF plain_jwt_laws demo_login, of 64000000] signed_in_as_verified [OF plain_jwt_laws demo_login, of 65000000]
  by auto

text \<open>What a login is answered depends on RPCN's answer alone: 401 exactly when RPCN says 401, 403 exactly when the
  account it vouches for is banned, 502 when it cannot be reached, says anything else or answers with a body that
  is no account, or when this service has no key to sign with; and 500 exactly when the account's name, online
  name or avatar is not a text.\<close>

theorem login_answers:
  assumes "credentials_ok username password" and "ac_open api" and "ac_base_url api \<noteq> []" and "ac_api_key api \<noteq> []"
  shows "login_status pbkdf2 transport api enc st now username password =
    (case transport (ac_api_key api) verify_path (verify_body pbkdf2 username password) of
       Inl _ \<Rightarrow> 502
     | Inr r \<Rightarrow>
         if rs_status r = 401 then 401
         else if rs_status r \<noteq> 200 then 502
         else case rs_json r of None \<Rightarrow> 502 | Some body \<Rightarrow>
           (case read_account body of
              Inl _ \<Rightarrow> 502
            | Inr account \<Rightarrow>
                if va_banned account then 403
                else if json_text (va_username account) = None \<or> truthy (va_online_name account) \<and> json_text (va_online_name account) = None \<or>
                  json_text (va_avatar_url account) = None then 500
                else if length (utf8 (as_jwt_secret st)) < 32 then 502 else 200))"
proof -
  have sec: "jwt_secret st = (if length (utf8 (as_jwt_secret st)) < 32 then Inl (Raises Auth_Unavailable) else Inr (as_jwt_secret st))"
    by (simp add: jwt_secret_def min_secret_bytes_def)
  have verified: "verify pbkdf2 transport api username password =
      (case transport (ac_api_key api) verify_path (verify_body pbkdf2 username password) of
         Inl _ \<Rightarrow> Inl (Raises Auth_Unavailable) | Inr r \<Rightarrow> read_verification r)"
    using assms by (simp add: verify_def api_post_def split: sum.split)
  have user: "http_status auth_base (bindR (login_user account) (\<lambda>user. bindR (issue_token enc st user now) (\<lambda>(token, ttl). Inr (token, ttl, user)))) =
      (if va_banned account then 403
       else if json_text (va_username account) = None \<or> truthy (va_online_name account) \<and> json_text (va_online_name account) = None \<or>
         json_text (va_avatar_url account) = None then 500
       else if length (utf8 (as_jwt_secret st)) < 32 then 502 else 200)" for account
    by (auto simp: login_user_cases auth_user_of_def str_field_def issue_token_def sec Let_def split: option.splits)
  show ?thesis
    using assms(1) by (auto simp: login_status_def login_def verified read_verification_eq user split: sum.split option.split)
qed

theorem login_answers_witness:
  "login_status demo_pbkdf2 (\<lambda>_ _ _. Inr \<lparr>rs_status = 200, rs_json = Some (JObj [(''username'', JStr ''Kim''), (''online_name'', JStr ''Kim''),
      (''avatar_url'', JNull)])\<rparr>) demo_api plain_encode demo_settings 5 ''kim'' ''pw'' = 500"
proof -
  have api: "ac_open demo_api" "ac_base_url demo_api \<noteq> []" "ac_api_key demo_api \<noteq> []"
    by (simp_all add: api_init_def make_api_client_def rstrip_slash_def)
  have "credentials_ok ''kim'' ''pw''" by (simp add: credentials_ok_def)
  show ?thesis
    by (subst login_answers [OF \<open>credentials_ok ''kim'' ''pw''\<close> api]) (simp add: read_account_def getitem_def get_or_def)
qed

end
