(* ===== verification/Admin.thy ===== *)
theory Admin
  imports Auth
begin

text \<open>
  \<open>src/admin/\<close>: the gate an admin's request passes (\<open>dependencies.py\<close>, \<open>service.py\<close>), the calls RPCN is
  asked with and the reading of its answers (\<open>adapters/rpcn_api_server.py\<close>), and the two routes.  Every step
  also lists what was sent to RPCN.
\<close>

section \<open>Accounts and errors\<close>

record account_status =
  ac_username :: json
  ac_online_name :: json
  ac_avatar_url :: json
  ac_admin :: bool
  ac_banned :: bool
  ac_online :: bool
  ac_created_at :: "instant option"
  ac_last_login_at :: "instant option"

record ban_result =
  bn_username :: json
  bn_kicked :: bool

datatype admin_error =
    Auth auth_error
  | Admin_Password
  | Not_Admin
  | Account_Not_Found
  | Self_Ban
  | Admin_Unavailable

fun admin_base :: "admin_error \<Rightarrow> domain_error" where
  "admin_base (Auth e) = auth_base e"
| "admin_base Admin_Password = ValidationError"
| "admin_base Not_Admin = ForbiddenError"
| "admin_base Account_Not_Found = NotFoundError"
| "admin_base Self_Ban = ValidationError"
| "admin_base Admin_Unavailable = ServiceUnavailableError"

type_synonym 'a admin_result = "admin_error raised + 'a"

section \<open>RPCN's answers\<close>

definition api_error_code :: "api_response \<Rightarrow> json" where
  "api_error_code response = (case rs_json response of
     None \<Rightarrow> JNull
   | Some body \<Rightarrow> (case get_or JNull ''error'' body of Inl _ \<Rightarrow> JNull | Inr code \<Rightarrow> code))"

definition raise_for_status :: "api_response \<Rightarrow> unit admin_result" where
  "raise_for_status response =
     (if rs_status response = 200 then Inr ()
      else if rs_status response = 401 then Inl (Raises Admin_Password)
      else if rs_status response = 403 then Inl (Raises Not_Admin)
      else if rs_status response = 404 \<and> api_error_code response = JStr ''user_not_found'' then Inl (Raises Account_Not_Found)
      else Inl (Raises Admin_Unavailable))"

definition to_status :: "json \<Rightarrow> py_exc + account_status" where
  "to_status body =
     bindR (getitem ''username'' body) (\<lambda>u. bindR (getitem ''online_name'' body) (\<lambda>n.
     bindR (get_or (JStr []) ''avatar_url'' body) (\<lambda>a. bindR (getitem ''admin'' body) (\<lambda>ad.
     bindR (getitem ''banned'' body) (\<lambda>b. bindR (getitem ''online'' body) (\<lambda>on.
     bindR (get_or JNull ''creation'' body) (\<lambda>c. bindR (from_epoch c) (\<lambda>created.
     bindR (get_or JNull ''last_login'' body) (\<lambda>l. bindR (from_epoch l) (\<lambda>last_login.
       Inr \<lparr>ac_username = u, ac_online_name = n, ac_avatar_url = a, ac_admin = truthy ad, ac_banned = truthy b,
         ac_online = truthy on, ac_created_at = created, ac_last_login_at = last_login\<rparr>))))))))))"

definition to_ban_result :: "json \<Rightarrow> py_exc + ban_result" where
  "to_ban_result body =
     bindR (getitem ''username'' body) (\<lambda>u. bindR (getitem ''kicked'' body) (\<lambda>k.
       Inr \<lparr>bn_username = u, bn_kicked = truthy k\<rparr>))"

definition read_admin :: "(json \<Rightarrow> py_exc + 'a) \<Rightarrow> json \<Rightarrow> 'a admin_result" where
  "read_admin convert body = catching {KeyError, TypeError, ValueError} Admin_Unavailable (convert body)"

section \<open>The calls\<close>

definition info_path :: string where "info_path = ''/admin/users/info''"
definition ban_path :: string where "ban_path = ''/admin/users/ban''"

definition admin_payload :: "pbkdf2 \<Rightarrow> string \<Rightarrow> string \<Rightarrow> string \<Rightarrow> json" where
  "admin_payload pbkdf2 admin_username admin_password username =
     JObj [(''admin_username'', JStr admin_username), (''admin_password'', JStr (derive_rpcn_password pbkdf2 admin_password)),
           (''username'', JStr username)]"

definition admin_post ::
  "pbkdf2 \<Rightarrow> transport \<Rightarrow> api_client \<Rightarrow> string \<Rightarrow> string \<Rightarrow> string \<Rightarrow> string \<Rightarrow> json admin_result \<times> api_posts" where
  "admin_post pbkdf2 transport api path admin_username admin_password username =
     (let (r, sent) = api_post transport api path (admin_payload pbkdf2 admin_username admin_password username) in
      (case r of
         Inl Not_Initialized \<Rightarrow> Inl (Escapes RuntimeError)
       | Inl Not_Configured \<Rightarrow> Inl (Raises Admin_Unavailable)
       | Inl Unreachable \<Rightarrow> Inl (Raises Admin_Unavailable)
       | Inr response \<Rightarrow> bindR (raise_for_status response) (\<lambda>_.
           case rs_json response of None \<Rightarrow> Inl (Raises Admin_Unavailable) | Some body \<Rightarrow> Inr body), sent))"

definition account_lookup ::
  "pbkdf2 \<Rightarrow> transport \<Rightarrow> api_client \<Rightarrow> string \<Rightarrow> string \<Rightarrow> string \<Rightarrow> account_status admin_result \<times> api_posts" where
  "account_lookup pbkdf2 transport api admin_username admin_password username =
     (let (r, sent) = admin_post pbkdf2 transport api info_path admin_username admin_password username
      in (bindR r (read_admin to_status), sent))"

definition account_ban ::
  "pbkdf2 \<Rightarrow> transport \<Rightarrow> api_client \<Rightarrow> string \<Rightarrow> string \<Rightarrow> string \<Rightarrow> ban_result admin_result \<times> api_posts" where
  "account_ban pbkdf2 transport api admin_username admin_password username =
     (let (r, sent) = admin_post pbkdf2 transport api ban_path admin_username admin_password username
      in (bindR r (read_admin to_ban_result), sent))"

section \<open>The service and the gate\<close>

definition ensure_not_self :: "auth_user \<Rightarrow> string \<Rightarrow> unit admin_result" where
  "ensure_not_self admin username =
     (if casefold (au_username admin) = casefold username then Inl (Raises Self_Ban) else Inr ())"

definition admin_lookup ::
  "pbkdf2 \<Rightarrow> transport \<Rightarrow> api_client \<Rightarrow> auth_user \<Rightarrow> string \<Rightarrow> string \<Rightarrow> account_status admin_result \<times> api_posts" where
  "admin_lookup pbkdf2 transport api admin password username =
     account_lookup pbkdf2 transport api (au_username admin) password username"

definition admin_ban ::
  "pbkdf2 \<Rightarrow> transport \<Rightarrow> api_client \<Rightarrow> auth_user \<Rightarrow> string \<Rightarrow> string \<Rightarrow> ban_result admin_result \<times> api_posts" where
  "admin_ban pbkdf2 transport api admin password username =
     (case ensure_not_self admin username of
        Inl e \<Rightarrow> (Inl e, [])
      | Inr _ \<Rightarrow> account_ban pbkdf2 transport api (au_username admin) password username)"

fun as_admin_error :: "auth_error raised \<Rightarrow> admin_error raised" where
  "as_admin_error (Raises e) = Raises (Auth e)"
| "as_admin_error (Escapes x) = Escapes x"

definition admin_user :: "auth_user auth_result \<Rightarrow> auth_user admin_result" where
  "admin_user current =
     (case current of
        Inl e \<Rightarrow> Inl (as_admin_error e)
      | Inr user \<Rightarrow> if \<not> au_admin user then Inl (Raises Not_Admin) else Inr user)"

section \<open>The routes\<close>

text \<open>The answer is built from the response model, whose names must be texts.\<close>

definition account_status_out :: "account_status \<Rightarrow> account_status admin_result" where
  "account_status_out a =
     (if json_text (ac_username a) = None \<or> json_text (ac_online_name a) = None \<or> json_text (ac_avatar_url a) = None
      then Inl (Escapes ResponseError) else Inr a)"

definition ban_out :: "ban_result \<Rightarrow> (string \<times> bool \<times> bool) admin_result" where
  "ban_out b = (case json_text (bn_username b) of None \<Rightarrow> Inl (Escapes ResponseError) | Some u \<Rightarrow> Inr (u, True, bn_kicked b))"

text \<open>The gate comes first, then the lengths of \<open>AdminActionRequest\<close> (422), then the service.\<close>

definition moderation_route ::
  "auth_user auth_result \<Rightarrow> string \<Rightarrow> string \<Rightarrow> (auth_user \<Rightarrow> 'a admin_result \<times> api_posts) \<Rightarrow> ('a \<Rightarrow> 'b admin_result) \<Rightarrow> int \<times> api_posts" where
  "moderation_route current username password act answer =
     (case admin_user current of
        Inl e \<Rightarrow> (http_status admin_base (Inl e :: unit admin_result), [])
      | Inr admin \<Rightarrow>
          if \<not> credentials_ok username password then (422, [])
          else let (r, sent) = act admin in (http_status admin_base (bindR r answer), sent))"

definition lookup_route ::
  "pbkdf2 \<Rightarrow> transport \<Rightarrow> api_client \<Rightarrow> auth_user auth_result \<Rightarrow> string \<Rightarrow> string \<Rightarrow> int \<times> api_posts" where
  "lookup_route pbkdf2 transport api current username password =
     moderation_route current username password
       (\<lambda>admin. admin_lookup pbkdf2 transport api admin password username) account_status_out"

definition ban_route ::
  "pbkdf2 \<Rightarrow> transport \<Rightarrow> api_client \<Rightarrow> auth_user auth_result \<Rightarrow> string \<Rightarrow> string \<Rightarrow> int \<times> api_posts" where
  "ban_route pbkdf2 transport api current username password =
     moderation_route current username password
       (\<lambda>admin. admin_ban pbkdf2 transport api admin password username) ban_out"

section \<open>What reaches RPCN, and what comes back\<close>

lemma admin_post_sent: "set (snd (admin_post pbkdf2 transport api path a p u)) \<subseteq> {(path, admin_payload pbkdf2 a p u)}"
  using api_post_sent by (simp add: admin_post_def split_beta)

lemma account_ban_sent: "set (snd (account_ban pbkdf2 transport api a p u)) \<subseteq> {(ban_path, admin_payload pbkdf2 a p u)}"
  using admin_post_sent by (simp add: account_ban_def split_beta)

lemma account_lookup_sent: "set (snd (account_lookup pbkdf2 transport api a p u)) \<subseteq> {(info_path, admin_payload pbkdf2 a p u)}"
  using admin_post_sent by (simp add: account_lookup_def split_beta)

lemma ban_path_not_info: "ban_path \<noteq> info_path"
  by (simp add: ban_path_def info_path_def)

text \<open>Only a missing or refused token is an \<open>UnauthorizedError\<close>.\<close>

definition stays_signed_in :: "'a admin_result \<Rightarrow> bool" where
  "stays_signed_in r \<longleftrightarrow> http_status admin_base r \<noteq> 401"

lemma stays_signed_in_bind:
  "stays_signed_in r \<Longrightarrow> (\<And>a. r = Inr a \<Longrightarrow> stays_signed_in (k a)) \<Longrightarrow> stays_signed_in (bindR r k)"
  by (cases r) (auto simp: stays_signed_in_def http_status_def)

lemma stays_signed_in_simps [simp]:
  "stays_signed_in (Inr a)" "stays_signed_in (Inl (Escapes x))" "stays_signed_in (Inl (Raises Admin_Password))"
  "stays_signed_in (Inl (Raises Not_Admin))" "stays_signed_in (Inl (Raises Account_Not_Found))"
  "stays_signed_in (Inl (Raises Self_Ban))" "stays_signed_in (Inl (Raises Admin_Unavailable))"
  by (simp_all add: stays_signed_in_def)

lemma raise_for_status_signed: "stays_signed_in (raise_for_status response)"
  by (simp add: raise_for_status_def)

lemma read_admin_signed: "stays_signed_in (read_admin convert body)"
  by (simp add: read_admin_def catching_def split: sum.split)

lemma admin_post_signed: "stays_signed_in (fst (admin_post pbkdf2 transport api path a p u))"
  by (auto simp: admin_post_def split_beta raise_for_status_signed intro!: stays_signed_in_bind
    split: sum.split api_failure.split option.split)

lemma admin_ban_signed: "stays_signed_in (fst (admin_ban pbkdf2 transport api admin p u))"
  by (auto simp: admin_ban_def ensure_not_self_def account_ban_def split_beta admin_post_signed read_admin_signed
    intro!: stays_signed_in_bind)

lemma admin_lookup_signed: "stays_signed_in (fst (admin_lookup pbkdf2 transport api admin p u))"
  by (auto simp: admin_lookup_def account_lookup_def split_beta admin_post_signed read_admin_signed
    intro!: stays_signed_in_bind)

text \<open>Moderation signs nobody out: looking an account up and banning one answer 401 exactly when the caller's own token
  is missing or refused, whatever RPCN answers, a wrong admin password included; and RPCN is told of a ban only
  when the ban route is called.\<close>

theorem moderation_never_signs_out:
  "(fst (ban_route pbkdf2 transport api current username password) = 401 \<longleftrightarrow>
      current = Inl (Raises Invalid_Token) \<or> current = Inl (Raises Invalid_Credentials)) \<and>
   (fst (lookup_route pbkdf2 transport api current username password) = 401 \<longleftrightarrow>
      current = Inl (Raises Invalid_Token) \<or> current = Inl (Raises Invalid_Credentials)) \<and>
   ban_path \<notin> fst ` set (snd (lookup_route pbkdf2 transport api current username password))"
proof -
  have gate: "http_status admin_base (Inl (as_admin_error e) :: unit admin_result) = 401 \<longleftrightarrow>
      e = Raises Invalid_Token \<or> e = Raises Invalid_Credentials" for e
  proof (cases e)
    case (Raises x)
    then show ?thesis by (cases x) simp_all
  qed simp
  have ban: "http_status admin_base (bindR (fst (admin_ban pbkdf2 transport api user password username)) ban_out) \<noteq> 401" for user
    using stays_signed_in_bind [OF admin_ban_signed, where k = ban_out] by (simp add: stays_signed_in_def [symmetric] ban_out_def split: option.split)
  have lookup: "http_status admin_base (bindR (fst (admin_lookup pbkdf2 transport api user password username)) account_status_out) \<noteq> 401" for user
    using stays_signed_in_bind [OF admin_lookup_signed, where k = account_status_out] by (simp add: stays_signed_in_def [symmetric] account_status_out_def)
  have "ban_path \<notin> fst ` set (snd (admin_lookup pbkdf2 transport api user password username))" for user
    using account_lookup_sent ban_path_not_info by (fastforce simp: admin_lookup_def)
  then show ?thesis
    by (auto simp: ban_route_def lookup_route_def moderation_route_def admin_user_def gate ban lookup split_beta split: sum.split)
qed

text \<open>C10: A ban is asked of RPCN exactly when the caller is signed in with the admin claim, the request has the right
  lengths, the account is not the admin's own in any casing and RPCN is configured; then it is asked once, with
  the admin's own name, the password as RPCS3 derives it and the exact target, and the answer follows RPCN's.\<close>

theorem ban_asked_exactly:
  assumes "ac_open api"
  shows "ban_route pbkdf2 transport api current username password =
    (case current of
       Inl (Raises e) \<Rightarrow> (status_code (auth_base e), [])
     | Inl (Escapes _) \<Rightarrow> (500, [])
     | Inr admin \<Rightarrow>
         if \<not> au_admin admin then (403, [])
         else if \<not> credentials_ok username password then (422, [])
         else if casefold (au_username admin) = casefold username then (400, [])
         else if ac_base_url api = [] \<or> ac_api_key api = [] then (502, [])
         else let payload = JObj [(''admin_username'', JStr (au_username admin)),
                  (''admin_password'', JStr (derive_rpcn_password pbkdf2 password)), (''username'', JStr username)] in
           ((case transport (ac_api_key api) ban_path payload of
               Inl _ \<Rightarrow> 502
             | Inr r \<Rightarrow>
                 if rs_status r = 401 then 400
                 else if rs_status r = 403 then 403
                 else if rs_status r = 404 \<and> api_error_code r = JStr ''user_not_found'' then 404
                 else if rs_status r \<noteq> 200 then 502
                 else case rs_json r of
                   Some (JObj m) \<Rightarrow> if map_of m ''username'' = None \<or> map_of m ''kicked'' = None then 502
                     else if json_text (the (map_of m ''username'')) = None then 500 else 200
                 | _ \<Rightarrow> 502),
            [(ban_path, payload)]))"
proof -
  have table: "http_status admin_base (bindR (bindR (raise_for_status r) (\<lambda>_. case rs_json r of None \<Rightarrow> Inl (Raises Admin_Unavailable) | Some body \<Rightarrow> Inr body))
       (\<lambda>body. bindR (read_admin to_ban_result body) ban_out)) =
      (if rs_status r = 401 then 400
       else if rs_status r = 403 then 403
       else if rs_status r = 404 \<and> api_error_code r = JStr ''user_not_found'' then 404
       else if rs_status r \<noteq> 200 then 502
       else case rs_json r of
         Some (JObj m) \<Rightarrow> if map_of m ''username'' = None \<or> map_of m ''kicked'' = None then 502
           else if json_text (the (map_of m ''username'')) = None then 500 else 200
       | _ \<Rightarrow> 502)" for r
    by (auto simp: raise_for_status_def read_admin_def catching_def to_ban_result_def getitem_def ban_out_def
      split: option.split json.split)
  have assoc: "bindR (bindR x f) g = bindR x (\<lambda>a. bindR (f a) g)" for x :: "json admin_result" and f :: "json \<Rightarrow> ban_result admin_result" and g :: "ban_result \<Rightarrow> (string \<times> bool \<times> bool) admin_result"
    by (cases x) simp_all
  show ?thesis
    unfolding ban_route_def moderation_route_def admin_user_def admin_ban_def ensure_not_self_def account_ban_def admin_post_def
      api_post_def admin_payload_def
    using assms by (cases current) (auto simp: assoc table Let_def split_beta split: sum.split raised.split)
qed

abbreviation kim_admin :: "auth_user auth_result" where
  "kim_admin \<equiv> Inr \<lparr>au_username = ''Kim'', au_online_name = ''Kim'', au_avatar_url = [], au_admin = True\<rparr>"

theorem ban_asked_exactly_witness:
  "ban_route demo_pbkdf2 (\<lambda>_ _ _. Inr \<lparr>rs_status = 401, rs_json = None\<rparr>) demo_api kim_admin ''Lee'' ''pw'' =
    (400, [(ban_path, admin_payload demo_pbkdf2 ''Kim'' ''pw'' ''Lee'')])"
proof -
  have api: "ac_open demo_api" "ac_base_url demo_api \<noteq> []" "ac_api_key demo_api \<noteq> []"
    by (simp_all add: api_init_def make_api_client_def rstrip_slash_def)
  have "credentials_ok ''Lee'' ''pw''" "casefold ''Kim'' \<noteq> casefold ''Lee''" by code_simp+
  then show ?thesis by (subst ban_asked_exactly [OF api(1)]) (simp add: api admin_payload_def)
qed

end
