(* ===== verification/Saves_Shapes.thy ===== *)
theory Saves_Shapes
  imports Account_Api
begin

text \<open>
  The answers of \<open>src/saves/models.py\<close> that the admin's routes declare as their \<open>response_model\<close>: each is a shape,
  and \<open>conform\<close> is how a declared answer is checked and built, its declared fields only.  How pydantic reads a value
  of another type as a number or a truth value is a parameter; \<open>lax_laws\<close> is that it takes the type itself as it is.
\<close>

section \<open>Shapes\<close>

datatype shape = Whole | Text | Truth | Details | Nullable shape | Listing shape | Model "(string \<times> shape) list"

record lax =
  lx_int :: "json \<Rightarrow> int option"
  lx_bool :: "json \<Rightarrow> bool option"

definition lax_laws :: "lax \<Rightarrow> bool" where
  "lax_laws L \<longleftrightarrow> (\<forall>i. lx_int L (JInt i) = Some i) \<and> (\<forall>b. lx_bool L (JBool b) = Some b)"

fun conform :: "lax \<Rightarrow> shape \<Rightarrow> json \<Rightarrow> json option" where
  "conform L Whole v = map_option JInt (lx_int L v)"
| "conform L Text v = map_option JStr (json_text v)"
| "conform L Truth v = map_option JBool (lx_bool L v)"
| "conform L Details v = (case v of JObj m \<Rightarrow> Some (JObj m) | _ \<Rightarrow> None)"
| "conform L (Nullable s) v = (if v = JNull then Some JNull else conform L s v)"
| "conform L (Listing s) v = (case v of JArr vs \<Rightarrow> map_option JArr (those (map (conform L s) vs)) | _ \<Rightarrow> None)"
| "conform L (Model fs) v = (case v of
     JObj m \<Rightarrow> map_option JObj (those (map (\<lambda>(k, s).
       case map_of m k of None \<Rightarrow> None | Some w \<Rightarrow> map_option (Pair k) (conform L s w)) fs))
   | _ \<Rightarrow> None)"

section \<open>The answers\<close>

definition save_char_out :: shape where
  "save_char_out = Model
     [(''id'', Whole), (''character'', Text), (''rank'', Whole), (''rank_name'', Text), (''tier'', Text),
      (''points'', Whole), (''streak'', Whole), (''wins'', Whole), (''losses'', Whole)]"

text \<open>\<open>SaveOut\<close> but for \<open>saved_at\<close>, which the service computes as a moment.\<close>

definition save_out :: shape where
  "save_out = Model
     [(''username'', Text), (''data_id'', Whole), (''sha256'', Text), (''checksum_ok'', Truth), (''account_rank'', Whole),
      (''progress'', Whole), (''total'', Whole), (''wins'', Whole), (''losses'', Whole), (''online'', Nullable Truth),
      (''chars'', Listing save_char_out)]"

definition backup_out :: shape where
  "backup_out = Model [(''label'', Text), (''total'', Nullable Whole), (''account_rank'', Nullable Whole)]"

definition backups_out :: shape where
  "backups_out = Model [(''backups'', Listing backup_out)]"

definition audit_record_out :: shape where
  "audit_record_out = Model
     [(''ts'', Text), (''user'', Text), (''action'', Text), (''username'', Text), (''details'', Details)]"

definition save_log_out :: shape where
  "save_log_out = Model [(''records'', Listing audit_record_out)]"

definition slot_state_out :: shape where
  "slot_state_out = Model [(''rank'', Whole), (''rank_name'', Text), (''points'', Whole), (''streak'', Whole)]"

definition char_change_out :: shape where
  "char_change_out = Model
     [(''id'', Whole), (''character'', Text), (''before'', slot_state_out), (''after'', slot_state_out)]"

definition account_rank_change_out :: shape where
  "account_rank_change_out = Model [(''before'', Whole), (''after'', Whole)]"

definition save_changes_out :: shape where
  "save_changes_out = Model
     [(''account_rank'', Nullable account_rank_change_out), (''chars'', Listing char_change_out)]"

definition write_result_out :: shape where
  "write_result_out = Model [(''backup'', Text), (''checksum'', Text), (''data_id'', Whole), (''landed'', Truth)]"

definition save_write_fields :: "(string \<times> shape) list" where
  "save_write_fields =
     [(''username'', Text), (''sha256'', Text), (''online'', Nullable Truth), (''changes'', save_changes_out),
      (''applied'', Truth), (''result'', Nullable write_result_out)]"

definition save_write_out :: shape where "save_write_out = Model save_write_fields"

definition floor_out :: shape where
  "floor_out = Model
     [(''reached'', Whole), (''floor'', Whole), (''raised'', Whole), (''points_fixed'', Whole), (''likely_demoted'', Truth)]"

definition floor_write_out :: shape where
  "floor_write_out = Model (save_write_fields @ [(''floor'', floor_out)])"

lemmas answer_shapes = save_char_out_def save_out_def backup_out_def backups_out_def audit_record_out_def save_log_out_def
  slot_state_out_def char_change_out_def account_rank_change_out_def save_changes_out_def write_result_out_def
  save_write_fields_def save_write_out_def floor_out_def floor_write_out_def

section \<open>What conforms\<close>

text \<open>A value of exactly the declared shape: its fields, in their order, and no other.\<close>

fun has_shape :: "shape \<Rightarrow> json \<Rightarrow> bool" where
  "has_shape Whole v = (case v of JInt _ \<Rightarrow> True | _ \<Rightarrow> False)"
| "has_shape Text v = (json_text v \<noteq> None)"
| "has_shape Truth v = (case v of JBool _ \<Rightarrow> True | _ \<Rightarrow> False)"
| "has_shape Details v = (case v of JObj _ \<Rightarrow> True | _ \<Rightarrow> False)"
| "has_shape (Nullable s) v = (v = JNull \<or> has_shape s v)"
| "has_shape (Listing s) v = (case v of JArr vs \<Rightarrow> list_all (has_shape s) vs | _ \<Rightarrow> False)"
| "has_shape (Model fs) v = (case v of
     JObj m \<Rightarrow> map fst m = map fst fs \<and> list_all (\<lambda>(k, s). case map_of m k of None \<Rightarrow> False | Some w \<Rightarrow> has_shape s w) fs
   | _ \<Rightarrow> False)"

fun plain_shape :: "shape \<Rightarrow> bool" where
  "plain_shape (Nullable s) = plain_shape s"
| "plain_shape (Listing s) = plain_shape s"
| "plain_shape (Model fs) = (distinct (map fst fs) \<and> list_all (\<lambda>(_, s). plain_shape s) fs)"
| "plain_shape _ = True"

lemma those_Some_iff: "those xs = Some ys \<longleftrightarrow> xs = map Some ys"
  by (induction xs arbitrary: ys) (auto split: option.splits)

lemma answers_plain:
  "plain_shape save_out" "plain_shape backups_out" "plain_shape save_log_out" "plain_shape save_write_out" "plain_shape floor_write_out"
  by (simp_all add: answer_shapes)

lemma json_text_Some_iff: "json_text v = Some s \<longleftrightarrow> v = JStr s"
  by (cases v) auto

lemma keyed_fields:
  "map (\<lambda>(k, s). case map_of m k of None \<Rightarrow> None | Some w \<Rightarrow> map_option (Pair k) (f s w)) fs = map Some ws \<Longrightarrow>
    map fst ws = map fst fs \<and> (\<forall>(k, s) \<in> set fs. \<exists>v w. map_of m k = Some v \<and> f s v = Some w \<and> (k, w) \<in> set ws)"
  by (induction fs arbitrary: ws) (fastforce split: option.splits)+

lemma conform_has_shape: "plain_shape s \<Longrightarrow> conform L s v = Some w \<Longrightarrow> has_shape s w"
proof (induction s arbitrary: v w rule: shape.induct)
  case (Listing s)
  then obtain vs ws where "v = JArr vs" "w = JArr ws" "map (conform L s) vs = map Some ws"
    by (auto simp: those_Some_iff split: json.splits)
  moreover from this(3) have "\<exists>v. conform L s v = Some x" if "x \<in> set ws" for x
    using that by (metis (no_types) image_eqI image_iff image_set)
  ultimately show ?case using Listing by (fastforce simp: list_all_iff)
next
  case (Model fs)
  then obtain m ws where v: "v = JObj m" "w = JObj ws"
    and ws: "map (\<lambda>(k, s). case map_of m k of None \<Rightarrow> None | Some w \<Rightarrow> map_option (Pair k) (conform L s w)) fs = map Some ws"
    by (auto simp: those_Some_iff split: json.splits)
  have keys: "map fst ws = map fst fs" using keyed_fields [OF ws] by blast
  then have d: "distinct (map fst ws)" using Model.prems(1) by simp
  have "\<exists>w. map_of ws k = Some w \<and> has_shape s w" if "(k, s) \<in> set fs" for k s
  proof -
    obtain x y where "map_of m k = Some x" "conform L s x = Some y" "(k, y) \<in> set ws" using keyed_fields [OF ws] \<open>(k, s) \<in> set fs\<close> by fast
    moreover have "plain_shape s" using Model.prems(1) \<open>(k, s) \<in> set fs\<close> by (auto simp: list_all_iff)
    ultimately show ?thesis using Model.IH [of "(k, s)" s] \<open>(k, s) \<in> set fs\<close> d by (fastforce simp: map_of_eq_Some_iff)
  qed
  then show ?case using v keys by (fastforce simp: list_all_iff)
qed (auto simp: json_text_Some_iff split: json.splits if_splits)

text \<open>An answer that has been built of a shape is taken by the shape again as it is.\<close>

lemma conform_stable: "lax_laws L \<Longrightarrow> plain_shape s \<Longrightarrow> has_shape s w \<Longrightarrow> conform L s w = Some w"
proof (induction s arbitrary: w rule: shape.induct)
  case (Listing s)
  then show ?case by (auto simp: those_Some_iff list_all_iff split: json.splits)
next
  case (Model fs)
  then obtain m where w: "w = JObj m" and keys: "map fst m = map fst fs"
    and m: "\<And>k s. (k, s) \<in> set fs \<Longrightarrow> \<exists>x. map_of m k = Some x \<and> has_shape s x"
    by (fastforce simp: list_all_iff split: json.splits option.splits)
  have d: "distinct (map fst m)" using Model.prems(2) keys by simp
  have "map (\<lambda>(k, s). case map_of m k of None \<Rightarrow> None | Some w \<Rightarrow> map_option (Pair k) (conform L s w)) fs = map Some m"
  proof (rule nth_equalityI)
    show len: "length (map (\<lambda>(k, s). case map_of m k of None \<Rightarrow> None | Some w \<Rightarrow> map_option (Pair k) (conform L s w)) fs) = length (map Some m)"
      using arg_cong [OF keys, of length] by simp
    fix i assume "i < length (map (\<lambda>(k, s). case map_of m k of None \<Rightarrow> None | Some w \<Rightarrow> map_option (Pair k) (conform L s w)) fs)"
    then have i: "i < length fs" "i < length m" using len by simp_all
    obtain k s where f: "fs ! i = (k, s)" by (cases "fs ! i")
    have "fst (m ! i) = k" using arg_cong [OF keys, of "\<lambda>l. l ! i"] i f by simp
    moreover obtain x where x: "map_of m k = Some x" "has_shape s x" using m [of k s] f i by (metis nth_mem)
    moreover have "map_of m (fst (m ! i)) = Some (snd (m ! i))" using d i by (simp add: map_of_eq_Some_iff)
    ultimately have "m ! i = (k, x)" by (simp add: prod_eq_iff)
    moreover have "(k, s) \<in> set fs" using f i by (metis nth_mem)
    then have "conform L s x = Some x" using Model.IH [of "(k, s)" s x] Model.prems x by (auto simp: list_all_iff)
    ultimately show "map (\<lambda>(k, s). case map_of m k of None \<Rightarrow> None | Some w \<Rightarrow> map_option (Pair k) (conform L s w)) fs ! i = map Some m ! i"
      using i f x by simp
  qed
  then show ?case by (simp add: w those_Some_iff)
qed (auto simp: lax_laws_def json_text_Some_iff split: json.splits)

end
