(* ===== verification/Saves_Admin.thy ===== *)
theory Saves_Admin
  imports Saves Admin Saves_Shapes
begin

text \<open>
  The admin's side of \<open>src/saves/\<close>: the requests of \<open>models.py\<close> and what each may hold, the routes of
  \<open>router.py\<close>, and \<open>service.py\<close>'s calls to the save server with their answers read as JSON.  A request is
  what pydantic has converted to the types of its fields; \<open>request_ok\<close> is what it then checks.
\<close>

section \<open>Requests\<close>

datatype char_choice = Slot int | All_Slots

record save_head =
  sv_username :: string
  sv_password :: string

record write_head = save_head +
  sv_dry_run :: bool
  sv_expect_sha256 :: "string option"

datatype save_request =
    Show_Save save_head bool
  | List_Backups save_head
  | Save_Log string "string option" int
  | Set_Rank write_head char_choice int "int option"
  | Set_Account_Rank write_head int
  | Floor write_head "int option" bool bool
  | Restore write_head string

definition rank_code :: "int \<Rightarrow> bool" where "rank_code r \<longleftrightarrow> 0 \<le> r \<and> r \<le> 42"
definition floor_rank :: "int \<Rightarrow> bool" where "floor_rank r \<longleftrightarrow> 1 \<le> r \<and> r \<le> 42"

definition lower_hex :: "char \<Rightarrow> bool" where
  "lower_hex c = (let n = (of_char c :: nat) in (48 \<le> n \<and> n \<le> 57) \<or> (97 \<le> n \<and> n \<le> 102))"

definition label_char :: "char \<Rightarrow> bool" where
  "label_char c = (let n = (of_char c :: nat) in
     (65 \<le> n \<and> n \<le> 90) \<or> (97 \<le> n \<and> n \<le> 122) \<or> (48 \<le> n \<and> n \<le> 57) \<or> n = 95 \<or> n = 45)"

text \<open>\<open>^[0-9a-f]{64}$\<close> and \<open>^[A-Za-z0-9_-][A-Za-z0-9_.-]*$\<close>, where \<open>$\<close> is the end of the text.\<close>

definition sha256_text :: "string \<Rightarrow> bool" where
  "sha256_text s \<longleftrightarrow> length s = 64 \<and> list_all lower_hex s"

definition label_text :: "string \<Rightarrow> bool" where
  "label_text s \<longleftrightarrow> length s \<le> 64 \<and> (case s of [] \<Rightarrow> False | c # cs \<Rightarrow> label_char c \<and> list_all (\<lambda>d. label_char d \<or> d = CHR ''.'') cs)"

fun opt_ok :: "('a \<Rightarrow> bool) \<Rightarrow> 'a option \<Rightarrow> bool" where
  "opt_ok P None = True"
| "opt_ok P (Some x) = P x"

definition head_ok :: "'a save_head_scheme \<Rightarrow> bool" where
  "head_ok h \<longleftrightarrow> credentials_ok (sv_username h) (sv_password h)"

definition write_head_ok :: "write_head \<Rightarrow> bool" where
  "write_head_ok h \<longleftrightarrow> head_ok h \<and> opt_ok sha256_text (sv_expect_sha256 h)"

fun request_ok :: "save_request \<Rightarrow> bool" where
  "request_ok (Show_Save h all_chars) \<longleftrightarrow> head_ok h"
| "request_ok (List_Backups h) \<longleftrightarrow> head_ok h"
| "request_ok (Save_Log password username n) \<longleftrightarrow>
     1 \<le> length password \<and> length password \<le> 128 \<and> opt_ok (\<lambda>u. 1 \<le> length u \<and> length u \<le> 64) username \<and> 1 \<le> n \<and> n \<le> 500"
| "request_ok (Set_Rank h c r points) \<longleftrightarrow>
     write_head_ok h \<and> (case c of Slot i \<Rightarrow> 0 \<le> i \<and> i \<le> 58 | All_Slots \<Rightarrow> True) \<and> rank_code r \<and>
     opt_ok (\<lambda>p. 0 \<le> p \<and> p \<le> 65535) points"
| "request_ok (Set_Account_Rank h r) \<longleftrightarrow> write_head_ok h \<and> rank_code r"
| "request_ok (Floor h r fix_points refloor) \<longleftrightarrow> write_head_ok h \<and> opt_ok floor_rank r"
| "request_ok (Restore h l) \<longleftrightarrow> write_head_ok h \<and> label_text l"

fun action_of :: "save_request \<Rightarrow> string" where
  "action_of (Show_Save _ _) = ''show''"
| "action_of (List_Backups _) = ''backups''"
| "action_of (Save_Log _ _ _) = ''log''"
| "action_of (Set_Rank _ _ _ _) = ''set-rank''"
| "action_of (Set_Account_Rank _ _) = ''set-account-rank''"
| "action_of (Floor _ _ _ _) = ''floor''"
| "action_of (Restore _ _) = ''restore''"

fun password_of :: "save_request \<Rightarrow> string" where
  "password_of (Show_Save h _) = sv_password h"
| "password_of (List_Backups h) = sv_password h"
| "password_of (Save_Log password _ _) = password"
| "password_of (Set_Rank h _ _ _) = sv_password h"
| "password_of (Set_Account_Rank h _) = sv_password h"
| "password_of (Floor h _ _ _) = sv_password h"
| "password_of (Restore h _) = sv_password h"

text \<open>\<open>request.model_dump(exclude={"password"}, exclude_none=True)\<close>\<close>

definition opt_field :: "string \<Rightarrow> ('a \<Rightarrow> json) \<Rightarrow> 'a option \<Rightarrow> (string \<times> json) list" where
  "opt_field k f v = (case v of None \<Rightarrow> [] | Some x \<Rightarrow> [(k, f x)])"

definition head_dump :: "'a save_head_scheme \<Rightarrow> (string \<times> json) list" where
  "head_dump h = [(''username'', JStr (sv_username h))]"

definition write_dump :: "write_head \<Rightarrow> (string \<times> json) list" where
  "write_dump h = head_dump h @ [(''dry_run'', JBool (sv_dry_run h))] @ opt_field ''expect_sha256'' JStr (sv_expect_sha256 h)"

fun char_json :: "char_choice \<Rightarrow> json" where
  "char_json (Slot i) = JInt i"
| "char_json All_Slots = JStr ''all''"

fun model_dump :: "save_request \<Rightarrow> (string \<times> json) list" where
  "model_dump (Show_Save h all_chars) = head_dump h @ [(''all_chars'', JBool all_chars)]"
| "model_dump (List_Backups h) = head_dump h"
| "model_dump (Save_Log password username n) = opt_field ''username'' JStr username @ [(''n'', JInt n)]"
| "model_dump (Set_Rank h c r points) = write_dump h @ [(''char'', char_json c), (''rank'', JInt r)] @ opt_field ''points'' JInt points"
| "model_dump (Set_Account_Rank h r) = write_dump h @ [(''rank'', JInt r)]"
| "model_dump (Floor h r fix_points refloor) = write_dump h @ opt_field ''rank'' JInt r @
     [(''fix_points'', JBool fix_points), (''refloor'', JBool refloor)]"
| "model_dump (Restore h l) = write_dump h @ [(''label'', JStr l)]"

section \<open>The call\<close>

type_synonym 'a saves_result = "saves_error raised + 'a"

text \<open>\<open>{**payload, ...}\<close>: the two keys written last win.\<close>

definition call_body :: "pbkdf2 \<Rightarrow> string \<Rightarrow> string \<Rightarrow> (string \<times> json) list \<Rightarrow> json" where
  "call_body pbkdf2 admin_username admin_password payload =
     JObj ([(''admin_password'', JStr (derive_rpcn_password pbkdf2 admin_password)), (''admin_username'', JStr admin_username)] @ payload)"

definition save_send :: "transport \<Rightarrow> api_client \<Rightarrow> string \<Rightarrow> json \<Rightarrow> api_response saves_result \<times> api_posts" where
  "save_send transport api path body =
     (if \<not> ac_open api then (Inl (Escapes RuntimeError), [])
      else if ac_base_url api = [] \<or> ac_api_key api = [] then (Inl (Raises Saves_Unavailable), [])
      else case transport (ac_api_key api) path body of
        Inl _ \<Rightarrow> (Inl (Raises Saves_Unavailable), [(path, body)])
      | Inr response \<Rightarrow> (Inr response, [(path, body)]))"

definition json_dict :: "api_response \<Rightarrow> (string \<times> json) list option" where
  "json_dict response = (case rs_json response of Some (JObj m) \<Rightarrow> Some m | _ \<Rightarrow> None)"

text \<open>\<open>code in _REFUSALS\<close> hashes the code: a list or an object is a \<open>TypeError\<close>.\<close>

fun unhashable :: "json \<Rightarrow> bool" where
  "unhashable (JArr _) = True"
| "unhashable (JObj _) = True"
| "unhashable _ = False"

definition refused :: "(string \<times> json) list option \<Rightarrow> saves_error raised" where
  "refused answer =
     (let code = claim_or JNull ''error'' (case answer of None \<Rightarrow> [] | Some m \<Rightarrow> m) in
      if unhashable code then Escapes TypeError
      else Raises (refusal \<lparr>hr_status = 0, hr_is_object = answer \<noteq> None, hr_error = json_text code\<rparr>))"

definition save_call ::
  "pbkdf2 \<Rightarrow> transport \<Rightarrow> api_client \<Rightarrow> string \<Rightarrow> string \<Rightarrow> string \<Rightarrow> (string \<times> json) list \<Rightarrow>
     (string \<times> json) list saves_result \<times> api_posts" where
  "save_call pbkdf2 transport api action admin_username admin_password payload =
     (let (r, sent) = save_send transport api (''/saves/'' @ action) (call_body pbkdf2 admin_username admin_password payload) in
      (bindR r (\<lambda>response. case json_dict response of
          None \<Rightarrow> Inl (refused None)
        | Some m \<Rightarrow> if rs_status response = 200 then Inr m else Inl (refused (Some m))), sent))"

definition admin_call ::
  "pbkdf2 \<Rightarrow> transport \<Rightarrow> api_client \<Rightarrow> auth_user \<Rightarrow> save_request \<Rightarrow> (string \<times> json) list saves_result \<times> api_posts" where
  "admin_call pbkdf2 transport api admin q =
     save_call pbkdf2 transport api (action_of q) (au_username admin) (password_of q) (model_dump q)"

section \<open>Answers\<close>

text \<open>An exception of reading an answer is nobody's to catch.\<close>

abbreviation reading :: "py_exc + 'a \<Rightarrow> 'a saves_result" where
  "reading r \<equiv> catching {} Saves_Unavailable r"

definition path_fields :: "string list" where "path_fields = [''backup'', ''source'']"
definition audit_head :: "string list" where "audit_head = [''ts'', ''user'', ''action'', ''npid'']"

definition label_json :: "json \<Rightarrow> py_exc + json" where
  "label_json v = (case v of JStr path \<Rightarrow> Inr (JStr (label path)) | _ \<Rightarrow> Inl TypeError)"

record audit_record =
  ar_ts :: json
  ar_user :: json
  ar_action :: json
  ar_username :: json
  ar_details :: "(string \<times> json) list"

definition audit_details :: "(string \<times> json) list \<Rightarrow> py_exc + (string \<times> json) list" where
  "audit_details items =
     mapR (\<lambda>(k, v). bindR (if k \<in> set path_fields then label_json v else Inr v) (\<lambda>w. Inr (k, w)))
       (filter (\<lambda>(k, _). k \<notin> set audit_head) items)"

definition audit_record_of :: "json \<Rightarrow> py_exc + audit_record" where
  "audit_record_of r =
     (case r of
        JObj items \<Rightarrow>
          bindR (audit_details items) (\<lambda>details.
          bindR (getitem ''ts'' r) (\<lambda>ts. bindR (getitem ''user'' r) (\<lambda>user. bindR (getitem ''action'' r) (\<lambda>action.
          bindR (getitem ''npid'' r) (\<lambda>npid.
            Inr \<lparr>ar_ts = ts, ar_user = user, ar_action = action, ar_username = npid, ar_details = details\<rparr>)))))
      | _ \<Rightarrow> Inl AttributeError)"

text \<open>Iterating over what is no list: a text and an object give texts, the rest nothing to iterate.\<close>

fun records_of :: "json \<Rightarrow> py_exc + audit_record list" where
  "records_of (JArr rs) = mapR audit_record_of rs"
| "records_of (JStr s) = (if s = [] then Inr [] else Inl AttributeError)"
| "records_of (JObj m) = (if m = [] then Inr [] else Inl AttributeError)"
| "records_of _ = Inl TypeError"

definition read_log_answer :: "(string \<times> json) list \<Rightarrow> py_exc + audit_record list" where
  "read_log_answer answer = bindR (getitem ''records'' (JObj answer)) records_of"

text \<open>
  \<open>show_save\<close> adds two keys to what the server answered; \<open>isoformat\<close> is \<open>datetime.fromisoformat\<close> with the result
  taken as UTC.
\<close>

definition shown_save :: "(string \<Rightarrow> instant option) \<Rightarrow> (string \<times> json) list \<Rightarrow> py_exc + (string \<times> json) list \<times> instant" where
  "shown_save isoformat save =
     bindR (getitem ''npid'' (JObj save)) (\<lambda>npid. bindR (getitem ''saved_utc'' (JObj save)) (\<lambda>t.
     case json_text t of
       None \<Rightarrow> Inl TypeError
     | Some txt \<Rightarrow> (case isoformat txt of None \<Rightarrow> Inl ValueError | Some at_time \<Rightarrow> Inr ((''username'', npid) # save, at_time))))"

datatype save_answer =
    Shown "(string \<times> json) list" instant
  | Passed "(string \<times> json) list"
  | Log_Read "audit_record list"

text \<open>\<open>edit_save\<close>: a written edit drops the profile of the account it names.\<close>

definition edited_save :: "(string \<times> json) list \<Rightarrow> saves_cache \<Rightarrow> (py_exc + (string \<times> json) list) \<times> saves_cache" where
  "edited_save answer c =
     (case getitem ''applied'' (JObj answer) of
        Inl x \<Rightarrow> (Inl x, c)
      | Inr applied \<Rightarrow>
          if \<not> truthy applied then (Inr answer, c)
          else (case getitem ''username'' (JObj answer) of
            Inl x \<Rightarrow> (Inl x, c)
          | Inr u \<Rightarrow> (case json_text u of
              None \<Rightarrow> (Inl AttributeError, c)
            | Some npid \<Rightarrow> (Inr answer, c\<lparr>sc_profiles := dict_delete (profile_key npid) (sc_profiles c)\<rparr>))))"

fun serve :: "(string \<Rightarrow> instant option) \<Rightarrow> save_request \<Rightarrow> (string \<times> json) list \<Rightarrow> saves_cache \<Rightarrow> save_answer saves_result \<times> saves_cache" where
  "serve isoformat (Show_Save _ _) answer c = (bindR (reading (shown_save isoformat answer)) (\<lambda>(m, t). Inr (Shown m t)), c)"
| "serve isoformat (List_Backups _) answer c = (Inr (Passed answer), c)"
| "serve isoformat (Save_Log _ _ _) answer c = (bindR (reading (read_log_answer answer)) (\<lambda>rs. Inr (Log_Read rs)), c)"
| "serve isoformat _ answer c = (let (r, c') = edited_save answer c in (bindR (reading r) (\<lambda>m. Inr (Passed m)), c'))"

definition saves_admin ::
  "pbkdf2 \<Rightarrow> transport \<Rightarrow> api_client \<Rightarrow> (string \<Rightarrow> instant option) \<Rightarrow> auth_user \<Rightarrow> save_request \<Rightarrow> saves_cache \<Rightarrow>
     save_answer saves_result \<times> saves_cache \<times> api_posts" where
  "saves_admin pbkdf2 transport api isoformat admin q c =
     (case admin_call pbkdf2 transport api admin q of
        (Inl e, sent) \<Rightarrow> (Inl e, c, sent)
      | (Inr answer, sent) \<Rightarrow> (let (r, c') = serve isoformat q answer c in (r, c', sent)))"

text \<open>\<open>Key_Missing\<close> is a \<open>KeyError\<close>, which no handler names.\<close>

fun saves_status :: "saves_error \<Rightarrow> int" where
  "saves_status Save_Not_Found = status_code NotFoundError"
| "saves_status Backup_Not_Found = status_code NotFoundError"
| "saves_status Save_Conflict = status_code ConflictError"
| "saves_status Save_Request = status_code ValidationError"
| "saves_status Saves_Unavailable = status_code ServiceUnavailableError"
| "saves_status Saves.Admin_Password = status_code ValidationError"
| "saves_status Saves.Not_Admin = status_code ForbiddenError"
| "saves_status Saves.Account_Not_Found = status_code NotFoundError"
| "saves_status Key_Missing = 500"

definition saves_http :: "'a saves_result \<Rightarrow> int" where
  "saves_http r = (case r of Inr _ \<Rightarrow> 200 | Inl (Escapes _) \<Rightarrow> 500 | Inl (Raises e) \<Rightarrow> saves_status e)"

text \<open>The \<open>response_model\<close> of each route, and the answer it makes of the service's; a moment stands for \<open>saved_at\<close>.\<close>

fun answer_shape :: "save_request \<Rightarrow> shape" where
  "answer_shape (Show_Save _ _) = save_out"
| "answer_shape (List_Backups _) = backups_out"
| "answer_shape (Save_Log _ _ _) = save_log_out"
| "answer_shape (Set_Rank _ _ _ _) = save_write_out"
| "answer_shape (Set_Account_Rank _ _) = save_write_out"
| "answer_shape (Floor _ _ _ _) = floor_write_out"
| "answer_shape (Restore _ _) = save_write_out"

definition audit_json :: "audit_record \<Rightarrow> json" where
  "audit_json a = JObj [(''ts'', ar_ts a), (''user'', ar_user a), (''action'', ar_action a), (''username'', ar_username a),
     (''details'', JObj (ar_details a))]"

fun answer_content :: "save_answer \<Rightarrow> json \<times> instant option" where
  "answer_content (Shown m at_time) = (JObj m, Some at_time)"
| "answer_content (Passed m) = (JObj m, None)"
| "answer_content (Log_Read rs) = (JObj [(''records'', JArr (map audit_json rs))], None)"

definition saves_response :: "lax \<Rightarrow> save_request \<Rightarrow> save_answer \<Rightarrow> (json \<times> instant option) saves_result" where
  "saves_response L q answer =
     (case conform L (answer_shape q) (fst (answer_content answer)) of
        None \<Rightarrow> Inl (Escapes ResponseError)
      | Some body \<Rightarrow> Inr (body, snd (answer_content answer)))"

definition saves_respond ::
  "pbkdf2 \<Rightarrow> transport \<Rightarrow> api_client \<Rightarrow> (string \<Rightarrow> instant option) \<Rightarrow> lax \<Rightarrow> auth_user \<Rightarrow> save_request \<Rightarrow> saves_cache \<Rightarrow>
     (json \<times> instant option) saves_result \<times> saves_cache \<times> api_posts" where
  "saves_respond pbkdf2 transport api isoformat L admin q c =
     (let (r, c', sent) = saves_admin pbkdf2 transport api isoformat admin q c in (bindR r (saves_response L q), c', sent))"

text \<open>The routes under \<open>/admin/saves\<close>: the gate, the request's own rules, then the service.\<close>

definition saves_admin_route ::
  "pbkdf2 \<Rightarrow> transport \<Rightarrow> api_client \<Rightarrow> (string \<Rightarrow> instant option) \<Rightarrow> lax \<Rightarrow> auth_user auth_result \<Rightarrow> save_request \<Rightarrow> saves_cache \<Rightarrow>
     int \<times> saves_cache \<times> api_posts" where
  "saves_admin_route pbkdf2 transport api isoformat L current q c =
     (case admin_user current of
        Inl e \<Rightarrow> (http_status admin_base (Inl e :: unit admin_result), c, [])
      | Inr admin \<Rightarrow>
          if \<not> request_ok q then (422, c, [])
          else let (r, c', sent) = saves_respond pbkdf2 transport api isoformat L admin q c in (saves_http r, c', sent))"

section \<open>What reaches the save server\<close>

text \<open>The type of each field on the wire; no other field is sent.\<close>

definition wire_fields :: "(string \<times> (json \<Rightarrow> bool)) list" where
  "wire_fields =
     [(''admin_username'', \<lambda>v. json_text v \<noteq> None), (''admin_password'', \<lambda>v. json_text v \<noteq> None),
      (''username'', \<lambda>v. \<exists>s. v = JStr s \<and> 1 \<le> length s \<and> length s \<le> 64),
      (''all_chars'', \<lambda>v. \<exists>b. v = JBool b), (''dry_run'', \<lambda>v. \<exists>b. v = JBool b),
      (''fix_points'', \<lambda>v. \<exists>b. v = JBool b), (''refloor'', \<lambda>v. \<exists>b. v = JBool b),
      (''n'', \<lambda>v. \<exists>i. v = JInt i \<and> 1 \<le> i \<and> i \<le> 500),
      (''expect_sha256'', \<lambda>v. \<exists>s. v = JStr s \<and> length s = 64 \<and> list_all lower_hex s),
      (''char'', \<lambda>v. v = JStr ''all'' \<or> (\<exists>i. v = JInt i \<and> 0 \<le> i \<and> i \<le> 58)),
      (''rank'', \<lambda>v. \<exists>i. v = JInt i \<and> 0 \<le> i \<and> i \<le> 42),
      (''points'', \<lambda>v. \<exists>i. v = JInt i \<and> 0 \<le> i \<and> i \<le> 65535),
      (''label'', \<lambda>v. \<exists>s. v = JStr s \<and> label_text s)]"

definition wire_field :: "string \<times> json \<Rightarrow> bool" where
  "wire_field kv = (case map_of wire_fields (fst kv) of None \<Rightarrow> False | Some P \<Rightarrow> P (snd kv))"

lemma wire_simps [simp]:
  "wire_field (''admin_username'', JStr s)" "wire_field (''admin_password'', JStr s)"
  "wire_field (''username'', JStr s) \<longleftrightarrow> 1 \<le> length s \<and> length s \<le> 64"
  "wire_field (''all_chars'', JBool b)" "wire_field (''dry_run'', JBool b)" "wire_field (''fix_points'', JBool b)"
  "wire_field (''refloor'', JBool b)" "wire_field (''n'', JInt i) \<longleftrightarrow> 1 \<le> i \<and> i \<le> 500"
  "wire_field (''expect_sha256'', JStr s) \<longleftrightarrow> sha256_text s"
  "wire_field (''char'', JInt i) \<longleftrightarrow> 0 \<le> i \<and> i \<le> 58" "wire_field (''char'', JStr ''all'')"
  "wire_field (''rank'', JInt i) \<longleftrightarrow> 0 \<le> i \<and> i \<le> 42" "wire_field (''points'', JInt i) \<longleftrightarrow> 0 \<le> i \<and> i \<le> 65535"
  "wire_field (''label'', JStr s) \<longleftrightarrow> label_text s"
  by (simp_all add: wire_field_def wire_fields_def sha256_text_def)

lemma opt_field_wire: "list_all wire_field (opt_field k f v) \<longleftrightarrow> opt_ok (\<lambda>x. wire_field (k, f x)) v"
  by (cases v) (simp_all add: opt_field_def)

lemma opt_ok_mono: "opt_ok P v \<Longrightarrow> (\<And>x. P x \<Longrightarrow> Q x) \<Longrightarrow> opt_ok Q v"
  by (cases v) auto

lemma head_dump_wire: "head_ok h \<Longrightarrow> list_all wire_field (head_dump h)"
  by (simp add: head_dump_def head_ok_def credentials_ok_def)

lemma write_dump_wire: "write_head_ok h \<Longrightarrow> list_all wire_field (write_dump h)"
  by (simp add: write_dump_def write_head_ok_def head_dump_wire opt_field_wire)

lemma model_dump_wire: "request_ok q \<Longrightarrow> list_all wire_field (model_dump q)"
  by (cases q) (auto simp: head_dump_wire write_dump_wire opt_field_wire rank_code_def floor_rank_def elim: opt_ok_mono split: char_choice.splits)

lemma saves_admin_sent:
  "snd (snd (saves_admin pbkdf2 transport api isoformat admin q c)) =
    (if ac_open api \<and> ac_base_url api \<noteq> [] \<and> ac_api_key api \<noteq> []
     then [(''/saves/'' @ action_of q, call_body pbkdf2 (au_username admin) (password_of q) (model_dump q))] else [])"
  by (auto simp: saves_admin_def admin_call_def save_call_def save_send_def split: prod.split sum.split)

text \<open>C21: What reaches the save server is one of the seven actions with fields of these types and bounds only: ranks from 0
  to 42, slots from 0 to 58 or all, points of 16 bits, at most 500 log records, a hash of 64 lower-case hex
  digits, a label that is a plain file name; the caller's own name and derived password, never the typed one.\<close>

theorem save_calls_well_typed:
  assumes "(path, body) \<in> set (snd (snd (saves_admin_route pbkdf2 transport api isoformat L current q c)))"
  shows "\<exists>admin m. current = Inr admin \<and> au_admin admin \<and> body = JObj m \<and> list_all wire_field m \<and>
    path \<in> (\<lambda>a. ''/saves/'' @ a) ` {''show'', ''backups'', ''log'', ''set-rank'', ''set-account-rank'', ''floor'', ''restore''} \<and>
    map_of m ''admin_username'' = Some (JStr (au_username admin)) \<and>
    map_of m ''admin_password'' = Some (JStr (derive_rpcn_password pbkdf2 (password_of q)))"
proof -
  obtain admin where admin: "current = Inr admin" "au_admin admin" and ok: "request_ok q"
    and sent: "(path, body) \<in> set (snd (snd (saves_admin pbkdf2 transport api isoformat admin q c)))"
    using assms by (auto simp: saves_admin_route_def saves_respond_def admin_user_def split_beta split: sum.splits if_splits)
  have "action_of q \<in> {''show'', ''backups'', ''log'', ''set-rank'', ''set-account-rank'', ''floor'', ''restore''}"
    by (cases q) simp_all
  then show ?thesis
    using admin sent model_dump_wire [OF ok]
    by (auto simp: saves_admin_sent call_body_def split: if_splits)
qed

abbreviation demo_lax :: lax where
  "demo_lax \<equiv> \<lparr>lx_int = (\<lambda>v. case v of JInt i \<Rightarrow> Some i | _ \<Rightarrow> None), lx_bool = (\<lambda>v. case v of JBool b \<Rightarrow> Some b | _ \<Rightarrow> None)\<rparr>"

abbreviation demo_restore :: save_request where
  "demo_restore \<equiv> Restore \<lparr>sv_username = ''Lee'', sv_password = ''pw'', sv_dry_run = False, sv_expect_sha256 = None\<rparr> ''2024-05-01.1''"

lemma demo_restore_sent:
  "snd (snd (saves_admin_route demo_pbkdf2 (\<lambda>_ _ _. Inl ()) demo_api (\<lambda>_. None) demo_lax kim_admin demo_restore empty_saves_cache)) =
    [(''/saves/restore'', call_body demo_pbkdf2 ''Kim'' ''pw'' (model_dump demo_restore))]"
proof -
  have api: "ac_open demo_api" "ac_base_url demo_api \<noteq> []" "ac_api_key demo_api \<noteq> []"
    by (simp_all add: api_init_def make_api_client_def rstrip_slash_def)
  have "request_ok demo_restore" by code_simp
  then show ?thesis by (simp add: saves_admin_route_def saves_respond_def admin_user_def split_beta saves_admin_sent api)
qed

theorem save_calls_well_typed_witness:
  "wire_field (''label'', JStr ''2024-05-01.1'') \<and> (''label'', JStr ''2024-05-01.1'') \<in> set (model_dump demo_restore)"
proof -
  have "(''/saves/restore'', call_body demo_pbkdf2 ''Kim'' ''pw'' (model_dump demo_restore)) \<in>
      set (snd (snd (saves_admin_route demo_pbkdf2 (\<lambda>_ _ _. Inl ()) demo_api (\<lambda>_. None) demo_lax kim_admin demo_restore empty_saves_cache)))"
    unfolding demo_restore_sent by simp
  from save_calls_well_typed [OF this] show ?thesis by (simp add: call_body_def list_all_iff)
qed

section \<open>Labels\<close>

lemma label_char_plain: "label_char c \<Longrightarrow> c \<noteq> CHR ''/'' \<and> c \<noteq> CHR ''.''"
  by (auto simp: label_char_def)

lemma basename_append: "CHR ''/'' \<notin> set b \<Longrightarrow> basename (d @ CHR ''/'' # b) = b"
  by (simp add: basename_def takeWhile_append2) (simp add: takeWhile_append)

lemma label_of_path:
  assumes "label_text l" and "CHR ''.'' \<notin> set ext" and "CHR ''/'' \<notin> set ext"
  shows "label (d @ CHR ''/'' # l @ CHR ''.'' # ext) = l"
proof -
  obtain c cs where l: "l = c # cs" "label_char c" "list_all (\<lambda>d. label_char d \<or> d = CHR ''.'') cs"
    using assms(1) by (auto simp: label_text_def split: list.splits)
  have "CHR ''/'' \<notin> set l" using l label_char_plain by (auto simp: list_all_iff)
  then have b: "basename (d @ CHR ''/'' # l @ CHR ''.'' # ext) = l @ CHR ''.'' # ext"
    using basename_append [of "l @ CHR ''.'' # ext" d] assms(3) by simp
  have "dropWhile (\<lambda>c. c \<noteq> CHR ''.'') (rev (l @ CHR ''.'' # ext)) = CHR ''.'' # rev l"
    using assms(2) by (simp add: dropWhile_append2 dropWhile_append)
  moreover have "\<exists>x\<in>set l. x \<noteq> CHR ''.''" using l label_char_plain by auto
  ultimately show ?thesis by (simp add: label_def b Let_def)
qed

text \<open>The name the audit log shows for a backup is the name a restore takes: for every label a restore accepts, the file
  kept under it in any directory, with any extension, is shown in the log's details by that label; and such a
  label names a file of the backup directory itself, never a path, a hidden file or a parent.\<close>

theorem restore_label_roundtrip:
  assumes "request_ok (Restore h l)" and "CHR ''.'' \<notin> set ext" and "CHR ''/'' \<notin> set ext"
  shows "audit_details [(''backup'', JStr (d @ CHR ''/'' # l @ CHR ''.'' # ext))] = Inr [(''backup'', JStr l)] \<and>
    CHR ''/'' \<notin> set l \<and> l \<noteq> [] \<and> hd l \<noteq> CHR ''.'' \<and> length l \<le> 64 \<and>
    map_of (model_dump (Restore h l)) ''label'' = Some (JStr l)"
proof -
  have lt: "label_text l" using assms(1) by simp
  then obtain c cs where l: "l = c # cs" "label_char c" "list_all (\<lambda>d. label_char d \<or> d = CHR ''.'') cs" "length l \<le> 64"
    by (auto simp: label_text_def split: list.splits)
  then have "CHR ''/'' \<notin> set l" "hd l \<noteq> CHR ''.''" using label_char_plain by (auto simp: list_all_iff)
  then show ?thesis using l label_of_path [OF lt assms(2,3)]
    by (auto simp: audit_details_def audit_head_def path_fields_def label_json_def write_dump_def head_dump_def opt_field_def split: option.split)
qed

theorem restore_label_roundtrip_witness:
  "audit_details [(''backup'', JStr ''/data/backups/2024-05-01.1.bin'')] = Inr [(''backup'', JStr ''2024-05-01.1'')]"
proof -
  have "request_ok demo_restore" by code_simp
  from restore_label_roundtrip [OF this, of "''bin''" "''/data/backups''"] show ?thesis by simp
qed

section \<open>What a written edit shows\<close>

fun is_edit :: "save_request \<Rightarrow> bool" where
  "is_edit (Show_Save _ _) = False"
| "is_edit (List_Backups _) = False"
| "is_edit (Save_Log _ _ _) = False"
| "is_edit _ = True"

lemma serve_edit:
  "is_edit q \<Longrightarrow> serve isoformat q answer c = (let (r, c') = edited_save answer c in (bindR (reading r) (\<lambda>m. Inr (Passed m)), c'))"
  by (cases q) simp_all

text \<open>An edit that the save server says it has written is shown at once: the next profile read of that account, in any
  spelling of its name, asks the server, and no other profile is dropped, also when the answer itself is refused as
  not of its declared shape; a preview drops nothing.\<close>

theorem written_edit_shows:
  assumes "au_admin admin" and "request_ok q" and "is_edit q"
    and "ac_open api" and "ac_base_url api \<noteq> []" and "ac_api_key api \<noteq> []"
    and "transport (ac_api_key api) (''/saves/'' @ action_of q) (call_body pbkdf2 (au_username admin) (password_of q) (model_dump q)) =
      Inr \<lparr>rs_status = 200, rs_json = Some (JObj m)\<rparr>"
    and "map_of m ''applied'' = Some applied" and "map_of m ''username'' = Some (JStr u)"
  shows "case saves_admin_route pbkdf2 transport api isoformat L (Inr admin) q c of (status, c', _) \<Rightarrow>
    status = (if conform L (answer_shape q) (JObj m) = None then 500 else 200) \<and>
    (if truthy applied
     then fst (get_player_save ttl npid now read c') =
       (if casefold npid = casefold u then bindR read (\<lambda>save. case save of None \<Rightarrow> Inl Save_Not_Found | Some p \<Rightarrow> Inr p)
        else fst (get_player_save ttl npid now read c))
     else c' = c)"
proof -
  have route: "saves_admin_route pbkdf2 transport api isoformat L (Inr admin) q c =
      (if conform L (answer_shape q) (JObj m) = None then 500 else 200, snd (edited_save m c), snd (snd (saves_admin pbkdf2 transport api isoformat admin q c)))"
    using assms by (auto simp: saves_admin_route_def saves_respond_def admin_user_def saves_admin_def admin_call_def save_call_def save_send_def json_dict_def
      serve_edit split_beta edited_save_def getitem_def catching_def saves_http_def saves_response_def split: option.split)
  have cache: "snd (edited_save m c) = (if truthy applied then c\<lparr>sc_profiles := dict_delete (profile_key u) (sc_profiles c)\<rparr> else c)"
    using assms(8,9) by (simp add: edited_save_def getitem_def)
  have keys: "profile_key npid = profile_key u \<longleftrightarrow> casefold npid = casefold u" by (simp add: profile_key_def)
  have same: "fst (dict_get (profile_key npid) now (dict_delete (profile_key u) (sc_profiles c))) = fst (dict_get (profile_key npid) now (sc_profiles c))"
    if "casefold npid \<noteq> casefold u"
    using dict.get_after_delete [of "profile_key npid" now "profile_key u"] that keys by simp
  show ?thesis
  proof (cases "casefold npid = casefold u")
    case True
    then have "fst (read_through dict_get dict_set (\<lambda>_. True) (profile_key npid) ttl now read (dict_delete (profile_key u) (sc_profiles c))) = read"
      using keys dict.read_after_delete [where key = "profile_key u"] by simp
    then show ?thesis using True by (simp add: route cache get_player_save_def split_beta)
  next
    case False
    then have "fst (read_through dict_get dict_set (\<lambda>_. True) (profile_key npid) ttl now read (dict_delete (profile_key u) (sc_profiles c))) =
        fst (read_through dict_get dict_set (\<lambda>_. True) (profile_key npid) ttl now read (sc_profiles c))"
      using same [OF False] by (cases read; simp add: dict.read_cases split: option.split)
    then show ?thesis using False by (simp add: route cache get_player_save_def split_beta)
  qed
qed

theorem written_edit_shows_witness:
  "fst (get_player_save 600 ''LEE'' 9 (Inr None) (fst (snd (saves_admin_route demo_pbkdf2
      (\<lambda>_ _ _. Inr \<lparr>rs_status = 200, rs_json = Some (JObj [(''applied'', JBool True), (''username'', JStr ''Lee'')])\<rparr>)
      demo_api (\<lambda>_. None) demo_lax kim_admin demo_restore empty_saves_cache)))) = Inl Save_Not_Found"
proof -
  have api: "ac_open demo_api" "ac_base_url demo_api \<noteq> []" "ac_api_key demo_api \<noteq> []"
    by (simp_all add: api_init_def make_api_client_def rstrip_slash_def)
  have q: "request_ok demo_restore" and name: "casefold ''LEE'' = casefold ''Lee''" by code_simp+
  have admin: "au_admin \<lparr>au_username = ''Kim'', au_online_name = ''Kim'', au_avatar_url = [], au_admin = True\<rparr>"
    and edit: "is_edit demo_restore"
    and answer: "map_of [(''applied'', JBool True), (''username'', JStr ''Lee'')] ''applied'' = Some (JBool True)"
      "map_of [(''applied'', JBool True), (''username'', JStr ''Lee'')] ''username'' = Some (JStr ''Lee'')"
    by simp_all
  let ?transport = "(\<lambda>_ _ _. Inr \<lparr>rs_status = 200, rs_json = Some (JObj [(''applied'', JBool True), (''username'', JStr ''Lee'')])\<rparr>) :: transport"
  have sent: "?transport (ac_api_key demo_api) (''/saves/'' @ action_of demo_restore) (call_body demo_pbkdf2 (au_username
      \<lparr>au_username = ''Kim'', au_online_name = ''Kim'', au_avatar_url = [], au_admin = True\<rparr>) (password_of demo_restore) (model_dump demo_restore)) =
      Inr \<lparr>rs_status = 200, rs_json = Some (JObj [(''applied'', JBool True), (''username'', JStr ''Lee'')])\<rparr>"
    by simp
  show ?thesis
    using written_edit_shows [OF admin q edit api sent answer, where ttl = 600 and npid = "''LEE''" and now = 9 and read = "Inr None"
      and c = empty_saves_cache and isoformat = "\<lambda>_. None"] name
    by (simp add: split_beta)
qed

section \<open>What an admin is answered\<close>

lemma api_response_eq_iff: "r = \<lparr>rs_status = s, rs_json = j\<rparr> \<longleftrightarrow> rs_status r = s \<and> rs_json r = j"
  by (cases r) auto

lemma answer_shape_plain: "plain_shape (answer_shape q)"
  by (cases q) (simp_all add: answers_plain)

text \<open>Whatever the save server says, an admin who is answered 200 is answered a value of exactly the shape the route
  declares, its fields in their order and no other, with the moment of the save only for a save that was shown; it
  was built of one answer of the server, a 200 with a JSON object, and reading it again by the same shape
  gives it back.\<close>

theorem admin_answer_shape:
  assumes laws: "lax_laws L" and out: "saves_respond pbkdf2 transport api isoformat L admin q c = (Inr (body, at_time), c', sent)"
  shows "has_shape (answer_shape q) body \<and> conform L (answer_shape q) body = Some body \<and>
    (at_time \<noteq> None \<longleftrightarrow> action_of q = ''show'') \<and>
    (\<exists>path request m. sent = [(path, request)] \<and> transport (ac_api_key api) path request = Inr \<lparr>rs_status = 200, rs_json = Some (JObj m)\<rparr>)"
proof -
  obtain answer where a: "saves_admin pbkdf2 transport api isoformat admin q c = (Inr answer, c', sent)"
    and r: "saves_response L q answer = Inr (body, at_time)"
    using out by (auto simp: saves_respond_def split: prod.splits)
  have body: "conform L (answer_shape q) (fst (answer_content answer)) = Some body" and t: "at_time = snd (answer_content answer)"
    using r by (auto simp: saves_response_def split: option.splits)
  have shape: "has_shape (answer_shape q) body" by (rule conform_has_shape [OF answer_shape_plain body])
  obtain m where call: "admin_call pbkdf2 transport api admin q = (Inr m, sent)" and serve: "fst (serve isoformat q m c) = Inr answer"
    using a by (auto simp: saves_admin_def split: prod.splits sum.splits)
  have "snd (answer_content answer) \<noteq> None \<longleftrightarrow> action_of q = ''show''"
    using serve by (cases q) (auto simp: split_beta)
  moreover have "\<exists>path request m. sent = [(path, request)] \<and>
      transport (ac_api_key api) path request = Inr \<lparr>rs_status = 200, rs_json = Some (JObj m)\<rparr>"
    using call by (auto simp: admin_call_def save_call_def save_send_def json_dict_def api_response_eq_iff split: prod.splits sum.splits if_splits option.splits json.splits)
  ultimately show ?thesis using shape conform_stable [OF laws answer_shape_plain shape] t by simp
qed

lemma demo_backups:
  "saves_respond demo_pbkdf2 (\<lambda>_ _ _. Inr \<lparr>rs_status = 200, rs_json = Some (JObj [(''path'', JStr ''/srv''), (''backups'', JArr
      [JObj [(''account_rank'', JInt 12), (''label'', JStr ''b1''), (''total'', JNull)]])])\<rparr>) demo_api (\<lambda>_. None) demo_lax demo_user
      (List_Backups \<lparr>sv_username = ''Lee'', sv_password = ''pw''\<rparr>) empty_saves_cache =
    (Inr (JObj [(''backups'', JArr [JObj [(''label'', JStr ''b1''), (''total'', JNull), (''account_rank'', JInt 12)]])], None), empty_saves_cache,
     [(''/saves/backups'', call_body demo_pbkdf2 ''Kim'' ''pw'' [(''username'', JStr ''Lee'')])])"
proof -
  have api: "ac_open demo_api" "ac_base_url demo_api \<noteq> []" "ac_api_key demo_api \<noteq> []"
    by (simp_all add: api_init_def make_api_client_def rstrip_slash_def)
  show ?thesis
    by (simp add: saves_respond_def saves_admin_def admin_call_def save_call_def save_send_def api json_dict_def saves_response_def
      backups_out_def backup_out_def head_dump_def)
qed

theorem admin_answer_shape_witness:
  "has_shape backups_out (JObj [(''backups'', JArr [JObj [(''label'', JStr ''b1''), (''total'', JNull), (''account_rank'', JInt 12)]])])"
proof -
  have "lax_laws demo_lax" by (simp add: lax_laws_def)
  from admin_answer_shape [OF this demo_backups] show ?thesis by simp
qed

end
