(* ===== verification/Request_Errors.thy ===== *)
theory Request_Errors
  imports Account_Api
begin

text \<open>
  \<open>src/shared/error_handlers.py\<close>, the part that answers a request FastAPI has refused: from pydantic's list of
  errors to the one line the user is shown.  The answers are Korean, so a text here is its list of code points;
  \<open>plain\<close> makes one of an ASCII text.
\<close>

type_synonym codes = "nat list"

definition plain :: "string \<Rightarrow> codes" where
  "plain s = map of_char s"

section \<open>Labels and particles\<close>

definition field_labels :: "(string \<times> codes) list" where
  "field_labels =
     [(''username'', [50500, 51060, 46356]),
      (''password'', [48708, 48128, 48264, 54840]),
      (''title'', [51228, 47785]),
      (''body'', [45236, 50857]),
      (''post_type'', [44172, 49884, 44544, 32, 51333, 47448]),
      (''characters'', [52880, 47533, 53552]),
      (''youtube_video_id'', [89, 111, 117, 84, 117, 98, 101, 32, 50689, 49345, 32, 47553, 53356]),
      (''parent_id'', [49345, 50948, 32, 45843, 44544]),
      (''direction'', [52628, 52380, 32, 48169, 54693]),
      (''start_time'', [49884, 51089, 32, 49884, 44033]),
      (''match_type'', [47588, 52824, 32, 51333, 47448]),
      (''capacity'', [47784, 51665, 32, 51064, 50896]),
      (''ranks'', [48372, 50976, 32, 44228, 44553]),
      (''memo'', [47700, 47784]),
      (''all_chars'', [51204, 52404, 32, 52880, 47533, 53552, 32, 54364, 49884]),
      (''n'', [44060, 49688]),
      (''char'', [52880, 47533, 53552]),
      (''rank'', [44228, 44553]),
      (''points'', [51216, 49688]),
      (''dry_run'', [48120, 47532, 48372, 44592]),
      (''expect_sha256'', [49464, 51060, 48652, 32, 54869, 51064, 44050]),
      (''fix_points'', [51216, 49688, 32, 48372, 51221]),
      (''refloor'', [44053, 46321, 32, 52880, 47533, 53552, 32, 51116, 51201, 50857]),
      (''label'', [48177, 50629, 32, 51060, 47492]),
      (''channel'', [52824, 51648, 51649, 32, 52292, 45328]),
      (''image'', [51060, 48120, 51648]),
      (''remove_image'', [51060, 48120, 51648, 32, 49325, 51228]),
      (''allow_dismiss_forever'', [45796, 49884, 32, 48372, 51648, 32, 50506, 44592]),
      (''allow_dismiss_day'', [54616, 47336, 32, 46041, 50504, 32, 48372, 51648, 32, 50506, 44592]),
      (''active'', [54876, 49457]),
      (''q'', [44160, 49353, 50612]),
      (''Idempotency-Key'', [50836, 52397, 32, 53412])]"

text \<open>A Hangul syllable at distance \<open>d\<close> from the first one ends in a consonant when \<open>d mod 28\<close> is not 0.\<close>

definition has_final_consonant :: "codes \<Rightarrow> bool" where
  "has_final_consonant word =
     (let n = last word in 44032 \<le> n \<and> n \<le> 55203 \<and> (n - 44032) mod 28 \<noteq> 0)"

definition topic :: "codes \<Rightarrow> codes" where
  "topic word = (if has_final_consonant word then word @ [51008] else word @ [45716])"

definition object_of :: "codes \<Rightarrow> codes" where
  "object_of word = (if has_final_consonant word then word @ [51012] else word @ [47484])"

section \<open>One error\<close>

datatype loc_part = Field string | Index int

datatype ctx_value = Number int | Message codes

record schema_error =
  er_loc :: "loc_part list"
  er_type :: string
  er_ctx :: "(string \<times> ctx_value) list"

definition int_text :: "int \<Rightarrow> codes" where
  "int_text i = plain ((if i < 0 then ''-'' else []) @ decimal (nat \<bar>i\<bar>))"

fun ctx_text :: "ctx_value \<Rightarrow> codes" where
  "ctx_text (Number i) = int_text i"
| "ctx_text (Message t) = t"

definition ctx_item :: "string \<Rightarrow> (string \<times> ctx_value) list \<Rightarrow> py_exc + ctx_value" where
  "ctx_item k ctx = (case map_of ctx k of None \<Rightarrow> Inl KeyError | Some v \<Rightarrow> Inr v)"

text \<open>\<open>str.strip\<close> on code points; the spaces of \<open>str.isspace\<close> beyond Latin-1 are listed.\<close>

definition code_space :: "nat \<Rightarrow> bool" where
  "code_space n \<longleftrightarrow> (9 \<le> n \<and> n \<le> 13) \<or> (28 \<le> n \<and> n \<le> 32) \<or> n \<in> {133, 160, 5760, 8232, 8233, 8239, 8287, 12288} \<or>
     (8192 \<le> n \<and> n \<le> 8202)"

definition strip_codes :: "codes \<Rightarrow> codes" where
  "strip_codes t = rev (dropWhile code_space (rev (dropWhile code_space t)))"

text \<open>The last text of the location that has a label.\<close>

fun part_label :: "loc_part \<Rightarrow> codes option" where
  "part_label (Field f) = map_of field_labels f"
| "part_label (Index _) = None"

definition label_of :: "schema_error \<Rightarrow> codes option" where
  "label_of e = (case List.map_filter part_label (rev (er_loc e)) of [] \<Rightarrow> None | l # _ \<Rightarrow> Some l)"

definition check_value :: "codes" where "check_value = [32, 44050, 51012, 32, 54869, 51064, 54644, 32, 51452, 49464, 50836, 46]"

definition min_length_small :: "(string \<times> ctx_value) list \<Rightarrow> py_exc + bool" where
  "min_length_small ctx = (case map_of ctx ''min_length'' of
     None \<Rightarrow> Inr True | Some (Number i) \<Rightarrow> Inr (i \<le> 1) | Some (Message _) \<Rightarrow> Inl TypeError)"

definition sentence :: "(codes \<Rightarrow> codes) \<Rightarrow> codes \<Rightarrow> string \<Rightarrow> codes \<Rightarrow> (string \<times> ctx_value) list \<Rightarrow> py_exc + codes option" where
  "sentence particle l k rest ctx = bindR (ctx_item k ctx) (\<lambda>v. Inr (Some (particle l @ plain '' '' @ ctx_text v @ rest)))"

definition describe :: "schema_error \<Rightarrow> py_exc + codes option" where
  "describe e =
     (case label_of e of
        None \<Rightarrow> Inr None
      | Some l \<Rightarrow>
          let kind = er_type e; ctx = er_ctx e in
          bindR (if kind = ''missing'' \<or> kind = ''string_too_short'' then min_length_small ctx else Inr False) (\<lambda>small.
          if small then Inr (Some (object_of l @ [32, 51077, 47141, 54644, 32, 51452, 49464, 50836, 46]))
          else if kind = ''string_too_short'' then sentence topic l ''min_length'' [51088, 32, 51060, 49345, 51060, 50612, 50556, 32, 54633, 45768, 45796, 46] ctx
          else if kind = ''string_too_long'' then sentence topic l ''max_length'' [51088, 47484, 32, 45336, 51012, 32, 49688, 32, 50630, 49845, 45768, 45796, 46] ctx
          else if kind = ''too_short'' then sentence object_of l ''min_length'' [44060, 32, 51060, 49345, 32, 49440, 53469, 54644, 32, 51452, 49464, 50836, 46] ctx
          else if kind = ''too_long'' then sentence topic l ''max_length'' [44060, 47484, 32, 45336, 51012, 32, 49688, 32, 50630, 49845, 45768, 45796, 46] ctx
          else if kind = ''greater_than_equal'' then sentence topic l ''ge'' [32, 51060, 49345, 51060, 50612, 50556, 32, 54633, 45768, 45796, 46] ctx
          else if kind = ''greater_than'' then sentence topic l ''gt'' [32, 51060, 49345, 51060, 50612, 50556, 32, 54633, 45768, 45796, 46] ctx
          else if kind = ''less_than_equal'' then sentence topic l ''le'' [32, 51060, 54616, 50668, 50556, 32, 54633, 45768, 45796, 46] ctx
          else if kind = ''less_than'' then sentence topic l ''lt'' [32, 51060, 54616, 50668, 50556, 32, 54633, 45768, 45796, 46] ctx
          else
            let message = strip_codes (case map_of ctx ''error'' of None \<Rightarrow> [] | Some v \<Rightarrow> ctx_text v) in
            if kind = ''value_error'' \<and> message \<noteq> [] then Inr (Some message)
            else Inr (Some (l @ check_value))))"

section \<open>All of them\<close>

definition check_input :: "codes" where "check_input = [51077, 47141, 44050, 51012, 32, 54869, 51064, 54644, 32, 51452, 49464, 50836, 46]"

fun first_described :: "schema_error list \<Rightarrow> py_exc + codes option" where
  "first_described [] = Inr None"
| "first_described (e # es) = bindR (describe e) (\<lambda>d. case d of
     None \<Rightarrow> first_described es
   | Some t \<Rightarrow> if t = [] then first_described es else Inr (Some t))"

fun join_codes :: "codes \<Rightarrow> codes list \<Rightarrow> codes" where
  "join_codes sep [] = []"
| "join_codes sep [t] = t"
| "join_codes sep (t # ts) = t @ sep @ join_codes sep ts"

definition labels_named :: "schema_error list \<Rightarrow> codes list" where
  "labels_named errors = map snd (filter (\<lambda>(f, _). \<exists>e\<in>set errors. Field f \<in> set (er_loc e)) field_labels)"

text \<open>\<open>_request_validation\<close>: the detail of the 422.\<close>

definition request_validation :: "schema_error list \<Rightarrow> py_exc + codes" where
  "request_validation errors =
     bindR (first_described errors) (\<lambda>d. case d of
       Some t \<Rightarrow> Inr t
     | None \<Rightarrow> let labels = labels_named errors in
         Inr (if labels \<noteq> [] then join_codes (plain '', '') labels @ check_value else check_input))"

section \<open>Which error answers\<close>

text \<open>The context pydantic gives with each kind of error that reads one.\<close>

definition ctx_given :: "schema_error \<Rightarrow> bool" where
  "ctx_given e \<longleftrightarrow>
     (\<forall>(kind, k)\<in>{(''string_too_short'', ''min_length''), (''string_too_long'', ''max_length''), (''too_short'', ''min_length''),
        (''too_long'', ''max_length''), (''greater_than_equal'', ''ge''), (''greater_than'', ''gt''), (''less_than_equal'', ''le''),
        (''less_than'', ''lt'')}. er_type e = kind \<longrightarrow> (\<exists>i. map_of (er_ctx e) k = Some (Number i))) \<and>
     (er_type e = ''missing'' \<longrightarrow> map_of (er_ctx e) ''min_length'' = None)"

lemma labels_nonempty: "map_of field_labels f = Some l \<Longrightarrow> l \<noteq> []"
  by (drule map_of_SomeD) (auto simp: field_labels_def)

lemma no_part_label: "List.map_filter part_label ps = [] \<longleftrightarrow> (\<forall>p\<in>set ps. part_label p = None)"
  by (induction ps) (auto simp: List.map_filter_simps split: option.split)

lemma label_of_None: "label_of e = None \<longleftrightarrow> (\<forall>f. Field f \<in> set (er_loc e) \<longrightarrow> map_of field_labels f = None)"
proof -
  have "label_of e = None \<longleftrightarrow> (\<forall>p\<in>set (er_loc e). part_label p = None)"
    using no_part_label [of "rev (er_loc e)"] by (auto simp: label_of_def split: list.split)
  also have "\<dots> \<longleftrightarrow> (\<forall>f. Field f \<in> set (er_loc e) \<longrightarrow> map_of field_labels f = None)"
  proof (intro iffI ballI allI impI)
    fix p assume all: "\<forall>f. Field f \<in> set (er_loc e) \<longrightarrow> map_of field_labels f = None" and "p \<in> set (er_loc e)"
    then show "part_label p = None" by (cases p) simp_all
  next
    fix f assume "\<forall>p\<in>set (er_loc e). part_label p = None" "Field f \<in> set (er_loc e)"
    then show "map_of field_labels f = None" by (metis part_label.simps(1))
  qed
  finally show ?thesis .
qed

lemma sentence_given:
  "map_of ctx k = Some v \<Longrightarrow> particle l \<noteq> [] \<Longrightarrow> \<exists>t. sentence particle l k rest ctx = Inr (Some t) \<and> t \<noteq> []"
  by (simp add: sentence_def ctx_item_def)

lemma describe_labelled:
  assumes l: "label_of e = Some l" and ctx: "ctx_given e"
  shows "\<exists>t. describe e = Inr (Some t) \<and> t \<noteq> []"
proof -
  have particles: "object_of w \<noteq> []" "topic w \<noteq> []" for w by (simp_all add: object_of_def topic_def)
  have given: "\<exists>i. map_of (er_ctx e) k = Some (Number i)"
    if "(er_type e, k) \<in> {(''string_too_short'', ''min_length''), (''string_too_long'', ''max_length''), (''too_short'', ''min_length''),
        (''too_long'', ''max_length''), (''greater_than_equal'', ''ge''), (''greater_than'', ''gt''), (''less_than_equal'', ''le''),
        (''less_than'', ''lt'')}" for k
    using bspec [OF conjunct1 [OF ctx [unfolded ctx_given_def]] that] by simp
  consider "er_type e = ''missing''" | "er_type e = ''string_too_short''" | "er_type e = ''string_too_long''" | "er_type e = ''too_short''"
    | "er_type e = ''too_long''" | "er_type e = ''greater_than_equal''" | "er_type e = ''greater_than''" | "er_type e = ''less_than_equal''"
    | "er_type e = ''less_than''"
    | "er_type e \<notin> {''missing'', ''string_too_short'', ''string_too_long'', ''too_short'', ''too_long'', ''greater_than_equal'',
        ''greater_than'', ''less_than_equal'', ''less_than''}"
    by blast
  then show ?thesis
  proof cases
    case 1
    then have "map_of (er_ctx e) ''min_length'' = None" using ctx by (simp add: ctx_given_def)
    then show ?thesis using particles by (simp add: describe_def l Let_def 1 min_length_small_def)
  next
    case 2
    then obtain i where "map_of (er_ctx e) ''min_length'' = Some (Number i)" using given by fastforce
    then show ?thesis using particles sentence_given by (simp add: describe_def l Let_def 2 min_length_small_def)
  next
    case 10
    then show ?thesis using particles by (simp add: describe_def l Let_def check_value_def)
  qed (use given particles sentence_given in \<open>fastforce simp: describe_def l Let_def\<close>)+
qed

lemma first_described_find:
  assumes "\<forall>e\<in>set errors. ctx_given e"
  shows "first_described errors = (case find (\<lambda>e. label_of e \<noteq> None) errors of None \<Rightarrow> Inr None | Some e \<Rightarrow> describe e)"
  using assms
proof (induction errors)
  case (Cons e es)
  show ?case
  proof (cases "label_of e")
    case None
    then show ?thesis using Cons by (simp add: describe_def)
  next
    case (Some l)
    then obtain t where "describe e = Inr (Some t)" "t \<noteq> []" using describe_labelled Cons.prems by force
    then show ?thesis using Some by simp
  qed
qed simp

text \<open>The line that answers a refused request is the description of the first error that lies in a field with a label,
  and the general request to check the input exactly when no error does: describing never fails on pydantic's own
  contexts, the line is never empty, and the list of several labels is never what is answered.\<close>

theorem validation_answer:
  assumes "\<forall>e\<in>set errors. ctx_given e"
  shows "\<exists>t. request_validation errors = Inr t \<and> t \<noteq> [] \<and>
    (case find (\<lambda>e. \<exists>f l. Field f \<in> set (er_loc e) \<and> map_of field_labels f = Some l) errors of
       None \<Rightarrow> t = check_input
     | Some e \<Rightarrow> describe e = Inr (Some t))"
proof -
  have lab: "(\<lambda>e. \<exists>f l. Field f \<in> set (er_loc e) \<and> map_of field_labels f = Some l) = (\<lambda>e. label_of e \<noteq> None)"
    by (rule ext) (auto simp: label_of_None)
  show ?thesis
  proof (cases "find (\<lambda>e. label_of e \<noteq> None) errors")
    case None
    then have "\<forall>e\<in>set errors. label_of e = None" by (auto simp: find_eq_None)
    then have "labels_named errors = []"
      by (auto simp: labels_named_def filter_empty_conv label_of_None) (metis map_of_eq_None_iff image_eqI fst_conv option.distinct(1))
    then have "request_validation errors = Inr check_input"
      using None by (simp add: request_validation_def first_described_find [OF assms])
    then show ?thesis unfolding lab None by (simp add: check_input_def)
  next
    case (Some e)
    then have "e \<in> set errors" "label_of e \<noteq> None" using find_Some_set by fast+
    then obtain t where "describe e = Inr (Some t)" "t \<noteq> []" using describe_labelled assms by blast
    then have "request_validation errors = Inr t"
      using Some by (simp add: request_validation_def first_described_find [OF assms])
    then show ?thesis unfolding lab Some using \<open>describe e = Inr (Some t)\<close> \<open>t \<noteq> []\<close> by simp
  qed
qed

abbreviation long_memo :: schema_error where
  "long_memo \<equiv> \<lparr>er_loc = [Field ''body'', Field ''memo''], er_type = ''string_too_long'', er_ctx = [(''max_length'', Number 140)]\<rparr>"

abbreviation bad_page :: schema_error where
  "bad_page \<equiv> \<lparr>er_loc = [Field ''query'', Field ''page''], er_type = ''int_parsing'', er_ctx = []\<rparr>"

theorem validation_answer_witness:
  "request_validation [bad_page, long_memo] =
    Inr [47700, 47784, 45716, 32, 49, 52, 48, 51088, 47484, 32, 45336, 51012, 32, 49688, 32, 50630, 49845, 45768, 45796, 46]"
proof -
  have ctx: "\<forall>e\<in>set [bad_page, long_memo]. ctx_given e" by (simp add: ctx_given_def)
  have unnamed: "\<not> (\<exists>f l. Field f \<in> set (er_loc bad_page) \<and> map_of field_labels f = Some l)" by (simp add: field_labels_def)
  have named: "\<exists>f l. Field f \<in> set (er_loc long_memo) \<and> map_of field_labels f = Some l"
    by (intro exI [of _ "''memo''"]) (simp add: field_labels_def)
  have label: "label_of long_memo = Some [47700, 47784]" by (simp add: label_of_def List.map_filter_simps field_labels_def)
  have number: "int_text 140 = [49, 52, 48]" by (simp add: int_text_def plain_def decimal.simps)
  have "describe long_memo = Inr (Some ([47700, 47784, 45716] @ plain '' '' @ int_text 140 @ [51088, 47484, 32, 45336, 51012, 32, 49688, 32, 50630, 49845, 45768, 45796, 46]))"
    by (simp add: describe_def label sentence_def ctx_item_def topic_def has_final_consonant_def)
  then have line: "describe long_memo = Inr (Some [47700, 47784, 45716, 32, 49, 52, 48, 51088, 47484, 32, 45336, 51012, 32, 49688, 32, 50630, 49845, 45768, 45796, 46])"
    by (simp add: number plain_def)
  show ?thesis
    using validation_answer [OF ctx]
    by (simp only: find.simps unnamed named if_True if_False option.case) (simp add: line)
qed

text \<open>A body that is no JSON at all, one that is missing, and an unknown field of a body are all described as the
  content of a post: the location starts with the text body, which is a field's name too, and nothing later in it
  has a label.\<close>

theorem malformed_body_named_as_content:
  "map_of field_labels ''body'' = Some [45236, 50857] \<and>
   describe \<lparr>er_loc = [Field ''body'', Index i], er_type = ''json_invalid'', er_ctx = ctx\<rparr> = Inr (Some ([45236, 50857] @ check_value)) \<and>
   describe \<lparr>er_loc = [Field ''body''], er_type = ''missing'', er_ctx = []\<rparr> =
     Inr (Some ([45236, 50857] @ [51012, 32, 51077, 47141, 54644, 32, 51452, 49464, 50836, 46])) \<and>
   (f \<in> fst ` set field_labels \<or> label_of \<lparr>er_loc = [Field ''body'', Field f], er_type = kind, er_ctx = ctx\<rparr> = Some [45236, 50857])"
proof -
  have body: "map_of field_labels ''body'' = Some [45236, 50857]" by (simp add: field_labels_def)
  have final: "has_final_consonant [45236, 50857]" by (simp add: has_final_consonant_def)
  have "f \<in> fst ` set field_labels \<or> label_of \<lparr>er_loc = [Field ''body'', Field f], er_type = kind, er_ctx = ctx\<rparr> = Some [45236, 50857]"
  proof (cases "map_of field_labels f")
    case None
    then show ?thesis by (simp add: label_of_def List.map_filter_simps body)
  next
    case (Some l)
    then show ?thesis by (force dest: map_of_SomeD)
  qed
  then show ?thesis
    by (simp add: describe_def label_of_def List.map_filter_simps body Let_def min_length_small_def object_of_def final)
qed

end
