(* ===== verification/Rooms_Page.thy ===== *)
theory Rooms_Page
  imports Matching_Service Streaming_Service Ttt2
begin

text \<open>
  The rest of \<open>src/matching/service.py\<close> and its routes (\<open>router.py\<close>): the cached server tree and room list
  over the game server, the observation the collector reads, the game tables, and the room page, which composes
  the matching and the streaming service.  The game server's answers are arguments; how they come to be is
  \<open>Matching_Service\<close>.
\<close>

section \<open>The cached service\<close>

type_synonym room_groups = "room_dto list \<times> room_dto list"
type_synonym server_tree = "(string \<times> nat list) list"

record matching_state =
  mc_servers :: "server_tree dict_cache"
  mc_rooms :: "room_groups dict_cache"
  mc_tracker :: tracker

definition servers_key :: "string \<Rightarrow> string" where "servers_key com_id = ''ttt2:servers:'' @ com_id"
definition rooms_key :: "string \<Rightarrow> string" where "rooms_key com_id = ''ttt2:rooms_all:'' @ com_id"

definition leaderboard_cache_key :: "string \<Rightarrow> nat \<Rightarrow> string" where
  "leaderboard_cache_key com_id board_id = ''ttt2:leaderboard:'' @ com_id @ '':'' @ decimal board_id"

text \<open>An empty tree is no hit; its server ids are written as text.\<close>

definition get_server_world_tree ::
  "int \<Rightarrow> string \<Rightarrow> instant \<Rightarrow> 'e + (nat \<times> nat list) list \<Rightarrow> matching_state \<Rightarrow> ('e + server_tree) \<times> matching_state" where
  "get_server_world_tree ttl com_id now tree s =
     (let (r, c) = read_through dict_get dict_set (\<lambda>t. t \<noteq> []) (servers_key com_id) ttl now
        (bindR tree (\<lambda>t. Inr (map (\<lambda>(k, v). (decimal k, v)) t))) (mc_servers s)
      in (r, s\<lparr>mc_servers := c\<rparr>))"

definition get_all_worlds ::
  "int \<Rightarrow> string \<Rightarrow> instant \<Rightarrow> 'e + (nat \<times> nat list) list \<Rightarrow> matching_state \<Rightarrow> ('e + nat list) \<times> matching_state" where
  "get_all_worlds ttl com_id now tree s =
     (let (r, s1) = get_server_world_tree ttl com_id now tree s in (bindR r (\<lambda>t. Inr (concat (map snd t))), s1))"

text \<open>\<open>search worlds\<close> is \<open>search_rooms_all\<close> of the game server.\<close>

definition fetch_rooms ::
  "int \<Rightarrow> int \<Rightarrow> (nat set \<Rightarrow> nat list) \<Rightarrow> string \<Rightarrow> instant \<Rightarrow> 'e + (nat \<times> nat list) list \<Rightarrow> (nat list \<Rightarrow> 'e + room_dto list) \<Rightarrow>
     matching_state \<Rightarrow> ('e + room_groups) \<times> matching_state" where
  "fetch_rooms tree_ttl matchmaking_ttl order com_id now tree search s =
     (let (r, s1) = get_all_worlds tree_ttl com_id now tree s in
      case bindR r search of
        Inl e \<Rightarrow> (Inl e, s1)
      | Inr rooms \<Rightarrow>
          let (groups, t) = fetch_rooms_all matchmaking_ttl order now rooms (mc_tracker s1)
          in (Inr groups, s1\<lparr>mc_tracker := t\<rparr>))"

definition get_rooms_all ::
  "int \<Rightarrow> int \<Rightarrow> int \<Rightarrow> (nat set \<Rightarrow> nat list) \<Rightarrow> string \<Rightarrow> instant \<Rightarrow> 'e + (nat \<times> nat list) list \<Rightarrow> (nat list \<Rightarrow> 'e + room_dto list) \<Rightarrow>
     matching_state \<Rightarrow> ('e + room_groups) \<times> matching_state" where
  "get_rooms_all ttl tree_ttl matchmaking_ttl order com_id now tree search s =
     (let (cached, c) = dict_get (rooms_key com_id) now (mc_rooms s); s1 = s\<lparr>mc_rooms := c\<rparr> in
      case cached of
        Some groups \<Rightarrow> (Inr groups, s1)
      | None \<Rightarrow>
          (case fetch_rooms tree_ttl matchmaking_ttl order com_id now tree search s1 of
             (Inl e, s2) \<Rightarrow> (Inl e, s2)
           | (Inr groups, s2) \<Rightarrow> (Inr groups, s2\<lparr>mc_rooms := dict_set (rooms_key com_id) groups ttl now (mc_rooms s2)\<rparr>)))"

text \<open>The collector's read goes past the cache of rooms and leaves the tracker alone.\<close>

definition collect_activity_observation ::
  "int \<Rightarrow> string \<Rightarrow> instant \<Rightarrow> 'e + (nat \<times> nat list) list \<Rightarrow> (nat list \<Rightarrow> 'e + room_dto list) \<Rightarrow> matching_state \<Rightarrow>
     ('e + activity_observation) \<times> matching_state" where
  "collect_activity_observation tree_ttl com_id now tree search s =
     (let (r, s1) = get_all_worlds tree_ttl com_id now tree s
      in (bindR (bindR r search) (\<lambda>rooms. Inr (fetch_activity_observation rooms)), s1))"

definition get_game_data :: "(nat \<times> string) list \<times> (nat \<times> (string \<times> tier)) list" where
  "get_game_data = (sort_key fst ttt2_characters, sort_key fst tekken_ranks)"

section \<open>The room page\<close>

record page_ttls =
  tt_rooms :: int
  tt_tree :: int
  tt_matchmaking :: int
  tt_channels :: int
  tt_live :: int

definition rooms_all ::
  "page_ttls \<Rightarrow> (nat set \<Rightarrow> nat list) \<Rightarrow> (string set \<Rightarrow> string list) \<Rightarrow> instant \<Rightarrow> 'e + (nat \<times> nat list) list \<Rightarrow> (nat list \<Rightarrow> 'e + room_dto list) \<Rightarrow>
     bool \<Rightarrow> (string \<Rightarrow> platform_error + live_broadcast option) \<Rightarrow> matching_state \<Rightarrow> streaming \<Rightarrow>
     ('e + (room_dto \<times> (room_user \<times> (stream_head \<times> on_air) option) list) list \<times> (room_dto \<times> (room_user \<times> (stream_head \<times> on_air) option) list) list)
       \<times> matching_state \<times> streaming" where
  "rooms_all ttl order names now tree search up platform m s =
     (case get_rooms_all (tt_rooms ttl) (tt_tree ttl) (tt_matchmaking ttl) order ttt2_com_id now tree search m of
        (Inl e, m') \<Rightarrow> (Inl e, m', s)
      | (Inr groups, m') \<Rightarrow>
          let (live, s') = live_or_empty (tt_channels ttl) (tt_live ttl) (names (players_in groups)) now up platform s
          in (Inr (with_streams groups (map_of live)), m', s'))"













end
