(* ===== verification/Workers.thy ===== *)
theory Workers
  imports Records_System
begin

text \<open>
  \<open>src/records/workers.py\<close>: the loops around \<open>RecordsService\<close>.  \<open>SaveCapture.run\<close> captures and swallows a
  failure; \<open>EventConsumer.run\<close> works through the due events and sleeps when \<open>_process\<close> says that none is left,
  which is modelled from one sleep to the next.
\<close>

section \<open>The loops\<close>

text \<open>\<open>None\<close> is a loop that never starts: without \<open>SAVE_ADMIN_URL\<close> match records are off.\<close>

fun save_captures ::
  "string \<Rightarrow> ((nat \<Rightarrow> nat \<Rightarrow> 'e + save_answer list) \<times> instant) list \<Rightarrow> (string \<Rightarrow> 'x + instant) \<Rightarrow> recdb \<Rightarrow> recdb" where
  "save_captures url [] fromisoformat db = db"
| "save_captures url ((read_changed, now) # rounds) fromisoformat db =
     (if url = [] then db
      else save_captures url rounds fromisoformat
        (case capture read_changed fromisoformat now db of Inl _ \<Rightarrow> db | Inr db' \<Rightarrow> db'))"

text \<open>\<open>_process\<close>: an exception outside the savepoint, such as a lost connection, rolls everything back.\<close>

definition process_one :: "bool \<Rightarrow> instant \<Rightarrow> (event_row \<Rightarrow> string + rank_room option) \<Rightarrow> recdb \<Rightarrow> bool \<times> recdb" where
  "process_one breaks now look_up db = (if breaks then (False, db) else process_next now look_up db)"

partial_function (option) consumer_work ::
  "(nat \<Rightarrow> bool) \<Rightarrow> (nat \<Rightarrow> instant) \<Rightarrow> (nat \<Rightarrow> event_row \<Rightarrow> string + rank_room option) \<Rightarrow> nat \<Rightarrow> recdb \<Rightarrow> (nat \<times> recdb) option" where
  "consumer_work breaks clock look_up k db =
     (case process_one (breaks k) (clock k) (look_up k) db of
        (worked, db') \<Rightarrow> if worked then consumer_work breaks clock look_up (Suc k) db' else Some (k, db'))"

section \<open>The consumer always gets to sleep\<close>

text \<open>How often an event can still be tried.\<close>

definition tries :: "event_row \<Rightarrow> nat" where
  "tries e = (if me_status e = PENDING then max 1 (max_attempts - me_attempts e) else 0)"

definition tries_left :: "recdb \<Rightarrow> nat" where
  "tries_left db = sum_list (map tries (match_events db))"

lemma tries_bound: "tries_left db \<le> max_attempts * length (filter (\<lambda>e. me_status e = PENDING) (match_events db))"
proof -
  have "sum_list (map tries es) \<le> max_attempts * length (filter (\<lambda>e. me_status e = PENDING) es)" for es
    by (induction es) (auto simp: tries_def max_attempts_def)
  then show ?thesis by (simp add: tries_left_def)
qed

lemma sum_update_less:
  "distinct (map k xs) \<Longrightarrow> e \<in> set xs \<Longrightarrow> f (g e) < f e \<Longrightarrow>
    sum_list (map f (update_where (\<lambda>x. k x = k e) g xs)) < (sum_list (map f xs) :: nat)"
proof (induction xs)
  case (Cons x xs)
  show ?case
  proof (cases "k x = k e")
    case True
    then have "x = e" using Cons.prems(1,2) by (auto simp: rev_image_eqI)
    moreover have "update_where (\<lambda>x. k x = k e) g xs = xs"
      using Cons.prems(1) True unfolding update_where_def by (intro map_idI) (auto simp: rev_image_eqI)
    ultimately show ?thesis using Cons.prems(3) by simp
  next
    case False
    then show ?thesis using Cons by auto
  qed
qed simp

text \<open>What an attempt does to the queue: it finishes the event or counts a failure.\<close>

lemma attempt_queue:
  "\<exists>g. match_events (attempt e now looked_up db) = update_where (\<lambda>x. me_id x = me_id e) g (match_events db) \<and>
     (g = (\<lambda>x. x\<lparr>me_status := DONE, me_last_error := None\<rparr>) \<or> (\<exists>msg. g = failed (me_attempts e + 1) msg now))"
proof (cases looked_up)
  case (Inl msg)
  then show ?thesis by (auto simp: attempt_def resolve_def transact_def Let_def fail_event_def)
next
  case (Inr room)
  have fill: "match_events (snd (fill_side e r s w db)) = match_events db" for r s w
    by (simp add: fill_side_def split: list.split)
  show ?thesis
  proof (cases room)
    case None
    then show ?thesis using Inr by (auto simp: attempt_def resolve_def transact_def Let_def finish_event_def add_match_def)
  next
    case (Some r)
    let ?f = "fill_side e r (side_of (Some r) (me_npid e)) (winner_of (side_of (Some r) (me_npid e)) (me_result e)) db"
    show ?thesis using Inr Some fill [of r "side_of (Some r) (me_npid e)" "winner_of (side_of (Some r) (me_npid e)) (me_result e)"]
      by (cases ?f; cases "fst ?f") (auto simp: attempt_def resolve_def transact_def Let_def finish_event_def add_match_def)
  qed
qed

lemma attempt_progress:
  assumes d: "distinct (map me_id (match_events db))" and e: "e \<in> set (match_events db)" "me_status e = PENDING"
  shows "tries_left (attempt e now looked_up db) < tries_left db"
    and "map me_id (match_events (attempt e now looked_up db)) = map me_id (match_events db)"
proof -
  obtain g where g: "match_events (attempt e now looked_up db) = update_where (\<lambda>x. me_id x = me_id e) g (match_events db)"
    "g = (\<lambda>x. x\<lparr>me_status := DONE, me_last_error := None\<rparr>) \<or> (\<exists>msg. g = failed (me_attempts e + 1) msg now)"
    using attempt_queue by blast
  have "tries (g e) < tries e" using g(2) e(2) by (auto simp: tries_def failed_def max_attempts_def split: if_splits)
  then show "tries_left (attempt e now looked_up db) < tries_left db"
    using sum_update_less [OF d e(1)] by (simp add: tries_left_def g(1))
  show "map me_id (match_events (attempt e now looked_up db)) = map me_id (match_events db)"
    unfolding g(1) by (rule map_update_where_frame) (use g(2) in \<open>auto simp: failed_def\<close>)
qed

lemma consumer_stops:
  assumes "distinct (map me_id (match_events db))"
  shows "\<exists>n db'. consumer_work breaks clock look_up k db = Some (n, db') \<and> k \<le> n \<and> n \<le> k + tries_left db \<and>
    (breaks n \<or> (\<forall>e\<in>set (match_events db'). me_status e = PENDING \<longrightarrow> clock n < me_available_at e))"
  using assms
proof (induction "tries_left db" arbitrary: db k rule: less_induct)
  case less
  note step = consumer_work.simps [of breaks clock look_up k db]
  show ?case
  proof (cases "breaks k")
    case True
    then show ?thesis by (simp add: step process_one_def)
  next
    case alive: False
    show ?thesis
    proof (cases "claim_event (clock k) db")
      case None
      then have "filter (\<lambda>e. me_status e = PENDING \<and> me_available_at e \<le> clock k) (match_events db) = []"
        by (simp add: claim_event_def split: list.splits) (metis length_0_conv length_sort)
      then have "\<forall>e\<in>set (match_events db). me_status e = PENDING \<longrightarrow> clock k < me_available_at e"
        by (auto simp: filter_empty_conv not_le)
      then show ?thesis using alive None by (simp add: step process_one_def process_next_def)
    next
      case (Some e)
      let ?db = "attempt e (clock k) (look_up k e) db"
      have e: "e \<in> set (match_events db)" "me_status e = PENDING" using claim_event_Some [OF Some] by auto
      note progress = attempt_progress [OF less.prems e, of "clock k" "look_up k e"]
      have "distinct (map me_id (match_events ?db))" using progress(2) less.prems by simp
      from less.hyps [OF progress(1) this, of "Suc k"] obtain n db' where
        "consumer_work breaks clock look_up (Suc k) ?db = Some (n, db')" "Suc k \<le> n" "n \<le> Suc k + tries_left ?db"
        "breaks n \<or> (\<forall>e\<in>set (match_events db'). me_status e = PENDING \<longrightarrow> clock n < me_available_at e)"
        by blast
      then show ?thesis using alive Some progress(1) by (auto simp: step process_one_def process_next_def)
    qed
  qed
qed

text \<open>C12: The consumer always gets back to sleep: whatever the clock reads and whatever each room lookup answers, one round
  of it ends after at most five attempts for each event that was pending, and unless the database failed it, no
  event that is due at that moment is left pending.\<close>

theorem consumer_sleeps:
  assumes "recorded (s, db)"
  shows "\<exists>n db'. consumer_work breaks clock look_up 0 db = Some (n, db') \<and>
    n \<le> 5 * length (filter (\<lambda>e. me_status e = PENDING) (match_events db)) \<and>
    (breaks n \<or> (\<forall>e\<in>set (match_events db'). me_status e = PENDING \<longrightarrow> clock n < me_available_at e))"
proof -
  have "distinct (map me_id (match_events db))" using recorded_ok [OF assms] by (simp add: records_ok_def)
  from consumer_stops [OF this, of breaks clock look_up 0] obtain n db' where
    "consumer_work breaks clock look_up 0 db = Some (n, db')" "n \<le> tries_left db"
    "breaks n \<or> (\<forall>e\<in>set (match_events db'). me_status e = PENDING \<longrightarrow> clock n < me_available_at e)" by auto
  then show ?thesis using tries_bound [of db] by (auto simp: max_attempts_def)
qed

theorem consumer_sleeps_witness:
  "\<exists>n db'. consumer_work (\<lambda>_. False) (\<lambda>k. 30000000 * int k) (\<lambda>_ _. Inl ''down'') 0 demo_captured = Some (n, db') \<and> n \<le> 5"
proof -
  have "recorded (new_collector empty_hdb, demo_captured)"
    unfolding recorded_def by (rule r_into_rtranclp, rule capture_step [of demo_read "\<lambda>_. Inr 0" 0]) (simp add: demo_captured_def capture_def)
  moreover have "length (filter (\<lambda>e. me_status e = PENDING) (match_events demo_captured)) = 1" by code_simp
  ultimately show ?thesis
    using consumer_sleeps [of "new_collector empty_hdb" demo_captured "\<lambda>_. False" "\<lambda>k. 30000000 * int k" "\<lambda>_ _. Inl ''down''"] by auto
qed

end
