(* ===== verification/Lifespan.thy ===== *)
theory Lifespan
  imports Prelude
begin

text \<open>
  Start-up and shut-down: \<open>AsyncResource\<close> (\<open>src/shared/resource.py\<close>), \<open>build_container\<close>
  (\<open>src/container.py\<close>) and the lifespan of \<open>src/app.py\<close> over an \<open>AsyncExitStack\<close>, as the list of what is
  opened, started, stopped and closed.
\<close>

section \<open>The exit stack\<close>

datatype resource = Database | Rpcn_Api | Save_Server | Chzzk_Platform | Game_Server

datatype worker = Match_History_Collector | Save_Capture | Match_Event_Consumer

datatype exit_callback = Exit_Resource resource | Stop_Collector worker

datatype life_event = Opened resource | Started worker | Serving | Stopped worker | Closed resource

text \<open>\<open>stop_collector\<close> cancels the task and waits for it; \<open>__aexit__\<close> closes the resource.\<close>

fun run_callback :: "exit_callback \<Rightarrow> life_event" where
  "run_callback (Exit_Resource r) = Closed r"
| "run_callback (Stop_Collector w) = Stopped w"

text \<open>
  Leaving the stack runs every callback, last in first, and goes on when one raises; \<open>raises\<close> says which do,
  and the second result is whether an exception leaves the block.
\<close>

fun unwind :: "(exit_callback \<Rightarrow> bool) \<Rightarrow> exit_callback list \<Rightarrow> life_event list \<times> bool" where
  "unwind raises [] = ([], False)"
| "unwind raises (c # stack) = (let (events, failed) = unwind raises stack in (run_callback c # events, raises c \<or> failed))"

section \<open>Opening\<close>

definition resources :: "resource list" where
  "resources = [Database, Rpcn_Api, Save_Server, Chzzk_Platform, Game_Server]"

definition workers :: "worker list" where
  "workers = [Match_History_Collector, Save_Capture, Match_Event_Consumer]"

text \<open>\<open>enter_async_context\<close>: a resource whose \<open>init\<close> raises is not on the stack.\<close>

fun enter_all :: "(resource \<Rightarrow> bool) \<Rightarrow> resource list \<Rightarrow> exit_callback list \<Rightarrow> bool \<times> life_event list \<times> exit_callback list" where
  "enter_all opens [] stack = (True, [], stack)"
| "enter_all opens (r # rs) stack =
     (if \<not> opens r then (False, [], stack)
      else let (ok, events, stack') = enter_all opens rs (Exit_Resource r # stack) in (ok, Opened r # events, stack'))"

text \<open>The services are built of what is open; only reading the event's baseline can fail then.\<close>

definition build_container ::
  "(resource \<Rightarrow> bool) \<Rightarrow> bool \<Rightarrow> exit_callback list \<Rightarrow> bool \<times> life_event list \<times> exit_callback list" where
  "build_container opens baselines_load stack =
     (let (ok, events, stack') = enter_all opens resources stack in (ok \<and> baselines_load, events, stack'))"

fun start_workers :: "worker list \<Rightarrow> exit_callback list \<Rightarrow> life_event list \<times> exit_callback list" where
  "start_workers [] stack = ([], stack)"
| "start_workers (w # ws) stack = (let (events, stack') = start_workers ws (Stop_Collector w # stack) in (Started w # events, stack'))"

text \<open>The second result says whether the application started and the third whether shutting down raised.\<close>

definition lifespan :: "(resource \<Rightarrow> bool) \<Rightarrow> bool \<Rightarrow> (exit_callback \<Rightarrow> bool) \<Rightarrow> life_event list \<times> bool \<times> bool" where
  "lifespan opens baselines_load raises =
     (let (ok, opened, stack) = build_container opens baselines_load [] in
      if \<not> ok then let (closed, failed) = unwind raises stack in (opened @ closed, False, failed)
      else
        let (started, stack') = start_workers workers stack;
            (closed, failed) = unwind raises stack'
        in (opened @ started @ [Serving] @ closed, True, failed))"

section \<open>What was opened is closed\<close>

lemma unwind_events: "fst (unwind raises stack) = map run_callback stack"
  by (induction stack) (simp_all add: split_beta)

lemma enter_all_eq:
  "enter_all opens rs stack =
    (list_all opens rs, map Opened (takeWhile opens rs), map Exit_Resource (rev (takeWhile opens rs)) @ stack)"
  by (induction rs arbitrary: stack) simp_all

lemma start_workers_eq: "start_workers ws stack = (map Started ws, map Stop_Collector (rev ws) @ stack)"
  by (induction ws arbitrary: stack) simp_all

text \<open>C22: Whatever fails to open, to load or to close, what was opened is closed once each in the reverse order, and the
  workers, which start only when everything is open, are all stopped before anything they read from closes.\<close>

theorem shutdown_in_reverse:
  "let opened = takeWhile opens [Database, Rpcn_Api, Save_Server, Chzzk_Platform, Game_Server];
       ws = [Match_History_Collector, Save_Capture, Match_Event_Consumer];
       up = (opened = [Database, Rpcn_Api, Save_Server, Chzzk_Platform, Game_Server] \<and> baselines_load) in
   fst (lifespan opens baselines_load raises) =
     map Opened opened @ (if up then map Started ws @ [Serving] @ map Stopped (rev ws) else []) @ map Closed (rev opened) \<and>
   fst (snd (lifespan opens baselines_load raises)) = up"
proof -
  have all: "list_all opens rs \<longleftrightarrow> takeWhile opens rs = rs" for rs by (induction rs) auto
  have run: "map run_callback (map Exit_Resource rs) = map Closed rs" "map run_callback (map Stop_Collector ws) = map Stopped ws" for rs ws
    by simp_all
  show ?thesis
    unfolding lifespan_def build_container_def enter_all_eq start_workers_eq
    by (auto simp: Let_def split_beta unwind_events all resources_def workers_def run rev_map)
qed

end
