(* ===== verification/Container.thy ===== *)
theory Container
  imports Saves_Admin Streaming Matching_Service
begin

text \<open>
  What the application is set up with: \<open>src/shared/settings.py\<close> and its defaults, the connection string of
  \<open>src/shared/database.py\<close>, the cache that \<open>src/shared/cache.py\<close> chooses, and what \<open>src/container.py\<close> gives the
  services that talk to the RPCN API server and to the save server.
\<close>

section \<open>Settings\<close>

text \<open>A \<open>SecretStr\<close> is its text; a duration in seconds is the number it is.\<close>

record settings =
  st_profile :: string
  st_rpcn_user :: string
  st_rpcn_password :: string
  st_rpcn_token :: string
  st_rpcn_host :: string
  st_rpcn_port :: int
  st_redis_url :: string
  st_ttl_servers :: int
  st_ttl_leaderboard :: int
  st_ttl_rooms_all :: int
  st_ttl_community :: int
  st_ttl_activity :: int
  st_ttl_player_hours :: int
  st_ttl_player_save :: int
  st_ttl_current_rank :: int
  st_ttl_live_streams :: int
  st_ttl_stream_channels :: int
  st_ttl_event :: int
  st_ttl_popups :: int
  st_matchmaking_ttl :: int
  st_collection_interval :: int
  st_capture_interval :: int
  st_event_idle :: int
  st_ranking_excluded :: "string list"
  st_db_url :: string
  st_db_name :: string
  st_db_user :: string
  st_db_password :: string
  st_rpcn_metric_enable :: bool
  st_rpcn_api_url :: string
  st_rpcn_api_key :: string
  st_rpcn_api_timeout :: rat
  st_save_admin_url :: string
  st_save_admin_key :: string
  st_save_admin_timeout :: rat
  st_jwt_secret :: string
  st_jwt_ttl_seconds :: int
  st_chzzk_api_url :: string
  st_chzzk_timeout :: rat
  st_event_end_at :: "instant option"
  st_event_baseline_path :: string
  st_cors_origins :: "string list"

definition make_settings :: "string \<Rightarrow> string \<Rightarrow> string \<Rightarrow> string \<Rightarrow> settings" where
  "make_settings profile user password token =
     \<lparr>st_profile = profile, st_rpcn_user = user, st_rpcn_password = password, st_rpcn_token = token,
      st_rpcn_host = ''rpcn.mynarco.xyz'', st_rpcn_port = 31313, st_redis_url = [],
      st_ttl_servers = 3600, st_ttl_leaderboard = 300, st_ttl_rooms_all = 10, st_ttl_community = 30,
      st_ttl_activity = 300, st_ttl_player_hours = 300, st_ttl_player_save = 600, st_ttl_current_rank = 300,
      st_ttl_live_streams = 30, st_ttl_stream_channels = 300, st_ttl_event = 300, st_ttl_popups = 60,
      st_matchmaking_ttl = 60, st_collection_interval = 30, st_capture_interval = 10, st_event_idle = 5,
      st_ranking_excluded = [], st_db_url = ''127.0.0.1:5432'', st_db_name = ''tag2now'', st_db_user = ''postgres'',
      st_db_password = ''postgres'', st_rpcn_metric_enable = False, st_rpcn_api_url = [], st_rpcn_api_key = [],
      st_rpcn_api_timeout = 5, st_save_admin_url = [], st_save_admin_key = [], st_save_admin_timeout = 20,
      st_jwt_secret = [], st_jwt_ttl_seconds = 7 * 24 * 3600, st_chzzk_api_url = ''https://api.chzzk.naver.com'',
      st_chzzk_timeout = 3, st_event_end_at = None, st_event_baseline_path = [], st_cors_origins = [''*'']\<rparr>"

definition settings_excluded :: "settings \<Rightarrow> string \<Rightarrow> bool" where
  "settings_excluded st npid = is_ranking_excluded (st_ranking_excluded st) npid"

section \<open>The database\<close>

text \<open>\<open>urllib.parse.quote\<close> with its default safe character, the slash: every other byte of the UTF-8 text is \<open>%XX\<close>.\<close>

definition quote_safe :: "8 word \<Rightarrow> bool" where
  "quote_safe b = (let n = unat b in
     (48 \<le> n \<and> n \<le> 57) \<or> (65 \<le> n \<and> n \<le> 90) \<or> (97 \<le> n \<and> n \<le> 122) \<or> n = 95 \<or> n = 46 \<or> n = 45 \<or> n = 126 \<or> n = 47)"

definition quote_byte :: "8 word \<Rightarrow> string" where
  "quote_byte b = (if quote_safe b then [char_of (unat b)] else CHR ''%'' # hex_upper [b])"

definition quote :: "string \<Rightarrow> string" where
  "quote s = concat (map quote_byte (utf8 s))"

definition build_dsn :: "string \<Rightarrow> settings \<Rightarrow> string" where
  "build_dsn driver st =
     (if driver \<noteq> [] then ''postgresql+'' @ driver else ''postgresql'') @ ''://'' @ st_db_user st @ '':'' @
       quote (st_db_password st) @ ''@'' @ st_db_url st @ ''/'' @ st_db_name st"

text \<open>What \<open>init_database\<close> logs: the connection string from behind its last at sign on.\<close>

definition logged_dsn :: "string \<Rightarrow> string" where
  "logged_dsn dsn = (if CHR ''@'' \<in> set dsn then rev (takeWhile (\<lambda>c. c \<noteq> CHR ''@'') (rev dsn)) else dsn)"

text \<open>The module's two globals, set and cleared together.\<close>

record database =
  db_engine :: "string option"
  db_session_factory :: "string option"

definition init_database :: "settings \<Rightarrow> database \<Rightarrow> database \<times> string" where
  "init_database st db =
     (let dsn = build_dsn ''asyncpg'' st in
      (db\<lparr>db_engine := Some dsn, db_session_factory := Some dsn\<rparr>, logged_dsn dsn))"

definition close_database :: "database \<Rightarrow> database" where
  "close_database db = (case db_engine db of None \<Rightarrow> db | Some _ \<Rightarrow> db\<lparr>db_engine := None, db_session_factory := None\<rparr>)"

definition get_session_factory :: "database \<Rightarrow> py_exc + string" where
  "get_session_factory db = (case db_session_factory db of None \<Rightarrow> Inl RuntimeError | Some f \<Rightarrow> Inr f)"

section \<open>The cache\<close>

datatype cache_choice = Redis_Cache string | Dict_Cache

definition make_cache :: "settings \<Rightarrow> cache_choice" where
  "make_cache st = (if st_redis_url st \<noteq> [] then Redis_Cache (st_redis_url st) else Dict_Cache)"

section \<open>The clients\<close>

definition rpcn_api :: "settings \<Rightarrow> api_client" where
  "rpcn_api st = make_api_client (st_rpcn_api_url st) (st_rpcn_api_key st)"

definition save_server :: "settings \<Rightarrow> api_client" where
  "save_server st = make_api_client (st_save_admin_url st) (st_save_admin_key st)"

definition chzzk_base :: "settings \<Rightarrow> string" where
  "chzzk_base st = rstrip_slash (st_chzzk_api_url st)"

definition warn_if_login_unconfigured :: "settings \<Rightarrow> bool" where
  "warn_if_login_unconfigured st \<longleftrightarrow>
     \<not> (st_rpcn_api_url st \<noteq> [] \<and> st_rpcn_api_key st \<noteq> [] \<and> st_jwt_secret st \<noteq> [])"

definition signing :: "settings \<Rightarrow> auth_settings" where
  "signing st = \<lparr>as_jwt_secret = st_jwt_secret st, as_jwt_ttl_seconds = st_jwt_ttl_seconds st\<rparr>"

text \<open>
  The container enters both clients before it serves, so they are open; login and moderation share one client and
  one key, and the saves have their own.
\<close>

definition app_login ::
  "pbkdf2 \<Rightarrow> transport \<Rightarrow> 't jwt_encode \<Rightarrow> settings \<Rightarrow> instant \<Rightarrow> string \<Rightarrow> string \<Rightarrow> int" where
  "app_login pbkdf2 transport enc st now username password =
     login_status pbkdf2 transport (api_init (rpcn_api st)) enc (signing st) now username password"

definition app_user :: "'t jwt_decode \<Rightarrow> settings \<Rightarrow> instant \<Rightarrow> 't option \<Rightarrow> auth_user auth_result" where
  "app_user dec st now credentials = current_user dec (signing st) now credentials"

definition app_ban ::
  "pbkdf2 \<Rightarrow> transport \<Rightarrow> 't jwt_decode \<Rightarrow> settings \<Rightarrow> instant \<Rightarrow> 't option \<Rightarrow> string \<Rightarrow> string \<Rightarrow> int \<times> api_posts" where
  "app_ban pbkdf2 transport dec st now credentials username password =
     ban_route pbkdf2 transport (api_init (rpcn_api st)) (app_user dec st now credentials) username password"

definition app_saves ::
  "pbkdf2 \<Rightarrow> transport \<Rightarrow> 't jwt_decode \<Rightarrow> (string \<Rightarrow> instant option) \<Rightarrow> lax \<Rightarrow> settings \<Rightarrow> instant \<Rightarrow> 't option \<Rightarrow> save_request \<Rightarrow>
     saves_cache \<Rightarrow> int \<times> saves_cache \<times> api_posts" where
  "app_saves pbkdf2 transport dec isoformat L st now credentials q c =
     saves_admin_route pbkdf2 transport (api_init (save_server st)) isoformat L (app_user dec st now credentials) q c"

section \<open>What the log of the connection shows\<close>

lemma at_sign_safe: "CHR ''@'' \<notin> set (quote_byte b)"
proof (cases "quote_safe b")
  case True
  have "CHR ''@'' \<noteq> char_of (unat b)"
  proof
    assume "CHR ''@'' = char_of (unat b)"
    then have "(of_char (CHR ''@'') :: nat) = of_char (char_of (unat b))" by (rule arg_cong)
    then have "unat b = 64" using unsigned_less [of b, where 'a = nat] by simp
    then show False using True by (simp add: quote_safe_def)
  qed
  then show ?thesis using True by (auto simp: quote_byte_def)
next
  case False
  have "upper_hex (n mod 16) \<noteq> CHR ''@''" for n
  proof
    assume "upper_hex (n mod 16) = CHR ''@''"
    then have "(of_char (upper_hex (n mod 16)) :: nat) = of_char (CHR ''@'')" by simp
    moreover have "n mod 16 < 16" by simp
    ultimately show False by (simp add: upper_hex_def split: if_splits)
  qed
  moreover have "unat b div 16 = unat b div 16 mod 16" using unsigned_less [of b, where 'a = nat] by simp
  ultimately have "upper_hex (unat b div 16) \<noteq> CHR ''@''" "upper_hex (unat b mod 16) \<noteq> CHR ''@''" by metis+
  then show ?thesis using False by (auto simp: quote_byte_def hex_upper_def)
qed

lemma quote_no_at: "CHR ''@'' \<notin> set (quote s)"
  by (auto simp: quote_def at_sign_safe)

lemma logged_append: "CHR ''@'' \<notin> set r \<Longrightarrow> logged_dsn (a @ ''@'' @ r) = r"
  by (simp add: logged_dsn_def takeWhile_append takeWhile_eq_all_conv [THEN iffD2])

text \<open>Whatever the password and the user are, the log shows the end of the host and the database name only.\<close>

theorem connect_log_suffix:
  "\<exists>shown_not. st_db_url st @ ''/'' @ st_db_name st = shown_not @ snd (init_database st db)"
proof -
  let ?r = "st_db_url st @ ''/'' @ st_db_name st"
  obtain a where dsn: "build_dsn ''asyncpg'' st = a @ ''@'' @ ?r" by (simp add: build_dsn_def)
  show ?thesis
  proof (cases "CHR ''@'' \<in> set ?r")
    case False
    then show ?thesis using logged_append [of ?r a] by (simp add: init_database_def dsn Let_def)
  next
    case True
    then obtain b c where r: "?r = b @ CHR ''@'' # c" and c: "CHR ''@'' \<notin> set c"
      by (rule split_list_last [THEN exE]) blast
    have "build_dsn ''asyncpg'' st = (a @ ''@'' @ b) @ ''@'' @ c" unfolding dsn r by simp
    then have "snd (init_database st db) = c"
      using logged_append [OF c, of "a @ ''@'' @ b"] by (simp add: init_database_def Let_def)
    then have "?r = (b @ ''@'') @ snd (init_database st db)" using r by simp
    then show ?thesis ..
  qed
qed

lemma open_close_database:
  "db_engine (close_database (fst (init_database st db))) = None"
  "get_session_factory (close_database (fst (init_database st db))) = Inl RuntimeError"
  "get_session_factory (fst (init_database st db)) = Inr (build_dsn ''asyncpg'' st)"
  by (simp_all add: init_database_def close_database_def get_session_factory_def Let_def)

section \<open>A server that is not configured\<close>

lemma rstrip_empty [simp]: "rstrip_slash [] = []"
  by (simp add: rstrip_slash_def)

lemma auth_status [simp]: "status_code (auth_base e) \<noteq> 200"
  by (cases e) simp_all

lemma rpcn_api_missing:
  "st_rpcn_api_url st = [] \<or> st_rpcn_api_key st = [] \<Longrightarrow>
    api_post transport (api_init (rpcn_api st)) path body = (Inl Not_Configured, [])"
  by (auto simp: api_post_def api_init_def rpcn_api_def make_api_client_def)

lemma no_signing_key:
  assumes "st_jwt_secret st = []"
  shows "jwt_secret (signing st) = Inl (Raises Auth_Unavailable)"
    and "app_user dec st now credentials =
      Inl (Raises (case credentials of None \<Rightarrow> Invalid_Token | Some _ \<Rightarrow> Auth_Unavailable))"
  by (auto simp: assms jwt_secret_def signing_def min_secret_bytes_def app_user_def current_user_def read_token_def split: option.split)

text \<open>C28: A server that warned at startup that login is not configured signs nobody in, whatever RPCN, the save server and
  the token library answer: with RPCN's URL or key missing every login answers 502, and with the signing key missing
  no login answers 200 and no token is read.  It moderates no account: nothing is posted to RPCN's ban path, and with
  the signing key missing nothing to the save server either.\<close>

theorem unconfigured_signs_nobody_in:
  assumes warned: "warn_if_login_unconfigured st" and ok: "credentials_ok username password"
  shows "app_login pbkdf2 transport enc st now username password \<noteq> 200 \<and>
    snd (app_ban pbkdf2 transport dec st now credentials username password) = [] \<and>
    (st_rpcn_api_url st = [] \<or> st_rpcn_api_key st = [] \<longrightarrow> app_login pbkdf2 transport enc st now username password = 502) \<and>
    (st_jwt_secret st = [] \<longrightarrow> app_user dec st now (Some token) = Inl (Raises Auth_Unavailable) \<and>
       app_ban pbkdf2 transport dec st now credentials username password = (if credentials = None then 401 else 502, []) \<and>
       app_saves pbkdf2 transport dec isoformat L st now credentials q c = (if credentials = None then 401 else 502, c, []))"
proof -
  let ?login = "app_login pbkdf2 transport enc st now username password"
  let ?ban = "app_ban pbkdf2 transport dec st now credentials username password"
  have unsigned: "?login \<noteq> 200 \<and> app_user dec st now (Some token) = Inl (Raises Auth_Unavailable) \<and>
      ?ban = (if credentials = None then 401 else 502, []) \<and>
      app_saves pbkdf2 transport dec isoformat L st now credentials q c = (if credentials = None then 401 else 502, c, [])"
    if True: "st_jwt_secret st = []"
  proof -
  have "http_status auth_base (bindR r (\<lambda>account. bindR (login_user account) (\<lambda>user.
      bindR (issue_token enc (signing st) user now) (\<lambda>(token, ttl). Inr (token, ttl, user))))) \<noteq> 200" for r
    by (cases r; cases "login_user (projr r)")
      (auto simp: issue_token_def no_signing_key(1) [OF True] http_status_def auth_status split: raised.split)
    then show ?thesis
      using True by (cases credentials) (auto simp: app_login_def login_status_def login_def ok no_signing_key(2) [OF True]
        app_ban_def ban_route_def moderation_route_def app_saves_def saves_admin_route_def admin_user_def)
  qed
  have "?login = 502 \<and> snd ?ban = []" if missing: "st_rpcn_api_url st = [] \<or> st_rpcn_api_key st = []"
    by (auto simp: app_login_def login_status_def login_def ok verify_def rpcn_api_missing [OF missing] app_ban_def
      ban_route_def moderation_route_def admin_ban_def account_ban_def admin_post_def ensure_not_self_def split: sum.split)
  then show ?thesis using unsigned warned by (auto simp: warn_if_login_unconfigured_def)
qed

theorem unconfigured_signs_nobody_in_witness:
  "app_login demo_pbkdf2 demo_transport plain_encode (make_settings ''local'' ''u'' ''p'' ''t'') 5 ''kim'' ''pw'' = 502 \<and>
   app_user plain_decode (make_settings ''local'' ''u'' ''p'' ''t'') 5 (Some ([], [], [])) = Inl (Raises Auth_Unavailable)"
proof -
  have w: "warn_if_login_unconfigured (make_settings ''local'' ''u'' ''p'' ''t'')"
    and j: "st_jwt_secret (make_settings ''local'' ''u'' ''p'' ''t'') = []" "st_rpcn_api_url (make_settings ''local'' ''u'' ''p'' ''t'') = []"
    by (simp_all add: warn_if_login_unconfigured_def make_settings_def)
  have "credentials_ok ''kim'' ''pw''" by (simp add: credentials_ok_def)
  then show ?thesis using unconfigured_signs_nobody_in [where ?pbkdf2.0 = demo_pbkdf2 and transport = demo_transport
    and enc = plain_encode and now = 5 and dec = plain_decode and token = "([], [], [])", OF w] by (simp add: j)
qed

text \<open>What the warning does not say: a password RPCN refuses is answered 401 without a signing key, and a token signed
  before is read as long as the signing key is there, with nothing of RPCN configured.\<close>

theorem warned_but_not_unavailable:
  assumes "credentials_ok username password" and "st_rpcn_api_url st = ''http://rpcn''" and "st_rpcn_api_key st \<noteq> []"
    and "transport (st_rpcn_api_key st) verify_path (verify_body pbkdf2 username password) = Inr \<lparr>rs_status = 401, rs_json = None\<rparr>"
  shows "app_login pbkdf2 transport enc st now username password = 401"
  using assms by (simp add: app_login_def login_status_def login_def verify_def api_post_def rpcn_api_def make_api_client_def api_init_def
    rstrip_slash_def read_verification_def)

lemma tokens_read_without_rpcn:
  "app_user dec (st\<lparr>st_rpcn_api_url := u, st_rpcn_api_key := k\<rparr>) now credentials = app_user dec st now credentials"
  by (simp add: app_user_def signing_def)

end
