(* ===== verification/Rpcn_Metrics.thy ===== *)
theory Rpcn_Metrics
  imports Rpcn_Client Account_Api
begin

text \<open>
  \<open>src/rpcn_client/metrics.py\<close>: the proxy that logs one metric entry for every tracked call of an RPCN client, and
  \<open>create_client\<close> of \<open>src/matching/rpcn_lifecycle.py\<close>, which may put it around the client it opens.
\<close>

definition tracked_methods :: "string list" where
  "tracked_methods = [''connect'', ''login'', ''disconnect'', ''get_server_list'', ''get_world_list'', ''search_rooms'',
     ''search_rooms_all'', ''get_score_range'', ''get_score_npid'']"

text \<open>The clock is in microseconds; a duration is rounded to hundredths of a millisecond, as an exact number.\<close>

definition duration_ms :: "instant \<Rightarrow> instant \<Rightarrow> rat" where
  "duration_ms started ended = of_int (ended - started) / 1000"

definition round_hundredths :: "rat \<Rightarrow> rat" where
  "round_hundredths q = of_int (round_half_even (q * 100)) / 100"

definition metric :: "string \<Rightarrow> string \<Rightarrow> json" where
  "metric name u = JObj [(''Name'', JStr name), (''Unit'', JStr u)]"

definition emf_entry :: "string \<Rightarrow> rat \<Rightarrow> bool \<Rightarrow> instant \<Rightarrow> json" where
  "emf_entry name ms success now = JObj
     [(''_aws'', JObj
        [(''Timestamp'', JInt (now div 1000)),
         (''CloudWatchMetrics'', JArr [JObj
            [(''Namespace'', JStr ''RPCN''),
             (''Dimensions'', JArr [JArr [JStr ''Method''], JArr [JStr ''Method'', JStr ''Status'']]),
             (''Metrics'', JArr [metric ''CallCount'' ''Count'', metric ''Duration'' ''Milliseconds''])]])]),
      (''Method'', JStr name), (''Status'', JStr (if success then ''Success'' else ''Failure'')),
      (''CallCount'', JInt 1), (''Duration'', JFloat (Finite (round_hundredths ms)))]"

text \<open>
  A call through the proxy: \<open>emits\<close> says whether the logging succeeds, for an exception of it is swallowed, and the
  three readings of the clock are the start, the end and the wall clock at the entry.
\<close>

definition tracked_call ::
  "string \<Rightarrow> instant \<times> instant \<times> instant \<Rightarrow> bool \<Rightarrow> ('c \<Rightarrow> ('e + 'a) \<times> 'c) \<Rightarrow> 'c \<Rightarrow> (('e + 'a) \<times> 'c) \<times> json list" where
  "tracked_call name clock emits call c =
     (let (started, ended, now) = clock; (r, c') = call c in
      if name \<notin> set tracked_methods then ((r, c'), [])
      else ((r, c'), if emits then [emf_entry name (duration_ms started ended) (case r of Inl _ \<Rightarrow> False | Inr _ \<Rightarrow> True) now] else []))"

text \<open>Without metrics the client is called as it is.\<close>

definition client_call ::
  "bool \<Rightarrow> string \<Rightarrow> instant \<times> instant \<times> instant \<Rightarrow> bool \<Rightarrow> ('c \<Rightarrow> ('e + 'a) \<times> 'c) \<Rightarrow> 'c \<Rightarrow> (('e + 'a) \<times> 'c) \<times> json list" where
  "client_call metric_enable name clock emits call c =
     (if metric_enable then tracked_call name clock emits call c else (call c, []))"

definition create_client ::
  "bool \<Rightarrow> instant \<times> instant \<times> instant \<Rightarrow> instant \<times> instant \<times> instant \<Rightarrow> bool \<Rightarrow> (byte list \<Rightarrow> string) \<Rightarrow> client_error + sock \<Rightarrow>
     byte list \<Rightarrow> byte list \<Rightarrow> byte list \<Rightarrow> (client_error + connection) \<times> json list" where
  "create_client metric_enable connect_clock login_clock emits decode opened user password token =
     (case client_call metric_enable ''connect'' connect_clock emits (connect opened) new_connection of
        ((Inl e, _), entries) \<Rightarrow> (Inl e, entries)
      | ((Inr _, cn), entries) \<Rightarrow>
          (case client_call metric_enable ''login'' login_clock emits (login decode user password token) cn of
             ((Inl e, _), entries') \<Rightarrow> (Inl e, entries @ entries')
           | ((Inr _, cn'), entries') \<Rightarrow> (Inr cn', entries @ entries')))"

section \<open>Metrics change nothing\<close>

lemma client_call_result [simp]: "fst (client_call metric_enable name clock emits call c) = call c"
  by (simp add: client_call_def tracked_call_def split_beta)

text \<open>With metrics on or off, the logging working or failing, the same client comes out of the same answers.\<close>

theorem metrics_transparent:
  "fst (create_client metric_enable ct lt emits decode opened user password token) =
   fst (create_client False ct' lt' emits' decode opened user password token)"
proof -
  have "fst (create_client m ct lt emits decode opened user password token) =
      (case connect opened new_connection of (Inl e, _) \<Rightarrow> Inl e
       | (Inr _, cn) \<Rightarrow> (case login decode user password token cn of (Inl e, _) \<Rightarrow> Inl e | (Inr _, cn') \<Rightarrow> Inr cn'))" for m ct lt emits
    unfolding create_client_def client_call_def tracked_call_def by (auto simp: split_beta Let_def split: prod.splits sum.splits)
  then show ?thesis by metis
qed

text \<open>A connection and a login that are tracked leave one entry each, in that order, and the last one says how it ended.\<close>

theorem metrics_of_a_client:
  assumes "create_client True ct lt True decode opened user password token = (r, entries)"
  shows "map (\<lambda>e. getitem ''Method'' e) entries \<in> {[Inr (JStr ''connect'')], [Inr (JStr ''connect''), Inr (JStr ''login'')]}"
    and "getitem ''Status'' (last entries) = Inr (JStr (case r of Inl _ \<Rightarrow> ''Failure'' | Inr _ \<Rightarrow> ''Success''))"
  using assms unfolding create_client_def client_call_def tracked_call_def
  by (auto simp: split_beta Let_def tracked_methods_def emf_entry_def getitem_def split: prod.splits sum.splits)

end
