(* ===== verification/Schema.thy ===== *)
theory Schema
  imports Prelude
begin

text \<open>
  A database schema and the changes that \<open>src/alembic/versions/\<close> makes to one: tables with their columns,
  constraints and indexes, and the operations of \<open>alembic.op\<close> with the answer PostgreSQL gives each, which is
  \<open>None\<close> where it refuses: because of the schema, or because of the rows that are there.  A data statement leaves the
  schema alone; what it does to rows is in \<open>Migration_Data\<close>.
\<close>

section \<open>Tables\<close>

datatype sql_type = Sql_Integer | Sql_Big | Sql_Small | Sql_Text | Sql_String | Sql_Bool | Sql_Date | Sql_Moment | Sql_Json
  | Sql_Bytes | Sql_Array sql_type

text \<open>\<open>CURRENT_TIMESTAMP\<close> and \<open>now()\<close> are one default, and so are a literal and its quoted text.\<close>

datatype server_default = Now | Int_Default int | Text_Default string | Empty_Array | False_Default

text \<open>A number the database gives: \<open>GENERATED ALWAYS AS IDENTITY\<close>, or the sequence of a \<open>SERIAL\<close>.\<close>

datatype numbering = Plain | Identity_Always | Serial

record column =
  cl_type :: sql_type
  cl_nullable :: bool
  cl_default :: "server_default option"
  cl_numbering :: numbering

definition nullable :: "sql_type \<Rightarrow> column" where
  "nullable t = \<lparr>cl_type = t, cl_nullable = True, cl_default = None, cl_numbering = Plain\<rparr>"

definition required :: "sql_type \<Rightarrow> column" where
  "required t = (nullable t)\<lparr>cl_nullable := False\<rparr>"

definition defaulting :: "sql_type \<Rightarrow> server_default \<Rightarrow> column" where
  "defaulting t d = (required t)\<lparr>cl_default := Some d\<rparr>"

definition numbered :: "sql_type \<Rightarrow> numbering \<Rightarrow> column" where
  "numbered t n = (required t)\<lparr>cl_numbering := n\<rparr>"

text \<open>\<open>Foreign columns table target cascades\<close>; a check names the columns it reads.\<close>

datatype constraint =
    Primary "string list"
  | Unique_On "string list"
  | Foreign "string list" string "string list" bool
  | Check "string list" string

record index =
  ix_name :: string
  ix_columns :: "(string \<times> bool) list"
  ix_unique :: bool
  ix_where :: string
  ix_gin :: bool

text \<open>An index column with \<open>DESC\<close> has \<open>True\<close>; an index of every row has the empty condition.\<close>

definition plain_index :: "string \<Rightarrow> string list \<Rightarrow> index" where
  "plain_index name cols =
     \<lparr>ix_name = name, ix_columns = map (\<lambda>c. (c, False)) cols, ix_unique = False, ix_where = [], ix_gin = False\<rparr>"

definition partial_index :: "string \<Rightarrow> string list \<Rightarrow> string \<Rightarrow> index" where
  "partial_index name cols cond = (plain_index name cols)\<lparr>ix_where := cond\<rparr>"

definition newest_first_index :: "string \<Rightarrow> string \<Rightarrow> string \<Rightarrow> index" where
  "newest_first_index name col newest = (plain_index name [])\<lparr>ix_columns := [(col, False), (newest, True)]\<rparr>"

record table =
  tb_columns :: "(string \<times> column) list"
  tb_constraints :: "(string option \<times> constraint) list"
  tb_indexes :: "index list"

type_synonym schema = "(string \<times> table) list"

section \<open>Changes\<close>

datatype data_change = Backfill_Matched_Players | Fill_Match_Date | Fill_Duration | Split_Characters | Join_Characters
  | Fill_Last_Seen | Requeue_Events

datatype ddl =
    Create_Table string "(string \<times> column) list" "(string option \<times> constraint) list"
  | Drop_Table string
  | Add_Column string string column
  | Drop_Column string string
  | Alter_Type string string sql_type
  | Set_Not_Null string string
  | Add_Constraint string "string option" constraint
  | Drop_Constraint string string
  | Create_Index string index
  | Drop_Index string string
  | Execute data_change

fun constraint_columns :: "constraint \<Rightarrow> string list" where
  "constraint_columns (Primary cs) = cs"
| "constraint_columns (Unique_On cs) = cs"
| "constraint_columns (Foreign cs _ _ _) = cs"
| "constraint_columns (Check cs _) = cs"

definition has_columns :: "table \<Rightarrow> string list \<Rightarrow> bool" where
  "has_columns t cs \<longleftrightarrow> list_all (\<lambda>c. c \<in> set (map fst (tb_columns t))) cs"

text \<open>A foreign key names a table that is there, possibly the one being made, and columns it has.\<close>

fun target_there :: "schema \<Rightarrow> constraint \<Rightarrow> bool" where
  "target_there s (Foreign _ target cs _) = (case map_of s target of None \<Rightarrow> False | Some t \<Rightarrow> has_columns t cs)"
| "target_there s _ = True"

definition constraint_fits :: "schema \<Rightarrow> table \<Rightarrow> constraint \<Rightarrow> bool" where
  "constraint_fits s t c \<longleftrightarrow> has_columns t (constraint_columns c) \<and> target_there s c"

fun points_at :: "string \<Rightarrow> constraint \<Rightarrow> bool" where
  "points_at name (Foreign _ target _ _) = (target = name)"
| "points_at name _ = False"

definition pointed_at :: "string \<Rightarrow> schema \<Rightarrow> bool" where
  "pointed_at name s \<longleftrightarrow> list_ex (\<lambda>(n, t). n \<noteq> name \<and> list_ex (\<lambda>(_, c). points_at name c) (tb_constraints t)) s"

text \<open>A key that a foreign key of any table leads to.\<close>

fun leads_to :: "string \<Rightarrow> string list \<Rightarrow> constraint \<Rightarrow> bool" where
  "leads_to name cs (Foreign _ target ds _) = (target = name \<and> list_ex (\<lambda>d. d \<in> set cs) ds)"
| "leads_to name cs _ = False"

definition depended_on :: "string \<Rightarrow> string list \<Rightarrow> schema \<Rightarrow> bool" where
  "depended_on name cs s \<longleftrightarrow> list_ex (\<lambda>(_, t). list_ex (\<lambda>(_, c). leads_to name cs c) (tb_constraints t)) s"

definition key_columns :: "string \<Rightarrow> table \<Rightarrow> string list" where
  "key_columns cname t = concat (map (\<lambda>(n, c). if n = Some cname then (case c of Primary cs \<Rightarrow> cs | Unique_On cs \<Rightarrow> cs | _ \<Rightarrow> []) else []) (tb_constraints t))"

text \<open>Tables and indexes share their names.\<close>

definition name_taken :: "string \<Rightarrow> schema \<Rightarrow> bool" where
  "name_taken name s \<longleftrightarrow> list_ex (\<lambda>(n, t). n = name \<or> name \<in> set (map ix_name (tb_indexes t))) s"

text \<open>An unnamed primary key is called after its table.\<close>

definition named_constraint :: "string \<Rightarrow> string option \<times> constraint \<Rightarrow> string option \<times> constraint" where
  "named_constraint tname nc = (case nc of (None, Primary cs) \<Rightarrow> (Some (tname @ ''_pkey''), Primary cs) | _ \<Rightarrow> nc)"

definition create_table :: "string \<Rightarrow> (string \<times> column) list \<Rightarrow> (string option \<times> constraint) list \<Rightarrow> schema \<Rightarrow> schema option" where
  "create_table name cols cons s =
     (let t = \<lparr>tb_columns = cols, tb_constraints = map (named_constraint name) cons, tb_indexes = []\<rparr>; s' = s @ [(name, t)] in
      if \<not> name_taken name s \<and> distinct (map fst cols) \<and> list_all (\<lambda>(_, c). constraint_fits s' t c) cons
      then Some s' else None)"

definition on_table :: "string \<Rightarrow> (table \<Rightarrow> table option) \<Rightarrow> schema \<Rightarrow> schema option" where
  "on_table name f s =
     (case map_of s name of None \<Rightarrow> None
      | Some t \<Rightarrow> map_option (\<lambda>t'. map (\<lambda>(n, u). if n = name then (n, t') else (n, u)) s) (f t))"

text \<open>A column of a table with rows is added only if every row can be given a value.\<close>

definition add_column :: "string \<Rightarrow> column \<Rightarrow> table \<Rightarrow> table option" where
  "add_column c cl t =
     (if c \<notin> set (map fst (tb_columns t)) \<and> (cl_nullable cl \<or> cl_default cl \<noteq> None \<or> cl_numbering cl \<noteq> Plain)
      then Some (t\<lparr>tb_columns := tb_columns t @ [(c, cl)]\<rparr>) else None)"

text \<open>A column goes with the constraints and the indexes that read it.\<close>

definition drop_column :: "string \<Rightarrow> table \<Rightarrow> table option" where
  "drop_column c t =
     (if c \<in> set (map fst (tb_columns t))
      then Some \<lparr>tb_columns = filter (\<lambda>(n, _). n \<noteq> c) (tb_columns t),
                 tb_constraints = filter (\<lambda>(_, k). c \<notin> set (constraint_columns k)) (tb_constraints t),
                 tb_indexes = filter (\<lambda>i. c \<notin> set (map fst (ix_columns i))) (tb_indexes t)\<rparr>
      else None)"

definition alter_column :: "string \<Rightarrow> (column \<Rightarrow> column) \<Rightarrow> table \<Rightarrow> table option" where
  "alter_column c f t =
     (if c \<in> set (map fst (tb_columns t))
      then Some (t\<lparr>tb_columns := map (\<lambda>(n, cl). (n, if n = c then f cl else cl)) (tb_columns t)\<rparr>) else None)"

fun is_primary :: "constraint \<Rightarrow> bool" where
  "is_primary (Primary _) = True"
| "is_primary _ = False"

definition add_constraint :: "schema \<Rightarrow> string option \<Rightarrow> constraint \<Rightarrow> table \<Rightarrow> table option" where
  "add_constraint s name c t =
     (if constraint_fits s t c \<and> (name = None \<or> name \<notin> set (map fst (tb_constraints t))) \<and>
         \<not> (is_primary c \<and> list_ex (\<lambda>(_, k). is_primary k) (tb_constraints t))
      then Some (t\<lparr>tb_constraints := tb_constraints t @ [(name, c)]\<rparr>) else None)"

definition drop_constraint :: "string \<Rightarrow> table \<Rightarrow> table option" where
  "drop_constraint name t =
     (if Some name \<in> set (map fst (tb_constraints t))
      then Some (t\<lparr>tb_constraints := filter (\<lambda>(n, _). n \<noteq> Some name) (tb_constraints t)\<rparr>) else None)"

definition create_index :: "schema \<Rightarrow> index \<Rightarrow> table \<Rightarrow> table option" where
  "create_index s i t =
     (if \<not> name_taken (ix_name i) s \<and> has_columns t (map fst (ix_columns i))
      then Some (t\<lparr>tb_indexes := tb_indexes t @ [i]\<rparr>) else None)"

definition drop_index :: "string \<Rightarrow> table \<Rightarrow> table option" where
  "drop_index name t =
     (if name \<in> set (map ix_name (tb_indexes t))
      then Some (t\<lparr>tb_indexes := filter (\<lambda>i. ix_name i \<noteq> name) (tb_indexes t)\<rparr>) else None)"

fun apply_ddl :: "ddl \<Rightarrow> schema \<Rightarrow> schema option" where
  "apply_ddl (Create_Table name cols cons) s = create_table name cols cons s"
| "apply_ddl (Drop_Table name) s =
     (if name \<in> set (map fst s) \<and> \<not> pointed_at name s then Some (filter (\<lambda>(n, _). n \<noteq> name) s) else None)"
| "apply_ddl (Add_Column name c cl) s = on_table name (add_column c cl) s"
| "apply_ddl (Drop_Column name c) s = (if depended_on name [c] s then None else on_table name (drop_column c) s)"
| "apply_ddl (Alter_Type name c ty) s = on_table name (alter_column c (\<lambda>cl. cl\<lparr>cl_type := ty\<rparr>)) s"
| "apply_ddl (Set_Not_Null name c) s = on_table name (alter_column c (\<lambda>cl. cl\<lparr>cl_nullable := False\<rparr>)) s"
| "apply_ddl (Add_Constraint name cname c) s = on_table name (add_constraint s cname c) s"
| "apply_ddl (Drop_Constraint name cname) s =
     (case map_of s name of None \<Rightarrow> None
      | Some t \<Rightarrow> if depended_on name (key_columns cname t) s then None else on_table name (drop_constraint cname) s)"
| "apply_ddl (Create_Index name i) s = on_table name (create_index s i) s"
| "apply_ddl (Drop_Index name i) s = on_table name (drop_index i) s"
| "apply_ddl (Execute _) s = Some s"

section \<open>What a change asks of rows\<close>

text \<open>
  A constraint, a unique index and a column that may not be null are refused when the rows that are there do not meet
  them, a narrower type when a value does not fit it, and the join of a post's characters when the first of them is null;
  the other statements are met by any rows.
\<close>

fun asks_rows :: "ddl \<Rightarrow> bool" where
  "asks_rows (Add_Constraint _ _ _) = True"
| "asks_rows (Set_Not_Null _ _) = True"
| "asks_rows (Alter_Type _ _ ty) = (ty \<noteq> Sql_Big)"
| "asks_rows (Create_Index _ i) = ix_unique i"
| "asks_rows (Execute e) = (e = Join_Characters)"
| "asks_rows _ = False"

fun ddl_table :: "ddl \<Rightarrow> string" where
  "ddl_table (Create_Table name _ _) = name"
| "ddl_table (Drop_Table name) = name"
| "ddl_table (Add_Column name _ _) = name"
| "ddl_table (Drop_Column name _) = name"
| "ddl_table (Alter_Type name _ _) = name"
| "ddl_table (Set_Not_Null name _) = name"
| "ddl_table (Add_Constraint name _ _) = name"
| "ddl_table (Drop_Constraint name _) = name"
| "ddl_table (Create_Index name _) = name"
| "ddl_table (Drop_Index name _) = name"
| "ddl_table (Execute e) = (if e = Backfill_Matched_Players then ''daily_matched_players''
     else if e \<in> {Fill_Match_Date, Fill_Last_Seen} then ''rank_match_snapshots'' else if e = Fill_Duration then ''reservations''
     else if e = Requeue_Events then ''match_events'' else ''posts'')"

text \<open>A table made earlier in the run has no rows, and a column that a statement has just filled, in every row, no null.\<close>

definition made_by :: "ddl list \<Rightarrow> string \<Rightarrow> bool" where
  "made_by earlier name \<longleftrightarrow> list_ex (\<lambda>d. case d of Create_Table n _ _ \<Rightarrow> n = name | _ \<Rightarrow> False) earlier"

fun fills :: "data_change \<Rightarrow> (string \<times> string) list" where
  "fills Fill_Match_Date = [(''rank_match_snapshots'', ''match_date'')]"
| "fills Fill_Duration = [(''reservations'', ''duration_minutes'')]"
| "fills _ = []"

fun filled_by :: "ddl list \<Rightarrow> ddl \<Rightarrow> bool" where
  "filled_by earlier (Set_Not_Null name c) = list_ex (\<lambda>d. case d of Execute e \<Rightarrow> (name, c) \<in> set (fills e) | _ \<Rightarrow> False) earlier"
| "filled_by earlier _ = False"

definition depends_on_rows :: "ddl list \<Rightarrow> ddl \<Rightarrow> bool" where
  "depends_on_rows earlier d \<longleftrightarrow> asks_rows d \<and> \<not> made_by earlier (ddl_table d) \<and> \<not> filled_by earlier d"

text \<open>The statements of a run in order: \<open>earlier\<close> holds those that have run, and \<open>met d\<close> says whether the rows that are there when
  the turn of \<open>d\<close> comes meet what it asks.\<close>

fun run_ddl :: "(ddl \<Rightarrow> bool) \<Rightarrow> ddl list \<Rightarrow> ddl list \<Rightarrow> schema \<Rightarrow> schema option" where
  "run_ddl met earlier [] s = Some s"
| "run_ddl met earlier (d # ds) s =
     (if \<not> met d \<and> depends_on_rows earlier d then None
      else case apply_ddl d s of None \<Rightarrow> None | Some s' \<Rightarrow> run_ddl met (earlier @ [d]) ds s')"

fun asked_of_rows :: "ddl list \<Rightarrow> ddl list \<Rightarrow> ddl list" where
  "asked_of_rows earlier [] = []"
| "asked_of_rows earlier (d # ds) = (if depends_on_rows earlier d then [d] else []) @ asked_of_rows (earlier @ [d]) ds"

lemma asked_append: "asked_of_rows earlier (as @ bs) = asked_of_rows earlier as @ asked_of_rows (earlier @ as) bs"
  by (induction as arbitrary: earlier) simp_all

text \<open>The rows decide whether a run goes through, not what it leaves.\<close>

lemma run_ddl_any: "run_ddl (\<lambda>_. True) earlier ds s = run_ddl (\<lambda>_. True) earlier' ds s"
  by (induction ds arbitrary: earlier earlier' s) (auto split: option.split)

lemma run_ddl_met:
  "run_ddl met earlier ds s = (if list_all met (asked_of_rows earlier ds) then run_ddl (\<lambda>_. True) earlier' ds s else None)"
proof (induction ds arbitrary: earlier s earlier')
  case (Cons d ds)
  show ?case
  proof (cases "apply_ddl d s")
    case (Some s')
    then show ?thesis using Cons.IH [of "earlier @ [d]" s' "earlier' @ [d]"] by simp
  qed simp
qed simp

lemma run_ddl_append: "run_ddl (\<lambda>_. True) e (as @ bs) s = Option.bind (run_ddl (\<lambda>_. True) e as s) (run_ddl (\<lambda>_. True) e' bs)"
proof (induction as arbitrary: e s)
  case Nil
  show ?case by (simp add: run_ddl_any [of e bs s e'])
qed (simp split: option.split)

section \<open>When two schemas agree\<close>

text \<open>
  A declared schema leaves the names of some constraints to the database.  Order does not matter, neither of
  tables nor of anything in them.
\<close>

definition named_as_declared :: "string option \<times> constraint \<Rightarrow> string option \<times> constraint \<Rightarrow> bool" where
  "named_as_declared actual declared \<longleftrightarrow> snd actual = snd declared \<and> (fst declared = None \<or> fst actual = fst declared)"

definition same_table :: "table \<Rightarrow> table \<Rightarrow> bool" where
  "same_table actual declared \<longleftrightarrow>
     set (tb_columns actual) = set (tb_columns declared) \<and> set (tb_indexes actual) = set (tb_indexes declared) \<and>
     list_all (\<lambda>a. list_ex (named_as_declared a) (tb_constraints declared)) (tb_constraints actual) \<and>
     list_all (\<lambda>d. list_ex (\<lambda>a. named_as_declared a d) (tb_constraints actual)) (tb_constraints declared)"

definition same_schema :: "schema \<Rightarrow> schema \<Rightarrow> bool" where
  "same_schema actual declared \<longleftrightarrow>
     set (map fst actual) = set (map fst declared) \<and>
     list_all (\<lambda>(n, d). case map_of actual n of None \<Rightarrow> False | Some a \<Rightarrow> same_table a d) declared"

lemma same_schemaD:
  "same_schema actual declared \<Longrightarrow> map_of declared n = Some d \<Longrightarrow> \<exists>a. map_of actual n = Some a \<and> same_table a d"
  by (auto simp: same_schema_def list_all_iff dest!: map_of_SomeD split: option.splits) fastforce

end
