(* ===== verification/Migrations.thy ===== *)
theory Migrations
  imports Schema
begin

text \<open>
  The revisions of \<open>src/alembic/versions/\<close>, each with the changes of its \<open>upgrade\<close> and its \<open>downgrade\<close>, and the
  order in which \<open>alembic upgrade head\<close> runs them: along \<open>down_revision\<close> from the base, in the one
  transaction of \<open>src/alembic/env.py\<close>.
\<close>

section \<open>Columns and keys that recur\<close>

abbreviation identity_id :: "sql_type \<Rightarrow> string \<times> column" where
  "identity_id t \<equiv> (''id'', numbered t Identity_Always)"

abbreviation moment_now :: column where "moment_now \<equiv> defaulting Sql_Moment Now"

abbreviation id_key :: "string option \<times> constraint" where "id_key \<equiv> (None, Primary [''id''])"

abbreviation cascading :: "string \<Rightarrow> string \<Rightarrow> string option \<times> constraint" where
  "cascading c target \<equiv> (None, Foreign [c] target [''id''] True)"

definition quoted :: "string \<Rightarrow> string" where "quoted w = CHR 0x27 # w @ [CHR 0x27]"

definition result_check :: string where
  "result_check = ''result IN ('' @ quoted ''win'' @ '', '' @ quoted ''loss'' @ '')''"

definition status_check :: string where
  "status_check = ''status IN ('' @ quoted ''pending'' @ '', '' @ quoted ''done'' @ '', '' @ quoted ''dead'' @ '')''"

definition pending_only :: string where "pending_only = ''status = '' @ quoted ''pending''"

section \<open>The baseline\<close>

definition baseline_posts :: ddl where
  "baseline_posts = Create_Table ''posts''
     [identity_id Sql_Integer, (''author'', required Sql_Text), (''title'', required Sql_Text), (''body'', required Sql_Text),
      (''post_type'', defaulting Sql_Text (Text_Default ''jayu'')), (''thumbs_up'', defaulting Sql_Integer (Int_Default 0)),
      (''thumbs_down'', defaulting Sql_Integer (Int_Default 0)), (''created_at'', moment_now)]
     [id_key, (Some ''posts_title_check'', Check [''title''] ''length(title) <= 100''),
      (Some ''posts_body_check'', Check [''body''] ''length(body) <= 1000'')]"

definition baseline_comments :: "ddl list" where
  "baseline_comments =
     [Create_Table ''comments''
        [identity_id Sql_Integer, (''post_id'', required Sql_Integer), (''parent_id'', nullable Sql_Integer),
         (''author'', required Sql_Text), (''body'', required Sql_Text), (''created_at'', moment_now)]
        [id_key, cascading ''post_id'' ''posts'', cascading ''parent_id'' ''comments'',
         (Some ''comments_body_check'', Check [''body''] ''length(body) <= 1000'')],
      Create_Index ''comments'' (plain_index ''idx_comments_post'' [''post_id'']),
      Create_Index ''comments'' (plain_index ''idx_comments_parent'' [''parent_id''])]"

definition baseline_thumbs :: ddl where
  "baseline_thumbs = Create_Table ''thumbs''
     [identity_id Sql_Integer, (''post_id'', required Sql_Integer), (''voter'', required Sql_Text),
      (''direction'', required Sql_Integer), (''created_at'', moment_now)]
     [id_key, cascading ''post_id'' ''posts'', (Some ''thumbs_direction_check'', Check [''direction''] ''direction IN (1, -1)''),
      (None, Unique_On [''post_id'', ''voter''])]"

definition baseline_reservations :: "ddl list" where
  "baseline_reservations =
     [Create_Table ''reservations''
        [identity_id Sql_Integer, (''start_at'', required Sql_Moment), (''duration_minutes'', required Sql_Integer),
         (''host_display_name'', required Sql_Text), (''host_subject'', nullable Sql_Text),
         (''host_ranks'', defaulting (Sql_Array Sql_Text) Empty_Array), (''host_token_hash'', required Sql_Text),
         (''match_type'', required Sql_Text), (''capacity'', required Sql_Integer),
         (''memo'', defaulting Sql_Text (Text_Default [])), (''status'', defaulting Sql_Text (Text_Default ''open'')),
         (''created_at'', moment_now), (''updated_at'', moment_now), (''cancelled_at'', nullable Sql_Moment),
         (''ended_at'', nullable Sql_Moment)]
        [id_key],
      Create_Index ''reservations'' (plain_index ''idx_reservations_start_at'' [''start_at''])]"

definition baseline_participants :: "ddl list" where
  "baseline_participants =
     [Create_Table ''reservation_participants''
        [identity_id Sql_Integer, (''reservation_id'', required Sql_Integer), (''display_name'', required Sql_Text),
         (''subject'', nullable Sql_Text), (''ranks'', defaulting (Sql_Array Sql_Text) Empty_Array),
         (''participant_token_hash'', required Sql_Text), (''joined_at'', moment_now), (''cancelled_at'', nullable Sql_Moment)]
        [id_key, cascading ''reservation_id'' ''reservations'', (None, Unique_On [''reservation_id'', ''participant_token_hash''])],
      Create_Index ''reservation_participants''
        (partial_index ''idx_reservation_participants_active'' [''reservation_id''] ''cancelled_at IS NULL'')]"

text \<open>A whole number that is a table's only key is a \<open>SERIAL\<close> to the toolkit, so the room id has a sequence.\<close>

definition baseline_snapshots :: "ddl list" where
  "baseline_snapshots =
     [Create_Table ''rank_match_snapshots''
        [(''room_id'', numbered Sql_Integer Serial), (''created_dt'', required Sql_Moment), (''rank_id'', required Sql_Integer),
         (''user1_npid'', required Sql_String), (''user1_online_name'', required Sql_String),
         (''user2_npid'', required Sql_String), (''user2_online_name'', required Sql_String)]
        [(None, Primary [''room_id''])],
      Create_Index ''rank_match_snapshots'' (plain_index ''ix_rank_match_snapshots_created_dt'' [''created_dt'']),
      Create_Index ''rank_match_snapshots'' (plain_index ''ix_rank_match_snapshots_user1_npid'' [''user1_npid'']),
      Create_Index ''rank_match_snapshots'' (plain_index ''ix_rank_match_snapshots_user2_npid'' [''user2_npid''])]"

definition hourly_stats :: "ddl list" where
  "hourly_stats =
     [Create_Table ''hourly_stats''
        [(''id'', numbered Sql_Integer Serial), (''hour_key'', required Sql_String), (''total_players'', required Sql_Integer),
         (''total_rooms'', required Sql_Integer), (''captured_at'', moment_now)]
        [id_key],
      Create_Index ''hourly_stats'' ((plain_index ''ix_hourly_stats_hour_key'' [''hour_key''])\<lparr>ix_unique := True\<rparr>)]"

definition drop_hourly_stats :: "ddl list" where
  "drop_hourly_stats = [Drop_Index ''hourly_stats'' ''ix_hourly_stats_hour_key'', Drop_Table ''hourly_stats'']"

record migration =
  mg_revision :: string
  mg_down_revision :: "string option"
  mg_upgrade :: "ddl list"
  mg_downgrade :: "ddl list"

definition baseline_schema :: migration where
  "baseline_schema =
     \<lparr>mg_revision = ''3d058284bcba'', mg_down_revision = None,
      mg_upgrade = baseline_posts # baseline_comments @ [baseline_thumbs] @ baseline_reservations @ baseline_participants @
        baseline_snapshots @ hourly_stats,
      mg_downgrade = drop_hourly_stats @
        [Drop_Index ''rank_match_snapshots'' ''ix_rank_match_snapshots_user2_npid'',
         Drop_Index ''rank_match_snapshots'' ''ix_rank_match_snapshots_user1_npid'',
         Drop_Index ''rank_match_snapshots'' ''ix_rank_match_snapshots_created_dt'', Drop_Table ''rank_match_snapshots'',
         Drop_Index ''reservation_participants'' ''idx_reservation_participants_active'', Drop_Table ''reservation_participants'',
         Drop_Index ''reservations'' ''idx_reservations_start_at'', Drop_Table ''reservations'', Drop_Table ''thumbs'',
         Drop_Index ''comments'' ''idx_comments_parent'', Drop_Index ''comments'' ''idx_comments_post'', Drop_Table ''comments'',
         Drop_Table ''posts'']\<rparr>"

section \<open>Statistics\<close>

definition add_daily_matched_players :: migration where
  "add_daily_matched_players =
     \<lparr>mg_revision = ''8f21c7d3a4b0'', mg_down_revision = Some ''3d058284bcba'',
      mg_upgrade =
        [Create_Table ''daily_matched_players''
           [(''date'', required Sql_Date), (''npid'', required Sql_String), (''first_seen_at'', required Sql_Moment)]
           [(None, Primary [''date'', ''npid''])],
         Execute Backfill_Matched_Players],
      mg_downgrade = [Drop_Table ''daily_matched_players'']\<rparr>"

definition add_activity_snapshots :: migration where
  "add_activity_snapshots =
     \<lparr>mg_revision = ''c3b18e6d9f20'', mg_down_revision = Some ''8f21c7d3a4b0'',
      mg_upgrade =
        [Create_Table ''activity_snapshots''
           [(''id'', numbered Sql_Integer Serial), (''sampled_at'', required Sql_Moment), (''total_players'', required Sql_Integer),
            (''total_rooms'', required Sql_Integer), (''rank_players'', required Sql_Integer), (''rank_rooms'', required Sql_Integer)]
           [id_key],
         Create_Index ''activity_snapshots'' (plain_index ''ix_activity_snapshots_sampled_at'' [''sampled_at''])],
      mg_downgrade =
        [Drop_Index ''activity_snapshots'' ''ix_activity_snapshots_sampled_at'', Drop_Table ''activity_snapshots'']\<rparr>"

definition rekey_snapshots :: migration where
  "rekey_snapshots =
     \<lparr>mg_revision = ''a7f4c21b9e83'', mg_down_revision = Some ''c3b18e6d9f20'',
      mg_upgrade =
        [Drop_Constraint ''rank_match_snapshots'' ''rank_match_snapshots_pkey'',
         Alter_Type ''rank_match_snapshots'' ''room_id'' Sql_Big,
         Add_Column ''rank_match_snapshots'' ''id'' (numbered Sql_Big Serial),
         Add_Constraint ''rank_match_snapshots'' (Some ''rank_match_snapshots_pkey'') (Primary [''id'']),
         Add_Column ''rank_match_snapshots'' ''match_date'' (nullable Sql_Date),
         Execute Fill_Match_Date,
         Set_Not_Null ''rank_match_snapshots'' ''match_date'',
         Add_Constraint ''rank_match_snapshots'' (Some ''uq_rank_match_snapshots_match'')
           (Unique_On [''room_id'', ''user1_npid'', ''user2_npid'', ''match_date''])],
      mg_downgrade =
        [Drop_Constraint ''rank_match_snapshots'' ''uq_rank_match_snapshots_match'',
         Drop_Column ''rank_match_snapshots'' ''match_date'',
         Drop_Constraint ''rank_match_snapshots'' ''rank_match_snapshots_pkey'',
         Drop_Column ''rank_match_snapshots'' ''id'',
         Alter_Type ''rank_match_snapshots'' ''room_id'' Sql_Integer,
         Add_Constraint ''rank_match_snapshots'' (Some ''rank_match_snapshots_pkey'') (Primary [''room_id''])]\<rparr>"

definition drop_hourly :: migration where
  "drop_hourly =
     \<lparr>mg_revision = ''4a584ecc1275'', mg_down_revision = Some ''f2c6a9d41e57'',
      mg_upgrade = drop_hourly_stats, mg_downgrade = hourly_stats\<rparr>"

section \<open>Reservations\<close>

definition drop_reservation_duration :: migration where
  "drop_reservation_duration =
     \<lparr>mg_revision = ''b5e93c17d240'', mg_down_revision = Some ''a7f4c21b9e83'',
      mg_upgrade = [Drop_Column ''reservations'' ''duration_minutes''],
      mg_downgrade =
        [Add_Column ''reservations'' ''duration_minutes'' (nullable Sql_Integer), Execute Fill_Duration,
         Set_Not_Null ''reservations'' ''duration_minutes'']\<rparr>"

definition add_reservation_comments :: migration where
  "add_reservation_comments =
     \<lparr>mg_revision = ''c8a41f625b93'', mg_down_revision = Some ''b5e93c17d240'',
      mg_upgrade =
        [Create_Table ''reservation_comments''
           [identity_id Sql_Integer, (''reservation_id'', required Sql_Integer), (''author'', required Sql_Text),
            (''body'', required Sql_Text), (''author_token_hash'', required Sql_Text), (''created_at'', moment_now),
            (''deleted_at'', nullable Sql_Moment)]
           [id_key, (Some ''reservation_comments_body_check'', Check [''body''] ''length(body) <= 500''),
            cascading ''reservation_id'' ''reservations''],
         Create_Index ''reservation_comments''
           (partial_index ''idx_reservation_comments_active'' [''reservation_id''] ''deleted_at IS NULL'')],
      mg_downgrade =
        [Drop_Index ''reservation_comments'' ''idx_reservation_comments_active'', Drop_Table ''reservation_comments'']\<rparr>"

text \<open>The empty default stands for the hashes that are gone.\<close>

definition owners_are_accounts :: migration where
  "owners_are_accounts =
     \<lparr>mg_revision = ''f2c6a9d41e57'', mg_down_revision = Some ''e7b3f5a2c914'',
      mg_upgrade =
        [Add_Column ''reservation_comments'' ''author_subject'' (nullable Sql_Text),
         Drop_Column ''reservation_comments'' ''author_token_hash'',
         Drop_Column ''reservation_participants'' ''participant_token_hash'',
         Drop_Column ''reservations'' ''host_token_hash'',
         Create_Index ''reservation_participants''
           ((partial_index ''uq_reservation_participants_active_subject'' [''reservation_id'', ''subject'']
              ''cancelled_at IS NULL AND subject IS NOT NULL'')\<lparr>ix_unique := True\<rparr>)],
      mg_downgrade =
        [Drop_Index ''reservation_participants'' ''uq_reservation_participants_active_subject'',
         Add_Column ''reservations'' ''host_token_hash'' (defaulting Sql_Text (Text_Default [])),
         Add_Column ''reservation_participants'' ''participant_token_hash'' (defaulting Sql_Text (Text_Default [])),
         Add_Column ''reservation_comments'' ''author_token_hash'' (defaulting Sql_Text (Text_Default [])),
         Drop_Column ''reservation_comments'' ''author_subject'']\<rparr>"

section \<open>The community\<close>

definition add_youtube_video :: migration where
  "add_youtube_video =
     \<lparr>mg_revision = ''d4a62e91f803'', mg_down_revision = Some ''c8a41f625b93'',
      mg_upgrade = [Add_Column ''posts'' ''youtube_video_id'' (nullable Sql_Text)],
      mg_downgrade = [Drop_Column ''posts'' ''youtube_video_id'']\<rparr>"

definition add_post_characters :: migration where
  "add_post_characters =
     \<lparr>mg_revision = ''e7b3f5a2c914'', mg_down_revision = Some ''d4a62e91f803'',
      mg_upgrade =
        [Add_Column ''posts'' ''characters'' (defaulting (Sql_Array Sql_Text) Empty_Array),
         Add_Constraint ''posts'' (Some ''posts_characters_check'') (Check [''characters''] ''cardinality(characters) <= 2''),
         Create_Index ''posts'' ((plain_index ''idx_posts_characters'' [''characters''])\<lparr>ix_gin := True\<rparr>),
         Execute Split_Characters],
      mg_downgrade =
        [Execute Join_Characters, Drop_Index ''posts'' ''idx_posts_characters'',
         Drop_Constraint ''posts'' ''posts_characters_check'', Drop_Column ''posts'' ''characters'']\<rparr>"

definition add_comment_deleted_at :: migration where
  "add_comment_deleted_at =
     \<lparr>mg_revision = ''a3f9d2c6e481'', mg_down_revision = Some ''c5e81f3a7d20'',
      mg_upgrade = [Add_Column ''comments'' ''deleted_at'' (nullable Sql_Moment)],
      mg_downgrade = [Drop_Column ''comments'' ''deleted_at'']\<rparr>"

section \<open>Streams, chat, popups and retries\<close>

definition add_stream_channels :: migration where
  "add_stream_channels =
     \<lparr>mg_revision = ''e3557af59234'', mg_down_revision = Some ''4a584ecc1275'',
      mg_upgrade =
        [Create_Table ''stream_channels''
           [(''username'', required Sql_Text), (''platform'', required Sql_Text), (''channel_id'', required Sql_Text),
            (''channel_name'', required Sql_Text), (''created_at'', moment_now), (''updated_at'', moment_now)]
           [(None, Primary [''username'', ''platform'']),
            (Some ''uq_stream_channels_channel'', Unique_On [''platform'', ''channel_id''])]],
      mg_downgrade = [Drop_Table ''stream_channels'']\<rparr>"

definition add_chat_messages :: migration where
  "add_chat_messages =
     \<lparr>mg_revision = ''9c1d4e7a2b56'', mg_down_revision = Some ''e3557af59234'',
      mg_upgrade =
        [Create_Table ''chat_messages''
           [identity_id Sql_Big, (''author_username'', required Sql_Text), (''author_online_name'', required Sql_Text),
            (''body'', required Sql_Text), (''created_at'', required Sql_Moment),
            (''author_admin'', defaulting Sql_Bool False_Default)]
           [id_key, (Some ''chat_messages_body_check'', Check [''body''] ''length(body) <= 200'')],
         Create_Index ''chat_messages'' (plain_index ''idx_chat_messages_created_at'' [''created_at''])],
      mg_downgrade = [Drop_Index ''chat_messages'' ''idx_chat_messages_created_at'', Drop_Table ''chat_messages'']\<rparr>"

definition add_popups :: migration where
  "add_popups =
     \<lparr>mg_revision = ''b2e8d0c6f174'', mg_down_revision = Some ''d81c4a7e2f95'',
      mg_upgrade =
        [Create_Table ''popups''
           [identity_id Sql_Big, (''title'', required Sql_Text), (''body'', required Sql_Text), (''image'', nullable Sql_Bytes),
            (''image_type'', nullable Sql_Text), (''image_hash'', nullable Sql_Text),
            (''allow_dismiss_forever'', required Sql_Bool), (''allow_dismiss_day'', required Sql_Bool),
            (''active'', required Sql_Bool), (''created_by'', required Sql_Text), (''created_at'', moment_now),
            (''updated_at'', moment_now)]
           [id_key]],
      mg_downgrade = [Drop_Table ''popups'']\<rparr>"

definition add_idempotency_keys :: migration where
  "add_idempotency_keys =
     \<lparr>mg_revision = ''58ba2058499e'', mg_down_revision = Some ''b2e8d0c6f174'',
      mg_upgrade =
        [Create_Table ''idempotency_keys''
           [identity_id Sql_Big, (''subject'', required Sql_Text), (''key'', required Sql_Text), (''fingerprint'', required Sql_Text),
            (''response'', nullable Sql_Json), (''created_at'', moment_now)]
           [id_key, (Some ''uq_idempotency_keys_subject_key'', Unique_On [''subject'', ''key''])]],
      mg_downgrade = [Drop_Table ''idempotency_keys'']\<rparr>"

section \<open>Records\<close>

text \<open>The columns a match result has before ranks, and the rest of its table.\<close>

definition match_result_columns :: "(string \<times> column) list" where
  "match_result_columns =
     [identity_id Sql_Big, (''event_id'', required Sql_Big), (''npid'', required Sql_Text), (''result'', required Sql_Text),
      (''chars'', required (Sql_Array Sql_Integer)), (''played_at'', required Sql_Moment), (''opponent_npid'', nullable Sql_Text),
      (''room_snapshot_id'', nullable Sql_Big), (''counterpart_id'', nullable Sql_Big)]"

definition match_result_constraints :: "(string option \<times> constraint) list" where
  "match_result_constraints =
     [id_key, (Some ''uq_match_results_event'', Unique_On [''event_id'']),
      (Some ''fk_match_results_event'', Foreign [''event_id''] ''match_events'' [''id''] False),
      (Some ''fk_match_results_counterpart'', Foreign [''counterpart_id''] ''match_results'' [''id''] False)]"

definition match_result_indexes :: "ddl list" where
  "match_result_indexes =
     [Create_Index ''match_results'' (newest_first_index ''idx_match_results_player'' ''npid'' ''played_at''),
      Create_Index ''match_results'' (plain_index ''idx_match_results_opponent'' [''opponent_npid'']),
      Create_Index ''match_results'' (plain_index ''idx_match_results_room'' [''room_snapshot_id''])]"

definition add_match_records :: migration where
  "add_match_records =
     \<lparr>mg_revision = ''b2d7e4a91c35'', mg_down_revision = Some ''9c1d4e7a2b56'',
      mg_upgrade =
        [Add_Column ''rank_match_snapshots'' ''last_seen_at'' moment_now, Execute Fill_Last_Seen,
         Create_Table ''save_states''
           [(''npid'', required Sql_Text), (''data_id'', required Sql_Big), (''saved_at'', required Sql_Moment),
            (''wins'', required Sql_Integer), (''losses'', required Sql_Integer), (''chars'', required Sql_Json),
            (''start_chars'', required (Sql_Array Sql_Integer)), (''merged_count'', defaulting Sql_Integer (Int_Default 0))]
           [(None, Primary [''npid''])],
         Create_Table ''match_events''
           [identity_id Sql_Big, (''npid'', required Sql_Text), (''data_id'', required Sql_Big), (''result'', required Sql_Text),
            (''chars'', required (Sql_Array Sql_Integer)), (''saved_at'', required Sql_Moment),
            (''status'', defaulting Sql_Text (Text_Default ''pending'')), (''attempts'', defaulting Sql_Integer (Int_Default 0)),
            (''available_at'', required Sql_Moment), (''last_error'', nullable Sql_Text)]
           [id_key, (Some ''uq_match_events_save'', Unique_On [''npid'', ''data_id'']),
            (Some ''match_events_result_check'', Check [''result''] result_check),
            (Some ''match_events_status_check'', Check [''status''] status_check)],
         Create_Index ''match_events'' (partial_index ''idx_match_events_pending'' [''id''] pending_only),
         Create_Table ''match_results'' match_result_columns match_result_constraints] @ match_result_indexes,
      mg_downgrade =
        [Drop_Table ''match_results'', Drop_Table ''match_events'', Drop_Table ''save_states'',
         Drop_Column ''rank_match_snapshots'' ''last_seen_at'']\<rparr>"

definition add_match_ranks :: migration where
  "add_match_ranks =
     \<lparr>mg_revision = ''c5e81f3a7d20'', mg_down_revision = Some ''b2d7e4a91c35'',
      mg_upgrade =
        [Add_Column ''match_events'' ''ranks'' (nullable (Sql_Array Sql_Integer)),
         Add_Column ''match_results'' ''ranks'' (nullable (Sql_Array Sql_Integer))],
      mg_downgrade = [Drop_Column ''match_results'' ''ranks'', Drop_Column ''match_events'' ''ranks'']\<rparr>"

definition one_row_per_match :: migration where
  "one_row_per_match =
     \<lparr>mg_revision = ''d81c4a7e2f95'', mg_down_revision = Some ''a3f9d2c6e481'',
      mg_upgrade =
        [Create_Table ''matches''
           [identity_id Sql_Big, (''played_at'', required Sql_Moment), (''room_snapshot_id'', nullable Sql_Big),
            (''p1_npid'', required Sql_Text), (''p2_npid'', nullable Sql_Text), (''winner'', required Sql_Small),
            (''p1_event_id'', nullable Sql_Big), (''p2_event_id'', nullable Sql_Big)]
           [id_key, (Some ''uq_matches_p1_event'', Unique_On [''p1_event_id'']),
            (Some ''uq_matches_p2_event'', Unique_On [''p2_event_id'']),
            (Some ''fk_matches_p1_event'', Foreign [''p1_event_id''] ''match_events'' [''id''] False),
            (Some ''fk_matches_p2_event'', Foreign [''p2_event_id''] ''match_events'' [''id''] False),
            (Some ''matches_winner_check'', Check [''winner''] ''winner IN (1, 2)''),
            (Some ''matches_seen_check'', Check [''p1_event_id'', ''p2_event_id'']
               ''p1_event_id IS NOT NULL OR p2_event_id IS NOT NULL''),
            (Some ''matches_room_check'', Check [''room_snapshot_id'', ''p2_npid'']
               ''(room_snapshot_id IS NULL) = (p2_npid IS NULL)'')],
         Create_Index ''matches'' (newest_first_index ''idx_matches_p1'' ''p1_npid'' ''id''),
         Create_Index ''matches'' (newest_first_index ''idx_matches_p2'' ''p2_npid'' ''id''),
         Create_Index ''matches'' (plain_index ''idx_matches_room'' [''room_snapshot_id'']),
         Create_Index ''matches'' (plain_index ''idx_matches_played_at'' [''played_at'']),
         Drop_Table ''match_results'', Execute Requeue_Events],
      mg_downgrade =
        [Create_Table ''match_results'' (match_result_columns @ [(''ranks'', nullable (Sql_Array Sql_Integer))])
           match_result_constraints] @ match_result_indexes @
        [Drop_Table ''matches'', Execute Requeue_Events]\<rparr>"

section \<open>The order of the revisions\<close>

text \<open>As the directory lists the files.\<close>

definition versions :: "migration list" where
  "versions =
     [baseline_schema, drop_hourly, add_idempotency_keys, add_daily_matched_players, add_chat_messages, add_comment_deleted_at,
      rekey_snapshots, add_match_records, add_popups, drop_reservation_duration, add_activity_snapshots, add_match_ranks,
      add_reservation_comments, add_youtube_video, one_row_per_match, add_stream_channels, add_post_characters,
      owners_are_accounts]"

definition revision_of :: "migration list \<Rightarrow> string \<Rightarrow> migration option" where
  "revision_of ms r = find (\<lambda>m. mg_revision m = r) ms"

text \<open>The heads are the revisions no other revises.\<close>

definition heads :: "migration list \<Rightarrow> string list" where
  "heads ms = filter (\<lambda>r. list_all (\<lambda>m. mg_down_revision m \<noteq> Some r) ms) (map mg_revision ms)"

text \<open>What leads up to a revision, the base first; the fuel is the number of revisions, which no path exceeds.\<close>

fun path_to :: "migration list \<Rightarrow> nat \<Rightarrow> string \<Rightarrow> migration list option" where
  "path_to ms 0 r = None"
| "path_to ms (Suc n) r =
     (case revision_of ms r of
        None \<Rightarrow> None
      | Some m \<Rightarrow> (case mg_down_revision m of
          None \<Rightarrow> Some [m]
        | Some d \<Rightarrow> map_option (\<lambda>ms'. ms' @ [m]) (path_to ms n d)))"

definition upgrade_head :: "(ddl \<Rightarrow> bool) \<Rightarrow> migration list \<Rightarrow> schema \<Rightarrow> schema option" where
  "upgrade_head met ms s =
     (case heads ms of
        [h] \<Rightarrow> (case path_to ms (length ms) h of None \<Rightarrow> None | Some p \<Rightarrow> run_ddl met [] (concat (map mg_upgrade p)) s)
      | _ \<Rightarrow> None)"

definition downgrade_base :: "(ddl \<Rightarrow> bool) \<Rightarrow> migration list \<Rightarrow> schema \<Rightarrow> schema option" where
  "downgrade_base met ms s =
     (case heads ms of
        [h] \<Rightarrow> (case path_to ms (length ms) h of None \<Rightarrow> None | Some p \<Rightarrow> run_ddl met [] (concat (map mg_downgrade (rev p))) s)
      | _ \<Rightarrow> None)"

text \<open>One transaction: a change the database refuses leaves it as it was.\<close>

definition migrate :: "(schema \<Rightarrow> schema option) \<Rightarrow> schema \<Rightarrow> schema" where
  "migrate run s = (case run s of None \<Rightarrow> s | Some s' \<Rightarrow> s')"

end
