(* ===== verification/Entities.thy ===== *)
theory Entities
  imports Migrations
begin

text \<open>
  The tables the entities declare, class by class (\<open>entities.py\<close> of every module).  An entity's \<open>index=True\<close> is an
  index called after its table and column, and a key column given with the entity a primary key.
\<close>

section \<open>The entities\<close>

definition post_entity :: table where
  "post_entity =
     \<lparr>tb_columns =
        [identity_id Sql_Integer, (''author'', required Sql_Text), (''title'', required Sql_Text), (''body'', required Sql_Text),
         (''post_type'', defaulting Sql_Text (Text_Default ''jayu'')), (''characters'', defaulting (Sql_Array Sql_Text) Empty_Array),
         (''youtube_video_id'', nullable Sql_Text), (''thumbs_up'', defaulting Sql_Integer (Int_Default 0)),
         (''thumbs_down'', defaulting Sql_Integer (Int_Default 0)), (''created_at'', moment_now)],
      tb_constraints =
        [id_key, (Some ''posts_title_check'', Check [''title''] ''length(title) <= 100''),
         (Some ''posts_body_check'', Check [''body''] ''length(body) <= 1000''),
         (Some ''posts_characters_check'', Check [''characters''] ''cardinality(characters) <= 2'')],
      tb_indexes = [(plain_index ''idx_posts_characters'' [''characters''])\<lparr>ix_gin := True\<rparr>]\<rparr>"

definition comment_entity :: table where
  "comment_entity =
     \<lparr>tb_columns =
        [identity_id Sql_Integer, (''post_id'', required Sql_Integer), (''parent_id'', nullable Sql_Integer),
         (''author'', required Sql_Text), (''body'', required Sql_Text), (''created_at'', moment_now),
         (''deleted_at'', nullable Sql_Moment)],
      tb_constraints =
        [id_key, (Some ''comments_body_check'', Check [''body''] ''length(body) <= 1000''),
         cascading ''post_id'' ''posts'', cascading ''parent_id'' ''comments''],
      tb_indexes = [plain_index ''idx_comments_post'' [''post_id''], plain_index ''idx_comments_parent'' [''parent_id'']]\<rparr>"

definition thumb_entity :: table where
  "thumb_entity =
     \<lparr>tb_columns =
        [identity_id Sql_Integer, (''post_id'', required Sql_Integer), (''voter'', required Sql_Text),
         (''direction'', required Sql_Integer), (''created_at'', moment_now)],
      tb_constraints =
        [id_key, (Some ''thumbs_direction_check'', Check [''direction''] ''direction IN (1, -1)''),
         (None, Unique_On [''post_id'', ''voter'']), cascading ''post_id'' ''posts''],
      tb_indexes = []\<rparr>"

definition reservation_entity :: table where
  "reservation_entity =
     \<lparr>tb_columns =
        [identity_id Sql_Integer, (''start_at'', required Sql_Moment), (''host_display_name'', required Sql_Text),
         (''host_subject'', nullable Sql_Text), (''host_ranks'', defaulting (Sql_Array Sql_Text) Empty_Array),
         (''match_type'', required Sql_Text), (''capacity'', required Sql_Integer),
         (''memo'', defaulting Sql_Text (Text_Default [])), (''status'', defaulting Sql_Text (Text_Default ''open'')),
         (''created_at'', moment_now), (''updated_at'', moment_now), (''cancelled_at'', nullable Sql_Moment),
         (''ended_at'', nullable Sql_Moment)],
      tb_constraints = [id_key],
      tb_indexes = [plain_index ''idx_reservations_start_at'' [''start_at'']]\<rparr>"

definition reservation_comment_entity :: table where
  "reservation_comment_entity =
     \<lparr>tb_columns =
        [identity_id Sql_Integer, (''reservation_id'', required Sql_Integer), (''author'', required Sql_Text),
         (''author_subject'', nullable Sql_Text), (''body'', required Sql_Text), (''created_at'', moment_now),
         (''deleted_at'', nullable Sql_Moment)],
      tb_constraints =
        [id_key, (Some ''reservation_comments_body_check'', Check [''body''] ''length(body) <= 500''),
         cascading ''reservation_id'' ''reservations''],
      tb_indexes = [partial_index ''idx_reservation_comments_active'' [''reservation_id''] ''deleted_at IS NULL'']\<rparr>"

definition participant_entity :: table where
  "participant_entity =
     \<lparr>tb_columns =
        [identity_id Sql_Integer, (''reservation_id'', required Sql_Integer), (''display_name'', required Sql_Text),
         (''subject'', nullable Sql_Text), (''ranks'', defaulting (Sql_Array Sql_Text) Empty_Array),
         (''joined_at'', moment_now), (''cancelled_at'', nullable Sql_Moment)],
      tb_constraints = [id_key, cascading ''reservation_id'' ''reservations''],
      tb_indexes =
        [partial_index ''idx_reservation_participants_active'' [''reservation_id''] ''cancelled_at IS NULL'',
         (partial_index ''uq_reservation_participants_active_subject'' [''reservation_id'', ''subject'']
            ''cancelled_at IS NULL AND subject IS NOT NULL'')\<lparr>ix_unique := True\<rparr>]\<rparr>"

definition rank_match_entity :: table where
  "rank_match_entity =
     \<lparr>tb_columns =
        [(''id'', numbered Sql_Big Serial), (''room_id'', required Sql_Big), (''created_dt'', required Sql_Moment),
         (''last_seen_at'', moment_now), (''match_date'', required Sql_Date), (''rank_id'', required Sql_Integer),
         (''user1_npid'', required Sql_String), (''user1_online_name'', required Sql_String),
         (''user2_npid'', required Sql_String), (''user2_online_name'', required Sql_String)],
      tb_constraints =
        [id_key, (Some ''uq_rank_match_snapshots_match'', Unique_On [''room_id'', ''user1_npid'', ''user2_npid'', ''match_date''])],
      tb_indexes =
        [plain_index ''ix_rank_match_snapshots_created_dt'' [''created_dt''],
         plain_index ''ix_rank_match_snapshots_user1_npid'' [''user1_npid''],
         plain_index ''ix_rank_match_snapshots_user2_npid'' [''user2_npid'']]\<rparr>"

definition daily_matched_entity :: table where
  "daily_matched_entity =
     \<lparr>tb_columns = [(''date'', required Sql_Date), (''npid'', required Sql_String), (''first_seen_at'', required Sql_Moment)],
      tb_constraints = [(None, Primary [''date'', ''npid''])], tb_indexes = []\<rparr>"

definition activity_entity :: table where
  "activity_entity =
     \<lparr>tb_columns =
        [(''id'', numbered Sql_Integer Serial), (''sampled_at'', required Sql_Moment), (''total_players'', required Sql_Integer),
         (''total_rooms'', required Sql_Integer), (''rank_players'', required Sql_Integer), (''rank_rooms'', required Sql_Integer)],
      tb_constraints = [id_key],
      tb_indexes = [plain_index ''ix_activity_snapshots_sampled_at'' [''sampled_at'']]\<rparr>"

definition save_state_entity :: table where
  "save_state_entity =
     \<lparr>tb_columns =
        [(''npid'', required Sql_Text), (''data_id'', required Sql_Big), (''saved_at'', required Sql_Moment),
         (''wins'', required Sql_Integer), (''losses'', required Sql_Integer), (''chars'', required Sql_Json),
         (''start_chars'', required (Sql_Array Sql_Integer)), (''merged_count'', defaulting Sql_Integer (Int_Default 0))],
      tb_constraints = [(None, Primary [''npid''])], tb_indexes = []\<rparr>"

definition match_event_entity :: table where
  "match_event_entity =
     \<lparr>tb_columns =
        [identity_id Sql_Big, (''npid'', required Sql_Text), (''data_id'', required Sql_Big), (''result'', required Sql_Text),
         (''chars'', required (Sql_Array Sql_Integer)), (''ranks'', nullable (Sql_Array Sql_Integer)),
         (''saved_at'', required Sql_Moment), (''status'', defaulting Sql_Text (Text_Default ''pending'')),
         (''attempts'', defaulting Sql_Integer (Int_Default 0)), (''available_at'', required Sql_Moment),
         (''last_error'', nullable Sql_Text)],
      tb_constraints =
        [id_key, (Some ''uq_match_events_save'', Unique_On [''npid'', ''data_id'']),
         (Some ''match_events_result_check'', Check [''result''] result_check),
         (Some ''match_events_status_check'', Check [''status''] status_check)],
      tb_indexes = [partial_index ''idx_match_events_pending'' [''id''] pending_only]\<rparr>"

definition match_entity :: table where
  "match_entity =
     \<lparr>tb_columns =
        [identity_id Sql_Big, (''played_at'', required Sql_Moment), (''room_snapshot_id'', nullable Sql_Big),
         (''p1_npid'', required Sql_Text), (''p2_npid'', nullable Sql_Text), (''winner'', required Sql_Small),
         (''p1_event_id'', nullable Sql_Big), (''p2_event_id'', nullable Sql_Big)],
      tb_constraints =
        [id_key, (Some ''uq_matches_p1_event'', Unique_On [''p1_event_id'']),
         (Some ''uq_matches_p2_event'', Unique_On [''p2_event_id'']),
         (Some ''matches_winner_check'', Check [''winner''] ''winner IN (1, 2)''),
         (Some ''matches_seen_check'', Check [''p1_event_id'', ''p2_event_id'']
            ''p1_event_id IS NOT NULL OR p2_event_id IS NOT NULL''),
         (Some ''matches_room_check'', Check [''room_snapshot_id'', ''p2_npid'']
            ''(room_snapshot_id IS NULL) = (p2_npid IS NULL)''),
         (None, Foreign [''p1_event_id''] ''match_events'' [''id''] False),
         (None, Foreign [''p2_event_id''] ''match_events'' [''id''] False)],
      tb_indexes =
        [newest_first_index ''idx_matches_p1'' ''p1_npid'' ''id'', newest_first_index ''idx_matches_p2'' ''p2_npid'' ''id'',
         plain_index ''idx_matches_room'' [''room_snapshot_id''], plain_index ''idx_matches_played_at'' [''played_at'']]\<rparr>"

definition stream_channel_entity :: table where
  "stream_channel_entity =
     \<lparr>tb_columns =
        [(''username'', required Sql_Text), (''platform'', required Sql_Text), (''channel_id'', required Sql_Text),
         (''channel_name'', required Sql_Text), (''created_at'', moment_now), (''updated_at'', moment_now)],
      tb_constraints =
        [(None, Primary [''username'', ''platform'']),
         (Some ''uq_stream_channels_channel'', Unique_On [''platform'', ''channel_id''])],
      tb_indexes = []\<rparr>"

definition chat_message_entity :: table where
  "chat_message_entity =
     \<lparr>tb_columns =
        [identity_id Sql_Big, (''author_username'', required Sql_Text), (''author_online_name'', required Sql_Text),
         (''body'', required Sql_Text), (''created_at'', required Sql_Moment),
         (''author_admin'', defaulting Sql_Bool False_Default)],
      tb_constraints = [id_key, (Some ''chat_messages_body_check'', Check [''body''] ''length(body) <= 200'')],
      tb_indexes = [plain_index ''idx_chat_messages_created_at'' [''created_at'']]\<rparr>"

definition popup_entity :: table where
  "popup_entity =
     \<lparr>tb_columns =
        [identity_id Sql_Big, (''title'', required Sql_Text), (''body'', required Sql_Text), (''image'', nullable Sql_Bytes),
         (''image_type'', nullable Sql_Text), (''image_hash'', nullable Sql_Text),
         (''allow_dismiss_forever'', required Sql_Bool), (''allow_dismiss_day'', required Sql_Bool),
         (''active'', required Sql_Bool), (''created_by'', required Sql_Text), (''created_at'', moment_now),
         (''updated_at'', moment_now)],
      tb_constraints = [id_key], tb_indexes = []\<rparr>"

definition idempotency_key_entity :: table where
  "idempotency_key_entity =
     \<lparr>tb_columns =
        [identity_id Sql_Big, (''subject'', required Sql_Text), (''key'', required Sql_Text), (''fingerprint'', required Sql_Text),
         (''response'', nullable Sql_Json), (''created_at'', moment_now)],
      tb_constraints = [id_key, (Some ''uq_idempotency_keys_subject_key'', Unique_On [''subject'', ''key''])],
      tb_indexes = []\<rparr>"

text \<open>The metadata of every entity \<open>env.py\<close> imports.\<close>

definition entity_tables :: schema where
  "entity_tables =
     [(''chat_messages'', chat_message_entity), (''posts'', post_entity), (''comments'', comment_entity), (''thumbs'', thumb_entity),
      (''rank_match_snapshots'', rank_match_entity), (''daily_matched_players'', daily_matched_entity),
      (''activity_snapshots'', activity_entity), (''idempotency_keys'', idempotency_key_entity), (''popups'', popup_entity),
      (''save_states'', save_state_entity), (''match_events'', match_event_entity), (''matches'', match_entity),
      (''reservations'', reservation_entity), (''reservation_comments'', reservation_comment_entity),
      (''reservation_participants'', participant_entity), (''stream_channels'', stream_channel_entity)]"

definition declared :: "schema \<Rightarrow> schema" where
  "declared s = map (\<lambda>(n, t). (n, t\<lparr>tb_constraints := map (named_constraint n) (tb_constraints t)\<rparr>)) s"

end
