(* ===== verification/Entity_Schema.thy ===== *)
theory Entity_Schema
  imports Entities
begin

text \<open>
  The revisions build the tables the entities declare, from nothing to the last revision, with one difference, and
  each can be undone.
\<close>

section \<open>Building them\<close>

definition numbered_column :: "string \<Rightarrow> string \<Rightarrow> numbering \<Rightarrow> schema \<Rightarrow> schema" where
  "numbered_column tname c n s =
     map (\<lambda>(name, t). (name, if name = tname
        then t\<lparr>tb_columns := map (\<lambda>(k, cl). (k, if k = c then cl\<lparr>cl_numbering := n\<rparr> else cl)) (tb_columns t)\<rparr> else t)) s"

lemma versions_path: "map_option (map mg_revision) (path_to versions (length versions) ''58ba2058499e'') =
   Some [''3d058284bcba'', ''8f21c7d3a4b0'', ''c3b18e6d9f20'', ''a7f4c21b9e83'', ''b5e93c17d240'', ''c8a41f625b93'', ''d4a62e91f803'',
     ''e7b3f5a2c914'', ''f2c6a9d41e57'', ''4a584ecc1275'', ''e3557af59234'', ''9c1d4e7a2b56'', ''b2d7e4a91c35'', ''c5e81f3a7d20'',
     ''a3f9d2c6e481'', ''d81c4a7e2f95'', ''b2e8d0c6f174'', ''58ba2058499e'']"
  by code_simp

lemma schema_built:
  "map_option (\<lambda>s. same_schema s (numbered_column ''rank_match_snapshots'' ''room_id'' Serial (declared entity_tables)))
     (upgrade_head (\<lambda>_. True) versions []) = Some True"
  by code_simp

section \<open>Undoing them\<close>

text \<open>
  What is left of a schema when the hashes of the owners are gone: their columns with an empty default, and a
  participant's hash without the key it was part of.
\<close>

definition hash_columns :: "string list" where
  "hash_columns = [''host_token_hash'', ''participant_token_hash'', ''author_token_hash'']"

definition without_hashes :: "schema \<Rightarrow> schema" where
  "without_hashes s =
     map (\<lambda>(n, t). (n, t\<lparr>
        tb_columns := map (\<lambda>(c, cl). (c, if c \<in> set hash_columns then cl\<lparr>cl_default := Some (Text_Default [])\<rparr> else cl)) (tb_columns t),
        tb_constraints := filter (\<lambda>(_, k). k \<noteq> Unique_On [''reservation_id'', ''participant_token_hash'']) (tb_constraints t)\<rparr>)) s"

definition left_by_downgrade :: "migration \<Rightarrow> schema \<Rightarrow> schema" where
  "left_by_downgrade m s = (if mg_revision m = ''f2c6a9d41e57'' then without_hashes s else s)"

text \<open>Each revision of a path, from the schema the ones before it build.\<close>

fun all_undone :: "migration list \<Rightarrow> schema \<Rightarrow> bool" where
  "all_undone [] s = True"
| "all_undone (m # ms) s =
     (case run_ddl (\<lambda>_. True) [] (mg_upgrade m) s of None \<Rightarrow> False
      | Some s1 \<Rightarrow> (case run_ddl (\<lambda>_. True) [] (mg_downgrade m) s1 of None \<Rightarrow> False
          | Some s2 \<Rightarrow> same_schema s2 (left_by_downgrade m s)) \<and> all_undone ms s1)"

lemma versions_undone: "map_option (\<lambda>p. all_undone p []) (path_to versions (length versions) ''58ba2058499e'') = Some True"
  by code_simp

lemma downgraded_to_nothing:
  "Option.bind (upgrade_head (\<lambda>_. True) versions []) (downgrade_base (\<lambda>_. True) versions) = Some []"
  by code_simp

text \<open>The changes of a downgrade that rows may not meet: the room's id in 32 bits again and the only key, and a post's type
  its first character.\<close>

definition room_key_again :: "ddl list" where
  "room_key_again =
     [Alter_Type ''rank_match_snapshots'' ''room_id'' Sql_Integer,
      Add_Constraint ''rank_match_snapshots'' (Some ''rank_match_snapshots_pkey'') (Primary [''room_id''])]"

definition asked_by_downgrade :: "migration \<Rightarrow> ddl list" where
  "asked_by_downgrade m =
     (if mg_revision m = ''a7f4c21b9e83'' then room_key_again
      else if mg_revision m = ''e7b3f5a2c914'' then [Execute Join_Characters] else [])"

lemma downgrades_ask:
  "map_option (list_all (\<lambda>m. asked_of_rows [] (mg_downgrade m) = asked_by_downgrade m)) (path_to versions (length versions) ''58ba2058499e'') = Some True"
  "map_option (\<lambda>p. asked_of_rows [] (concat (map mg_downgrade (rev p)))) (path_to versions (length versions) ''58ba2058499e'') =
     Some (Execute Join_Characters # room_key_again)"
  by code_simp+

lemma upgrades_ask_nothing:
  "map_option (\<lambda>p. asked_of_rows [] (concat (map mg_upgrade p))) (path_to versions (length versions) ''58ba2058499e'') = Some []"
  by code_simp

section \<open>What the revisions promise\<close>

lemma heads_versions: "heads versions = [''58ba2058499e'']"
  by code_simp

lemma all_undone_nth:
  "all_undone (as @ m # bs) s \<Longrightarrow> \<exists>s0 s1 s2. run_ddl (\<lambda>_. True) [] (concat (map mg_upgrade as)) s = Some s0 \<and>
     run_ddl (\<lambda>_. True) [] (mg_upgrade m) s0 = Some s1 \<and> run_ddl (\<lambda>_. True) [] (mg_downgrade m) s1 = Some s2 \<and>
     same_schema s2 (left_by_downgrade m s0)"
  by (induction as arbitrary: s) (auto simp: run_ddl_append [where e' = "[]"] split: option.splits)

text \<open>On an empty database every table is made in the run, so no rows stand in the way.\<close>

lemma upgrades_from_nothing:
  assumes "path_to versions (length versions) ''58ba2058499e'' = Some (as @ bs)"
  shows "run_ddl met [] (concat (map mg_upgrade as)) [] = run_ddl (\<lambda>_. True) [] (concat (map mg_upgrade as)) []"
proof -
  have "asked_of_rows [] (concat (map mg_upgrade as)) = []" using upgrades_ask_nothing by (simp add: assms asked_append)
  then show ?thesis by (simp add: run_ddl_met [of met _ _ _ "[]"])
qed

lemma heads_path: "\<exists>p. path_to versions (length versions) ''58ba2058499e'' = Some p"
  using versions_path by auto

lemma upgrade_head_any: "upgrade_head met versions [] = upgrade_head (\<lambda>_. True) versions []"
proof -
  obtain p where p: "path_to versions (length versions) ''58ba2058499e'' = Some p" using heads_path by blast
  show ?thesis using upgrades_from_nothing [of p "[]" met] by (simp add: upgrade_head_def heads_versions p)
qed

lemma downgrade_base_met:
  "downgrade_base met versions s = (if list_all met (Execute Join_Characters # room_key_again) then downgrade_base (\<lambda>_. True) versions s else None)"
proof -
  obtain p where p: "path_to versions (length versions) ''58ba2058499e'' = Some p" using heads_path by blast
  have asks: "asked_of_rows [] (concat (map mg_downgrade (rev p))) = Execute Join_Characters # room_key_again"
    using downgrades_ask(2) by (simp add: p)
  show ?thesis unfolding downgrade_base_def heads_versions
    by (simp only: p list.case option.case run_ddl_met [of met _ _ _ "[]"] asks)
qed

definition room_key_declared :: table where
  "room_key_declared = rank_match_entity\<lparr>tb_constraints := map (named_constraint ''rank_match_snapshots'') (tb_constraints rank_match_entity)\<rparr>"

lemma room_id_lookups:
  "map_of (declared entity_tables) ''rank_match_snapshots'' = Some room_key_declared"
  "map_option tb_columns (map_of (numbered_column ''rank_match_snapshots'' ''room_id'' Serial (declared entity_tables)) ''rank_match_snapshots'') =
    Some (map (\<lambda>(k, cl). (k, if k = ''room_id'' then cl\<lparr>cl_numbering := Serial\<rparr> else cl)) (tb_columns rank_match_entity))"
  "(''room_id'', (required Sql_Big)\<lparr>cl_numbering := Serial\<rparr>) \<notin> set (tb_columns room_key_declared)"
  "(''room_id'', (required Sql_Big)\<lparr>cl_numbering := Serial\<rparr>) \<in>
    set (map (\<lambda>(k, cl). (k, if k = ''room_id'' then cl\<lparr>cl_numbering := Serial\<rparr> else cl)) (tb_columns rank_match_entity))"
  by code_simp+

text \<open>C32: The revisions have one head, and running them all on an empty database succeeds and builds the tables that the
  entities declare, columns, keys, checks and indexes alike, with one difference: a room's id, which was once the
  table's own number, still draws on its sequence where no value is given, which its entity does not declare.\<close>

theorem migrated_schema_is_declared:
  "\<exists>s. heads versions = [''58ba2058499e''] \<and> (\<forall>met. upgrade_head met versions [] = Some s) \<and>
    same_schema s (numbered_column ''rank_match_snapshots'' ''room_id'' Serial (declared entity_tables)) \<and>
    \<not> same_schema s (declared entity_tables)"
proof -
  let ?d = "declared entity_tables" and ?n = "''rank_match_snapshots''"
  let ?d' = "numbered_column ?n ''room_id'' Serial ?d"
  obtain s where s: "upgrade_head (\<lambda>_. True) versions [] = Some s" "same_schema s ?d'" using schema_built by auto
  obtain t' where t': "map_of ?d' ?n = Some t'"
    "tb_columns t' = map (\<lambda>(k, cl). (k, if k = ''room_id'' then cl\<lparr>cl_numbering := Serial\<rparr> else cl)) (tb_columns rank_match_entity)"
    using room_id_lookups(2) by auto
  obtain a where a: "map_of s ?n = Some a" "same_table a t'" using same_schemaD [OF s(2) t'(1)] by blast
  have "\<not> same_table a room_key_declared"
  proof
    assume "same_table a room_key_declared"
    then have "set (tb_columns t') = set (tb_columns room_key_declared)" using a(2) by (simp add: same_table_def)
    then show False using room_id_lookups(3,4) unfolding t'(2) by blast
  qed
  then have "\<not> same_schema s ?d" using same_schemaD [OF _ room_id_lookups(1)] a(1) by fastforce
  then show ?thesis using s heads_versions upgrade_head_any by metis
qed

text \<open>C33: Wherever in the history a database stands, the downgrade of its last revision either leaves exactly the schema from
  before the upgrade or, where rows stand in the way, is refused whole.  Rows can stand in the way of two revisions
  only: the one that took the room's id out of the key of the recorded rooms cannot be undone once two rows share a
  room's id (which is what that revision allowed), or one is beyond 32 bits; and the one that gave posts a list of
  characters not while the first character of a post is null.  The revision that gave reservations to accounts
  leaves the hash columns with an empty default and without the key that made a participant's hash unique.  Going
  all the way down from the head leaves nothing, under the same two conditions.\<close>

theorem downgrades_undo:
  assumes "path_to versions (length versions) ''58ba2058499e'' = Some (as @ m # bs)"
  shows "\<exists>s0 s1 s2 s. (\<forall>met. run_ddl met [] (concat (map mg_upgrade as)) [] = Some s0) \<and>
      (\<forall>met. run_ddl met [] (concat (map mg_upgrade (as @ [m]))) [] = Some s1) \<and>
      same_schema s2 (if mg_revision m = ''f2c6a9d41e57'' then without_hashes s0 else s0) \<and>
      (\<forall>met. run_ddl met [] (mg_downgrade m) s1 = (if list_all met (asked_by_downgrade m) then Some s2 else None)) \<and>
      (\<forall>met. upgrade_head met versions [] = Some s) \<and>
      (\<forall>met. downgrade_base met versions s = (if list_all met (Execute Join_Characters # room_key_again) then Some [] else None))"
proof -
  obtain s0 s1 s2 where s: "run_ddl (\<lambda>_. True) [] (concat (map mg_upgrade as)) [] = Some s0" "run_ddl (\<lambda>_. True) [] (mg_upgrade m) s0 = Some s1"
      "run_ddl (\<lambda>_. True) [] (mg_downgrade m) s1 = Some s2" "same_schema s2 (left_by_downgrade m s0)"
    using all_undone_nth [of as m bs "[]"] versions_undone by (auto simp: assms)
  have "run_ddl (\<lambda>_. True) [] (concat (map mg_upgrade (as @ [m]))) [] = Some s1"
    using s(1,2) by (simp add: run_ddl_append [where e' = "[]"])
  then have up: "run_ddl met [] (concat (map mg_upgrade as)) [] = Some s0" "run_ddl met [] (concat (map mg_upgrade (as @ [m]))) [] = Some s1" for met
    using s(1) upgrades_from_nothing [of as "m # bs" met] upgrades_from_nothing [of "as @ [m]" bs met] assms by simp_all
  have "asked_of_rows [] (mg_downgrade m) = asked_by_downgrade m" using downgrades_ask(1) by (simp add: assms)
  then have down: "run_ddl met [] (mg_downgrade m) s1 = (if list_all met (asked_by_downgrade m) then Some s2 else None)" for met
    using s(3) by (simp add: run_ddl_met [of met _ _ _ "[]"])
  obtain h where h: "upgrade_head (\<lambda>_. True) versions [] = Some h" "downgrade_base (\<lambda>_. True) versions h = Some []"
    using downgraded_to_nothing by (auto simp: bind_eq_Some_conv)
  have all: "downgrade_base met versions h = (if list_all met (Execute Join_Characters # room_key_again) then Some [] else None)" for met
    by (rule downgrade_base_met [of met h, unfolded h(2)])
  show ?thesis
    by (intro exI conjI allI) (rule up down s(4) [unfolded left_by_downgrade_def] all upgrade_head_any [unfolded h(1)])+
qed

lemma versions_base: "map_option hd (path_to versions (length versions) ''58ba2058499e'') = Some baseline_schema"
  by code_simp

lemma room_key_revision: "map_option (\<lambda>p. (mg_revision (p ! 3), length p)) (path_to versions (length versions) ''58ba2058499e'') = Some (''a7f4c21b9e83'', 18)"
  by code_simp

theorem downgrades_undo_witness:
  "(\<exists>s1 s2. run_ddl (\<lambda>_. True) [] (mg_upgrade baseline_schema) [] = Some s1 \<and>
     run_ddl (\<lambda>_. True) [] (mg_downgrade baseline_schema) s1 = Some s2 \<and> same_schema s2 []) \<and>
   (\<exists>s1 (m :: migration). mg_revision m = ''a7f4c21b9e83'' \<and> run_ddl (\<lambda>d. d \<notin> set room_key_again) [] (mg_downgrade m) s1 = None)"
proof -
  obtain p where p: "path_to versions (length versions) ''58ba2058499e'' = Some p" "hd p = baseline_schema" "p \<noteq> []"
      "mg_revision (p ! 3) = ''a7f4c21b9e83''" "length p = 18"
    using versions_base versions_path room_key_revision by auto
  then have one: "path_to versions (length versions) ''58ba2058499e'' = Some ([] @ baseline_schema # tl p)" by (cases p) auto
  have "p = take 3 p @ p ! 3 # drop 4 p" using p(5) id_take_nth_drop [of 3 p] by simp
  then have four: "path_to versions (length versions) ''58ba2058499e'' = Some (take 3 p @ p ! 3 # drop 4 p)" using p(1) by simp
  have refused: "asked_by_downgrade (p ! 3) = room_key_again" "\<not> list_all (\<lambda>d. d \<notin> set room_key_again) room_key_again"
    using p(4) by (simp_all add: asked_by_downgrade_def room_key_again_def)
  obtain s1 s2 where "\<forall>met. run_ddl met [] (mg_downgrade (p ! 3)) s1 = (if list_all met (asked_by_downgrade (p ! 3)) then Some s2 else None)"
    using downgrades_undo [OF four] by blast
  then have "run_ddl (\<lambda>d. d \<notin> set room_key_again) [] (mg_downgrade (p ! 3)) s1 = None"
    using refused by (simp only: if_False)
  moreover obtain s0 t1 t2 where t: "\<forall>met. run_ddl met [] (concat (map mg_upgrade ([] :: migration list))) [] = Some s0"
      "\<forall>met. run_ddl met [] (concat (map mg_upgrade ([] @ [baseline_schema]))) [] = Some t1"
      "same_schema t2 (if mg_revision baseline_schema = ''f2c6a9d41e57'' then without_hashes s0 else s0)"
      "\<forall>met. run_ddl met [] (mg_downgrade baseline_schema) t1 = (if list_all met (asked_by_downgrade baseline_schema) then Some t2 else None)"
    using downgrades_undo [OF one] by blast
  have base: "mg_revision baseline_schema = ''3d058284bcba''" by (simp add: baseline_schema_def)
  have "run_ddl (\<lambda>_. True) [] (mg_upgrade baseline_schema) [] = Some t1" using t(2) by simp
  moreover have "run_ddl (\<lambda>_. True) [] (mg_downgrade baseline_schema) t1 = Some t2"
    using t(4) [rule_format, of "\<lambda>_. True"] by (simp add: asked_by_downgrade_def base)
  moreover have "same_schema t2 []" using t(1,3) by (simp add: base)
  ultimately show ?thesis using p(4) by blast
qed

end
