(* ===== verification/Migration_Data.thy ===== *)
theory Migration_Data
  imports Workers Community
begin

text \<open>
  What the revisions of \<open>src/alembic/versions/\<close> do to the rows that are there: the room snapshots get a number and a
  date, the players of past matches are counted, a character that was a post's type becomes its tag, and the
  match events are queued again when matches are stored anew.
\<close>

section \<open>Rooms\<close>

text \<open>\<open>(created_dt AT TIME ZONE 'Asia/Seoul')::date\<close>\<close>

definition kst_date :: "instant \<Rightarrow> int" where
  "kst_date t = kst_wall t div day"

text \<open>
  The rows of the old table, numbered by the new column's sequence; \<open>last_seen_at\<close> comes with a later revision,
  which adds it with its default and then sets it.
\<close>

definition rekeyed_row :: "nat \<Rightarrow> rank_match_snapshot \<Rightarrow> rank_match_row" where
  "rekeyed_row i room = (snapshot_row i room)\<lparr>rm_match_date := kst_date (rs_created_dt room)\<rparr>"

fun rekeyed_rows :: "nat \<Rightarrow> rank_match_snapshot list \<Rightarrow> rank_match_row list" where
  "rekeyed_rows i [] = []"
| "rekeyed_rows i (room # rooms) = rekeyed_row i room # rekeyed_rows (Suc i) rooms"

definition fill_last_seen :: "rank_match_row list \<Rightarrow> rank_match_row list" where
  "fill_last_seen rows = map (\<lambda>r. r\<lparr>rm_last_seen_at := rm_created_dt r\<rparr>) rows"

definition migrated_rooms :: "rank_match_snapshot list \<Rightarrow> hdb" where
  "migrated_rooms rooms = empty_hdb
     \<lparr>rank_match_snapshots := fill_last_seen (rekeyed_rows 1 rooms), next_snapshot_id := Suc (length rooms)\<rparr>"

section \<open>Players of past matches\<close>

definition participants :: "rank_match_snapshot list \<Rightarrow> (instant \<times> string) list" where
  "participants rooms =
     map (\<lambda>r. (rs_created_dt r, rs_user1_npid r)) rooms @ map (\<lambda>r. (rs_created_dt r, rs_user2_npid r)) rooms"

definition backfill_matched_players :: "rank_match_snapshot list \<Rightarrow> daily_matched_row list" where
  "backfill_matched_players rooms =
     (let seen = map (\<lambda>(t, n). (kst_date t, n, t)) (filter (\<lambda>(_, n). n \<noteq> []) (participants rooms)) in
      map (\<lambda>(d, n). \<lparr>dm_date = d, dm_npid = n,
              dm_first_seen_at = Min (set (map (\<lambda>(_, _, t). t) (filter (\<lambda>(d', n', _). d' = d \<and> n' = n) seen)))\<rparr>)
        (remdups (map (\<lambda>(d, n, _). (d, n)) seen)))"

section \<open>Posts\<close>

definition board_types :: "string list" where "board_types = [''jayu'', ''geonui'', ''gongnyak'']"

text \<open>Upgrading a post, whose new column is empty, and downgrading one, which then loses the column.\<close>

definition split_characters :: "post_row \<Rightarrow> post_row" where
  "split_characters p =
     (let p0 = p\<lparr>po_characters := []\<rparr> in
      if po_post_type p \<notin> set board_types then p0\<lparr>po_characters := [po_post_type p], po_post_type := ''gongnyak''\<rparr> else p0)"

definition join_characters :: "post_row \<Rightarrow> post_row" where
  "join_characters p =
     (let p' = (if po_characters p \<noteq> [] then p\<lparr>po_post_type := hd (po_characters p)\<rparr> else p) in p'\<lparr>po_characters := []\<rparr>)"

section \<open>Match events\<close>

definition requeue_event :: "instant \<Rightarrow> event_row \<Rightarrow> event_row" where
  "requeue_event now e = e\<lparr>me_status := PENDING, me_attempts := 0, me_last_error := None, me_available_at := now\<rparr>"

text \<open>The new table of matches is empty and numbers its rows from one.\<close>

definition requeue_events :: "instant \<Rightarrow> recdb \<Rightarrow> recdb" where
  "requeue_events now db = db\<lparr>match_events := map (requeue_event now) (match_events db), matches := [], next_match_id := 1\<rparr>"

section \<open>Midnight and six o'clock\<close>

definition before_six :: "instant \<Rightarrow> bool" where
  "before_six t \<longleftrightarrow> kst_wall t mod day < stat_day_start_hour * hour"

lemma kst_date_stat_day: "kst_date t = stat_day t + (if before_six t then 1 else 0)"
proof -
  define d r where "d = kst_wall t div day" and "r = kst_wall t mod day"
  have w: "kst_wall t = d * day + r" and r: "0 \<le> r" "r < day"
    unfolding d_def r_def by simp_all
  have "stat_day t = (d * day + (r - 6 * hour)) div day"
    unfolding sql_stat_day_eq [symmetric] sql_stat_day_def w by (simp add: stat_day_start_hour_def algebra_simps)
  also have "\<dots> = d + (r - 6 * hour) div day" using r by simp
  also have "(r - 6 * hour) div day = (if r < 6 * hour then -1 else 0)"
    using r by (auto simp: div_pos_pos_trivial div_eq_minus1)
  finally show ?thesis by (simp add: kst_date_def before_six_def d_def r_def stat_day_start_hour_def)
qed

lemma rekeyed_rows_nth:
  "length (rekeyed_rows i rooms) = length rooms"
  "k < length rooms \<Longrightarrow> rekeyed_rows i rooms ! k = rekeyed_row (i + k) (rooms ! k)"
  by (induction rooms arbitrary: i k) (auto simp: nth_Cons split: nat.split)

lemma rekeyed_ids: "map rm_id (rekeyed_rows i rooms) = [i..<i + length rooms]"
  by (induction rooms arbitrary: i) (simp_all add: rekeyed_row_def snapshot_row_def upt_conv_Cons del: upt_Suc)

lemma rekeyed_rooms: "map rm_room_id (rekeyed_rows i rooms) = map rs_room_id rooms"
  by (induction rooms arbitrary: i) (simp_all add: rekeyed_row_def snapshot_row_def)

lemma rekeyed_set: "r \<in> set (rekeyed_rows i rooms) \<Longrightarrow> \<exists>k room. room \<in> set rooms \<and> r = rekeyed_row k room \<and> i \<le> k \<and> k < i + length rooms"
  by (induction rooms arbitrary: i) (simp, fastforce)

lemma rekeyed_rows_of: "room \<in> set rooms \<Longrightarrow> \<exists>k. rekeyed_row k room \<in> set (rekeyed_rows i rooms)"
  by (induction rooms arbitrary: i) auto

lemma rekeyed_created: "map rm_created_dt (rekeyed_rows i rooms) = map rs_created_dt rooms"
  by (induction rooms arbitrary: i) (simp_all add: rekeyed_row_def snapshot_row_def)

lemma migrated_rows: "rank_match_snapshots (migrated_rooms rooms) = fill_last_seen (rekeyed_rows 1 rooms)"
  "next_snapshot_id (migrated_rooms rooms) = Suc (length rooms)" "daily_matched_players (migrated_rooms rooms) = []"
  by (simp_all add: migrated_rooms_def empty_hdb_def)

lemma migrated_keys:
  "map rm_id (rank_match_snapshots (migrated_rooms rooms)) = [1..<Suc (length rooms)]"
  "map rm_room_id (rank_match_snapshots (migrated_rooms rooms)) = map rs_room_id rooms"
  "map rm_created_dt (rank_match_snapshots (migrated_rooms rooms)) = map rs_created_dt rooms"
proof -
  have "map rm_id (fill_last_seen rows) = map rm_id rows" "map rm_room_id (fill_last_seen rows) = map rm_room_id rows"
    "map rm_created_dt (fill_last_seen rows) = map rm_created_dt rows" for rows
    by (simp_all add: fill_last_seen_def comp_def)
  then show "map rm_id (rank_match_snapshots (migrated_rooms rooms)) = [1..<Suc (length rooms)]"
    "map rm_room_id (rank_match_snapshots (migrated_rooms rooms)) = map rs_room_id rooms"
    "map rm_created_dt (rank_match_snapshots (migrated_rooms rooms)) = map rs_created_dt rooms"
    by (simp_all only: migrated_rows rekeyed_ids rekeyed_rooms rekeyed_created plus_1_eq_Suc)
qed

lemma distinct_match_keys: "distinct (map rm_room_id rows) \<Longrightarrow> distinct (map match_key rows)"
  by (induction rows) (auto simp: match_key_def rev_image_eqI)

text \<open>Taking the room id out of the key loses no row and fails on none: on a table whose key it was, every row gets a
  number of its own and the new key of room, players and date holds.  But the date it gives is the calendar's, where
  the service's begins at six: the history invariant holds afterwards exactly when no room was opened between
  midnight and six in the morning in Seoul, and such a room is dated one day late.\<close>

theorem rekeyed_rooms_misdate_the_night:
  assumes "distinct (map rs_room_id rooms)"
  shows "distinct (map match_key (rank_match_snapshots (migrated_rooms rooms))) \<and>
    map rm_id (rank_match_snapshots (migrated_rooms rooms)) = [1..<Suc (length rooms)] \<and>
    (history_ok (migrated_rooms rooms) \<longleftrightarrow> list_all (\<lambda>room. \<not> before_six (rs_created_dt room)) rooms) \<and>
    list_all (\<lambda>r. rm_match_date r = stat_day (rm_created_dt r) + (if before_six (rm_created_dt r) then 1 else 0))
      (rank_match_snapshots (migrated_rooms rooms))"
proof -
  let ?rows = "rank_match_snapshots (migrated_rooms rooms)"
  have keys: "distinct (map match_key ?rows)" by (rule distinct_match_keys) (simp only: migrated_keys assms)
  have row: "\<exists>k room. room \<in> set rooms \<and> r = (rekeyed_row k room)\<lparr>rm_last_seen_at := rs_created_dt room\<rparr> \<and> k < Suc (length rooms)"
    if "r \<in> set ?rows" for r
    using that by (auto simp: migrated_rows fill_last_seen_def rekeyed_row_def snapshot_row_def dest!: rekeyed_set)
  have dates: "rm_match_date r = stat_day (rm_created_dt r) + (if before_six (rm_created_dt r) then 1 else 0)" if "r \<in> set ?rows" for r
    using row [OF that] by (auto simp: rekeyed_row_def snapshot_row_def kst_date_stat_day)
  have "(\<forall>r\<in>set ?rows. rm_match_date r = stat_day (rm_created_dt r)) \<longleftrightarrow> list_all (\<lambda>room. \<not> before_six (rs_created_dt room)) rooms"
  proof -
    have "rm_created_dt ` set ?rows = rs_created_dt ` set rooms" by (simp only: list.set_map [symmetric] migrated_keys)
    from arg_cong [OF this, of "\<lambda>T. \<forall>t\<in>T. \<not> before_six t"]
    have "(\<forall>r\<in>set ?rows. \<not> before_six (rm_created_dt r)) \<longleftrightarrow> (\<forall>room\<in>set rooms. \<not> before_six (rs_created_dt room))" by simp
    then show ?thesis using dates by (auto simp: list_all_iff)
  qed
  moreover have "\<forall>r\<in>set ?rows. rm_id r < next_snapshot_id (migrated_rooms rooms)"
    using row by (fastforce simp: migrated_rows rekeyed_row_def snapshot_row_def)
  moreover have "distinct (map rm_id ?rows)" unfolding migrated_keys by simp
  ultimately have "history_ok (migrated_rooms rooms) \<longleftrightarrow> list_all (\<lambda>room. \<not> before_six (rs_created_dt room)) rooms"
    using keys by (auto simp: history_ok_def migrated_rows(3))
  then show ?thesis using keys dates migrated_keys(1) by (auto simp: list_all_iff)
qed

abbreviation night_room :: rank_match_snapshot where
  "night_room \<equiv> \<lparr>rs_room_id = 7, rs_rank_id = 1, rs_user1_npid = ''kim'', rs_user1_online_name = ''Kim'', rs_user2_npid = ''lee'',
     rs_user2_online_name = ''Lee'', rs_created_dt = 17 * hour\<rparr>"

theorem rekeyed_rooms_misdate_the_night_witness:
  "\<not> history_ok (migrated_rooms [night_room]) \<and> map rm_match_date (rank_match_snapshots (migrated_rooms [night_room])) = [1]"
  using rekeyed_rooms_misdate_the_night [of "[night_room]"]
  by (simp add: migrated_rows fill_last_seen_def rekeyed_row_def snapshot_row_def before_six_def kst_wall_def stat_day_def
    stat_day_start_hour_def)

section \<open>Tags that were types\<close>

text \<open>Downgrading a post that was just upgraded gives it back as it was, whatever its type, and after the upgrade every
  post has a type of the board and at most one tag.  Upgrading again after a downgrade keeps exactly the posts
  without a tag whose type the revision knows and the guides with one tag; any other is changed, and a notice
  becomes a guide tagged with the notice's own type.\<close>

theorem characters_survive_downgrade:
  "join_characters (split_characters (p\<lparr>po_characters := []\<rparr>)) = p\<lparr>po_characters := []\<rparr> \<and>
   po_post_type (split_characters p) \<in> set board_types \<and> length (po_characters (split_characters p)) \<le> 1 \<and>
   (split_characters (join_characters p) = p \<longleftrightarrow>
      (if po_characters p = [] then po_post_type p \<in> set board_types
       else po_post_type p = ''gongnyak'' \<and> tl (po_characters p) = [] \<and> hd (po_characters p) \<notin> set board_types)) \<and>
   split_characters (join_characters (p\<lparr>po_post_type := notice_post_type, po_characters := []\<rparr>)) =
     p\<lparr>po_post_type := ''gongnyak'', po_characters := [notice_post_type]\<rparr>"
proof -
  have "po_characters p \<noteq> [] \<Longrightarrow> [hd (po_characters p)] = po_characters p \<longleftrightarrow> tl (po_characters p) = []"
    by (cases "po_characters p") auto
  then show ?thesis
    by (cases p) (auto simp: split_characters_def join_characters_def board_types_def notice_post_type_def Let_def)
qed

section \<open>Players counted afterwards\<close>

text \<open>The rows that the first sightings of a list of sightings make, by a day of one's own.\<close>

definition first_sighting :: "(instant \<Rightarrow> int) \<Rightarrow> (instant \<times> string) set \<Rightarrow> daily_matched_row \<Rightarrow> bool" where
  "first_sighting D seen x \<longleftrightarrow> (dm_first_seen_at x, dm_npid x) \<in> seen \<and> D (dm_first_seen_at x) = dm_date x \<and>
     (\<forall>t. (t, dm_npid x) \<in> seen \<longrightarrow> D t = dm_date x \<longrightarrow> dm_first_seen_at x \<le> t)"

definition sightings :: "rank_match_snapshot list \<Rightarrow> (instant \<times> string) list" where
  "sightings rooms = concat (map (\<lambda>r. map (Pair (rs_created_dt r)) (filter (\<lambda>n. n \<noteq> []) [rs_user1_npid r, rs_user2_npid r])) rooms)"

lemma set_sightings: "set (sightings rooms) = {(t, n) \<in> set (participants rooms). n \<noteq> []}"
  by (auto simp: sightings_def participants_def split: if_splits)

lemma daily_row_eq: "dm_date x = dm_date y \<Longrightarrow> dm_npid x = dm_npid y \<Longrightarrow> dm_first_seen_at x = dm_first_seen_at y \<Longrightarrow> x = (y :: daily_matched_row)"
  by (cases x, cases y) simp

lemma least_iff: "finite A \<Longrightarrow> A \<noteq> {} \<and> m = Min A \<longleftrightarrow> m \<in> A \<and> (\<forall>t\<in>A. m \<le> t)"
  using Min_eq_iff [of A m] by (metis empty_iff)

lemma backfill_first_sightings: "x \<in> set (backfill_matched_players rooms) \<longleftrightarrow> first_sighting kst_date (set (sightings rooms)) x"
proof -
  let ?seen = "set (sightings rooms)"
  let ?times = "\<lambda>d n. {t. (t, n) \<in> ?seen \<and> kst_date t = d}"
  have fin: "finite (?times d n)" for d n
    by (rule finite_subset [of _ "fst ` ?seen"]) force+
  have eq: "set (map (\<lambda>(_, _, t). t) (filter (\<lambda>(d', n', _). d' = d \<and> n' = n)
      (map (\<lambda>(t, n). (kst_date t, n, t)) (filter (\<lambda>(_, n). n \<noteq> []) (participants rooms))))) = ?times d n" for d n
    by (force simp: set_sightings)
  have "x \<in> set (backfill_matched_players rooms) \<longleftrightarrow>
      ?times (dm_date x) (dm_npid x) \<noteq> {} \<and> dm_first_seen_at x = Min (?times (dm_date x) (dm_npid x))"
    unfolding backfill_matched_players_def Let_def set_map [of _ "remdups _"] set_remdups eq [symmetric]
    by (force simp: image_iff set_sightings intro: daily_row_eq)
  also have "\<dots> \<longleftrightarrow> dm_first_seen_at x \<in> ?times (dm_date x) (dm_npid x) \<and> (\<forall>t\<in>?times (dm_date x) (dm_npid x). dm_first_seen_at x \<le> t)"
    by (rule least_iff [OF fin])
  also have "\<dots> \<longleftrightarrow> first_sighting kst_date ?seen x" by (auto simp: first_sighting_def)
  finally show ?thesis .
qed

lemma collected_first_sightings:
  "sorted (map fst evs) \<Longrightarrow>
    (x \<in> set (fold (\<lambda>(t, n). insert_daily (D t) t n) evs []) \<longleftrightarrow> first_sighting D (set evs) x) \<and>
    (\<lambda>r. (dm_date r, dm_npid r)) ` set (fold (\<lambda>(t, n). insert_daily (D t) t n) evs []) = (\<lambda>(t, n). (D t, n)) ` set evs"
proof (induction evs arbitrary: x rule: rev_induct)
  case Nil
  then show ?case by (simp add: first_sighting_def)
next
  case (snoc e evs)
  obtain t n where e: "e = (t, n)" by (cases e)
  let ?rows = "fold (\<lambda>(t, n). insert_daily (D t) t n) evs []"
  have later: "\<forall>(t', _) \<in> set evs. t' \<le> t" using snoc.prems by (auto simp: e sorted_append)
  have IH: "\<And>y. y \<in> set ?rows \<longleftrightarrow> first_sighting D (set evs) y"
    "(\<lambda>r. (dm_date r, dm_npid r)) ` set ?rows = (\<lambda>(t, n). (D t, n)) ` set evs"
    using snoc.IH snoc.prems by (auto simp: sorted_append)
  have known: "(D t, n) \<in> set (map (\<lambda>r. (dm_date r, dm_npid r)) ?rows) \<longleftrightarrow> (\<exists>t'. (t', n) \<in> set evs \<and> D t' = D t)"
    using IH(2) by (force simp: image_iff)
  have grown: "first_sighting D (set (evs @ [e])) x \<longleftrightarrow>
      first_sighting D (set evs) x \<or> ((\<nexists>t'. (t', n) \<in> set evs \<and> D t' = D t) \<and> x = \<lparr>dm_date = D t, dm_npid = n, dm_first_seen_at = t\<rparr>)"
  proof (cases "dm_npid x = n \<and> dm_date x = D t")
    case False
    then show ?thesis by (auto simp: first_sighting_def e)
  next
    case True
    show ?thesis
    proof (cases "\<exists>t'. (t', n) \<in> set evs \<and> D t' = D t")
      case old: True
      then obtain t' where t': "(t', n) \<in> set evs" "D t' = D t" "t' \<le> t" using later by fastforce
      have "(t, n) \<in> set evs" if "first_sighting D (set (evs @ [e])) x" "dm_first_seen_at x = t"
      proof -
        have "t \<le> t'" using that t' True by (simp add: first_sighting_def)
        then have "t' = t" using t'(3) by simp
        then show ?thesis using t'(1) by simp
      qed
      moreover have "dm_first_seen_at x \<le> t" if "first_sighting D (set evs) x"
      proof -
        have "dm_first_seen_at x \<le> t'" using that t' True by (simp add: first_sighting_def)
        then show ?thesis using t'(3) by simp
      qed
      ultimately show ?thesis using old True unfolding first_sighting_def e by auto
    next
      case False
      have "x = \<lparr>dm_date = D t, dm_npid = n, dm_first_seen_at = t\<rparr> \<longleftrightarrow> dm_first_seen_at x = t" using True by (cases x) auto
      then show ?thesis using True False by (auto simp: first_sighting_def e)
    qed
  qed
  let ?new = "\<lparr>dm_date = D t, dm_npid = n, dm_first_seen_at = t\<rparr>"
  have rows: "fold (\<lambda>(t, n). insert_daily (D t) t n) (evs @ [e]) [] = (if \<exists>t'. (t', n) \<in> set evs \<and> D t' = D t then ?rows else ?rows @ [?new])"
    unfolding known [symmetric] by (simp add: e insert_daily_def)
  have "x \<in> set (fold (\<lambda>(t, n). insert_daily (D t) t n) (evs @ [e]) []) \<longleftrightarrow> first_sighting D (set (evs @ [e])) x"
    unfolding rows grown using IH(1) [of x] by auto
  moreover have "(\<lambda>r. (dm_date r, dm_npid r)) ` set (fold (\<lambda>(t, n). insert_daily (D t) t n) (evs @ [e]) []) = (\<lambda>(t, n). (D t, n)) ` set (evs @ [e])"
  proof (cases "\<exists>t'. (t', n) \<in> set evs \<and> D t' = D t")
    case True
    then have "(D t, n) \<in> (\<lambda>(t, n). (D t, n)) ` set evs" by force
    then show ?thesis unfolding rows using True IH(2) by (simp add: e insert_absorb)
  next
    case False
    show ?thesis unfolding rows if_not_P [OF False] using IH(2) by (simp add: e)
  qed
  ultimately show ?case by blast
qed

lemma record_daily_sightings:
  "daily_matched_players (fold (\<lambda>r. record_daily_matched_players [rs_user1_npid r, rs_user2_npid r] (rs_created_dt r)) rooms db) =
    fold (\<lambda>(t, n). insert_daily (stat_day t) t n) (sightings rooms) (daily_matched_players db)"
  by (induction rooms arbitrary: db) (simp_all add: sightings_def record_daily_matched_players_def)

lemma sorted_sightings: "sorted (map rs_created_dt rooms) \<Longrightarrow> sorted (map fst (sightings rooms))"
  by (induction rooms) (auto simp: sightings_def sorted_append)

text \<open>C35: Counting the players of past matches in one statement gives the rows that the collector would have written had it
  watched each of the rooms as it opened, as long as none opened between midnight and six.\<close>

theorem backfill_as_collected:
  assumes "\<forall>r\<in>set rooms. \<not> before_six (rs_created_dt r)"
  shows "set (daily_matched_players (fold (\<lambda>r. record_daily_matched_players [rs_user1_npid r, rs_user2_npid r] (rs_created_dt r))
      (sort_key rs_created_dt rooms) empty_hdb)) = set (backfill_matched_players rooms)"
proof -
  have same: "set (sightings (sort_key rs_created_dt rooms)) = set (sightings rooms)" by (auto simp: sightings_def)
  have "first_sighting stat_day (set (sightings rooms)) x \<longleftrightarrow> first_sighting kst_date (set (sightings rooms)) x" for x
    using assms by (auto simp: first_sighting_def kst_date_stat_day set_sightings participants_def)
  then show ?thesis
    using collected_first_sightings [OF sorted_sightings [of "sort_key rs_created_dt rooms"], of _ stat_day]
    by (auto simp: record_daily_sightings empty_hdb_def same backfill_first_sightings)
qed

theorem backfill_as_collected_witness:
  "set (backfill_matched_players [night_room\<lparr>rs_created_dt := 0\<rparr>]) =
    {\<lparr>dm_date = 0, dm_npid = ''kim'', dm_first_seen_at = 0\<rparr>, \<lparr>dm_date = 0, dm_npid = ''lee'', dm_first_seen_at = 0\<rparr>}"
  using backfill_as_collected [of "[night_room\<lparr>rs_created_dt := 0\<rparr>]"]
  by (simp add: before_six_def kst_wall_def stat_day_start_hour_def record_daily_matched_players_def insert_daily_def stat_day_def
    empty_hdb_def insert_commute)

section \<open>Matches stored anew\<close>

lemma attempt_found:
  "match_events (attempt e now (Inr room) db) =
    update_where (\<lambda>x. me_id x = me_id e) (\<lambda>x. x\<lparr>me_status := DONE, me_last_error := None\<rparr>) (match_events db)"
proof (cases room)
  case None
  then show ?thesis by (simp add: attempt_def resolve_def transact_def Let_def finish_event_def add_match_def)
next
  case (Some r)
  let ?s = "side_of (Some r) (me_npid e)"
  let ?f = "fill_side e r ?s (winner_of ?s (me_result e)) db"
  have "match_events (snd ?f) = match_events db" by (simp add: fill_side_def split: list.split)
  then show ?thesis
    using Some by (cases ?f; cases "fst ?f") (auto simp: attempt_def resolve_def transact_def Let_def finish_event_def add_match_def)
qed

lemma consumer_keeps:
  assumes run: "consumer_work breaks clock look_up k db = Some r"
    and step: "\<And>k db. P db \<Longrightarrow> P (snd (process_one (breaks k) (clock k) (look_up k) db))" and "P db"
  shows "P (snd r)"
proof -
  let ?steps = "\<lambda>breaks clock look_up. \<forall>k db. P db \<longrightarrow> P (snd (process_one (breaks k) (clock k) (look_up k) db))"
  have "?steps breaks clock look_up \<longrightarrow> P db \<longrightarrow> P (snd r)"
  proof (rule consumer_work.raw_induct [where P = "\<lambda>b c l k db r. ?steps b c l \<longrightarrow> P db \<longrightarrow> P (snd r)", OF _ run], intro impI)
    fix work b c l k db r
    assume IH: "\<And>b c l k db r. work b c l k db = Some r \<Longrightarrow> ?steps b c l \<longrightarrow> P db \<longrightarrow> P (snd r)"
      and body: "(case process_one (b k) (c k) (l k) db of (worked, db') \<Rightarrow> if worked then work b c l (Suc k) db' else Some (k, db')) = Some r"
      and steps: "?steps b c l" and "P db"
    then have "P (snd (process_one (b k) (c k) (l k) db))" by blast
    then show "P (snd r)" using IH [of b c l "Suc k"] body steps by (auto split: prod.splits if_splits)
  qed
  then show ?thesis using step \<open>P db\<close> by blast
qed

definition queue_of :: "instant \<Rightarrow> event_row list \<Rightarrow> hdb \<Rightarrow> recdb \<Rightarrow> bool" where
  "queue_of now events h db \<longleftrightarrow> records_ok h db \<and> map (requeue_event 0) (match_events db) = map (requeue_event 0) events \<and>
     (\<forall>e\<in>set (match_events db). me_status e = DONE \<or> me_status e = PENDING \<and> me_available_at e \<le> now)"

lemma requeued:
  assumes "distinct (map me_id (match_events db))" and "\<forall>e\<in>set (match_events db). me_id e < next_event_id db"
    and "distinct (map (\<lambda>e. (me_npid e, me_data_id e)) (match_events db))"
  shows "queue_of now (match_events db) h (requeue_events now db)"
  using assms by (auto simp: queue_of_def records_ok_def requeue_events_def requeue_event_def placed_def comp_def)

lemma queue_step:
  assumes "queue_of now events h db" and rooms: "distinct (map rm_id (rank_match_snapshots h))"
    and look: "\<And>e. look_up e = Inr (find_rank_room (me_npid e) (me_saved_at e) h)"
  shows "queue_of now events h (snd (process_one False t look_up db))"
proof (cases "claim_event t db")
  case None
  then show ?thesis using assms(1) by (simp add: process_one_def process_next_def)
next
  case (Some e)
  have ok: "records_ok h (snd (process_next t look_up db))"
    using assms(1) process_next_ok [OF _ rooms] look find_rank_room_lookup_ok by (fastforce simp: queue_of_def)
  let ?done = "\<lambda>x. x\<lparr>me_status := DONE, me_last_error := None\<rparr> :: event_row"
  have events: "match_events (snd (process_next t look_up db)) = update_where (\<lambda>x. me_id x = me_id e) ?done (match_events db)"
    using Some by (simp add: process_next_def look attempt_found)
  have "map (requeue_event 0) (update_where (\<lambda>x. me_id x = me_id e) ?done (match_events db)) = map (requeue_event 0) (match_events db)"
    by (rule map_update_where_frame) (simp add: requeue_event_def)
  then show ?thesis
    using assms(1) ok events by (auto simp: queue_of_def process_one_def set_update_where)
qed

text \<open>C34: Storing matches anew loses nothing: whatever the events' state was, queueing them all again and letting the consumer
  work, with every room lookup answered, ends with every event resolved and the event itself as it was, each on
  exactly one side of one match, and every match right by the events and the rooms.\<close>

theorem requeue_rebuilds:
  assumes keys: "distinct (map me_id (match_events db))" "\<forall>e\<in>set (match_events db). me_id e < next_event_id db"
      "distinct (map (\<lambda>e. (me_npid e, me_data_id e)) (match_events db))"
    and rooms: "distinct (map rm_id (rank_match_snapshots h))"
    and look: "\<And>k e. look_up k e = Inr (find_rank_room (me_npid e) (me_saved_at e) h)"
    and clock: "\<And>k. now \<le> clock k"
  shows "\<exists>n db'. consumer_work (\<lambda>_. False) clock look_up 0 (requeue_events now db) = Some (n, db') \<and>
    map (requeue_event 0) (match_events db') = map (requeue_event 0) (match_events db) \<and>
    (\<forall>e\<in>set (match_events db'). me_status e = DONE) \<and> distinct (placed db') \<and>
    set (placed db') = me_id ` set (match_events db) \<and> (\<forall>m\<in>set (matches db'). match_ok h db' m)"
proof -
  let ?db = "requeue_events now db"
  have start: "queue_of now (match_events db) h ?db" by (rule requeued [OF keys])
  then have "distinct (map me_id (match_events ?db))" by (simp add: queue_of_def records_ok_def)
  from consumer_stops [OF this, of "\<lambda>_. False" clock look_up 0] obtain n db' where
    work: "consumer_work (\<lambda>_. False) clock look_up 0 ?db = Some (n, db')"
    and late: "\<forall>e\<in>set (match_events db'). me_status e = PENDING \<longrightarrow> clock n < me_available_at e" by auto
  have "queue_of now (match_events db) h (snd (n, db'))"
    by (rule consumer_keeps [where P = "queue_of now (match_events db) h", OF work]) (rule queue_step [OF _ rooms look], assumption, rule start)
  then have q: "queue_of now (match_events db) h db'" by simp
  have resolved: "\<forall>e\<in>set (match_events db'). me_status e = DONE" using q late clock [of n] by (fastforce simp: queue_of_def)
  have "me_id ` set (match_events db') = me_id ` set (match_events db)"
  proof -
    have "map me_id (map (requeue_event 0) es) = map me_id es" for es by (simp add: requeue_event_def)
    then show ?thesis using q unfolding queue_of_def by (metis list.set_map)
  qed
  moreover have "set (placed db') \<subseteq> me_id ` set (match_events db')" 
    using q by (fastforce simp: queue_of_def records_ok_def match_ok_def side_agrees_def placed_def)
  moreover have "me_id ` set (match_events db') \<subseteq> set (placed db')" using q resolved by (auto simp: queue_of_def records_ok_def)
  ultimately show ?thesis using work q resolved by (auto simp: queue_of_def records_ok_def)
qed

theorem requeue_rebuilds_witness:
  "\<exists>n db'. consumer_work (\<lambda>_. False) (\<lambda>_. 0) (\<lambda>_ e. Inr (find_rank_room (me_npid e) (me_saved_at e) empty_hdb)) 0
      (requeue_events 0 demo_resolved) = Some (n, db') \<and> set (placed db') = {1}"
proof -
  have ok: "records_ok (co_db (new_collector empty_hdb)) demo_resolved" using recorded_ok [OF demo_recorded] by simp
  have keys: "distinct (map me_id (match_events demo_resolved))" "\<forall>e\<in>set (match_events demo_resolved). me_id e < next_event_id demo_resolved"
    "distinct (map (\<lambda>e. (me_npid e, me_data_id e)) (match_events demo_resolved))"
    using ok by (simp_all add: records_ok_def)
  have rooms: "distinct (map rm_id (rank_match_snapshots empty_hdb))" by (simp add: empty_hdb_def)
  have "map me_id (match_events demo_resolved) = [1]" by code_simp
  then have "me_id ` set (match_events demo_resolved) = {1}" by (metis list.set_map list.simps(15) empty_set)
  then show ?thesis
    using requeue_rebuilds [OF keys rooms, of "\<lambda>_ e. Inr (find_rank_room (me_npid e) (me_saved_at e) empty_hdb)" 0 "\<lambda>_. 0"] by auto
qed

end
