(* ===== verification/Routes.thy ===== *)
theory Routes
  imports Admin Entities
begin

text \<open>
  The routes of every \<open>router.py\<close> and the order \<open>src/app.py\<close> includes them in: which request reaches which service
  call, who may make it, and which values of its path, query and headers are let through.  The framework's part is
  as its documentation has it: the first route whose path and method fit answers, a body that is no JSON is refused
  before anything is looked at, the dependencies that say who is calling come next, then the values.
\<close>

section \<open>Routes\<close>

datatype http_method = GET | POST | PUT | PATCH | DELETE

datatype segment = Lit string | Param string

datatype gate = Anyone | Signed_In | Admin_Only

datatype body_kind = No_Body | Json_Body | Form_Body

datatype place = In_Path | In_Query | In_Header

datatype kind =
    Whole_Number "int option" "int option"
  | Some_Text nat "nat option"
  | Texts nat

datatype presence = Required | Optional | Default int

record param =
  pa_place :: place
  pa_name :: string
  pa_kind :: kind
  pa_presence :: presence

record route =
  rt_method :: http_method
  rt_path :: "segment list"
  rt_gate :: gate
  rt_body :: body_kind
  rt_params :: "param list"
  rt_calls :: string

definition route :: "http_method \<Rightarrow> segment list \<Rightarrow> gate \<Rightarrow> body_kind \<Rightarrow> param list \<Rightarrow> string \<Rightarrow> route" where
  "route m path g b ps calls =
     \<lparr>rt_method = m, rt_path = path, rt_gate = g, rt_body = b, rt_params = ps, rt_calls = calls\<rparr>"

text \<open>\<open>rt_calls\<close> is the service's operation the handler calls.  An id in the path that any whole number passes, and a number in the query between two bounds.\<close>

definition any_id :: "string \<Rightarrow> param" where
  "any_id name = \<lparr>pa_place = In_Path, pa_name = name, pa_kind = Whole_Number None None, pa_presence = Required\<rparr>"

definition between :: "string \<Rightarrow> int \<Rightarrow> int \<Rightarrow> presence \<Rightarrow> param" where
  "between name lo hi pr = \<lparr>pa_place = In_Query, pa_name = name, pa_kind = Whole_Number (Some lo) (Some hi), pa_presence = pr\<rparr>"

definition at_least :: "string \<Rightarrow> int \<Rightarrow> presence \<Rightarrow> param" where
  "at_least name lo pr = \<lparr>pa_place = In_Query, pa_name = name, pa_kind = Whole_Number (Some lo) None, pa_presence = pr\<rparr>"

definition name_text :: "place \<Rightarrow> string \<Rightarrow> presence \<Rightarrow> param" where
  "name_text pl name pr = \<lparr>pa_place = pl, pa_name = name, pa_kind = Some_Text 1 (Some 64), pa_presence = pr\<rparr>"

definition max_key_length :: nat where "max_key_length = 255"

definition idempotency_key :: param where
  "idempotency_key =
     \<lparr>pa_place = In_Header, pa_name = ''Idempotency-Key'', pa_kind = Some_Text 1 (Some max_key_length), pa_presence = Required\<rparr>"

section \<open>The routers\<close>

definition auth_routes :: "route list" where
  "auth_routes =
     [route POST [Lit ''auth'', Lit ''login''] Anyone Json_Body [] ''login'',
      route GET [Lit ''auth'', Lit ''me''] Signed_In No_Body [] ''me'']"

definition admin_routes :: "route list" where
  "admin_routes =
     [route POST [Lit ''admin'', Lit ''users'', Lit ''lookup''] Admin_Only Json_Body [] ''lookup'',
      route POST [Lit ''admin'', Lit ''users'', Lit ''ban''] Admin_Only Json_Body [] ''ban'']"

definition saves_admin_routes :: "route list" where
  "saves_admin_routes =
     map (\<lambda>action. route POST [Lit ''admin'', Lit ''saves'', Lit (fst action)] Admin_Only Json_Body [] (snd action))
       [(''show'', ''show_save''), (''backups'', ''list_backups''), (''log'', ''read_save_log''), (''set-rank'', ''edit_save''),
        (''set-account-rank'', ''edit_save''), (''floor'', ''edit_save''), (''restore'', ''edit_save'')]"

definition rank_board :: int where "rank_board = 4"
definition most_leaderboard_entries :: int where "most_leaderboard_entries = 500"

definition matching_routes :: "route list" where
  "matching_routes =
     [route GET [Lit ''game-data''] Anyone No_Body [] ''get_game_data'',
      route GET [Lit ''servers''] Anyone No_Body [] ''get_server_world_tree'',
      route GET [Lit ''rooms'', Lit ''all''] Anyone No_Body [] ''get_rooms_all'',
      route GET [Lit ''leaderboard''] Anyone No_Body
        [\<lparr>pa_place = In_Query, pa_name = ''board'', pa_kind = Whole_Number None None, pa_presence = Default rank_board\<rparr>,
         between ''top'' 1 most_leaderboard_entries (Default 10)] ''get_leaderboard'']"

definition history_routes :: "route list" where
  "history_routes =
     [route GET [Lit ''history'', Lit ''stats''] Anyone No_Body [between ''days'' 1 90 (Default 7)] ''get_hourly_activity'',
      route GET [Lit ''history'', Lit ''stats'', Lit ''daily''] Anyone No_Body [between ''days'' 1 90 (Default 30)] ''get_daily_summary'',
      route GET [Lit ''history'', Lit ''players'', Param ''npid''] Anyone No_Body
        [\<lparr>pa_place = In_Path, pa_name = ''npid'', pa_kind = Some_Text 0 None, pa_presence = Required\<rparr>,
         between ''days'' 1 90 (Default 30)] ''get_player_stats'']"

definition community_routes :: "route list" where
  "community_routes =
     (let posts = [Lit ''community'', Lit ''posts'']; post = posts @ [Param ''post_id'']; pid = any_id ''post_id'' in
     [route GET posts Anyone No_Body
        [at_least ''page'' 1 (Default 1), between ''page_size'' 1 100 (Default 20),
         \<lparr>pa_place = In_Query, pa_name = ''post_type'', pa_kind = Some_Text 0 None, pa_presence = Optional\<rparr>,
         \<lparr>pa_place = In_Query, pa_name = ''characters'', pa_kind = Texts 2, pa_presence = Optional\<rparr>] ''list_posts'',
      route POST posts Signed_In Json_Body [idempotency_key] ''create_post'',
      route GET post Anyone No_Body [pid] ''get_post'',
      route PATCH post Signed_In Json_Body [pid] ''update_post'',
      route DELETE post Signed_In No_Body [pid] ''delete_post'',
      route POST (post @ [Lit ''comments'']) Signed_In Json_Body [pid, idempotency_key] ''create_comment'',
      route DELETE (post @ [Lit ''comments'', Param ''comment_id'']) Signed_In No_Body [pid, any_id ''comment_id''] ''delete_comment'',
      route POST (post @ [Lit ''thumb'']) Signed_In Json_Body [pid] ''add_thumb''])"

definition reservation_routes :: "route list" where
  "reservation_routes =
     (let all = [Lit ''reservations'']; one = all @ [Param ''reservation_id'']; rid = any_id ''reservation_id'' in
     [route GET all Anyone No_Body [] ''list_reservations'',
      route POST all Signed_In Json_Body [idempotency_key] ''create_reservation'',
      route GET one Anyone No_Body [rid] ''get_reservation'',
      route PATCH one Signed_In Json_Body [rid] ''update_reservation'',
      route POST (one @ [Lit ''participants'']) Signed_In Json_Body [rid] ''join_reservation'',
      route DELETE (one @ [Lit ''participants'', Lit ''me'']) Signed_In No_Body [rid] ''cancel_participation'',
      route GET (one @ [Lit ''comments'']) Anyone No_Body [rid] ''list_comments'',
      route POST (one @ [Lit ''comments'']) Signed_In Json_Body [rid] ''add_comment'',
      route DELETE (one @ [Lit ''comments'', Param ''comment_id'']) Signed_In No_Body [rid, any_id ''comment_id''] ''delete_comment'',
      route DELETE one Signed_In No_Body [rid] ''cancel_reservation''])"

definition saves_routes :: "route list" where
  "saves_routes =
     [route GET [Lit ''saves'', Lit ''players'', Param ''npid''] Anyone No_Body [name_text In_Path ''npid'' Required] ''get_player_save'',
      route GET [Lit ''saves'', Lit ''leaderboard''] Anyone No_Body
        [between ''top'' 1 1000 (Default 100), between ''days'' 1 365 Optional] ''get_current_rank_leaderboard'',
      route GET [Lit ''saves'', Lit ''current-rank-holders''] Anyone No_Body
        [between ''rank'' 10 42 Required, between ''top'' 1 1000 (Default 100), between ''days'' 1 365 (Default 30)]
        ''get_current_rank_holders'']"

definition event_routes :: "route list" where
  "event_routes =
     [route GET [Lit ''event''] Anyone No_Body [] ''board'',
      route GET [Lit ''event'', Lit ''players'', Param ''npid''] Anyone No_Body [name_text In_Path ''npid'' Required] ''player'']"

definition records_routes :: "route list" where
  "records_routes =
     [route GET [Lit ''records'', Lit ''matches''] Anyone No_Body
        [name_text In_Query ''npid'' Optional,
         \<lparr>pa_place = In_Query, pa_name = ''q'', pa_kind = Some_Text 1 (Some 32), pa_presence = Optional\<rparr>,
         at_least ''before'' 1 Optional, between ''limit'' 1 100 (Default 20)] ''list_matches'',
      route GET [Lit ''records'', Lit ''weekly-top''] Anyone No_Body [between ''limit'' 1 50 (Default 10)] ''weekly_top_players'',
      route GET [Lit ''records'', Lit ''opponents''] Anyone No_Body
        [name_text In_Query ''npid'' Required, between ''days'' 1 90 (Default 30)] ''frequent_opponents'']"

definition chat_routes :: "route list" where
  "chat_routes =
     [route GET [Lit ''chat'', Lit ''stream''] Anyone No_Body [] ''subscribe'',
      route POST [Lit ''chat'', Lit ''messages''] Signed_In Json_Body [] ''post_message'',
      route DELETE [Lit ''chat'', Lit ''messages'', Param ''message_id''] Signed_In No_Body [any_id ''message_id''] ''delete_message'']"

definition streaming_routes :: "route list" where
  "streaming_routes =
     [route GET [Lit ''streams'', Lit ''me''] Signed_In No_Body [] ''get_my_channel'',
      route PUT [Lit ''streams'', Lit ''me''] Signed_In Json_Body [] ''register_channel'',
      route DELETE [Lit ''streams'', Lit ''me''] Signed_In No_Body [] ''unregister_channel'']"

definition streaming_admin_routes :: "route list" where
  "streaming_admin_routes =
     [route GET [Lit ''admin'', Lit ''streams''] Admin_Only No_Body [] ''list_channels'',
      route DELETE [Lit ''admin'', Lit ''streams'', Param ''username''] Admin_Only No_Body
        [name_text In_Path ''username'' Required] ''remove_channel'']"

definition popup_id :: param where
  "popup_id =
     \<lparr>pa_place = In_Path, pa_name = ''popup_id'', pa_kind = Whole_Number (Some 1) (Some (2 ^ 63 - 1)), pa_presence = Required\<rparr>"

definition popup_routes :: "route list" where
  "popup_routes =
     [route GET [Lit ''popups'', Lit ''active''] Anyone No_Body [] ''list_active'',
      route GET [Lit ''popups'', Param ''popup_id'', Lit ''image''] Anyone No_Body [popup_id] ''get_image'']"

definition popup_admin_routes :: "route list" where
  "popup_admin_routes =
     [route GET [Lit ''admin'', Lit ''popups''] Admin_Only No_Body [] ''list_all'',
      route POST [Lit ''admin'', Lit ''popups''] Admin_Only Form_Body [] ''create'',
      route PUT [Lit ''admin'', Lit ''popups'', Param ''popup_id''] Admin_Only Form_Body [popup_id] ''update'',
      route DELETE [Lit ''admin'', Lit ''popups'', Param ''popup_id''] Admin_Only No_Body [popup_id] ''delete'']"

definition app_routes :: "route list" where
  "app_routes = auth_routes @ admin_routes @ saves_admin_routes @ matching_routes @ history_routes @ community_routes @
     reservation_routes @ saves_routes @ event_routes @ records_routes @ chat_routes @ streaming_routes @
     streaming_admin_routes @ popup_routes @ popup_admin_routes @ [route GET [Lit ''health''] Anyone No_Body [] ''health'']"

section \<open>A request\<close>

datatype body_state = Readable | Not_Json | Unreadable

record request =
  rq_method :: http_method
  rq_path :: "string list"
  rq_query :: "(string \<times> string) list"
  rq_headers :: "(string \<times> string) list"
  rq_body :: body_state

text \<open>The path is decoded and split at its slashes.  A parameter takes one segment, which is not empty.\<close>

fun matches :: "segment list \<Rightarrow> string list \<Rightarrow> bool" where
  "matches [] [] \<longleftrightarrow> True"
| "matches (Lit l # path) (s # ss) \<longleftrightarrow> l = s \<and> matches path ss"
| "matches (Param _ # path) (s # ss) \<longleftrightarrow> s \<noteq> [] \<and> matches path ss"
| "matches _ _ \<longleftrightarrow> False"

fun bindings :: "segment list \<Rightarrow> string list \<Rightarrow> (string \<times> string) list" where
  "bindings (Param n # path) (s # ss) = (n, s) # bindings path ss"
| "bindings (Lit _ # path) (_ # ss) = bindings path ss"
| "bindings _ _ = []"

datatype dispatched = Handled route | Wrong_Method | Redirected | Not_Found

definition other_slash :: "string list \<Rightarrow> string list" where
  "other_slash path = (if path \<noteq> [] \<and> last path = [] then rev (dropWhile (\<lambda>s. s = []) (rev path)) else path @ [[]])"

text \<open>The first route that fits answers; a path no method of which fits is 405, and one a slash away is redirected.\<close>

definition dispatch :: "route list \<Rightarrow> http_method \<Rightarrow> string list \<Rightarrow> dispatched" where
  "dispatch rs m path =
     (case find (\<lambda>r. rt_method r = m \<and> matches (rt_path r) path) rs of
        Some r \<Rightarrow> Handled r
      | None \<Rightarrow>
          if \<exists>r\<in>set rs. matches (rt_path r) path then Wrong_Method
          else if path \<noteq> [[]] \<and> (\<exists>r\<in>set rs. matches (rt_path r) (other_slash path)) then Redirected
          else Not_Found)"

definition gate_answer :: "gate \<Rightarrow> auth_user auth_result \<Rightarrow> int + auth_user option" where
  "gate_answer g current =
     (case g of
        Anyone \<Rightarrow> Inr None
      | Signed_In \<Rightarrow> (case current of Inl e \<Rightarrow> Inl (http_status auth_base (Inl e :: auth_user auth_result)) | Inr u \<Rightarrow> Inr (Some u))
      | Admin_Only \<Rightarrow>
          (case admin_user current of Inl e \<Rightarrow> Inl (http_status admin_base (Inl e :: auth_user admin_result)) | Inr u \<Rightarrow> Inr (Some u)))"

section \<open>The values of a request\<close>

datatype arg = Int_Arg int | Text_Arg string | Texts_Arg "string list" | Absent

text \<open>Of a name given twice the query's last value counts and a header's first; the names of headers ignore case.\<close>

definition given :: "(string \<times> string) list \<Rightarrow> request \<Rightarrow> param \<Rightarrow> string list" where
  "given path rq p =
     (case pa_place p of
        In_Path \<Rightarrow> map snd (filter (\<lambda>(n, v). n = pa_name p) path)
      | In_Query \<Rightarrow> rev (map snd (filter (\<lambda>(n, v). n = pa_name p) (rq_query rq)))
      | In_Header \<Rightarrow> map snd (filter (\<lambda>(n, v). casefold n = casefold (pa_name p)) (rq_headers rq)))"

definition in_range :: "'n::linorder option \<Rightarrow> 'n option \<Rightarrow> 'n \<Rightarrow> bool" where
  "in_range lo hi i \<longleftrightarrow> (case lo of None \<Rightarrow> True | Some l \<Rightarrow> l \<le> i) \<and> (case hi of None \<Rightarrow> True | Some h \<Rightarrow> i \<le> h)"

definition not_given :: "presence \<Rightarrow> arg option" where
  "not_given pr = (case pr of Required \<Rightarrow> None | Optional \<Rightarrow> Some Absent | Default i \<Rightarrow> Some (Int_Arg i))"

text \<open>\<open>parse\<close> is pydantic's reading of a whole number.\<close>

definition read_param :: "(string \<Rightarrow> int option) \<Rightarrow> (string \<times> string) list \<Rightarrow> request \<Rightarrow> param \<Rightarrow> arg option" where
  "read_param parse path rq p =
     (case pa_kind p of
        Texts most \<Rightarrow> let vs = rev (given path rq p) in if length vs \<le> most then Some (Texts_Arg vs) else None
      | Whole_Number lo hi \<Rightarrow>
          (case given path rq p of
             [] \<Rightarrow> not_given (pa_presence p)
           | v # _ \<Rightarrow> (case parse v of None \<Rightarrow> None | Some i \<Rightarrow> if in_range lo hi i then Some (Int_Arg i) else None))
      | Some_Text least most \<Rightarrow>
          (case given path rq p of
             [] \<Rightarrow> not_given (pa_presence p)
           | v # _ \<Rightarrow> if in_range (Some least) most (length v) then Some (Text_Arg v) else None))"

section \<open>The answer\<close>

definition body_answer :: "body_kind \<Rightarrow> body_state \<Rightarrow> int option" where
  "body_answer k b =
     (case k of
        No_Body \<Rightarrow> None
      | Json_Body \<Rightarrow> (case b of Readable \<Rightarrow> None | Not_Json \<Rightarrow> Some 422 | Unreadable \<Rightarrow> Some 400)
      | Form_Body \<Rightarrow> (case b of Unreadable \<Rightarrow> Some 400 | _ \<Rightarrow> None))"

text \<open>
  The status of a refusal, or the route that is called with its values and who is calling.  The fields of a body
  are the request classes of the components.
\<close>

definition respond :: "(string \<Rightarrow> int option) \<Rightarrow> auth_user auth_result \<Rightarrow> request \<Rightarrow> int + route \<times> arg list \<times> auth_user option" where
  "respond parse current rq =
     (case dispatch app_routes (rq_method rq) (rq_path rq) of
        Not_Found \<Rightarrow> Inl 404
      | Redirected \<Rightarrow> Inl 307
      | Wrong_Method \<Rightarrow> Inl 405
      | Handled r \<Rightarrow>
          (case body_answer (rt_body r) (rq_body rq) of
             Some status \<Rightarrow> Inl status
           | None \<Rightarrow>
               bindR (gate_answer (rt_gate r) current) (\<lambda>who.
               case those (map (read_param parse (bindings (rt_path r) (rq_path rq)) rq) (rt_params r)) of
                 None \<Rightarrow> Inl 422
               | Some args \<Rightarrow> Inr (r, args, who))))"

section \<open>Which route answers\<close>

text \<open>Whether some path fits both patterns.\<close>

fun overlap :: "segment list \<Rightarrow> segment list \<Rightarrow> bool" where
  "overlap [] [] \<longleftrightarrow> True"
| "overlap (Lit a # p) (Lit b # q) \<longleftrightarrow> a = b \<and> overlap p q"
| "overlap (Param _ # p) (_ # q) \<longleftrightarrow> overlap p q"
| "overlap (_ # p) (Param _ # q) \<longleftrightarrow> overlap p q"
| "overlap _ _ \<longleftrightarrow> False"

lemma matches_Nil [simp]: "matches [] ss \<longleftrightarrow> ss = []" "matches p [] \<longleftrightarrow> p = []"
  by (cases ss; simp) (cases p; simp)

lemma matches_overlap: "matches p ss \<Longrightarrow> matches q ss \<Longrightarrow> overlap p q"
proof (induction p q arbitrary: ss rule: overlap.induct)
  case (2 a p b q) thus ?case by (cases ss) auto
next
  case (3 x p y q) thus ?case by (cases ss; cases y) auto
next
  case (4 v p x q) thus ?case by (cases ss; cases v) auto
qed auto

lemma overlap_sym: "overlap p q \<longleftrightarrow> overlap q p"
proof (induction p q rule: overlap.induct)
  case (3 x p y q) thus ?case by (cases y) auto
next
  case (4 v p x q) thus ?case by simp
qed auto

definition clash :: "route \<Rightarrow> route \<Rightarrow> bool" where
  "clash r r' \<longleftrightarrow> rt_method r = rt_method r' \<and> overlap (rt_path r) (rt_path r')"

fun no_clashes :: "route list \<Rightarrow> bool" where
  "no_clashes [] \<longleftrightarrow> True"
| "no_clashes (r # rs) \<longleftrightarrow> list_all (\<lambda>r'. \<not> clash r r') rs \<and> no_clashes rs"

lemma no_clashes_D: "no_clashes rs \<Longrightarrow> r \<in> set rs \<Longrightarrow> r' \<in> set rs \<Longrightarrow> clash r r' \<Longrightarrow> r = r'"
  by (induction rs) (auto simp: list_all_iff clash_def overlap_sym)

lemma app_no_clashes: "no_clashes app_routes"
  by code_simp

lemma answering_route_unique:
  assumes "r \<in> set app_routes" "r' \<in> set app_routes" "rt_method r = rt_method r'"
    and "matches (rt_path r) path" "matches (rt_path r') path"
  shows "r = r'"
  using no_clashes_D [OF app_no_clashes] matches_overlap assms by (auto simp: clash_def)

lemma find_answering:
  assumes "set rs = set app_routes"
  shows "find (\<lambda>r. rt_method r = m \<and> matches (rt_path r) path) rs = Some r \<longleftrightarrow>
    r \<in> set app_routes \<and> rt_method r = m \<and> matches (rt_path r) path"
    (is "find ?P rs = _ \<longleftrightarrow> ?R r")
proof
  assume "find ?P rs = Some r"
  thus "?R r" using assms by (auto simp: find_Some_iff)
next
  assume r: "?R r"
  then obtain r' where found: "find ?P rs = Some r'" using assms by (cases "find ?P rs") (auto simp: find_None_iff)
  hence "?R r'" using assms by (auto simp: find_Some_iff)
  with r found show "find ?P rs = Some r" using answering_route_unique [of r r' path] by simp
qed

lemma dispatch_Handled:
  "dispatch app_routes m path = Handled r \<longleftrightarrow> r \<in> set app_routes \<and> rt_method r = m \<and> matches (rt_path r) path"
  using find_answering [OF refl, of m path r] by (auto simp: dispatch_def split: option.split)

text \<open>The order in which \<open>app.py\<close> includes the routers, and a router declares its routes, decides nothing: whatever
  the order of the application's routes, every request is dispatched the same, because no two of them answer one
  method and one path.  A request is handled by exactly the route that fits it.\<close>

theorem routes_answer_in_any_order:
  assumes "set rs = set app_routes"
  shows "dispatch rs m path = dispatch app_routes m path \<and>
    (dispatch rs m path = Handled r \<longleftrightarrow> r \<in> set app_routes \<and> rt_method r = m \<and> matches (rt_path r) path)"
proof -
  let ?P = "\<lambda>r. rt_method r = m \<and> matches (rt_path r) path"
  have "find ?P rs = find ?P app_routes"
    using find_answering [OF assms, of m path] find_answering [OF refl, of m path]
    by (cases "find ?P rs"; cases "find ?P app_routes") auto
  hence "dispatch rs m path = dispatch app_routes m path" by (simp only: dispatch_def assms)
  thus ?thesis by (simp add: dispatch_Handled)
qed

theorem routes_answer_in_any_order_witness:
  "dispatch (rev app_routes) GET [''popups'', ''7'', ''image''] = dispatch app_routes GET [''popups'', ''7'', ''image''] \<and>
   dispatch (rev app_routes) GET [''popups'', ''7'', ''image''] =
     Handled (route GET [Lit ''popups'', Param ''popup_id'', Lit ''image''] Anyone No_Body [popup_id] ''get_image'')"
proof -
  let ?r = "route GET [Lit ''popups'', Param ''popup_id'', Lit ''image''] Anyone No_Body [popup_id] ''get_image''"
  have "?r \<in> set app_routes" by (simp add: app_routes_def popup_routes_def)
  moreover have "rt_method ?r = GET" "matches (rt_path ?r) [''popups'', ''7'', ''image'']" by (simp_all add: route_def)
  ultimately show ?thesis using routes_answer_in_any_order [OF set_rev, of GET "[''popups'', ''7'', ''image'']" ?r] by blast
qed

section \<open>Who is let through\<close>

lemma respond_Inr_iff:
  "respond parse current rq = Inr (r, args, who) \<longleftrightarrow>
     dispatch app_routes (rq_method rq) (rq_path rq) = Handled r \<and> body_answer (rt_body r) (rq_body rq) = None \<and>
     gate_answer (rt_gate r) current = Inr who \<and>
     those (map (read_param parse (bindings (rt_path r) (rq_path rq)) rq) (rt_params r)) = Some args"
  by (auto simp: respond_def bindR_Inr_iff split: dispatched.splits option.splits)

lemma gate_answer_Inr:
  "gate_answer g current = Inr who \<longleftrightarrow>
     (case g of Anyone \<Rightarrow> who = None
      | Signed_In \<Rightarrow> (\<exists>u. current = Inr u \<and> who = Some u)
      | Admin_Only \<Rightarrow> (\<exists>u. current = Inr u \<and> au_admin u \<and> who = Some u))"
  by (cases g; cases current) (auto simp: gate_answer_def admin_user_def)

definition guarded :: "route \<Rightarrow> bool" where
  "guarded r \<longleftrightarrow> (rt_method r \<noteq> GET \<longrightarrow> rt_gate r \<noteq> Anyone \<or> rt_calls r = ''login'') \<and>
     (case rt_path r of Lit l # _ \<Rightarrow> l = ''admin'' \<longleftrightarrow> rt_gate r = Admin_Only | _ \<Rightarrow> False)"

lemma app_guarded: "list_all guarded app_routes"
  by code_simp

lemma app_guardedD:
  assumes "dispatch app_routes m path = Handled r"
  shows "m \<noteq> GET \<Longrightarrow> rt_gate r \<noteq> Anyone \<or> rt_calls r = ''login''"
    and "take 1 path = [''admin''] \<Longrightarrow> rt_gate r = Admin_Only"
proof -
  have r: "guarded r" "rt_method r = m" "matches (rt_path r) path"
    using assms app_guarded by (auto simp: dispatch_Handled list_all_iff)
  show "m \<noteq> GET \<Longrightarrow> rt_gate r \<noteq> Anyone \<or> rt_calls r = ''login''" using r by (auto simp: guarded_def)
  show "rt_gate r = Admin_Only" if "take 1 path = [''admin'']"
    using r that by (cases path) (auto simp: guarded_def split: list.splits segment.splits)
qed

text \<open>C36: A request that is not a GET reaches a handler only for a signed-in user, whom the handler is given, the login
  aside; and nothing under \<open>/admin\<close> is reached, whatever the method, by any but a user whose token says admin.  This is
  about who is let in, not about what a handler writes: a GET is open to anyone, and listing reservations finishes the
  ones whose time has passed.\<close>

theorem writes_need_an_account:
  assumes "respond parse current rq = Inr (r, args, who)"
  shows "(rq_method rq \<noteq> GET \<longrightarrow> rt_calls r = ''login'' \<or> (\<exists>u. current = Inr u \<and> who = Some u)) \<and>
    (take 1 (rq_path rq) = [''admin''] \<longrightarrow> (\<exists>u. current = Inr u \<and> au_admin u \<and> who = Some u))"
proof -
  from assms have r: "dispatch app_routes (rq_method rq) (rq_path rq) = Handled r" "gate_answer (rt_gate r) current = Inr who"
    by (simp_all add: respond_Inr_iff)
  thus ?thesis using app_guardedD [OF r(1)] by (cases "rt_gate r") (auto simp: gate_answer_Inr)
qed

definition admin_caller :: auth_user where
  "admin_caller = \<lparr>au_username = ''kim'', au_online_name = ''Kim'', au_avatar_url = [], au_admin = True\<rparr>"

definition bare_request :: "http_method \<Rightarrow> string list \<Rightarrow> request" where
  "bare_request m path = \<lparr>rq_method = m, rq_path = path, rq_query = [], rq_headers = [], rq_body = Readable\<rparr>"

theorem writes_need_an_account_witness:
  "respond (\<lambda>_. Some 7) (Inr admin_caller) (bare_request DELETE [''admin'', ''popups'', ''7'']) =
     Inr (route DELETE [Lit ''admin'', Lit ''popups'', Param ''popup_id''] Admin_Only No_Body [popup_id] ''delete'',
       [Int_Arg 7], Some admin_caller) \<and>
   (\<exists>u. Inr admin_caller = (Inr u :: auth_user auth_result) \<and> au_admin u \<and> Some admin_caller = Some u) \<and>
   respond (\<lambda>_. Some 7) (Inr (admin_caller\<lparr>au_admin := False\<rparr>)) (bare_request DELETE [''admin'', ''popups'', ''7'']) = Inl 403"
proof -
  let ?r = "route DELETE [Lit ''admin'', Lit ''popups'', Param ''popup_id''] Admin_Only No_Body [popup_id] ''delete''"
  have let_in: "respond (\<lambda>_. Some 7) (Inr admin_caller) (bare_request DELETE [''admin'', ''popups'', ''7'']) =
     Inr (?r, [Int_Arg 7], Some admin_caller)"
    by code_simp
  have refused: "respond (\<lambda>_. Some 7) (Inr (admin_caller\<lparr>au_admin := False\<rparr>)) (bare_request DELETE [''admin'', ''popups'', ''7'']) = Inl 403"
    by code_simp
  show ?thesis using writes_need_an_account [OF let_in] let_in refused by (simp add: bare_request_def)
qed

section \<open>What is let through\<close>

text \<open>An argument is what its parameter declares, a default included.\<close>

definition arg_ok :: "param \<Rightarrow> arg \<Rightarrow> bool" where
  "arg_ok p a = (case (a, pa_kind p) of
     (Int_Arg i, Whole_Number lo hi) \<Rightarrow> in_range lo hi i
   | (Text_Arg s, Some_Text least most) \<Rightarrow> in_range (Some least) most (length s)
   | (Texts_Arg ss, Texts most) \<Rightarrow> length ss \<le> most
   | (Absent, _) \<Rightarrow> pa_presence p = Optional
   | _ \<Rightarrow> False)"

definition default_ok :: "param \<Rightarrow> bool" where
  "default_ok p = (case pa_presence p of Default i \<Rightarrow> arg_ok p (Int_Arg i) | _ \<Rightarrow> True)"

lemma app_defaults_ok: "list_all (\<lambda>r. list_all default_ok (rt_params r)) app_routes"
  by code_simp

lemma read_param_ok: "default_ok p \<Longrightarrow> read_param parse path rq p = Some a \<Longrightarrow> arg_ok p a"
  by (auto simp: read_param_def arg_ok_def default_ok_def not_given_def Let_def
      split: kind.splits list.splits option.splits if_splits presence.splits)

lemma those_map_Some: "those (map f xs) = Some ys \<longleftrightarrow> list_all2 (\<lambda>x y. f x = Some y) xs ys"
  by (induction xs arbitrary: ys) (auto split: option.splits simp: list_all2_Cons1)

lemma list_all2_strengthen:
  "list_all P xs \<Longrightarrow> list_all2 Q xs ys \<Longrightarrow> (\<And>x y. P x \<Longrightarrow> Q x y \<Longrightarrow> R x y) \<Longrightarrow> list_all2 R xs ys"
  by (induction xs arbitrary: ys) (auto simp: list_all2_Cons1)

text \<open>A handler is called with one argument for each parameter its route declares, and each is what the parameter
  declares: a number within its bounds, a text within its lengths, and missing only where the parameter may be; the
  defaults keep their own bounds.\<close>

theorem args_as_declared:
  assumes "respond parse current rq = Inr (r, args, who)"
  shows "list_all2 arg_ok (rt_params r) args"
proof -
  from assms have "r \<in> set app_routes"
    and read: "list_all2 (\<lambda>p a. read_param parse (bindings (rt_path r) (rq_path rq)) rq p = Some a) (rt_params r) args"
    by (auto simp: respond_Inr_iff dispatch_Handled those_map_Some)
  hence "list_all default_ok (rt_params r)" using app_defaults_ok by (auto simp: list_all_iff)
  from this read show ?thesis by (rule list_all2_strengthen) (rule read_param_ok)
qed

theorem args_as_declared_witness:
  "respond (\<lambda>v. if v = ''500'' then Some 500 else Some 501) (Inl (Raises Invalid_Token))
     (bare_request GET [''leaderboard''] \<lparr>rq_query := [(''top'', ''7''), (''top'', ''500'')]\<rparr>) =
     Inr (matching_routes ! 3, [Int_Arg 4, Int_Arg 500], None) \<and>
   list_all2 arg_ok (rt_params (matching_routes ! 3)) [Int_Arg 4, Int_Arg 500] \<and>
   respond (\<lambda>v. if v = ''500'' then Some 500 else Some 501) (Inl (Raises Invalid_Token))
     (bare_request GET [''leaderboard''] \<lparr>rq_query := [(''top'', ''500''), (''top'', ''7'')]\<rparr>) = Inl 422"
proof -
  have let_in: "respond (\<lambda>v. if v = ''500'' then Some 500 else Some 501) (Inl (Raises Invalid_Token))
     (bare_request GET [''leaderboard''] \<lparr>rq_query := [(''top'', ''7''), (''top'', ''500'')]\<rparr>) =
     Inr (matching_routes ! 3, [Int_Arg 4, Int_Arg 500], None)"
    by code_simp
  have refused: "respond (\<lambda>v. if v = ''500'' then Some 500 else Some 501) (Inl (Raises Invalid_Token))
     (bare_request GET [''leaderboard''] \<lparr>rq_query := [(''top'', ''500''), (''top'', ''7'')]\<rparr>) = Inl 422"
    by code_simp
  show ?thesis using args_as_declared [OF let_in] let_in refused by simp
qed

section \<open>Ids and their columns\<close>

text \<open>
  The table whose \<open>id\<close> an id in a path is compared with.  PostgreSQL's driver refuses a number that is outside the
  column's type, and nothing catches that: the answer is 500.
\<close>

definition id_table :: "segment list \<Rightarrow> string \<Rightarrow> string option" where
  "id_table path name = map_of
     [(''post_id'', ''posts''), (''reservation_id'', ''reservations''), (''message_id'', ''chat_messages''), (''popup_id'', ''popups''),
      (''comment_id'', if hd path = Lit ''community'' then ''comments'' else ''reservation_comments'')] name"

definition id_type :: "string \<Rightarrow> sql_type option" where
  "id_type t = Option.bind (map_of entity_tables t) (\<lambda>tb. map_option cl_type (map_of (tb_columns tb) ''id''))"

fun integer_bits :: "sql_type \<Rightarrow> nat option" where
  "integer_bits Sql_Small = Some 16"
| "integer_bits Sql_Integer = Some 32"
| "integer_bits Sql_Big = Some 64"
| "integer_bits _ = None"

definition column_holds :: "nat \<Rightarrow> int \<Rightarrow> bool" where
  "column_holds bits i \<longleftrightarrow> - (2 ^ (bits - 1)) \<le> i \<and> i < 2 ^ (bits - 1)"

text \<open>The width of the column an id parameter of a route is for.\<close>

definition id_bits :: "route \<Rightarrow> param \<Rightarrow> nat option" where
  "id_bits r p = Option.bind (id_table (rt_path r) (pa_name p)) (\<lambda>t. Option.bind (id_type t) integer_bits)"

definition id_declared :: "route \<Rightarrow> param \<Rightarrow> bool" where
  "id_declared r p \<longleftrightarrow> (case pa_kind p of
     Whole_Number lo hi \<Rightarrow> pa_place p = In_Path \<longrightarrow>
       (if p = popup_id then id_bits r p = Some 64 else pa_name p \<noteq> ''popup_id'' \<and> lo = None \<and> hi = None \<and> id_bits r p \<in> {Some 32, Some 64})
   | _ \<Rightarrow> pa_name p \<noteq> ''popup_id'')"

lemma app_ids_declared: "list_all (\<lambda>r. list_all (id_declared r) (rt_params r)) app_routes"
  by code_simp

text \<open>A popup's id that its routes let through fits the column it is looked for in.  Every other id in a path
  may be any whole number, so some that are let through do not fit their column: they end in the driver's error, a
  500, where a number that is merely unknown is a 404.\<close>

theorem unbounded_ids_overflow:
  assumes "r \<in> set app_routes" "p \<in> set (rt_params r)" "pa_place p = In_Path" "pa_kind p = Whole_Number lo hi"
  shows "\<exists>bits. id_bits r p = Some bits \<and> ((\<forall>i. in_range lo hi i \<longrightarrow> column_holds bits i) \<longleftrightarrow> pa_name p = ''popup_id'')"
proof -
  have decl: "id_declared r p" using app_ids_declared assms by (auto simp: list_all_iff)
  show ?thesis
  proof (cases "p = popup_id")
    case True
    thus ?thesis using decl assms by (auto simp: id_declared_def popup_id_def in_range_def column_holds_def)
  next
    case False
    then obtain bits where "id_bits r p = Some bits" and "lo = None" "hi = None" "pa_name p \<noteq> ''popup_id''"
      using decl assms by (auto simp: id_declared_def)
    moreover have "\<not> column_holds bits (2 ^ (bits - 1))" by (simp add: column_holds_def)
    ultimately show ?thesis by (auto simp: in_range_def)
  qed
qed

theorem unbounded_ids_overflow_witness:
  "(\<exists>bits i. id_bits (community_routes ! 2) (any_id ''post_id'') = Some bits \<and> in_range None None i \<and> \<not> column_holds bits i) \<and>
   id_bits (community_routes ! 2) (any_id ''post_id'') = Some 32 \<and> \<not> column_holds 32 3000000000 \<and>
   respond (\<lambda>_. Some 3000000000) (Inl (Raises Invalid_Token)) (bare_request GET [''community'', ''posts'', ''3000000000'']) =
     Inr (community_routes ! 2, [Int_Arg 3000000000], None)"
proof -
  have reached: "respond (\<lambda>_. Some 3000000000) (Inl (Raises Invalid_Token))
      (bare_request GET [''community'', ''posts'', ''3000000000'']) = Inr (community_routes ! 2, [Int_Arg 3000000000], None)"
    by code_simp
  have bits: "id_bits (community_routes ! 2) (any_id ''post_id'') = Some 32" by code_simp
  have "community_routes ! 2 \<in> set app_routes" "any_id ''post_id'' \<in> set (rt_params (community_routes ! 2))"
    by (simp_all add: app_routes_def community_routes_def Let_def route_def)
  from unbounded_ids_overflow [OF this] reached bits show ?thesis
    by (auto simp: any_id_def column_holds_def)
qed

text \<open>Who is calling is asked before anything else about a readable request: without an account, a route that
  needs one answers 401, or what checking the token answered, however wrong its ids, its query or its headers are;
  an account that is no admin's is answered 403 by the admin's routes in the same way.\<close>

theorem strangers_learn_nothing_else:
  assumes "dispatch app_routes (rq_method rq) (rq_path rq) = Handled r" and "rq_body rq = Readable"
    and "rt_gate r \<noteq> Anyone"
    and "current = Inl (Raises e) \<or> rt_gate r = Admin_Only \<and> current = Inr user \<and> \<not> au_admin user"
  shows "respond parse current rq = Inl (case current of Inl _ \<Rightarrow> status_code (auth_base e) | Inr _ \<Rightarrow> 403)"
proof -
  have "body_answer (rt_body r) (rq_body rq) = None" using assms(2) by (auto simp: body_answer_def split: body_kind.split)
  moreover have "gate_answer (rt_gate r) current = Inl (case current of Inl _ \<Rightarrow> status_code (auth_base e) | Inr _ \<Rightarrow> 403)"
    using assms(3,4) by (cases "rt_gate r") (auto simp: gate_answer_def admin_user_def)
  ultimately show ?thesis using assms(1) by (simp add: respond_def)
qed

theorem strangers_learn_nothing_else_witness:
  "respond (\<lambda>_. None) (Inl (Raises Invalid_Token)) (bare_request POST [''community'', ''posts'', ''x'', ''comments'']) = Inl 401 \<and>
   respond (\<lambda>_. None) (Inr demo_user) (bare_request POST [''community'', ''posts'', ''x'', ''comments'']) = Inl 422"
proof -
  have "dispatch app_routes POST [''community'', ''posts'', ''x'', ''comments''] = Handled (community_routes ! 5)" by code_simp
  moreover have "rt_gate (community_routes ! 5) = Signed_In" by code_simp
  moreover have "respond (\<lambda>_. None) (Inr demo_user) (bare_request POST [''community'', ''posts'', ''x'', ''comments'']) = Inl 422"
    by code_simp
  ultimately show ?thesis
    using strangers_learn_nothing_else [of "bare_request POST [''community'', ''posts'', ''x'', ''comments'']"
        "community_routes ! 5" "Inl (Raises Invalid_Token)" Invalid_Token demo_user "\<lambda>_. None"]
    by (simp add: bare_request_def)
qed

end
