(* ===== verification/Seed.thy ===== *)
theory Seed
  imports History
begin

text \<open>
  \<open>src/scripts/seed_local_activity.py\<close>: rows for a local database whose players play across the day boundary.  A row
  is written as the script gives it, without \<open>last_seen_at\<close>, which the table then fills with the time of the
  transaction.
\<close>

section \<open>The rows\<close>

definition night_owl :: string where "night_owl = ''seed-night-owl''"
definition dawn_quitter :: string where "dawn_quitter = ''seed-dawn-quitter''"
definition early_bird :: string where "early_bird = ''seed-early-bird''"
definition real_night_owl :: string where "real_night_owl = ''doStudyy''"
definition seed_opponent :: string where "seed_opponent = ''seed-opponent''"

definition sessions :: "(string \<times> nat list) list" where
  "sessions = [(night_owl, [22, 23, 0, 1, 2]), (dawn_quitter, [3, 4, 5]), (early_bird, [6, 7, 8]), (real_night_owl, [22, 23, 0, 1])]"

definition seed_days :: nat where "seed_days = 3"
definition seed_room_id :: nat where "seed_room_id = 900000"

definition session_moment :: "int \<Rightarrow> nat \<Rightarrow> nat \<Rightarrow> instant" where
  "session_moment today day_offset h = stat_day_start (today - int day_offset) + ((int h - 6) mod 24) * hour"

text \<open>The date of a row is the statistics day of its moment, as \<open>snapshot_row\<close> dates it.\<close>

definition session_room :: "string \<Rightarrow> int \<Rightarrow> nat \<Rightarrow> nat \<Rightarrow> nat \<Rightarrow> rank_match_snapshot" where
  "session_room npid today slot day_offset h =
     \<lparr>rs_room_id = seed_room_id + slot * 1000 + day_offset * 100 + h, rs_rank_id = 10,
      rs_user1_npid = npid, rs_user1_online_name = npid,
      rs_user2_npid = seed_opponent, rs_user2_online_name = seed_opponent,
      rs_created_dt = session_moment today day_offset h\<rparr>"

definition sessions_for :: "string \<Rightarrow> nat list \<Rightarrow> int \<Rightarrow> nat \<Rightarrow> rank_match_snapshot list" where
  "sessions_for npid hours today slot =
     concat (map (\<lambda>day_offset. map (session_room npid today slot day_offset) hours) [1..<Suc seed_days])"

definition seed_rooms :: "int \<Rightarrow> rank_match_snapshot list" where
  "seed_rooms today = concat (map (\<lambda>(slot, npid, hours). sessions_for npid hours today slot) (List.enumerate 0 sessions))"

section \<open>The script\<close>

definition seeded :: "rank_match_row \<Rightarrow> bool" where
  "seeded r \<longleftrightarrow> rm_room_id r \<ge> seed_room_id"

definition clean :: "hdb \<Rightarrow> nat \<times> hdb" where
  "clean db = (length (filter seeded (rank_match_snapshots db)),
     db\<lparr>rank_match_snapshots := filter (\<lambda>r. \<not> seeded r) (rank_match_snapshots db)\<rparr>)"

text \<open>An insert that breaks the unique key of a room's day ends the transaction.\<close>

definition add_row :: "instant \<Rightarrow> rank_match_snapshot \<Rightarrow> hdb \<Rightarrow> hdb option" where
  "add_row dbnow room db =
     (let row = (snapshot_row (next_snapshot_id db) room)\<lparr>rm_last_seen_at := dbnow\<rparr> in
      if match_key row \<in> set (map match_key (rank_match_snapshots db)) then None
      else Some (db\<lparr>rank_match_snapshots := rank_match_snapshots db @ [row], next_snapshot_id := Suc (next_snapshot_id db)\<rparr>))"

fun add_all :: "instant \<Rightarrow> rank_match_snapshot list \<Rightarrow> hdb \<Rightarrow> hdb option" where
  "add_all dbnow [] db = Some db"
| "add_all dbnow (room # rooms) db = Option.bind (add_row dbnow room db) (add_all dbnow rooms)"

definition seeded_count :: "hdb \<Rightarrow> string \<Rightarrow> nat" where
  "seeded_count db npid = length (filter (\<lambda>r. rm_user1_npid r = npid \<and> seeded r) (rank_match_snapshots db))"

text \<open>What is printed, and the tables after it: the rows removed, then the rows of each player.\<close>

definition seed_main :: "bool \<Rightarrow> instant \<Rightarrow> instant \<Rightarrow> hdb \<Rightarrow> ((nat \<times> nat list) \<times> hdb) option" where
  "seed_main clean_only now dbnow db =
     (let (removed, db1) = clean db in
      if clean_only then Some ((removed, []), db1)
      else map_option (\<lambda>db2. ((removed, map (\<lambda>(npid, _). seeded_count db2 npid) sessions), db2))
             (add_all dbnow (seed_rooms (stat_day now)) db1))"

section \<open>Moments of a statistics day\<close>

lemma moment_of_day:
  assumes "0 \<le> k" "k < 24"
  shows "stat_day (stat_day_start d + k * hour) = d" "kst_hour (stat_day_start d + k * hour) = (k + 6) mod 24"
proof -
  show "stat_day (stat_day_start d + k * hour) = d"
    using assms by (simp add: stat_day_iff stat_day_start_def stat_day_start_hour_def algebra_simps)
  have w: "kst_wall (stat_day_start d + k * hour) = (d * 24 + (k + 6)) * hour"
    by (simp add: kst_wall_def stat_day_start_def stat_day_start_hour_def algebra_simps)
  have "(d * 24 + (k + 6)) * hour mod (24 * hour) = ((d * 24 + (k + 6)) mod 24) * hour"
    by (rule mult_mod_left [symmetric])
  thus "kst_hour (stat_day_start d + k * hour) = (k + 6) mod 24"
    unfolding kst_hour_def w by simp
qed

lemma session_moment:
  assumes "h < 24"
  shows "stat_day (session_moment today off h) = today - int off" "kst_hour (session_moment today off h) = int h"
  using moment_of_day [of "(int h - 6) mod 24" "today - int off"] assms
  by (simp_all add: session_moment_def mod_simps)

lemma sessions_hours: "(npid, hours) \<in> set sessions \<Longrightarrow> h \<in> set hours \<Longrightarrow> h < 24"
  by (auto simp: sessions_def)

section \<open>What is added\<close>

lemma seed_rooms_numbers:
  "distinct (map rs_room_id (seed_rooms today))" "list_all (\<lambda>room. seed_room_id \<le> rs_room_id room) (seed_rooms today)"
  by (simp_all add: seed_rooms_def sessions_def sessions_for_def session_room_def seed_days_def seed_room_id_def upt_rec)

lemma session_seeded:
  assumes "(npid, hours) \<in> set sessions" "off \<in> {1..seed_days}" "h \<in> set hours"
  shows "\<exists>slot. session_room npid today slot off h \<in> set (seed_rooms today)"
proof -
  obtain slot where "slot < length sessions" "sessions ! slot = (npid, hours)" using assms(1) by (auto simp: in_set_conv_nth)
  hence "(slot, npid, hours) \<in> set (List.enumerate 0 sessions)" by (simp add: in_set_enumerate_eq)
  moreover have "session_room npid today slot off h \<in> set (sessions_for npid hours today slot)"
    using assms(2,3) by (auto simp: sessions_for_def simp del: upt_Suc)
  ultimately show ?thesis by (force simp: seed_rooms_def)
qed

text \<open>The rows of a seeding, numbered from the next id.\<close>

definition seed_rows :: "nat \<Rightarrow> instant \<Rightarrow> rank_match_snapshot list \<Rightarrow> rank_match_row list" where
  "seed_rows i dbnow rooms =
     map (\<lambda>(k, room). (snapshot_row k room)\<lparr>rm_last_seen_at := dbnow\<rparr>) (List.enumerate i rooms)"

lemma seed_rows_Nil [simp]: "seed_rows i dbnow [] = []"
  by (simp add: seed_rows_def)

lemma seed_rows_Cons [simp]:
  "seed_rows i dbnow (room # rooms) = (snapshot_row i room)\<lparr>rm_last_seen_at := dbnow\<rparr> # seed_rows (Suc i) dbnow rooms"
  by (simp add: seed_rows_def)

lemma seed_rows_room: "r \<in> set (seed_rows i dbnow rooms) \<Longrightarrow> \<exists>k room. room \<in> set rooms \<and> r = (snapshot_row k room)\<lparr>rm_last_seen_at := dbnow\<rparr>"
  by (induction rooms arbitrary: i) fastforce+

lemma seed_rows_all: "room \<in> set rooms \<Longrightarrow> \<exists>k. (snapshot_row k room)\<lparr>rm_last_seen_at := dbnow\<rparr> \<in> set (seed_rows i dbnow rooms)"
  by (induction rooms arbitrary: i) auto

lemma add_all_fresh:
  assumes "distinct (map rs_room_id rooms)" "set (map rs_room_id rooms) \<inter> set (map rm_room_id (rank_match_snapshots db)) = {}"
  shows "add_all dbnow rooms db = Some (db\<lparr>rank_match_snapshots := rank_match_snapshots db @ seed_rows (next_snapshot_id db) dbnow rooms,
    next_snapshot_id := next_snapshot_id db + length rooms\<rparr>)"
  using assms
proof (induction rooms arbitrary: db)
  case (Cons room rooms)
  let ?row = "(snapshot_row (next_snapshot_id db) room)\<lparr>rm_last_seen_at := dbnow\<rparr>"
  let ?db = "db\<lparr>rank_match_snapshots := rank_match_snapshots db @ [?row], next_snapshot_id := Suc (next_snapshot_id db)\<rparr>"
  have "match_key ?row \<notin> set (map match_key (rank_match_snapshots db))"
    using Cons.prems(2) by (auto simp: match_key_def snapshot_row_def)
  hence row: "add_row dbnow room db = Some ?db" by (simp add: add_row_def Let_def)
  have "set (map rs_room_id rooms) \<inter> set (map rm_room_id (rank_match_snapshots ?db)) = {}"
    using Cons.prems by (auto simp: snapshot_row_def)
  with Cons.IH Cons.prems(1) have "add_all dbnow rooms ?db =
      Some (?db\<lparr>rank_match_snapshots := rank_match_snapshots ?db @ seed_rows (next_snapshot_id ?db) dbnow rooms,
        next_snapshot_id := next_snapshot_id ?db + length rooms\<rparr>)"
    by simp
  with row show ?case by simp
qed simp

lemma seed_rows_own: "r \<in> set (seed_rows i dbnow (seed_rooms today)) \<Longrightarrow> seeded r"
  using seed_rooms_numbers(2) [of today] by (auto dest!: seed_rows_room simp: list_all_iff seeded_def snapshot_row_def)

lemma seed_rows_unnumbered:
  "map (\<lambda>r. r\<lparr>rm_id := 0\<rparr>) (seed_rows i dbnow rooms) = map (\<lambda>room. (snapshot_row 0 room)\<lparr>rm_last_seen_at := dbnow\<rparr>) rooms"
  by (induction rooms arbitrary: i) (simp_all add: snapshot_row_def)

lemma seed_main_adds:
  "\<exists>counts. seed_main False now dbnow db = Some (counts, (snd (clean db))\<lparr>
     rank_match_snapshots := filter (\<lambda>r. \<not> seeded r) (rank_match_snapshots db) @
       seed_rows (next_snapshot_id db) dbnow (seed_rooms (stat_day now)),
     next_snapshot_id := next_snapshot_id db + length (seed_rooms (stat_day now))\<rparr>)"
proof -
  have "set (map rs_room_id (seed_rooms (stat_day now))) \<inter> set (map rm_room_id (rank_match_snapshots (snd (clean db)))) = {}"
    using seed_rooms_numbers(2) [of "stat_day now"] by (auto simp: clean_def seeded_def list_all_iff)
  from add_all_fresh [OF seed_rooms_numbers(1) this] show ?thesis
    by (simp add: seed_main_def clean_def)
qed

section \<open>The hours that are shown\<close>

lemma room_hours_mem:
  assumes "rm_created_dt r mod hour = 0" "t mod hour = 0" "rm_created_dt r \<le> t" "t \<le> rm_last_seen_at r"
  shows "t \<in> set (room_hours r)"
proof -
  let ?a = "rm_created_dt r"
  define i where "i = nat ((t - ?a) div hour)"
  have a: "?a div hour * hour = ?a" using assms(1) by (metis add.right_neutral div_mult_mod_eq)
  have "(t - ?a) mod hour = 0" using assms(1,2) by (simp add: mod_diff_eq [symmetric])
  hence "(t - ?a) div hour * hour = t - ?a" by (metis add.right_neutral div_mult_mod_eq)
  moreover have "0 \<le> (t - ?a) div hour" using assms(3) by (simp add: pos_imp_zdiv_nonneg_iff)
  ultimately have t: "t = ?a + int i * hour" by (simp add: i_def)
  have "(t - ?a) div hour \<le> (rm_last_seen_at r - ?a) div hour" using assms(4) by (intro zdiv_mono1) auto
  hence "i < nat ((rm_last_seen_at r - ?a) div hour + 1)" using \<open>0 \<le> (t - ?a) div hour\<close> by (simp add: i_def)
  thus ?thesis by (auto simp: room_hours_def Let_def a t)
qed

lemma all_hours:
  assumes "\<And>x. x \<in> set xs \<Longrightarrow> 0 \<le> x \<and> x < 24" "\<And>h. 0 \<le> h \<Longrightarrow> h < 24 \<Longrightarrow> h \<in> set xs \<and> P h"
  shows "filter P (sort (remdups xs)) = map int [0..<24]"
proof -
  have "set (sort (remdups xs)) = set (map int [0..<24])"
    using assms by (auto simp: image_int_atLeastLessThan)
  hence "sort (remdups xs) = map int [0..<24]"
    by (intro sorted_distinct_set_unique) (auto simp: distinct_map sorted_map)
  moreover have "filter P (map int [0..<24]) = map int [0..<24]"
    using assms(2) by (intro filter_True) auto
  ultimately show ?thesis by simp
qed

lemma kst_hour_bounds: "0 \<le> kst_hour t" "kst_hour t < 24"
proof -
  have "0 \<le> kst_wall t mod day" "kst_wall t mod day < 24 * hour" by simp_all
  thus "0 \<le> kst_hour t" "kst_hour t < 24"
    unfolding kst_hour_def by (simp_all add: pos_imp_zdiv_nonneg_iff div_less_iff_less_mult)
qed

lemma day_start_hours: "stat_day_start d mod hour = 0"
proof -
  have "stat_day_start d = (24 * d - 3) * hour" by (simp add: stat_day_start_def stat_day_start_hour_def algebra_simps)
  thus ?thesis by (simp only: mod_mult_self2_is_0)
qed

lemma row_covers_all_hours:
  assumes r: "rm_created_dt r = session_moment today 3 h" "stat_day_start today - hour \<le> rm_last_seen_at r" and k: "0 \<le> k" "k < 24"
  shows "stat_day_start (today - 2) + k * hour \<in> set (room_hours r)" "stat_day_start (today - 1) + k * hour \<in> set (room_hours r)"
proof -
  have j: "0 \<le> (int h - 6) mod 24" "(int h - 6) mod 24 \<le> 23" by simp_all
  have c: "rm_created_dt r mod hour = 0"
    by (simp add: r session_moment_def mod_add_left_eq [symmetric] day_start_hours)
  have t: "(stat_day_start d + k * hour) mod hour = 0" for d by (simp add: mod_add_left_eq [symmetric] day_start_hours)
  have days: "stat_day_start (today - 2) = stat_day_start (today - 3) + 24 * hour"
      "stat_day_start (today - 1) = stat_day_start (today - 3) + 48 * hour" "stat_day_start today = stat_day_start (today - 3) + 72 * hour"
    by (simp_all add: stat_day_start_def algebra_simps)
  show "stat_day_start (today - 2) + k * hour \<in> set (room_hours r)" "stat_day_start (today - 1) + k * hour \<in> set (room_hours r)"
    by (rule room_hours_mem [OF c t]; use r(2) j k in \<open>simp add: r(1) session_moment_def days\<close>)+
qed

lemma two_days_of_an_hour:
  assumes r: "rm_created_dt r = session_moment today 3 h0" "stat_day_start today - hour \<le> rm_last_seen_at r"
    and covers: "set (room_hours r) \<subseteq> set hs" and h: "0 \<le> h" "h < 24"
  shows "h \<in> set (map kst_hour hs) \<and> 2 \<le> length (remdups (map sql_stat_day (filter (\<lambda>t. kst_hour t = h) hs)))"
proof -
  let ?k = "(h - 6) mod 24" and ?days = "map sql_stat_day (filter (\<lambda>t. kst_hour t = h) hs)"
  let ?t2 = "stat_day_start (today - 2) + ?k * hour" and ?t1 = "stat_day_start (today - 1) + ?k * hour"
  have k: "0 \<le> ?k" "?k < 24" by simp_all
  have "?t2 \<in> set hs" "?t1 \<in> set hs" using row_covers_all_hours [OF r k] covers by blast+
  moreover have "kst_hour ?t2 = h" "kst_hour ?t1 = h" "sql_stat_day ?t2 = today - 2" "sql_stat_day ?t1 = today - 1"
    using moment_of_day [OF k] h by (simp_all add: sql_stat_day_eq mod_simps)
  ultimately have "today - 2 \<in> set ?days" "today - 1 \<in> set ?days" and in_hs: "h \<in> set (map kst_hour hs)" by force+
  hence "card {today - 2, today - 1} \<le> card (set ?days)" by (intro card_mono) auto
  thus ?thesis using in_hs by (simp add: length_remdups_card_conv)
qed

section \<open>What the script promises\<close>

text \<open>A session of a player on a day, an hour of the Seoul clock, with the day its row is dated.\<close>

definition session_there :: "int \<Rightarrow> string \<Rightarrow> nat \<Rightarrow> nat \<Rightarrow> bool" where
  "session_there today npid off h \<longleftrightarrow> (\<exists>room\<in>set (seed_rooms today).
     rs_user1_npid room = npid \<and> stat_day (rs_created_dt room) = today - int off \<and> kst_hour (rs_created_dt room) = int h)"

lemma sessions_there:
  "length (seed_rooms today) = 45"
  "list_all (\<lambda>(npid, hours). list_all (\<lambda>off. list_all (session_there today npid off) hours) [1..<Suc seed_days]) sessions"
proof -
  show "length (seed_rooms today) = 45" by (simp add: seed_rooms_def sessions_def sessions_for_def seed_days_def upt_rec)
  have "session_there today npid off h"
    if session: "(npid, hours) \<in> set sessions" "off \<in> {1..seed_days}" "h \<in> set hours" for npid hours off h
  proof -
    obtain slot where "session_room npid today slot off h \<in> set (seed_rooms today)" using session_seeded [OF session] by blast
    thus ?thesis unfolding session_there_def using session_moment [of h today off] sessions_hours [OF session(1,3)]
      by (intro bexI) (simp_all add: session_room_def)
  qed
  thus "list_all (\<lambda>(npid, hours). list_all (\<lambda>off. list_all (session_there today npid off) hours) [1..<Suc seed_days]) sessions"
    by (auto simp: list_all_iff simp del: upt_Suc)
qed

text \<open>Running the script again leaves one copy: whatever the tables hold, it breaks no key, removes the rows it made
  before and no other, and writes 45 rows, each dated by the statistics day it lies in, so that a session that runs
  past midnight stays on one day.\<close>

theorem seeding_leaves_one_copy:
  "\<exists>counts db'. seed_main False now dbnow db = Some (counts, db') \<and>
     filter (\<lambda>r. \<not> seeded r) (rank_match_snapshots db') = filter (\<lambda>r. \<not> seeded r) (rank_match_snapshots db) \<and>
     map (\<lambda>r. r\<lparr>rm_id := 0\<rparr>) (filter seeded (rank_match_snapshots db')) =
       map (\<lambda>room. (snapshot_row 0 room)\<lparr>rm_last_seen_at := dbnow\<rparr>) (seed_rooms (stat_day now)) \<and>
     length (seed_rooms (stat_day now)) = 45 \<and> snd (clean db') = (snd (clean db))\<lparr>next_snapshot_id := next_snapshot_id db'\<rparr> \<and>
     list_all (\<lambda>(npid, hours). list_all (\<lambda>off. list_all (session_there (stat_day now) npid off) hours) [1..<Suc seed_days]) sessions"
proof -
  let ?rooms = "seed_rooms (stat_day now)"
  obtain counts db' where db': "seed_main False now dbnow db = Some (counts, db')"
      "rank_match_snapshots db' = filter (\<lambda>r. \<not> seeded r) (rank_match_snapshots db) @ seed_rows (next_snapshot_id db) dbnow ?rooms"
      "db' = (snd (clean db))\<lparr>rank_match_snapshots := rank_match_snapshots db', next_snapshot_id := next_snapshot_id db'\<rparr>"
    using seed_main_adds [of now dbnow db] by auto
  have own: "filter seeded (seed_rows i dbnow ?rooms) = seed_rows i dbnow ?rooms"
      "filter (\<lambda>r. \<not> seeded r) (seed_rows i dbnow ?rooms) = []" for i
    using seed_rows_own [of _ i dbnow "stat_day now"] by (auto simp: filter_id_conv filter_empty_conv)
  have "filter (\<lambda>r. \<not> seeded r) (rank_match_snapshots db') = filter (\<lambda>r. \<not> seeded r) (rank_match_snapshots db)"
    by (simp add: db'(2) own)
  moreover have "map (\<lambda>r. r\<lparr>rm_id := 0\<rparr>) (filter seeded (rank_match_snapshots db')) =
      map (\<lambda>room. (snapshot_row 0 room)\<lparr>rm_last_seen_at := dbnow\<rparr>) ?rooms"
    by (simp add: db'(2) own seed_rows_unnumbered)
  moreover have "snd (clean db') = (snd (clean db))\<lparr>next_snapshot_id := next_snapshot_id db'\<rparr>"
    by (subst db'(3)) (simp add: clean_def db'(2) own)
  ultimately show ?thesis using db'(1) sessions_there [of "stat_day now"] by blast
qed

text \<open>The script no longer shows what it was written to show: it does not give \<open>last_seen_at\<close>, so every seeded room
  lasts until the seeding, and the hours read for each of its players, within three days of it and whatever else
  the tables hold, are all twenty-four.\<close>

theorem seeded_hours_are_all:
  assumes "seed_main False now dbnow db = Some (counts, db')" "(npid, hours) \<in> set sessions"
    and "now - hour \<le> dbnow" "t \<le> now + 3 * day"
  shows "pl_active_hours (get_player_stats t npid days db') = map int [0..<24]"
proof -
  let ?today = "stat_day now" and ?h = "hd hours"
  have "?h \<in> set hours" "3 \<in> {1..seed_days}" using assms(2) by (auto simp: sessions_def seed_days_def)
  then obtain slot where room: "session_room npid ?today slot 3 ?h \<in> set (seed_rooms ?today)"
    using session_seeded [OF assms(2)] by blast
  define r where "r = (snapshot_row 0 (session_room npid ?today slot 3 ?h))\<lparr>rm_last_seen_at := dbnow\<rparr>"
  obtain k where k: "r\<lparr>rm_id := k\<rparr> \<in> set (rank_match_snapshots db')"
    using assms(1) seed_main_adds [of now dbnow db] seed_rows_all [OF room] by (force simp: r_def snapshot_row_def)
  have day: "stat_day_start ?today \<le> now" "now < stat_day_start ?today + day"
    using stat_day_iff [of now ?today] by (simp_all add: stat_day_start_def algebra_simps)
  have r: "rm_created_dt (r\<lparr>rm_id := k\<rparr>) = session_moment ?today 3 ?h" "rm_user1_npid (r\<lparr>rm_id := k\<rparr>) = npid"
      "stat_day_start ?today - hour \<le> rm_last_seen_at (r\<lparr>rm_id := k\<rparr>)"
    using day assms(3) by (simp_all add: r_def snapshot_row_def session_room_def)
  have recent: "t - 7 * day \<le> session_moment ?today 3 ?h"
    using day assms(4) by (simp add: session_moment_def stat_day_start_def algebra_simps)
  define mine where "mine = filter (\<lambda>r. rm_user1_npid r = npid \<or> rm_user2_npid r = npid) (rank_match_snapshots db')"
  define hs where "hs = concat (map room_hours (filter (\<lambda>r. rm_created_dt r \<ge> t - 7 * day) mine))"
  have covers: "set (room_hours (r\<lparr>rm_id := k\<rparr>)) \<subseteq> set hs"
    using k r recent by (auto simp: hs_def mine_def)
  have each: "h \<in> set (map kst_hour hs) \<and> 2 \<le> length (remdups (map sql_stat_day (filter (\<lambda>t. kst_hour t = h) hs)))"
    if h: "0 \<le> h" "h < 24" for h
    using two_days_of_an_hour [OF r(1,3) covers h] by blast
  have "filter (\<lambda>h. 2 \<le> length (remdups (map sql_stat_day (filter (\<lambda>t. kst_hour t = h) hs)))) (sort (remdups (map kst_hour hs))) = map int [0..<24]"
    by (rule all_hours) (use each kst_hour_bounds in auto)
  thus ?thesis by (simp add: get_player_stats_def Let_def hs_def mine_def)
qed

theorem seeded_hours_are_all_witness:
  "\<exists>counts db'. seed_main False 0 0 empty_hdb = Some (counts, db') \<and> (night_owl, [22, 23, 0, 1, 2]) \<in> set sessions \<and>
     pl_active_hours (get_player_stats 0 night_owl 30 db') = map int [0..<24]"
proof -
  obtain counts db' where main: "seed_main False 0 0 empty_hdb = Some (counts, db')" using seed_main_adds [of 0 0 empty_hdb] by blast
  have owl: "(night_owl, [22, 23, 0, 1, 2]) \<in> set sessions" by (simp add: sessions_def)
  show ?thesis using seeded_hours_are_all [OF main owl, of 0 30] main owl by auto
qed

end
