(* ===== verification/Startup.thy ===== *)
theory Startup
  imports Container Lifespan Cache
begin

text \<open>
  The start of \<open>src/app.py\<close> before any request: the settings are logged, Redis is waited for, and the lifespan begins.
\<close>

section \<open>The log of the settings\<close>

text \<open>\<open>json.dumps(get_settings().model_dump(), default=str)\<close>; the text of a \<open>SecretStr\<close> is ten asterisks, or nothing.\<close>

datatype shown =
    Shown_Text string | Shown_Whole int | Shown_Truth bool | Shown_Fraction rat | Shown_Texts "string list"
  | Shown_Moment "instant option"

definition secret_text :: "string \<Rightarrow> string" where
  "secret_text s = (if s = [] then [] else replicate 10 CHR ''*'')"

definition startup_log :: "settings \<Rightarrow> (string \<times> shown) list" where
  "startup_log st =
     [(''profile'', Shown_Text (st_profile st)), (''rpcn_user'', Shown_Text (st_rpcn_user st)),
      (''rpcn_password'', Shown_Text (st_rpcn_password st)), (''rpcn_token'', Shown_Text (st_rpcn_token st)),
      (''rpcn_host'', Shown_Text (st_rpcn_host st)), (''rpcn_port'', Shown_Whole (st_rpcn_port st)),
      (''redis_url'', Shown_Text (st_redis_url st)), (''cache_ttl_servers'', Shown_Whole (st_ttl_servers st)),
      (''cache_ttl_leaderboard'', Shown_Whole (st_ttl_leaderboard st)), (''cache_ttl_rooms_all'', Shown_Whole (st_ttl_rooms_all st)),
      (''cache_ttl_community'', Shown_Whole (st_ttl_community st)), (''cache_ttl_activity'', Shown_Whole (st_ttl_activity st)),
      (''cache_ttl_player_hours'', Shown_Whole (st_ttl_player_hours st)), (''cache_ttl_player_save'', Shown_Whole (st_ttl_player_save st)),
      (''cache_ttl_current_rank_leaderboard'', Shown_Whole (st_ttl_current_rank st)), (''cache_ttl_live_streams'', Shown_Whole (st_ttl_live_streams st)),
      (''cache_ttl_stream_channels'', Shown_Whole (st_ttl_stream_channels st)), (''cache_ttl_event'', Shown_Whole (st_ttl_event st)),
      (''cache_ttl_popups'', Shown_Whole (st_ttl_popups st)), (''matchmaking_ttl'', Shown_Whole (st_matchmaking_ttl st)),
      (''match_history_collection_interval_seconds'', Shown_Whole (st_collection_interval st)), (''save_capture_interval_seconds'', Shown_Whole (st_capture_interval st)),
      (''match_event_idle_seconds'', Shown_Whole (st_event_idle st)), (''ranking_excluded_npids'', Shown_Texts (st_ranking_excluded st)),
      (''db_url'', Shown_Text (st_db_url st)), (''db_name'', Shown_Text (st_db_name st)),
      (''db_user'', Shown_Text (st_db_user st)), (''db_password'', Shown_Text (st_db_password st)),
      (''rpcn_metric_enable'', Shown_Truth (st_rpcn_metric_enable st)), (''rpcn_api_server_url'', Shown_Text (st_rpcn_api_url st)),
      (''rpcn_api_server_key'', Shown_Text (secret_text (st_rpcn_api_key st))), (''rpcn_api_server_timeout_seconds'', Shown_Fraction (st_rpcn_api_timeout st)),
      (''save_admin_url'', Shown_Text (st_save_admin_url st)), (''save_admin_key'', Shown_Text (secret_text (st_save_admin_key st))),
      (''save_admin_timeout_seconds'', Shown_Fraction (st_save_admin_timeout st)), (''jwt_secret'', Shown_Text (secret_text (st_jwt_secret st))),
      (''jwt_ttl_seconds'', Shown_Whole (st_jwt_ttl_seconds st)), (''chzzk_api_url'', Shown_Text (st_chzzk_api_url st)),
      (''chzzk_timeout_seconds'', Shown_Fraction (st_chzzk_timeout st)), (''event_end_at'', Shown_Moment (st_event_end_at st)),
      (''event_baseline_path'', Shown_Text (st_event_baseline_path st)), (''cors_origins'', Shown_Texts (st_cors_origins st))]"

section \<open>Starting\<close>

datatype startup_event = Settings_Logged "(string \<times> shown) list" | Exits int | Life life_event

definition redis_timeout :: instant where "redis_timeout = 5 * second"

text \<open>\<open>None\<close>: Redis is still waited for when the given outcomes of its pings end.\<close>

definition start_app ::
  "settings \<Rightarrow> instant \<Rightarrow> (('x + unit) \<times> instant) list \<Rightarrow> (resource \<Rightarrow> bool) \<Rightarrow> bool \<Rightarrow> (exit_callback \<Rightarrow> bool) \<Rightarrow> startup_event list option" where
  "start_app st start pings opens baselines_load raises =
     map_option (\<lambda>checked. Settings_Logged (startup_log st) #
         (case checked of Inl _ \<Rightarrow> [Exits 1] | Inr _ \<Rightarrow> map Life (fst (lifespan opens baselines_load raises))))
       (redis_health_check (st_redis_url st \<noteq> []) start redis_timeout pings)"

section \<open>What the log gives away\<close>

lemma logged_dsn_password: "snd (init_database (st\<lparr>st_db_password := a\<rparr>) db) = snd (init_database (st\<lparr>st_db_password := b\<rparr>) db)"
proof -
  let ?r = "st_db_url st @ ''/'' @ st_db_name st"
  have "logged_dsn (p @ CHR ''@'' # r) = rev (takeWhile (\<lambda>c. c \<noteq> CHR ''@'') (rev r))" for p r
    by (simp add: logged_dsn_def takeWhile_tail)
  from this [of "''postgresql+asyncpg://'' @ st_db_user st @ '':'' @ quote a" ?r]
    this [of "''postgresql+asyncpg://'' @ st_db_user st @ '':'' @ quote b" ?r]
  show ?thesis by (simp add: init_database_def build_dsn_def Let_def)
qed

text \<open>The settings logged at start say nothing of the two server keys and the signing secret but whether they are set, as
  the settings' comment asks.  They do say the password and the token of the RPCN account and the database's
  password, word for word, although connecting to the database takes care to log nothing of the latter.\<close>

theorem startup_log_shows_passwords:
  "startup_log (st\<lparr>st_rpcn_api_key := a # k, st_save_admin_key := b # l, st_jwt_secret := c # s\<rparr>) =
     startup_log (st\<lparr>st_rpcn_api_key := a' # k', st_save_admin_key := b' # l', st_jwt_secret := c' # s'\<rparr>) \<and>
   map_of (startup_log st) ''rpcn_password'' = Some (Shown_Text (st_rpcn_password st)) \<and>
   map_of (startup_log st) ''rpcn_token'' = Some (Shown_Text (st_rpcn_token st)) \<and>
   map_of (startup_log st) ''db_password'' = Some (Shown_Text (st_db_password st)) \<and>
   snd (init_database (st\<lparr>st_db_password := p\<rparr>) db) = snd (init_database (st\<lparr>st_db_password := q\<rparr>) db)"
  by (simp add: startup_log_def secret_text_def) (rule logged_dsn_password)

text \<open>Nothing is opened without Redis where its URL is set, and nothing served unless all is open and loaded.\<close>

theorem serves_when_all_is_there:
  assumes "start_app st start pings opens baselines_load raises = Some events" "Life Serving \<in> set events"
  shows "(st_redis_url st = [] \<or> (\<exists>now. (Inr (), now) \<in> set pings)) \<and> list_all opens resources \<and> baselines_load"
proof -
  have answered: "ping_until d n pings = Some (Inr m) \<Longrightarrow> \<exists>now. (Inr (), now) \<in> set pings" for d n m
    by (induction d n pings rule: ping_until.induct) (auto split: if_splits)
  from assms(1) obtain z where z: "redis_health_check (st_redis_url st \<noteq> []) start redis_timeout pings = Some z"
      "events = Settings_Logged (startup_log st) # (case z of Inl _ \<Rightarrow> [Exits 1] | Inr _ \<Rightarrow> map Life (fst (lifespan opens baselines_load raises)))"
    by (auto simp: start_app_def)
  with assms(2) obtain m where checked: "redis_health_check (st_redis_url st \<noteq> []) start redis_timeout pings = Some (Inr m)"
      and "Serving \<in> set (fst (lifespan opens baselines_load raises))"
    by (cases z) auto
  hence "list_all opens resources \<and> baselines_load"
    unfolding lifespan_def build_container_def enter_all_eq start_workers_eq
    by (auto simp: Let_def split_beta unwind_events split: if_splits elim: run_callback.elims)
  moreover have "st_redis_url st = [] \<or> (\<exists>now. (Inr (), now) \<in> set pings)"
    using checked answered by (auto simp: redis_health_check_def split: if_splits)
  ultimately show ?thesis by blast
qed

end
