(* ===== verification/Community_Race.thy ===== *)
theory Community_Race
  imports Community_System
begin

text \<open>
  Requests of the board cut where \<open>src/community/service.py\<close> awaits, with other requests served in between.
  \<open>get_post\<close> asks the cache, then the database for the post, then for its comments, and fills the cache with what
  it read.  A write commits, and drops what it made stale from the cache when its commit has come back.  On Redis
  (\<open>RedisCache\<close> of \<open>src/shared/cache.py\<close>) an entry may fail to be read, to be dropped or to be stored, and the request
  goes on.
\<close>

section \<open>A request in steps\<close>

text \<open>What a write drops from the cache once it is committed, and whether it got so far.\<close>

datatype cache_drop = Drop_Lists | Drop_Post nat

fun drops_of :: "board_call \<Rightarrow> cache_drop list" where
  "drops_of (Create_Post dbnow u q key) = [Drop_Lists]"
| "drops_of (Update_Post pid u q) = [Drop_Lists, Drop_Post pid]"
| "drops_of (Delete_Post pid u) = [Drop_Lists, Drop_Post pid]"
| "drops_of (Create_Comment dbnow u (pid, q) key) = [Drop_Post pid]"
| "drops_of (Delete_Comment dbnow pid cid u) = [Drop_Post pid]"
| "drops_of (Add_Thumb pid u d) = [Drop_Post pid]"
| "drops_of (Get_Post ttl now pid) = []"
| "drops_of (List_Posts ttl now page psize post_type chars) = []"

fun goes_through :: "'j codec \<Rightarrow> board_call \<Rightarrow> 'j cstate \<Rightarrow> bool" where
  "goes_through (jp, jc, sha, cp, cc) (Create_Post dbnow u q key) s \<longleftrightarrow> \<not> isl (fst (create_post jp sha cp dbnow u q key s))"
| "goes_through (jp, jc, sha, cp, cc) (Update_Post pid u q) s \<longleftrightarrow> \<not> isl (fst (update_post pid u q s))"
| "goes_through (jp, jc, sha, cp, cc) (Delete_Post pid u) s \<longleftrightarrow> \<not> isl (fst (delete_post pid u s))"
| "goes_through (jp, jc, sha, cp, cc) (Create_Comment dbnow u q key) s \<longleftrightarrow> \<not> isl (fst (create_comment jc sha cc dbnow u q key s))"
| "goes_through (jp, jc, sha, cp, cc) (Delete_Comment dbnow pid cid u) s \<longleftrightarrow> \<not> isl (fst (delete_comment dbnow pid cid u s))"
| "goes_through (jp, jc, sha, cp, cc) (Add_Thumb pid u d) s \<longleftrightarrow> \<not> isl (fst (add_thumb pid u d s))"
| "goes_through codec c s \<longleftrightarrow> False"

text \<open>A read under way: the cache had nothing; the post has been read; the comments too.  The flag says whether a write to the
  post was committed since the post was read.\<close>

datatype reading = Missed nat | With_Post nat post_row bool | With_Answer nat post_detail bool

fun overlapped :: "cache_drop list \<Rightarrow> reading \<Rightarrow> reading" where
  "overlapped ds (Missed pid) = Missed pid"
| "overlapped ds (With_Post pid p late) = With_Post pid p (late \<or> Drop_Post pid \<in> set ds)"
| "overlapped ds (With_Answer pid v late) = With_Answer pid v (late \<or> Drop_Post pid \<in> set ds)"

text \<open>The board, the reads under way, the drops that committed writes have still to do, and the posts whose entry may be stale
  for good: a read overlapped by a write filled the cache, or a drop was lost.\<close>

record 'j racing =
  rc_board :: "'j cstate"
  rc_reads :: "reading list"
  rc_drops :: "cache_drop list"
  rc_late :: "nat set"

definition start_racing :: "'j racing" where
  "start_racing = \<lparr>rc_board = empty_cstate, rc_reads = [], rc_drops = [], rc_late = {}\<rparr>"

abbreviation board_db :: "'j racing \<Rightarrow> cdb" where "board_db r \<equiv> app (cs_tx (rc_board r))"

definition race_commit :: "'j codec \<Rightarrow> board_call \<Rightarrow> 'j racing \<Rightarrow> 'j racing" where
  "race_commit codec c r =
     (let b = rc_board r; r' = r\<lparr>rc_board := b\<lparr>cs_tx := cs_tx (run_board codec c b)\<rparr>\<rparr> in
      if goes_through codec c b
      then r'\<lparr>rc_reads := map (overlapped (drops_of c)) (rc_reads r), rc_drops := rc_drops r @ drops_of c\<rparr> else r')"

fun race_drop :: "cache_drop \<Rightarrow> 'j racing \<Rightarrow> 'j racing" where
  "race_drop Drop_Lists r = r\<lparr>rc_board := invalidate_lists (rc_board r), rc_drops := remove1 Drop_Lists (rc_drops r)\<rparr>"
| "race_drop (Drop_Post pid) r = r\<lparr>rc_board := invalidate_post pid (rc_board r),
     rc_drops := remove1 (Drop_Post pid) (rc_drops r), rc_late := rc_late r - {pid}\<rparr>"

fun lose_drop :: "cache_drop \<Rightarrow> 'j racing \<Rightarrow> 'j racing" where
  "lose_drop Drop_Lists r = r\<lparr>rc_drops := remove1 Drop_Lists (rc_drops r)\<rparr>"
| "lose_drop (Drop_Post pid) r = r\<lparr>rc_drops := remove1 (Drop_Post pid) (rc_drops r), rc_late := insert pid (rc_late r)\<rparr>"

definition race_ask :: "instant \<Rightarrow> nat \<Rightarrow> 'j racing \<Rightarrow> 'j racing" where
  "race_ask now pid r =
     (let b = rc_board r; (cached, c) = dict_get (post_key pid) now (cs_posts b); r' = r\<lparr>rc_board := b\<lparr>cs_posts := c\<rparr>\<rparr> in
      case cached of
        Some v \<Rightarrow> r'
      | None \<Rightarrow> r'\<lparr>rc_reads := Missed pid # rc_reads r, rc_late := rc_late r - {pid}\<rparr>)"

fun next_query :: "cdb \<Rightarrow> reading \<Rightarrow> reading option" where
  "next_query db (Missed pid) = (case repo_get_post pid db of Inl e \<Rightarrow> None | Inr p \<Rightarrow> Some (With_Post pid p False))"
| "next_query db (With_Post pid p late) = Some (With_Answer pid (p, nest_replies (hide_deleted (get_post_comments pid db))) late)"
| "next_query db (With_Answer pid v late) = Some (With_Answer pid v late)"

definition race_query :: "reading \<Rightarrow> 'j racing \<Rightarrow> 'j racing" where
  "race_query rd r = r\<lparr>rc_reads := (case next_query (board_db r) rd of None \<Rightarrow> [] | Some rd' \<Rightarrow> [rd']) @ remove1 rd (rc_reads r)\<rparr>"

definition race_fill :: "int \<Rightarrow> instant \<Rightarrow> nat \<Rightarrow> post_detail \<Rightarrow> bool \<Rightarrow> 'j racing \<Rightarrow> 'j racing" where
  "race_fill ttl now pid v late r =
     (let b = rc_board r in
      r\<lparr>rc_board := b\<lparr>cs_posts := dict_set (post_key pid) v ttl now (cs_posts b)\<rparr>,
        rc_reads := remove1 (With_Answer pid v late) (rc_reads r),
        rc_late := (if late then insert pid (rc_late r) else rc_late r - {pid})\<rparr>)"

text \<open>\<open>redis\<close> says which cache it is.  A read may be given up anywhere, so also when Redis does not store its answer; the cached
  lists are other requests' and may be anything.\<close>

inductive reached_racing :: "bool \<Rightarrow> 'j codec \<Rightarrow> 'j racing \<Rightarrow> bool" for redis codec where
  race_start: "reached_racing redis codec start_racing"
| race_commits: "reached_racing redis codec r \<Longrightarrow> reached_racing redis codec (race_commit codec c r)"
| race_drops: "reached_racing redis codec r \<Longrightarrow> d \<in> set (rc_drops r) \<Longrightarrow> reached_racing redis codec (race_drop d r)"
| race_loses: "reached_racing redis codec r \<Longrightarrow> redis \<Longrightarrow> d \<in> set (rc_drops r) \<Longrightarrow> reached_racing redis codec (lose_drop d r)"
| race_asks: "reached_racing redis codec r \<Longrightarrow> reached_racing redis codec (race_ask now pid r)"
| race_asks_in_vain: "reached_racing redis codec r \<Longrightarrow> redis \<Longrightarrow> reached_racing redis codec (r\<lparr>rc_reads := Missed pid # rc_reads r\<rparr>)"
| race_queries: "reached_racing redis codec r \<Longrightarrow> rd \<in> set (rc_reads r) \<Longrightarrow> reached_racing redis codec (race_query rd r)"
| race_fills: "reached_racing redis codec r \<Longrightarrow> With_Answer pid v late \<in> set (rc_reads r) \<Longrightarrow>
    reached_racing redis codec (race_fill ttl now pid v late r)"
| race_gives_up: "reached_racing redis codec r \<Longrightarrow> reached_racing redis codec (r\<lparr>rc_reads := remove1 rd (rc_reads r)\<rparr>)"
| race_lists: "reached_racing redis codec r \<Longrightarrow> reached_racing redis codec (r\<lparr>rc_board := (rc_board r)\<lparr>cs_lists := pages\<rparr>\<rparr>)"

section \<open>With nothing in between\<close>

lemma committing_steps:
  "cs_tx (snd (committing t after s)) = snd (transact t (cs_tx s))"
  "isl (fst (committing t after s)) = isl (fst (transact t (cs_tx s)))"
  if "\<And>x. cs_tx (after x) = cs_tx x"
  using that by (simp_all add: committing_def split: prod.split sum.split)

text \<open>A write that does not go through leaves everything; one that does is its commit and its drops.\<close>

lemma refused_writes_nothing: "\<not> goes_through codec c (rc_board r) \<Longrightarrow> race_commit codec c r = r"
  by (cases codec; cases c)
    (auto simp: race_commit_def Let_def create_post_def update_post_def delete_post_def create_comment_def delete_comment_def
      add_thumb_def committing_steps transact_def split: sum.splits prod.splits)

lemma commit_then_drops:
  assumes "goes_through codec c (rc_board r)"
  shows "rc_board (fold race_drop (drops_of c) (race_commit codec c r)) = run_board codec c (rc_board r)"
  using assms
  by (cases codec; cases c)
    (auto simp: race_commit_def Let_def create_post_def update_post_def delete_post_def create_comment_def delete_comment_def
      add_thumb_def committing_def transact_def invalidate_lists_def invalidate_post_def split: sum.splits prod.splits)


section \<open>Stale only by an overlap\<close>

text \<open>A write to other posts leaves a post as it is.\<close>

lemma other_posts_kept:
  assumes ok: "community_ok (app (cs_tx s))" and other: "Drop_Post pid \<notin> set (drops_of c)"
    and v: "load_post pid (app (cs_tx s)) = Inr v"
  shows "load_post pid (app (cs_tx (run_board codec c s))) = Inr v"
proof -
  let ?s = "s\<lparr>cs_posts := [post_key pid \<mapsto> (v, 0)]\<rparr>"
  have tx: "cs_tx (run_board codec c ?s) = cs_tx (run_board codec c s)"
    by (cases codec; cases c) (auto simp: create_post_def update_post_def delete_post_def create_comment_def delete_comment_def
      add_thumb_def committing_steps split: sum.splits)
  show ?thesis
  proof (cases "\<exists>ttl now i. c = Get_Post ttl now i")
    case True
    then show ?thesis using v by (cases codec) auto
  next
    case False
    have "posts_coherent ?s" using v by (auto simp: posts_coherent_def post_key_inj split: if_splits)
    then have "posts_coherent (run_board codec c ?s)" using ok by (intro run_board_coherent) simp_all
    moreover have "cs_posts (run_board codec c ?s) (post_key pid) = Some (v, 0)"
      using other False by (cases codec; cases c)
        (auto simp: create_post_def update_post_def delete_post_def create_comment_def delete_comment_def add_thumb_def
          committing_def dict_delete_def post_key_inj split: sum.splits prod.splits)
    ultimately show ?thesis unfolding posts_coherent_def tx by blast
  qed
qed

fun read_ok :: "cdb \<Rightarrow> reading \<Rightarrow> bool" where
  "read_ok db (Missed pid) \<longleftrightarrow> True"
| "read_ok db (With_Post pid p late) \<longleftrightarrow> late \<or> repo_get_post pid db = Inr p"
| "read_ok db (With_Answer pid v late) \<longleftrightarrow> late \<or> load_post pid db = Inr v"

definition race_entries_ok :: "'j racing \<Rightarrow> bool" where
  "race_entries_ok r \<longleftrightarrow> (\<forall>pid v t. cs_posts (rc_board r) (post_key pid) = Some (v, t) \<longrightarrow>
     Drop_Post pid \<in> set (rc_drops r) \<or> pid \<in> rc_late r \<or> load_post pid (board_db r) = Inr v)"

lemma overlapped_ok:
  assumes "community_ok (app (cs_tx s))" "read_ok (app (cs_tx s)) rd"
  shows "read_ok (app (cs_tx (run_board codec c s))) (overlapped (drops_of c) rd)"
proof (cases rd)
  case (With_Post pid p late)
  have "repo_get_post pid db = Inr p \<longleftrightarrow> (\<exists>t. load_post pid db = Inr (p, t))" for db
    by (cases "repo_get_post pid db") (simp_all add: load_post_def)
  then show ?thesis using assms With_Post other_posts_kept [OF assms(1), where codec = codec and c = c] by (cases late; cases "Drop_Post pid \<in> set (drops_of c)") auto
next
  case (With_Answer pid v late)
  then show ?thesis using assms other_posts_kept [OF assms(1), of pid c v codec]
    by (cases late; cases "Drop_Post pid \<in> set (drops_of c)") auto
qed simp

lemma query_ok:
  assumes "read_ok db rd" "next_query db rd = Some rd'"
  shows "read_ok db rd'"
  using assms by (cases rd) (auto simp: load_post_def split: sum.splits)

lemma race_commit_ok:
  assumes "community_ok (board_db r)" "race_entries_ok r" "\<forall>rd\<in>set (rc_reads r). read_ok (board_db r) rd"
    and r': "r' = race_commit codec c r"
  shows "community_ok (board_db r') \<and> race_entries_ok r' \<and> (\<forall>rd\<in>set (rc_reads r'). read_ok (board_db r') rd)"
proof (cases "goes_through codec c (rc_board r)")
  case True
  have "load_post pid (board_db r') = Inr v"
    if "load_post pid (board_db r) = Inr v" "Drop_Post pid \<notin> set (drops_of c)" for pid v
    using other_posts_kept [OF assms(1) that(2,1), of codec] True by (simp add: r' race_commit_def Let_def)
  then have "race_entries_ok r'"
    using True assms(2) unfolding race_entries_ok_def r' by (simp add: race_commit_def Let_def) blast
  then show ?thesis
    using True overlapped_ok [OF assms(1), of _ codec c] assms(3) run_board_ok [OF assms(1), of codec c]
    by (auto simp: r' race_commit_def Let_def)
next
  case False
  then have "r' = r" unfolding r' by (rule refused_writes_nothing)
  then show ?thesis using assms(1-3) by blast
qed

lemma entries_kept:
  assumes "race_entries_ok r" "board_db r' = board_db r"
    and "\<And>pid e. cs_posts (rc_board r') (post_key pid) = Some e \<Longrightarrow> cs_posts (rc_board r) (post_key pid) = Some e \<and>
      (Drop_Post pid \<in> set (rc_drops r) \<or> pid \<in> rc_late r \<longrightarrow> Drop_Post pid \<in> set (rc_drops r') \<or> pid \<in> rc_late r')"
  shows "race_entries_ok r'"
  unfolding race_entries_ok_def assms(2) by (metis assms(1,3) race_entries_ok_def)

lemma dict_get_entry: "snd (dict_get key now c) k = Some e \<Longrightarrow> c k = Some e"
  by (auto simp: dict_get_def split: option.splits prod.splits if_splits)

lemma dict_get_missed: "fst (dict_get key now c) = None \<Longrightarrow> snd (dict_get key now c) key = None"
  by (auto simp: dict_get_def split: option.splits prod.splits if_splits)

lemma remaining_drop: "x \<in> set xs \<Longrightarrow> x \<notin> set (remove1 y xs) \<Longrightarrow> x = y"
  by (metis in_set_remove1)

lemma drop_keeps_entries: "race_entries_ok r \<Longrightarrow> race_entries_ok (race_drop d r)"
proof (cases d)
  case Drop_Lists
  assume "race_entries_ok r"
  then show ?thesis unfolding Drop_Lists by (rule entries_kept) simp_all
next
  case (Drop_Post i)
  assume "race_entries_ok r"
  then show ?thesis unfolding Drop_Post by (rule entries_kept) (simp_all add: dict_delete_def post_key_inj split: if_splits)
qed

lemma lost_keeps_entries: "race_entries_ok r \<Longrightarrow> race_entries_ok (lose_drop d r)"
proof (cases d)
  case Drop_Lists
  assume "race_entries_ok r"
  then show ?thesis unfolding Drop_Lists by (rule entries_kept) simp_all
next
  case (Drop_Post i)
  assume "race_entries_ok r"
  then show ?thesis unfolding Drop_Post by (rule entries_kept) (auto simp: in_set_remove1 dest: remaining_drop)
qed

lemma ask_keeps_entries: "race_entries_ok r \<Longrightarrow> race_entries_ok (race_ask now pid r)"
proof (rule entries_kept)
  show "board_db (race_ask now pid r) = board_db r" by (simp add: race_ask_def Let_def split_beta split: option.split)
next
  fix i e
  assume e: "cs_posts (rc_board (race_ask now pid r)) (post_key i) = Some e"
  then have "snd (dict_get (post_key pid) now (cs_posts (rc_board r))) (post_key i) = Some e"
    by (simp add: race_ask_def Let_def split_beta split: option.splits)
  then show "cs_posts (rc_board r) (post_key i) = Some e \<and> (Drop_Post i \<in> set (rc_drops r) \<or> i \<in> rc_late r \<longrightarrow>
      Drop_Post i \<in> set (rc_drops (race_ask now pid r)) \<or> i \<in> rc_late (race_ask now pid r))"
    using dict_get_missed [of "post_key pid" now "cs_posts (rc_board r)"]
    by (auto simp: race_ask_def Let_def split_beta dest: dict_get_entry split: option.split)
qed

lemma race_inv:
  assumes "reached_racing redis codec r"
  shows "community_ok (board_db r) \<and> race_entries_ok r \<and> (\<forall>rd\<in>set (rc_reads r). read_ok (board_db r) rd)"
  using assms
proof induction
  case race_start
  show ?case using board_empty by (simp add: start_racing_def board_ok_def posts_coherent_def race_entries_ok_def)
next
  case (race_commits r c)
  then show ?case using race_commit_ok by blast
next
  case (race_drops r d)
  then show ?case using drop_keeps_entries [of r d] by (cases d) simp_all
next
  case (race_loses r d)
  then show ?case using lost_keeps_entries [of r d] by (cases d) simp_all
next
  case (race_asks r now pid)
  then show ?case using ask_keeps_entries [of r now pid]
    by (auto simp: race_ask_def Let_def split_beta split: option.splits)
next
  case (race_queries r rd)
  then show ?case by (auto simp: race_entries_ok_def race_query_def dest: notin_set_remove1 query_ok [OF _ sym] split: option.splits)
next
  case (race_fills r pid v late ttl now)
  then show ?case
    by (auto simp: race_entries_ok_def race_fill_def Let_def dict_set_def post_key_inj dest: notin_set_remove1 split: if_splits)
next
  case (race_gives_up r rd)
  then show ?case by (auto simp: race_entries_ok_def dest: notin_set_remove1)
qed (simp_all add: race_entries_ok_def)

text \<open>C16: However requests of the board overlap, reads cut after the cache, after the post and before the filling, writes cut
  between their commit and each drop, and on Redis with drops, stores and reads of the cache that fail: a post asked for
  is the post as it is stored, unless a committed write to it has still to drop its entry, or its entry is one a read
  filled late (a write to it was committed after the read had taken it from the database) or one whose drop was lost, neither dropped,
  filled afresh nor found gone since.  A read that no write to its post has overlapped answers with the stored post.
  A write that is refused leaves everything, and one that goes through with nothing in between is the call of the
  service.\<close>

theorem stale_only_by_overlap:
  assumes "reached_racing redis codec r"
  shows "(Drop_Post pid \<notin> set (rc_drops r) \<and> pid \<notin> rc_late r \<longrightarrow>
       fst (get_post ttl now pid (rc_board r)) = load_post pid (board_db r)) \<and>
    (With_Answer pid v False \<in> set (rc_reads r) \<longrightarrow> load_post pid (board_db r) = Inr v) \<and>
    (if goes_through codec c (rc_board r)
     then rc_board (fold race_drop (drops_of c) (race_commit codec c r)) = run_board codec c (rc_board r)
     else race_commit codec c r = r)"
proof -
  have "fst (get_post ttl now pid (rc_board r)) = load_post pid (board_db r)"
    if "Drop_Post pid \<notin> set (rc_drops r)" "pid \<notin> rc_late r"
  proof -
    have "load_post pid (board_db r) = Inr w" if "cs_posts (rc_board r) (post_key pid) = Some (w, t)" for w t
      using race_inv [OF assms] that \<open>Drop_Post pid \<notin> _\<close> \<open>pid \<notin> _\<close> unfolding race_entries_ok_def by blast
    then show ?thesis
      by (cases "load_post pid (board_db r)"; cases "cs_posts (rc_board r) (post_key pid)")
        (auto simp: get_post_def dict.read_cases split_beta dict_get_def)
  qed
  moreover have "load_post pid (board_db r) = Inr v" if "With_Answer pid v False \<in> set (rc_reads r)"
    using race_inv [OF assms] that by (metis read_ok.simps(3))
  ultimately show ?thesis using commit_then_drops [of codec c r] refused_writes_nothing [of codec c r] by auto
qed

text \<open>Calls one after the other are the runs with nothing in between.\<close>

lemma drops_reached:
  "reached_racing redis codec r \<Longrightarrow> rc_drops r = ds \<Longrightarrow>
    reached_racing redis codec (fold race_drop ds r) \<and> rc_drops (fold race_drop ds r) = [] \<and>
    rc_reads (fold race_drop ds r) = rc_reads r \<and> rc_late (fold race_drop ds r) \<subseteq> rc_late r"
proof (induction ds arbitrary: r)
  case (Cons d ds)
  have "reached_racing redis codec (race_drop d r)" using race_drops [OF Cons.prems(1)] Cons.prems(2) by simp
  moreover have "rc_drops (race_drop d r) = ds" using Cons.prems(2) by (cases d) simp_all
  moreover have "rc_reads (race_drop d r) = rc_reads r" "rc_late (race_drop d r) \<subseteq> rc_late r" by (cases d; auto)+
  ultimately show ?case using Cons.IH [of "race_drop d r"] by auto
qed simp

lemma refused_call: "drops_of c \<noteq> [] \<Longrightarrow> \<not> goes_through codec c s \<Longrightarrow> run_board codec c s = s"
  by (cases codec; cases c)
    (auto simp: create_post_def update_post_def delete_post_def create_comment_def delete_comment_def add_thumb_def
      committing_def transact_def split: sum.splits prod.splits)

lemma get_post_reached:
  assumes "reached_racing redis codec (start_racing\<lparr>rc_board := s\<rparr>)"
  shows "reached_racing redis codec (start_racing\<lparr>rc_board := snd (get_post ttl now pid s)\<rparr>)"
proof -
  let ?r = "race_ask now pid (start_racing\<lparr>rc_board := s\<rparr>)"
  have asked: "reached_racing redis codec ?r" using race_asks [OF assms] .
  show ?thesis
  proof (cases "fst (dict_get (post_key pid) now (cs_posts s))")
    case (Some v)
    then have "?r = start_racing\<lparr>rc_board := snd (get_post ttl now pid s)\<rparr>"
      by (simp add: race_ask_def start_racing_def get_post_def dict.read_cases split_beta Let_def)
    then show ?thesis using asked by simp
  next
    case None
    let ?c = "snd (dict_get (post_key pid) now (cs_posts s))" and ?db = "app (cs_tx s)"
    have r: "?r = \<lparr>rc_board = s\<lparr>cs_posts := ?c\<rparr>, rc_reads = [Missed pid], rc_drops = [], rc_late = {}\<rparr>"
      using None by (simp add: race_ask_def start_racing_def split_beta Let_def)
    have q1: "reached_racing redis codec (race_query (Missed pid) ?r)" by (rule race_queries [OF asked]) (simp add: r)
    show ?thesis
    proof (cases "repo_get_post pid ?db")
      case (Inl e)
      then have "race_query (Missed pid) ?r = start_racing\<lparr>rc_board := snd (get_post ttl now pid s)\<rparr>"
        using None unfolding r by (simp add: race_query_def start_racing_def get_post_def dict.read_cases split_beta load_post_def)
      then show ?thesis using q1 by simp
    next
      case (Inr p)
      let ?q1 = "race_query (Missed pid) ?r" and ?v = "(p, nest_replies (hide_deleted (get_post_comments pid ?db)))"
      have r1: "?q1 = ?r\<lparr>rc_reads := [With_Post pid p False]\<rparr>" using Inr by (simp add: r race_query_def)
      have q2: "reached_racing redis codec (race_query (With_Post pid p False) ?q1)" by (rule race_queries [OF q1]) (simp add: r1)
      have r2: "race_query (With_Post pid p False) ?q1 = ?r\<lparr>rc_reads := [With_Answer pid ?v False]\<rparr>"
        using Inr by (simp add: r1 race_query_def) (simp add: r)
      have "race_fill ttl now pid ?v False (race_query (With_Post pid p False) ?q1) = start_racing\<lparr>rc_board := snd (get_post ttl now pid s)\<rparr>"
        using None Inr unfolding r2 unfolding r
        by (simp add: race_fill_def start_racing_def get_post_def dict.read_cases split_beta load_post_def Let_def)
      moreover have "reached_racing redis codec (race_fill ttl now pid ?v False (race_query (With_Post pid p False) ?q1))"
        by (rule race_fills [OF q2]) (simp add: r2)
      ultimately show ?thesis by simp
    qed
  qed
qed

lemma call_reached:
  assumes "reached_racing redis codec (start_racing\<lparr>rc_board := s\<rparr>)"
  shows "reached_racing redis codec (start_racing\<lparr>rc_board := run_board codec c s\<rparr>)"
proof (cases "drops_of c = []")
  case True
  then show ?thesis
    using get_post_reached [OF assms] race_lists [OF assms]
    by (cases codec; cases c) (auto simp: list_posts_def Let_def split_beta)
next
  case False
  let ?r = "start_racing\<lparr>rc_board := s\<rparr>"
  let ?c = "race_commit codec c ?r"
  show ?thesis
  proof (cases "goes_through codec c s")
    case True
    then have d: "rc_drops ?c = drops_of c" "rc_reads ?c = []" "rc_late ?c = {}"
      by (simp_all add: race_commit_def start_racing_def Let_def)
    have "fold race_drop (drops_of c) ?c = start_racing\<lparr>rc_board := run_board codec c s\<rparr>"
      using drops_reached [OF race_commits [OF assms, of c] d(1)] d(2,3) commit_then_drops [of codec c ?r] True
      by (intro racing.equality) (simp_all add: start_racing_def)
    then show ?thesis using drops_reached [OF race_commits [OF assms, of c] d(1)] by simp
  next
    case False
    then show ?thesis using refused_call [OF \<open>drops_of c \<noteq> []\<close>, of codec s] assms by simp
  qed
qed

lemma calls_reached: "reached_racing redis codec (start_racing\<lparr>rc_board := run_board_calls codec cs empty_cstate\<rparr>)"
proof (induction cs rule: rev_induct)
  case Nil
  show ?case using race_start [of redis codec] by (simp add: run_board_calls_def start_racing_def)
next
  case (snoc c cs)
  from call_reached [OF this, of c] show ?case by (simp add: run_board_calls_def)
qed

theorem stale_only_by_overlap_witness:
  "fst (get_post 60 1 1 (run_board_calls demo_codec (demo_calls @ [Get_Post 60 0 1, Delete_Post 1 (demo_user ''kim'')]) empty_cstate)) =
    Inl Post_Not_Found"
proof -
  let ?cs = "demo_calls @ [Get_Post 60 0 1, Delete_Post 1 (demo_user ''kim'')]"
  let ?s = "run_board_calls demo_codec ?cs empty_cstate"
  have "map po_id (posts (app (cs_tx ?s))) = []" by code_simp
  then have "load_post 1 (app (cs_tx ?s)) = Inl Post_Not_Found" by (simp add: load_post_def repo_get_post_def find_post_def)
  then show ?thesis using stale_only_by_overlap [OF calls_reached [of True demo_codec ?cs], of 1 60 1] by (simp add: start_racing_def)
qed

section \<open>A post that comes back\<close>

lemma deleted_is_gone:
  assumes "fst (delete_post pid u s) = Inr ()"
  shows "load_post pid (app (cs_tx (snd (delete_post pid u s)))) = Inl Post_Not_Found"
proof -
  have "load_post pid db' = Inl Post_Not_Found" if "repo_delete_post pid db = Inr ((), db')" for db db'
  proof -
    have "find_post pid db' = None" using that by (auto simp: repo_delete_post_def find_post_def find_None_iff)
    thus ?thesis by (simp add: load_post_def repo_get_post_def)
  qed
  thus ?thesis using assms
    by (auto simp: delete_post_def committing_def transact_def on_app_def split: sum.splits prod.splits)
qed

lemma deletion_by_tables: "fst (delete_post pid u s) = fst (transact (on_app (\<lambda>db. bindR (bindR (repo_get_post pid db)
    (\<lambda>p. ensure_can_manage_post p u)) (\<lambda>_. repo_delete_post pid db))) (cs_tx s))"
  by (simp add: delete_post_def committing_def split: prod.split sum.split)

text \<open>A deletion that overlaps a read is undone for everyone who asks: when a read has its answer from the database, the
  post is deleted and the cache's entry dropped with it, and then the read fills the cache, every later request is
  shown the deleted post until the entry expires.\<close>

theorem late_fill_shows_deleted:
  assumes "reached_racing redis codec r" "rc_drops r = []" "With_Answer pid v False \<in> set (rc_reads r)"
    and "fst (delete_post pid u (rc_board r)) = Inr ()" "later < filled + ttl * second"
  shows "\<exists>r2. reached_racing redis codec r2 \<and> rc_drops r2 = [] \<and> load_post pid (board_db r) = Inr v \<and>
    load_post pid (board_db r2) = Inl Post_Not_Found \<and> fst (get_post ttl' later pid (rc_board r2)) = Inr v"
proof -
  let ?c = "Delete_Post pid u"
  let ?r1 = "race_commit codec ?c r"
  define r3 where "r3 = fold race_drop (drops_of ?c) ?r1"
  let ?r2 = "race_fill ttl filled pid v True r3"
  have through: "goes_through codec ?c (rc_board r)" using assms(4) by (cases codec) simp
  then have drops: "rc_drops ?r1 = drops_of ?c" and reads: "With_Answer pid v True \<in> set (rc_reads ?r1)"
    using assms(2,3) by (force simp: race_commit_def Let_def image_iff)+
  note r3 = drops_reached [OF race_commits [OF assms(1)] drops, folded r3_def]
  have board: "rc_board r3 = snd (delete_post pid u (rc_board r))"
    using commit_then_drops [of codec ?c r, OF through, folded r3_def] by (cases codec) simp
  have "reached_racing redis codec ?r2" using r3 reads by (intro race_fills) simp_all
  moreover have "load_post pid (board_db ?r2) = Inl Post_Not_Found"
    using deleted_is_gone [OF assms(4)] by (simp add: race_fill_def Let_def board)
  moreover have "fst (get_post ttl' later pid (rc_board ?r2)) = Inr v"
    using assms(5) by (simp add: race_fill_def get_post_def read_through_def dict_get_def dict_set_def Let_def)
  moreover have "rc_drops ?r2 = []" using r3 by (simp add: race_fill_def Let_def)
  moreover have "load_post pid (board_db r) = Inr v" using race_inv [OF assms(1)] assms(3) by (metis read_ok.simps(3))
  ultimately show ?thesis by blast
qed

text \<open>So does a request served between the commit of the deletion and its drop, which finds the entry that was cached.\<close>

theorem shown_before_drop:
  assumes "fst (delete_post pid u (rc_board r)) = Inr ()" "fst (dict_get (post_key pid) now (cs_posts (rc_board r))) = Some v"
  shows "load_post pid (board_db (race_commit codec (Delete_Post pid u) r)) = Inl Post_Not_Found \<and>
    fst (get_post ttl now pid (rc_board (race_commit codec (Delete_Post pid u) r))) = Inr v"
proof -
  have "board_db (race_commit codec (Delete_Post pid u) r) = app (cs_tx (snd (delete_post pid u (rc_board r))))"
    and "cs_posts (rc_board (race_commit codec (Delete_Post pid u) r)) = cs_posts (rc_board r)"
    by (cases codec; simp add: race_commit_def Let_def)+
  then show ?thesis using deleted_is_gone [OF assms(1)] assms(2) by (simp add: get_post_def dict.read_cases split_beta)
qed

end
