(* ===== verification/Reservation_Api.thy ===== *)
theory Reservation_Api
  imports Routes Reservation_System
begin

text \<open>
  The reservations as the outside meets them: a request through \<open>Routes\<close> to a handler of
  \<open>src/reservation/router.py\<close>, from there to \<open>ReservationService\<close> and back as a status.
\<close>

section \<open>The handlers\<close>

text \<open>The fields of a body, as far as their types; \<open>None\<close> is a body pydantic refuses for its types, or none at all.\<close>

datatype fields =
    Create_Fields create_request
  | Update_Fields update_request
  | Join_Fields "string list"
  | Comment_Fields string

definition given_id :: "arg list \<Rightarrow> nat \<Rightarrow> nat" where
  "given_id args i = (case args ! i of Int_Arg n \<Rightarrow> nat n | _ \<Rightarrow> 0)"

definition given_key :: "arg list \<Rightarrow> string" where
  "given_key args = (case args ! 0 of Text_Arg k \<Rightarrow> k | _ \<Rightarrow> [])"

definition checked :: "call \<Rightarrow> call option" where
  "checked c = (if request_ok c then Some c else None)"

text \<open>Each handler's call of the service; \<open>None\<close> is a body that is refused.  Ids are counted from one, so a negative is unknown.\<close>

definition handler_call :: "string \<Rightarrow> arg list \<Rightarrow> auth_user \<Rightarrow> fields option \<Rightarrow> instant \<Rightarrow> instant \<Rightarrow> call option" where
  "handler_call name args user body now dbnow =
     (if name = ''create_reservation'' then
        (case body of Some (Create_Fields q) \<Rightarrow>
           checked (Create now dbnow (au_username user) (au_online_name user) q (given_key args)) | _ \<Rightarrow> None)
      else if name = ''update_reservation'' then
        (case body of Some (Update_Fields q) \<Rightarrow> checked (Update (given_id args 0) (au_username user) q now now) | _ \<Rightarrow> None)
      else if name = ''join_reservation'' then
        (case body of Some (Join_Fields ranks) \<Rightarrow>
           checked (Join dbnow (given_id args 0) (au_username user) (au_online_name user) ranks now) | _ \<Rightarrow> None)
      else if name = ''add_comment'' then
        (case body of Some (Comment_Fields text) \<Rightarrow>
           map_option (AddComment dbnow (given_id args 0) (au_username user) (au_online_name user)) (comment_body text) | _ \<Rightarrow> None)
      else if name = ''cancel_participation'' then Some (Leave (given_id args 0) (au_username user) now)
      else if name = ''delete_comment'' then
        Some (DeleteComment (given_id args 0) (given_id args 1) (au_username user) now (au_admin user))
      else if name = ''cancel_reservation'' then Some (Cancel (given_id args 0) (au_username user) now)
      else None)"

definition answered :: "('e \<Rightarrow> domain_error) \<Rightarrow> int \<Rightarrow> 'e + 'a \<Rightarrow> int" where
  "answered base good r = (case r of Inl e \<Rightarrow> status_code (base e) | Inr _ \<Rightarrow> good)"

fun idem_base :: "('e \<Rightarrow> domain_error) \<Rightarrow> 'e idem_error \<Rightarrow> domain_error" where
  "idem_base base IdempotencyKeyReusedError = UnprocessableError"
| "idem_base base (WriteError e) = base e"

fun call_status :: "(reservation \<Rightarrow> 'j) \<Rightarrow> (string \<Rightarrow> string) \<Rightarrow> (string \<Rightarrow> create_request \<Rightarrow> string) \<Rightarrow> call \<Rightarrow> 'j rstate \<Rightarrow> int" where
  "call_status js sha can (Create now dbnow sub name q key) s =
     answered (idem_base reservation_error_base) 201 (fst (create_reservation js sha can now dbnow sub name q key s))"
| "call_status js sha can (ListAll now) s = 200"
| "call_status js sha can (Update rid sub q now1 now2) s =
     answered reservation_error_base 200 (fst (in_tx (update_reservation rid sub q now1 now2) s))"
| "call_status js sha can (Join dbnow rid sub name ranks now) s =
     answered reservation_error_base 201 (fst (in_tx (join_reservation dbnow rid sub name ranks now) s))"
| "call_status js sha can (Leave rid sub now) s =
     answered reservation_error_base 200 (fst (in_tx (repo_cancel_participation rid sub now) s))"
| "call_status js sha can (Cancel rid sub now) s = answered reservation_error_base 204 (fst (in_tx (repo_cancel rid sub now) s))"
| "call_status js sha can (AddComment dbnow rid sub name body) s =
     answered reservation_error_base 201 (fst (in_tx (add_comment dbnow rid sub name body) s))"
| "call_status js sha can (DeleteComment rid cid sub now admin) s =
     answered reservation_error_base 204 (fst (in_tx (repo_delete_comment rid cid sub now admin) s))"

text \<open>
  The part of the application under \<open>/reservations\<close>.  An id beyond the 32 bits of its column is the driver's error as
  soon as it is asked for, and nothing is changed.
\<close>

definition id_overflows :: "arg list \<Rightarrow> bool" where
  "id_overflows args = list_ex (\<lambda>a. case a of Int_Arg i \<Rightarrow> \<not> column_holds 32 i | _ \<Rightarrow> False) args"

definition handle ::
  "(reservation \<Rightarrow> 'j) \<Rightarrow> (string \<Rightarrow> string) \<Rightarrow> (string \<Rightarrow> create_request \<Rightarrow> string) \<Rightarrow> (string \<Rightarrow> int option) \<Rightarrow>
   auth_user auth_result \<Rightarrow> request \<Rightarrow> fields option \<Rightarrow> instant \<Rightarrow> instant \<Rightarrow> 'j rstate \<Rightarrow> int \<times> 'j rstate" where
  "handle js sha can parse current rq body now dbnow s =
     (if take 1 (rq_path rq) \<noteq> [''reservations''] then (404, s)
      else case respond parse current rq of
        Inl status \<Rightarrow> (status, s)
      | Inr (r, args, who) \<Rightarrow>
          (case who of
             None \<Rightarrow>
               if rt_calls r = ''list_reservations'' then (200, run_call js sha can (ListAll now) s)
               else if id_overflows args then (500, s)
               else if rt_calls r = ''get_reservation'' then
                 (answered reservation_error_base 200 (get_reservation (given_id args 0) s), s)
               else (200, s)
           | Some user \<Rightarrow>
               (case handler_call (rt_calls r) args user body now dbnow of
                  None \<Rightarrow> (422, s)
                | Some c \<Rightarrow> if id_overflows args then (500, s) else (call_status js sha can c s, run_call js sha can c s))))"

section \<open>Who acts\<close>

fun call_subject :: "call \<Rightarrow> string option" where
  "call_subject (Create now dbnow sub name q key) = Some sub"
| "call_subject (ListAll now) = None"
| "call_subject (Update rid sub q now1 now2) = Some sub"
| "call_subject (Join dbnow rid sub name ranks now) = Some sub"
| "call_subject (Leave rid sub now) = Some sub"
| "call_subject (Cancel rid sub now) = Some sub"
| "call_subject (AddComment dbnow rid sub name body) = Some sub"
| "call_subject (DeleteComment rid cid sub now admin) = Some sub"

lemma handler_call_acts: "handler_call name args user body now dbnow = Some c \<Longrightarrow> call_subject c = Some (au_username user) \<and> request_ok c"
  by (auto simp: handler_call_def checked_def split: if_splits option.splits fields.splits)

lemma listing_gets: "list_all (\<lambda>r. rt_calls r \<noteq> ''list_reservations'' \<or> rt_method r = GET) app_routes"
  by code_simp

lemma handle_cases:
  obtains (unchanged) "snd (handle js sha can parse current rq body now dbnow s) = s"
  | (listing) "rq_method rq = GET" "snd (handle js sha can parse current rq body now dbnow s) = run_call js sha can (ListAll now) s"
  | (acting) u c where "current = Inr u" "call_subject c = Some (au_username u)" "request_ok c"
      "snd (handle js sha can parse current rq body now dbnow s) = run_call js sha can c s"
proof (cases "take 1 (rq_path rq) = [''reservations'']")
  case here: True
  show thesis
  proof (cases "respond parse current rq")
    case (Inl status)
    then show thesis using here by (intro unchanged) (simp add: handle_def)
  next
    case (Inr answer)
    obtain r args who where answer: "answer = (r, args, who)" by (cases answer)
    have r: "r \<in> set app_routes" "rt_method r = rq_method rq" "gate_answer (rt_gate r) current = Inr who"
      using Inr by (auto simp: answer respond_Inr_iff dispatch_Handled)
    show thesis
    proof (cases who)
      case None
      have "rq_method rq = GET" if "rt_calls r = ''list_reservations''"
        using that r listing_gets by (auto simp: list_all_iff)
      then show thesis using here Inr None answer
        by (cases "rt_calls r = ''list_reservations''") (auto simp: handle_def intro: listing unchanged)
    next
      case (Some u)
      then have u: "current = Inr u" using r(3) by (auto simp: gate_answer_Inr split: gate.splits)
      show thesis
      proof (cases "handler_call (rt_calls r) args u body now dbnow")
        case None
        then show thesis using here Inr Some answer by (intro unchanged) (simp add: handle_def)
      next
        case (Some c)
        then show thesis using here Inr \<open>who = Some u\<close> answer u handler_call_acts [OF Some]
          by (cases "id_overflows args") (auto simp: handle_def intro: unchanged acting)
      qed
    qed
  qed
qed (auto simp: handle_def intro: unchanged)

text \<open>C37: Over HTTP nobody acts but the caller: a request to the reservations either changes nothing, or is a GET that
  lists them and does no more than let the finished ones end, or comes from a signed-in user and is one call of the
  service, well formed, made in that user's name.  So a caller without an account changes nothing except by listing.\<close>

theorem requests_act_as_caller:
  "let after = snd (handle js sha can parse current rq body now dbnow s) in
    after = s \<or> rq_method rq = GET \<and> app after = expire_finished now (app s) \<or>
    (\<exists>u c. current = Inr u \<and> call_subject c = Some (au_username u) \<and> request_ok c \<and> after = run_call js sha can c s)"
proof -
  have "app (run_call js sha can (ListAll now) s) = expire_finished now (app s)"
    by (simp add: list_reservations_def list_upcoming_def Let_def)
  then show ?thesis
    unfolding Let_def by (cases rule: handle_cases [of js sha can parse current rq body now dbnow s]) auto
qed

section \<open>Runs of requests\<close>

record http =
  ht_current :: "auth_user auth_result"
  ht_request :: request
  ht_body :: "fields option"
  ht_now :: instant
  ht_dbnow :: instant

definition serve :: "(reservation \<Rightarrow> 'j) \<Rightarrow> (string \<Rightarrow> string) \<Rightarrow> (string \<Rightarrow> create_request \<Rightarrow> string) \<Rightarrow> (string \<Rightarrow> int option) \<Rightarrow>
  http list \<Rightarrow> 'j rstate \<Rightarrow> 'j rstate" where
  "serve js sha can parse hs s = fold (\<lambda>h s. snd (handle js sha can parse (ht_current h) (ht_request h) (ht_body h) (ht_now h) (ht_dbnow h) s)) hs s"

lemma serve_reachable: "reachable js sha can (s, []) \<Longrightarrow> reachable js sha can (serve js sha can parse hs s, [])"
proof (induction hs arbitrary: s)
  case (Cons h hs)
  let ?s = "snd (handle js sha can parse (ht_current h) (ht_request h) (ht_body h) (ht_now h) (ht_dbnow h) s)"
  have "reachable js sha can (?s, [])"
    by (cases rule: handle_cases [of js sha can parse "ht_current h" "ht_request h" "ht_body h" "ht_now h" "ht_dbnow h" s])
      (use Cons.prems in \<open>auto simp del: run_call.simps intro: reachable_call\<close>)
  from Cons.IH [OF this] show ?case by (simp add: serve_def)
qed (simp add: serve_def)

text \<open>Whatever requests are made, by whom and in whatever order, the seats are right and nobody has two.\<close>

theorem served_seats_right:
  assumes "r \<in> set (reservations (app (serve js sha can parse hs empty_rstate)))"
  shows "row_ok (app (serve js sha can parse hs empty_rstate)) r \<and>
    distinct (map pr_subject (active (rr_id r) (app (serve js sha can parse hs empty_rstate))))"
proof -
  have "reservations_ok (app (serve js sha can parse hs empty_rstate))"
    using reachable_ok [OF serve_reachable [OF reachable_start]] by blast
  then show ?thesis using assms by (simp add: reservations_ok_def)
qed

definition demo_requests :: "http list" where
  "demo_requests =
     [\<lparr>ht_current = Inr admin_caller,
       ht_request = (bare_request POST [''reservations''])\<lparr>rq_headers := [(''idempotency-key'', ''k'')]\<rparr>,
       ht_body = Some (Create_Fields demo_request), ht_now = 0, ht_dbnow = 0\<rparr>,
      \<lparr>ht_current = Inl (Raises Invalid_Token), ht_request = bare_request POST [''reservations'', ''1'', ''participants''],
       ht_body = Some (Join_Fields [''B'']), ht_now = 1, ht_dbnow = 1\<rparr>,
      \<lparr>ht_current = Inr demo_user, ht_request = bare_request POST [''reservations'', ''1'', ''participants''],
       ht_body = Some (Join_Fields [''B'']), ht_now = 2, ht_dbnow = 2\<rparr>]"

theorem served_seats_right_witness:
  "map pr_subject (participants (app (serve (\<lambda>_. ()) id (\<lambda>x _. x) (\<lambda>_. Some 1) demo_requests empty_rstate))) = [Some (au_username demo_user)] \<and>
   row_ok (app (serve (\<lambda>_. ()) id (\<lambda>x _. x) (\<lambda>_. Some 1) demo_requests empty_rstate))
     (hd (reservations (app (serve (\<lambda>_. ()) id (\<lambda>x _. x) (\<lambda>_. Some 1) demo_requests empty_rstate))))"
proof -
  let ?s = "serve (\<lambda>_. ()) id (\<lambda>x _. x) (\<lambda>_. Some 1) demo_requests empty_rstate"
  have "map pr_subject (participants (app ?s)) = [Some (au_username demo_user)]" by code_simp
  moreover have "map rr_id (reservations (app ?s)) = [1]" by code_simp
  hence "hd (reservations (app ?s)) \<in> set (reservations (app ?s))" by (cases "reservations (app ?s)") auto
  ultimately show ?thesis using served_seats_right by blast
qed

end
