(* ===== verification/Idempotency_Race.thy ===== *)
theory Idempotency_Race
  imports Idempotency
begin

text \<open>
  Requests under one key that run at the same time: \<open>PostgresIdempotencyStore\<close> leaves it to the unique index who
  runs, so its claim, the write and its completion are steps of transactions that interleave.  As READ COMMITTED
  has it, an insert waits while another transaction holds the key uncommitted, and reads what is committed.
\<close>

section \<open>Transactions\<close>

record claimant =
  cm_subject :: string
  cm_key :: string
  cm_fingerprint :: string

definition key_at :: "claimant \<Rightarrow> string \<times> string" where
  "key_at q = (cm_subject q, cm_key q)"

datatype 'j phase = Asking | Claimed | Written 'j | Completed 'j | Answered 'j | Refused | Rolled_Back

fun holds_key :: "'j phase \<Rightarrow> bool" where
  "holds_key Claimed = True"
| "holds_key (Written j) = True"
| "holds_key (Completed j) = True"
| "holds_key _ = False"

text \<open>What is committed: the keys, and who wrote what in which order.  A transaction's own key is not committed yet.\<close>

record 'j racers =
  ra_keys :: "string \<times> string \<Rightarrow> (string \<times> 'j option) option"
  ra_order :: "(nat \<times> 'j) list"
  ra_phase :: "nat \<Rightarrow> 'j phase"

definition no_racers :: "'j racers" where
  "no_racers = \<lparr>ra_keys = (\<lambda>_. None), ra_order = [], ra_phase = (\<lambda>_. Asking)\<rparr>"

definition phase_to :: "nat \<Rightarrow> 'j phase \<Rightarrow> 'j racers \<Rightarrow> 'j racers" where
  "phase_to t p c = c\<lparr>ra_phase := (ra_phase c)(t := p)\<rparr>"

text \<open>What a transaction finds when it asks for its key and need not wait.\<close>

definition claim_finds :: "(nat \<Rightarrow> claimant) \<Rightarrow> nat \<Rightarrow> 'j racers \<Rightarrow> 'j phase" where
  "claim_finds q t c =
     (case ra_keys c (key_at (q t)) of
        Some (fp, answer) \<Rightarrow> if fp \<noteq> cm_fingerprint (q t) then Refused else case answer of Some j \<Rightarrow> Answered j | None \<Rightarrow> Claimed
      | None \<Rightarrow> Claimed)"

text \<open>The transaction's part committed with its answer.\<close>

definition commit_answer :: "(nat \<Rightarrow> claimant) \<Rightarrow> nat \<Rightarrow> 'j \<Rightarrow> 'j racers \<Rightarrow> 'j racers" where
  "commit_answer q t j c = c\<lparr>ra_keys := (ra_keys c)(key_at (q t) \<mapsto> (cm_fingerprint (q t), Some j)),
     ra_order := ra_order c @ [(t, j)]\<rparr>"

inductive race_step :: "(nat \<Rightarrow> claimant) \<Rightarrow> 'j racers \<Rightarrow> 'j racers \<Rightarrow> bool" for q where
  asks: "ra_phase c t = Asking \<Longrightarrow> (\<And>u. holds_key (ra_phase c u) \<Longrightarrow> key_at (q u) \<noteq> key_at (q t)) \<Longrightarrow>
    race_step q c (phase_to t (claim_finds q t c) c)"
| writes: "ra_phase c t = Claimed \<Longrightarrow> race_step q c (phase_to t (Written j) c)"
| completes: "ra_phase c t = Written j \<Longrightarrow> race_step q c (phase_to t (Completed j) c)"
| commits: "ra_phase c t = Completed j \<Longrightarrow> race_step q c (phase_to t (Answered j) (commit_answer q t j c))"
| rolls_back: "ra_phase c t = Asking \<or> holds_key (ra_phase c t) \<Longrightarrow> race_step q c (phase_to t Rolled_Back c)"

definition racing_reached :: "(nat \<Rightarrow> claimant) \<Rightarrow> 'j racers \<Rightarrow> bool" where
  "racing_reached q = (race_step q)\<^sup>*\<^sup>* no_racers"

section \<open>One after the other\<close>

text \<open>The same write as a call of the service alone, whose only table is the list of what was written.\<close>

definition run_alone :: "claimant \<Rightarrow> nat \<Rightarrow> 'j \<Rightarrow> ('j, (nat \<times> 'j) list) txstate \<Rightarrow> unit idem_error + ('j \<times> ('j, (nat \<times> 'j) list) txstate)" where
  "run_alone q t j = run_once pg_claim pg_complete id (cm_subject q) (cm_key q) (cm_fingerprint q) (on_app (\<lambda>log. Inr (j, log @ [(t, j)])))"

definition one_by_one :: "(nat \<Rightarrow> claimant) \<Rightarrow> (nat \<times> 'j) list \<Rightarrow> ('j, (nat \<times> 'j) list) txstate" where
  "one_by_one q order = fold (\<lambda>(t, j) s. snd (transact (run_alone (q t) t j) s)) order \<lparr>idem_rows = [], app = []\<rparr>"

lemma run_alone_first:
  assumes "stored_keys s (key_at q) = None"
  shows "\<exists>s'. run_alone q t j s = Inr (j, s') \<and> app s' = app s @ [(t, j)] \<and>
    stored_keys s' = (stored_keys s)(key_at q \<mapsto> (cm_fingerprint q, Some j))"
proof -
  have free: "stored_keys s (cm_subject q, cm_key q) = None" using assms by (simp add: key_at_def)
  then have "find (\<lambda>r. key_of r = (cm_subject q, cm_key q)) (idem_rows s) = None" by (simp add: stored_keys_def)
  then obtain s' where run: "run_alone q t j s = Inr (j, s')" and "app s' = app s @ [(t, j)]"
    by (simp add: run_alone_def run_once_def pg_claim_def on_app_def pg_complete_def)
  with pg.run_once_first [OF free on_app_keeps_keys run [unfolded run_alone_def]] show ?thesis by (simp add: key_at_def)
qed

lemma run_alone_answered: "stored_keys s (key_at q) = Some (cm_fingerprint q, Some j) \<Longrightarrow> run_alone q t j' s = Inr (j, s)"
  unfolding run_alone_def key_at_def by (rule pg.run_once_answered)

lemma run_alone_refused:
  "stored_keys s (key_at q) = Some (fp, r) \<Longrightarrow> fp \<noteq> cm_fingerprint q \<Longrightarrow> run_alone q t j s = Inl IdempotencyKeyReusedError"
  unfolding run_alone_def key_at_def by (rule pg.run_once_reused)

section \<open>What always holds\<close>

definition race_ok :: "(nat \<Rightarrow> claimant) \<Rightarrow> 'j racers \<Rightarrow> bool" where
  "race_ok q c \<longleftrightarrow>
     (\<forall>k fp. ra_keys c k \<noteq> Some (fp, None)) \<and>
     (\<forall>t. holds_key (ra_phase c t) \<longrightarrow> ra_keys c (key_at (q t)) = None) \<and>
     (\<forall>t u. holds_key (ra_phase c t) \<and> holds_key (ra_phase c u) \<and> key_at (q t) = key_at (q u) \<longrightarrow> t = u) \<and>
     (\<forall>t j. ra_phase c t = Answered j \<longrightarrow> ra_keys c (key_at (q t)) = Some (cm_fingerprint (q t), Some j)) \<and>
     (\<forall>t. ra_phase c t = Refused \<longrightarrow> (\<exists>fp r. ra_keys c (key_at (q t)) = Some (fp, r) \<and> fp \<noteq> cm_fingerprint (q t))) \<and>
     stored_keys (one_by_one q (ra_order c)) = ra_keys c \<and> app (one_by_one q (ra_order c)) = ra_order c \<and>
     (\<forall>t\<in>set (map fst (ra_order c)). ra_keys c (key_at (q t)) \<noteq> None) \<and> distinct (map (\<lambda>(t, j). key_at (q t)) (ra_order c))"

lemma race_ok_start: "race_ok q no_racers"
  by (simp add: race_ok_def no_racers_def one_by_one_def stored_keys_def fun_eq_iff)

lemma race_ok_step:
  assumes "race_step q c c'" "race_ok q c"
  shows "race_ok q c'"
  using assms
proof cases
  case (asks t)
  then have "\<And>u. holds_key (ra_phase c u) \<Longrightarrow> key_at (q t) \<noteq> key_at (q u)" by metis
  then show ?thesis using assms(2) asks unfolding race_ok_def claim_finds_def phase_to_def
    by (auto simp del: split_paired_All split_paired_Ex split: option.splits if_splits prod.splits)
next
  case (commits t j)
  let ?k = "key_at (q t)" and ?order = "ra_order c @ [(t, j)]"
  have free: "ra_keys c ?k = None" and others: "\<And>u. holds_key (ra_phase c u) \<Longrightarrow> u \<noteq> t \<Longrightarrow> key_at (q u) \<noteq> ?k"
    using assms(2) commits(2) unfolding race_ok_def by (metis holds_key.simps(3))+
  then obtain s' where "run_alone (q t) t j (one_by_one q (ra_order c)) = Inr (j, s')"
      "app s' = ?order" "stored_keys s' = (ra_keys c)(?k \<mapsto> (cm_fingerprint (q t), Some j))"
    using run_alone_first [of "one_by_one q (ra_order c)" "q t" t j] assms(2) by (auto simp: race_ok_def)
  then have after: "app (one_by_one q ?order) = ?order"
      "stored_keys (one_by_one q ?order) = (ra_keys c)(?k \<mapsto> (cm_fingerprint (q t), Some j))"
    by (simp_all add: one_by_one_def transact_def)
  have "\<forall>u\<in>set (map fst (ra_order c)). key_at (q u) \<noteq> ?k" using assms(2) free unfolding race_ok_def by metis
  then have once: "distinct (map (\<lambda>(t, j). key_at (q t)) ?order)" using assms(2) unfolding race_ok_def by auto
  have ended: "\<And>u j'. ra_phase c u = Answered j' \<Longrightarrow> key_at (q u) \<noteq> ?k" "\<And>u. ra_phase c u = Refused \<Longrightarrow> key_at (q u) \<noteq> ?k"
    using assms(2) free unfolding race_ok_def by (metis option.distinct(1))+
  show ?thesis unfolding commits(1) race_ok_def phase_to_def commit_answer_def
    by (use assms(2) [unfolded race_ok_def] others ended free after once in
        \<open>auto simp del: split_paired_All split_paired_Ex map_append distinct_map\<close>)
qed (auto simp: race_ok_def phase_to_def)

lemma reached_race_ok: "racing_reached q c \<Longrightarrow> race_ok q c"
  unfolding racing_reached_def by (induction rule: rtranclp_induct) (auto intro: race_ok_start race_ok_step)

section \<open>What the index promises\<close>

text \<open>C15: Requests under one key that run at the same time are as if they had run one after the other: however their
  claims, writes, commits and failures interleave, the keys and what was written are those of the service called
  once for each commit, in their order; nothing is written twice under a key; and whoever has been answered would,
  asking again alone, get that answer and write nothing, and whoever has been refused would be refused.\<close>

theorem duplicates_run_once:
  assumes "racing_reached q c"
  shows "let s = one_by_one q (ra_order c) in
    app s = ra_order c \<and> stored_keys s = ra_keys c \<and> distinct (map (\<lambda>(t, j). key_at (q t)) (ra_order c)) \<and>
    (ra_phase c t = Answered j \<longrightarrow> run_alone (q t) t j' s = Inr (j, s)) \<and>
    (ra_phase c t = Refused \<longrightarrow> run_alone (q t) t j' s = Inl IdempotencyKeyReusedError)"
proof -
  let ?s = "one_by_one q (ra_order c)"
  have ok: "race_ok q c" using assms by (rule reached_race_ok)
  then have s: "app ?s = ra_order c" "stored_keys ?s = ra_keys c" "distinct (map (\<lambda>(t, j). key_at (q t)) (ra_order c))"
    by (simp_all add: race_ok_def)
  moreover have "run_alone (q t) t j' ?s = Inr (j, ?s)" if "ra_phase c t = Answered j"
    using ok that s(2) by (intro run_alone_answered) (simp add: race_ok_def)
  moreover have "run_alone (q t) t j' ?s = Inl IdempotencyKeyReusedError" if "ra_phase c t = Refused"
    using ok that s(2) unfolding race_ok_def by (metis run_alone_refused)
  ultimately show ?thesis by (simp add: Let_def)
qed

definition demo_claimants :: "nat \<Rightarrow> claimant" where
  "demo_claimants t = \<lparr>cm_subject = ''kim'', cm_key = ''k'', cm_fingerprint = (if t = 2 then ''g'' else ''f'')\<rparr>"

lemma demo_race:
  "\<exists>c. racing_reached demo_claimants c \<and> ra_order c = [(0, ''a'')] \<and> ra_phase c 1 = Answered ''a'' \<and> ra_phase c 2 = Refused"
proof -
  let ?q = demo_claimants
  define c1 where "c1 = phase_to 0 Claimed (no_racers :: string racers)"
  define c4 where "c4 = phase_to 0 (Answered ''a'') (commit_answer ?q 0 ''a'' (phase_to 0 (Completed ''a'') (phase_to 0 (Written ''a'') c1)))"
  define c5 where "c5 = phase_to 1 (Answered ''a'') c4"
  have finds: "claim_finds ?q 0 no_racers = Claimed" "claim_finds ?q 1 c4 = Answered ''a''" "claim_finds ?q 2 c5 = Refused"
    by (simp_all add: claim_finds_def no_racers_def c1_def c4_def c5_def phase_to_def commit_answer_def demo_claimants_def key_at_def)
  have phases: "ra_phase c4 = (\<lambda>_. Asking)(0 := Answered ''a'')" "ra_phase c5 = (\<lambda>_. Asking)(0 := Answered ''a'', 1 := Answered ''a'')"
    by (simp_all add: c1_def c4_def c5_def phase_to_def commit_answer_def no_racers_def)
  have "race_step ?q no_racers c1"
    unfolding c1_def by (rule asks [of no_racers 0 ?q, unfolded finds(1)]) (simp_all add: no_racers_def)
  moreover have "race_step ?q c1 (phase_to 0 (Written ''a'') c1)" by (rule writes) (simp add: c1_def phase_to_def)
  moreover have "race_step ?q (phase_to 0 (Written ''a'') c1) (phase_to 0 (Completed ''a'') (phase_to 0 (Written ''a'') c1))"
    by (rule completes) (simp add: phase_to_def)
  moreover have "race_step ?q (phase_to 0 (Completed ''a'') (phase_to 0 (Written ''a'') c1)) c4"
    unfolding c4_def by (rule commits) (simp add: phase_to_def)
  moreover have "race_step ?q c4 c5"
    unfolding c5_def by (rule asks [of c4 1 ?q, unfolded finds(2)]) (auto simp: phases split: if_splits)
  moreover have "race_step ?q c5 (phase_to 2 Refused c5)"
    by (rule asks [of c5 2 ?q, unfolded finds(3)]) (auto simp: phases split: if_splits)
  ultimately have "racing_reached ?q (phase_to 2 Refused c5)"
    unfolding racing_reached_def by (meson converse_rtranclp_into_rtranclp rtranclp.rtrancl_refl)
  then show ?thesis
    by (intro exI [of _ "phase_to 2 Refused c5"]) (simp add: c5_def c4_def c1_def phase_to_def commit_answer_def no_racers_def)
qed

theorem duplicates_run_once_witness:
  "\<exists>c. racing_reached demo_claimants c \<and> ra_order c = [(0, ''a'')] \<and>
     run_alone (demo_claimants 1) 1 ''b'' (one_by_one demo_claimants [(0, ''a'')]) = Inr (''a'', one_by_one demo_claimants [(0, ''a'')]) \<and>
     run_alone (demo_claimants 2) 2 ''b'' (one_by_one demo_claimants [(0, ''a'')]) = Inl IdempotencyKeyReusedError"
proof -
  obtain c where c: "racing_reached demo_claimants c" "ra_order c = [(0, ''a'')]" "ra_phase c 1 = Answered ''a''" "ra_phase c 2 = Refused"
    using demo_race by blast
  from duplicates_run_once [OF c(1), of 1 "''a''" "''b''"] duplicates_run_once [OF c(1), of 2 "''a''" "''b''"] c show ?thesis
    by (auto simp: Let_def)
qed

text \<open>Nobody waits for ever: while a request is not over, it or the one it waits for can go on.\<close>

theorem no_duplicate_stuck:
  assumes "ra_phase c t = Asking \<or> holds_key (ra_phase c t)"
  shows "\<exists>u c'. key_at (q u) = key_at (q t) \<and> race_step q c c' \<and> ra_phase c' u \<notin> {ra_phase c u, Rolled_Back}"
proof -
  have goes_on: "\<exists>c'. race_step q c c' \<and> ra_phase c' u \<notin> {ra_phase c u, Rolled_Back}" if "holds_key (ra_phase c u)" for u
  proof (cases "ra_phase c u")
    case Claimed
    then show ?thesis using writes [of c u q undefined] by (intro exI [of _ "phase_to u (Written undefined) c"]) (simp add: phase_to_def)
  next
    case (Written j)
    then show ?thesis using completes [of c u j q] by (intro exI [of _ "phase_to u (Completed j) c"]) (simp add: phase_to_def)
  next
    case (Completed j)
    then show ?thesis using commits [of c u j q]
      by (intro exI [of _ "phase_to u (Answered j) (commit_answer q u j c)"]) (simp add: phase_to_def)
  qed (use that in auto)
  show ?thesis
  proof (cases "\<exists>u. holds_key (ra_phase c u) \<and> key_at (q u) = key_at (q t)")
    case True
    then show ?thesis using goes_on by blast
  next
    case False
    then have asking: "ra_phase c t = Asking" using assms by blast
    have "race_step q c (phase_to t (claim_finds q t c) c)" using False by (intro asks asking) blast
    moreover have "ra_phase (phase_to t (claim_finds q t c) c) t \<notin> {Asking, Rolled_Back}"
      by (auto simp: phase_to_def claim_finds_def split: option.splits prod.splits if_splits)
    ultimately show ?thesis using asking by metis
  qed
qed

end
