(* ===== verification/Records_Rows.thy ===== *)
theory Records_Rows
  imports Records_Repo Account_Api
begin

text \<open>
  How \<open>src/records/adapters/postgresql.py\<close> keeps the compared saves and the queue in their rows: the tallies of a save
  as a JSONB object with the character's number as the key's text, results and statuses as text.  The rows implement
  the saves and events of \<open>Records_Repo\<close>.
\<close>

section \<open>A save's row\<close>

text \<open>The list under a character: a state kept before ranks has two members.\<close>

datatype stored_tally = Tally2 int int | Tally3 int int "nat option"

type_synonym jsonb = "(string \<times> stored_tally) list"

definition dump_tally :: "char_tally \<Rightarrow> stored_tally" where
  "dump_tally t = Tally3 (ct_wins t) (ct_losses t) (ct_rank t)"

definition dump_tallies :: "(nat \<times> char_tally) list \<Rightarrow> jsonb" where
  "dump_tallies tallies = map (\<lambda>(c, t). (decimal c, dump_tally t)) tallies"

fun load_tally :: "stored_tally \<Rightarrow> char_tally" where
  "load_tally (Tally2 w l) = \<lparr>ct_wins = w, ct_losses = l, ct_rank = None\<rparr>"
| "load_tally (Tally3 w l r) = \<lparr>ct_wins = w, ct_losses = l, ct_rank = r\<rparr>"

text \<open>\<open>int(char_id)\<close> on a key, which is the text of a number as the JSON encoder wrote it.\<close>

definition is_digit :: "char \<Rightarrow> bool" where
  "is_digit c = (let n = (of_char c :: nat) in 48 \<le> n \<and> n \<le> 57)"

definition load_key :: "string \<Rightarrow> py_exc + nat" where
  "load_key s = (if s \<noteq> [] \<and> list_all is_digit s then Inr (fold (\<lambda>c n. 10 * n + (of_char c - 48)) s 0) else Inl ValueError)"

definition load_tallies :: "jsonb \<Rightarrow> py_exc + (nat \<times> char_tally) list" where
  "load_tallies j =
     bindR (mapR (\<lambda>(k, t). bindR (load_key k) (\<lambda>c. Inr (c, load_tally t))) j) (\<lambda>items.
     Inr (fold (\<lambda>(c, t). AList.update c t) items []))"

record state_row =
  sr_npid :: string
  sr_data_id :: nat
  sr_saved_at :: instant
  sr_wins :: int
  sr_losses :: int
  sr_chars :: jsonb
  sr_start_chars :: "nat list"
  sr_merged_count :: nat

definition to_save :: "state_row \<Rightarrow> py_exc + player_save" where
  "to_save r =
     bindR (load_tallies (sr_chars r)) (\<lambda>tallies.
     Inr \<lparr>sv_npid = sr_npid r, sv_data_id = sr_data_id r, sv_saved_at = sr_saved_at r, sv_wins = sr_wins r,
          sv_losses = sr_losses r, sv_tallies = tallies, sv_entered_chars = sr_start_chars r\<rparr>)"

section \<open>An event's row\<close>

fun outcome_text :: "outcome \<Rightarrow> string" where
  "outcome_text WIN = ''win''"
| "outcome_text LOSS = ''loss''"

definition outcome_of_text :: "string \<Rightarrow> py_exc + outcome" where
  "outcome_of_text s = (if s = ''win'' then Inr WIN else if s = ''loss'' then Inr LOSS else Inl ValueError)"

fun status_text :: "event_status \<Rightarrow> string" where
  "status_text PENDING = ''pending''"
| "status_text DONE = ''done''"
| "status_text DEAD = ''dead''"

record stored_event =
  se_id :: nat
  se_npid :: string
  se_data_id :: nat
  se_result :: string
  se_chars :: "nat list"
  se_ranks :: "nat option list option"
  se_saved_at :: instant
  se_status :: string
  se_attempts :: nat
  se_available_at :: instant
  se_last_error :: "string option"

record match_event =
  ev_id :: nat
  ev_npid :: string
  ev_outcome :: outcome
  ev_chars :: "nat list"
  ev_saved_at :: instant
  ev_ranks :: "nat option list option"
  ev_attempts :: nat

definition to_event :: "stored_event \<Rightarrow> py_exc + match_event" where
  "to_event r =
     bindR (outcome_of_text (se_result r)) (\<lambda>out.
     Inr \<lparr>ev_id = se_id r, ev_npid = se_npid r, ev_outcome = out, ev_chars = se_chars r,
          ev_saved_at = se_saved_at r, ev_ranks = se_ranks r, ev_attempts = se_attempts r\<rparr>)"

section \<open>The tables\<close>

record rowdb =
  rw_states :: "(string \<times> state_row) list"
  rw_events :: "stored_event list"
  rw_matches :: "match_row list"
  rw_next_event_id :: nat
  rw_next_match_id :: nat

definition empty_rowdb :: rowdb where
  "empty_rowdb = \<lparr>rw_states = [], rw_events = [], rw_matches = [], rw_next_event_id = 1, rw_next_match_id = 1\<rparr>"

definition row_latest_data_id :: "rowdb \<Rightarrow> nat" where
  "row_latest_data_id db = fold max (map (\<lambda>(_, r). sr_data_id r) (rw_states db)) 0"

definition row_lock_state :: "string \<Rightarrow> rowdb \<Rightarrow> py_exc + player_save option" where
  "row_lock_state npid db =
     (case map_of (rw_states db) npid of None \<Rightarrow> Inr None | Some r \<Rightarrow> bindR (to_save r) (\<lambda>s. Inr (Some s)))"

text \<open>What the database makes of an object it is given to keep is the argument \<open>keep\<close>.\<close>

definition row_save_state :: "(jsonb \<Rightarrow> jsonb) \<Rightarrow> player_save \<Rightarrow> bool \<Rightarrow> rowdb \<Rightarrow> rowdb" where
  "row_save_state keep save merged db =
     (let n = (case map_of (rw_states db) (sv_npid save) of
                 None \<Rightarrow> 0 | Some r \<Rightarrow> sr_merged_count r + (if merged then 1 else 0));
          row = \<lparr>sr_npid = sv_npid save, sr_data_id = sv_data_id save, sr_saved_at = sv_saved_at save,
                 sr_wins = sv_wins save, sr_losses = sv_losses save, sr_chars = keep (dump_tallies (sv_tallies save)),
                 sr_start_chars = sv_entered_chars save, sr_merged_count = n\<rparr>
      in db\<lparr>rw_states := AList.update (sv_npid save) row (rw_states db)\<rparr>)"

definition row_add_event :: "player_save \<Rightarrow> player_match \<Rightarrow> instant \<Rightarrow> rowdb \<Rightarrow> rowdb" where
  "row_add_event save m now db =
     (let row = \<lparr>se_id = rw_next_event_id db, se_npid = sv_npid save, se_data_id = sv_data_id save,
                 se_result = outcome_text (pm_outcome m), se_chars = pm_chars m, se_ranks = Some (pm_ranks m),
                 se_saved_at = sv_saved_at save, se_status = ''pending'', se_attempts = 0, se_available_at = now,
                 se_last_error = None\<rparr>;
          rows = rw_events db
      in db\<lparr>rw_events := (if (se_npid row, se_data_id row) \<in> set (map (\<lambda>e. (se_npid e, se_data_id e)) rows)
                            then rows else rows @ [row]),
            rw_next_event_id := Suc (rw_next_event_id db)\<rparr>)"

definition row_claim_event :: "instant \<Rightarrow> rowdb \<Rightarrow> py_exc + match_event option" where
  "row_claim_event now db =
     (case sort_key se_id (filter (\<lambda>e. se_status e = ''pending'' \<and> se_available_at e \<le> now) (rw_events db)) of
        [] \<Rightarrow> Inr None | e # _ \<Rightarrow> bindR (to_event e) (\<lambda>ev. Inr (Some ev)))"

definition row_finish_event :: "nat \<Rightarrow> rowdb \<Rightarrow> rowdb" where
  "row_finish_event eid db = db\<lparr>rw_events := update_where (\<lambda>e. se_id e = eid)
     (\<lambda>e. e\<lparr>se_status := ''done'', se_last_error := None\<rparr>) (rw_events db)\<rparr>"

definition row_fail_event :: "match_event \<Rightarrow> string \<Rightarrow> instant \<Rightarrow> rowdb \<Rightarrow> rowdb" where
  "row_fail_event ev msg now db =
     (let attempts = ev_attempts ev + 1 in
      db\<lparr>rw_events := update_where (\<lambda>e. se_id e = ev_id ev)
        (\<lambda>e. e\<lparr>se_attempts := attempts, se_last_error := Some msg, se_available_at := now + retry_delay * int attempts,
          se_status := if attempts \<ge> max_attempts then ''dead'' else ''pending''\<rparr>) (rw_events db)\<rparr>)"

text \<open>An advisory lock of the transaction changes no row.\<close>

definition row_lock_room :: "nat \<Rightarrow> rowdb \<Rightarrow> rowdb" where
  "row_lock_room room_snapshot_id db = db"

definition row_fill_side :: "match_event \<Rightarrow> rank_room \<Rightarrow> side \<Rightarrow> side \<Rightarrow> rowdb \<Rightarrow> bool \<times> rowdb" where
  "row_fill_side ev room s winner db =
     (let fits = (\<lambda>m. mt_room_snapshot_id m = Some (rr_room_snapshot_id room) \<and> mt_winner m = winner \<and> event_on s m = None \<and>
            ev_saved_at ev - same_match_window \<le> mt_played_at m \<and> mt_played_at m \<le> ev_saved_at ev + same_match_window)
      in case sort_key (\<lambda>m. \<bar>mt_played_at m - ev_saved_at ev\<bar>) (filter fits (rw_matches db)) of
        [] \<Rightarrow> (False, db)
      | m # _ \<Rightarrow> (True, db\<lparr>rw_matches := update_where (\<lambda>x. mt_id x = mt_id m) (set_event s (ev_id ev)) (rw_matches db)\<rparr>))"

definition row_add_match :: "match_event \<Rightarrow> rank_room option \<Rightarrow> side \<Rightarrow> side \<Rightarrow> rowdb \<Rightarrow> rowdb" where
  "row_add_match ev room s winner db =
     (let row = \<lparr>mt_id = rw_next_match_id db, mt_played_at = ev_saved_at ev,
                 mt_room_snapshot_id = map_option rr_room_snapshot_id room,
                 mt_p1_npid = (case room of None \<Rightarrow> ev_npid ev | Some r \<Rightarrow> rr_user1_npid r),
                 mt_p2_npid = map_option rr_user2_npid room, mt_winner = winner,
                 mt_p1_event_id = (if s = P1 then Some (ev_id ev) else None),
                 mt_p2_event_id = (if s = P2 then Some (ev_id ev) else None)\<rparr>
      in db\<lparr>rw_matches := rw_matches db @ [row], rw_next_match_id := Suc (rw_next_match_id db)\<rparr>)"

section \<open>Reading the rows\<close>

definition row_player :: "string \<Rightarrow> side \<Rightarrow> match_row \<Rightarrow> stored_event option \<Rightarrow> rank_match_row option \<Rightarrow> match_player" where
  "row_player npid s m event room =
     \<lparr>mp_npid = npid, mp_online_name = (case room of None \<Rightarrow> None | Some r \<Rightarrow> online_name_of r npid),
      mp_outcome = outcome_of s (mt_winner m), mp_chars = map_option se_chars event,
      mp_ranks = (case event of None \<Rightarrow> None | Some e \<Rightarrow> se_ranks e)\<rparr>"

definition row_find_event :: "nat option \<Rightarrow> rowdb \<Rightarrow> stored_event option" where
  "row_find_event eid db = (case eid of None \<Rightarrow> None | Some i \<Rightarrow> find (\<lambda>e. se_id e = i) (rw_events db))"

definition row_recorded_match :: "hdb \<Rightarrow> rowdb \<Rightarrow> match_row \<Rightarrow> recorded_match" where
  "row_recorded_match h db m =
     (let room = find_room (mt_room_snapshot_id m) h in
      \<lparr>rec_id = mt_id m, rec_played_at = mt_played_at m,
       rec_p1 = row_player (mt_p1_npid m) P1 m (row_find_event (mt_p1_event_id m) db) room,
       rec_p2 = map_option (\<lambda>n. row_player n P2 m (row_find_event (mt_p2_event_id m) db) room) (mt_p2_npid m)\<rparr>)"

definition row_list_matches ::
  "string option \<Rightarrow> string option \<Rightarrow> nat option \<Rightarrow> nat \<Rightarrow> hdb \<Rightarrow> rowdb \<Rightarrow> recorded_match list" where
  "row_list_matches npid name_query before limit h db =
     map (row_recorded_match h db)
       (take limit (sort_key (\<lambda>m. - int (mt_id m)) (filter (match_wanted npid name_query before h) (rw_matches db))))"

section \<open>What the database promises\<close>

text \<open>PostgreSQL keeps every member of an object whose keys differ, in an order of its own.\<close>

definition keeps_members :: "(jsonb \<Rightarrow> jsonb) \<Rightarrow> bool" where
  "keeps_members keep \<longleftrightarrow>
     (\<forall>j. distinct (map fst j) \<longrightarrow> distinct (map fst (keep j)) \<and> set (keep j) = set j)"

section \<open>Reading back\<close>

lemma is_digit_char: "k < 10 \<Longrightarrow> is_digit (char_of (48 + k :: nat))"
  by (simp add: is_digit_def Let_def)

lemma decimal_digits: "decimal n \<noteq> [] \<and> list_all is_digit (decimal n)"
proof (induction n rule: decimal.induct)
  case (1 n)
  show ?case
  proof (cases "n < 10")
    case True
    then show ?thesis by (simp add: decimal.simps [of n] is_digit_char)
  next
    case False
    with 1 show ?thesis by (simp add: decimal.simps [of n] is_digit_char)
  qed
qed

lemma load_key_decimal [simp]: "load_key (decimal n) = Inr n"
  by (simp add: load_key_def decimal_digits decimal_value)

lemma load_dump_tally [simp]: "load_tally (dump_tally t) = t"
  by (simp add: dump_tally_def)

lemma map_of_fold_update: "map_of (fold (\<lambda>(c, t). AList.update c t) xs ys) = map_of ys ++ map_of (rev xs)"
  by (induction xs arbitrary: ys) (auto simp: AList.update_conv' map_add_upd_left map_add_def fun_eq_iff split: option.splits)

lemma distinct_fold_update: "distinct (map fst ys) \<Longrightarrow> distinct (map fst (fold (\<lambda>(c, t). AList.update c t) xs ys))"
  by (induction xs arbitrary: ys) (auto simp: AList.distinct_update)

lemma map_of_rev_distinct: "distinct (map fst xs) \<Longrightarrow> map_of (rev xs) = map_of xs"
  by (rule map_of_inject_set [THEN iffD2]) (auto simp: rev_map [symmetric])

text \<open>What is read back answers every lookup as what was written.\<close>

lemma load_kept:
  assumes "keeps_members keep" "distinct (map fst tallies)"
  shows "\<exists>read. load_tallies (keep (dump_tallies tallies)) = Inr read \<and> map_of read = map_of tallies"
proof -
  let ?j = "keep (dump_tallies tallies)"
  let ?item = "\<lambda>(k, t). bindR (load_key k) (\<lambda>c. Inr (c, load_tally t))"
  have "map fst (dump_tallies tallies) = map decimal (map fst tallies)" by (simp add: dump_tallies_def split_beta)
  hence "distinct (map fst (dump_tallies tallies))"
    using assms(2) by (simp add: distinct_map [of decimal] inj_on_def del: map_map)
  with assms(1) have j: "distinct (map fst ?j)" "set ?j = set (dump_tallies tallies)" by (auto simp: keeps_members_def)
  define key where "key k = (case load_key k of Inr c \<Rightarrow> c | Inl _ \<Rightarrow> 0)" for k
  define items where "items = map (\<lambda>(k, t). (key k, load_tally t)) ?j"
  have "?item x = Inr (case x of (k, t) \<Rightarrow> (key k, load_tally t))" if "x \<in> set ?j" for x
    using that unfolding j(2) by (auto simp: dump_tallies_def key_def)
  hence items: "mapR ?item ?j = Inr items" unfolding items_def by (rule mapR_pure)
  have members: "set items = set tallies"
  proof -
    have "set items = (\<lambda>(k, t). (key k, load_tally t)) ` set (dump_tallies tallies)" by (simp add: items_def j(2))
    also have "\<dots> = set tallies" by (simp add: dump_tallies_def image_image split_beta key_def)
    finally show ?thesis .
  qed
  have "fst ` set ?j \<subseteq> range decimal" unfolding j(2) by (auto simp: dump_tallies_def)
  moreover have "inj_on key (range decimal)" by (auto simp: inj_on_def key_def)
  ultimately have "inj_on key (fst ` set ?j)" by (rule inj_on_subset [rotated])
  moreover have "map fst items = map key (map fst ?j)" by (simp add: items_def split_beta)
  ultimately have "distinct (map fst items)" using j(1) by (simp add: distinct_map [of key] del: map_map)
  with assms(2) members have "map_of (rev items) = map_of tallies"
    by (metis map_of_inject_set map_of_rev_distinct)
  with items show ?thesis by (simp add: load_tallies_def map_of_fold_update)
qed

section \<open>Rows implement saves and events\<close>

text \<open>Two saves with the same numbers and, whatever their order, the same tallies compare alike.\<close>

definition same_save :: "player_save \<Rightarrow> player_save \<Rightarrow> bool" where
  "same_save a b \<longleftrightarrow> a\<lparr>sv_tallies := []\<rparr> = b\<lparr>sv_tallies := []\<rparr> \<and> map_of (sv_tallies a) = map_of (sv_tallies b)"

lemma same_saveD:
  assumes "same_save a b"
  shows "sv_data_id a = sv_data_id b" "compare a after = compare b after"
proof -
  have eqs: "sv_data_id a = sv_data_id b" "sv_wins a = sv_wins b" "sv_losses a = sv_losses b"
    "sv_entered_chars a = sv_entered_chars b" "tally_of a = tally_of b"
    using assms by (cases a; cases b; simp add: same_save_def tally_of_def fun_eq_iff)+
  show "sv_data_id a = sv_data_id b" by (rule eqs)
  have "raised a after = raised b after" by (simp add: raised_def eqs fun_eq_iff)
  hence "played a after = played b after" by (simp add: played_def eqs fun_eq_iff)
  moreover have "rank_going_in a after = rank_going_in b after" by (simp add: rank_going_in_def eqs fun_eq_iff)
  ultimately show "compare a after = compare b after" by (simp add: compare_def eqs split: option.split)
qed

definition stored_event_of :: "event_row \<Rightarrow> stored_event" where
  "stored_event_of e =
     \<lparr>se_id = me_id e, se_npid = me_npid e, se_data_id = me_data_id e, se_result = outcome_text (me_result e),
      se_chars = me_chars e, se_ranks = me_ranks e, se_saved_at = me_saved_at e,
      se_status = status_text (me_status e), se_attempts = me_attempts e, se_available_at = me_available_at e,
      se_last_error = me_last_error e\<rparr>"

lemma se_id_stored [simp]: "se_id (stored_event_of e) = me_id e"
  by (simp add: stored_event_of_def)

definition match_event_of :: "event_row \<Rightarrow> match_event" where
  "match_event_of e =
     \<lparr>ev_id = me_id e, ev_npid = me_npid e, ev_outcome = me_result e, ev_chars = me_chars e,
      ev_saved_at = me_saved_at e, ev_ranks = me_ranks e, ev_attempts = me_attempts e\<rparr>"

lemma match_event_of_fields [simp]:
  "ev_id (match_event_of e) = me_id e" "ev_npid (match_event_of e) = me_npid e" "ev_outcome (match_event_of e) = me_result e"
  "ev_saved_at (match_event_of e) = me_saved_at e" "ev_attempts (match_event_of e) = me_attempts e"
  by (simp_all add: match_event_of_def)

definition shows_state :: "string \<times> state_row \<Rightarrow> string \<times> save_state_row \<Rightarrow> bool" where
  "shows_state x y \<longleftrightarrow> fst x = fst y \<and> sr_data_id (snd x) = sv_data_id (ss_save (snd y)) \<and>
     sr_merged_count (snd x) = ss_merged_count (snd y) \<and>
     (\<exists>save. to_save (snd x) = Inr save \<and> same_save save (ss_save (snd y)))"

definition rows_show :: "rowdb \<Rightarrow> recdb \<Rightarrow> bool" where
  "rows_show R A \<longleftrightarrow> list_all2 shows_state (rw_states R) (save_states A) \<and>
     rw_events R = map stored_event_of (match_events A) \<and> rw_next_event_id R = next_event_id A \<and>
     rw_matches R = matches A \<and> rw_next_match_id R = next_match_id A"

lemma rows_show_empty [simp]: "rows_show empty_rowdb empty_recdb"
  by (simp add: rows_show_def empty_rowdb_def empty_recdb_def)

lemma to_event_stored [simp]: "to_event (stored_event_of e) = Inr (match_event_of e)"
  by (cases "me_result e") (simp_all add: to_event_def stored_event_of_def match_event_of_def outcome_of_text_def)

lemma status_text_pending [simp]: "status_text s = ''pending'' \<longleftrightarrow> s = PENDING"
  by (cases s) auto

lemma row_claim:
  assumes "rows_show R A"
  shows "row_claim_event now R = Inr (map_option match_event_of (claim_event now A))"
proof -
  have "filter (\<lambda>e. se_status e = ''pending'' \<and> se_available_at e \<le> now) (rw_events R) =
      map stored_event_of (filter (\<lambda>e. me_status e = PENDING \<and> me_available_at e \<le> now) (match_events A))"
    using assms by (simp add: rows_show_def filter_map comp_def stored_event_of_def)
  moreover have "se_id \<circ> stored_event_of = me_id" by (simp add: fun_eq_iff stored_event_of_def)
  ultimately show ?thesis by (simp add: row_claim_event_def claim_event_def sort_key_map split: list.split)
qed

lemma lookup_shown:
  "list_all2 shows_state xs ys \<Longrightarrow>
     (case map_of ys k of None \<Rightarrow> map_of xs k = None
      | Some s \<Rightarrow> \<exists>r. map_of xs k = Some r \<and> shows_state (k, r) (k, s))"
  by (induction rule: list_all2_induct) (auto simp: shows_state_def split: option.splits)

lemma lock_shown:
  assumes "rows_show R A"
  shows "\<exists>locked. row_lock_state npid R = Inr locked \<and> rel_option same_save locked (lock_state npid A)"
  using assms lookup_shown [of "rw_states R" "save_states A" npid]
  by (fastforce simp: rows_show_def lock_state_def row_lock_state_def shows_state_def split: option.splits)

lemma update_shown:
  "list_all2 shows_state xs ys \<Longrightarrow> shows_state (k, r) (k, s) \<Longrightarrow>
     list_all2 shows_state (AList.update k r xs) (AList.update k s ys)"
proof (induction rule: list_all2_induct)
  case (Cons x xs y ys)
  have "fst x = fst y" using Cons.hyps(1) by (simp add: shows_state_def)
  with Cons show ?case by (cases x; cases y) auto
qed simp

lemma latest_shown:
  assumes "rows_show R A"
  shows "row_latest_data_id R = latest_data_id A"
proof -
  have "list_all2 shows_state xs ys \<Longrightarrow> map (\<lambda>(_, r). sr_data_id r) xs = map (\<lambda>(_, r). sv_data_id (ss_save r)) ys" for xs ys
    by (induction rule: list_all2_induct) (auto simp: shows_state_def)
  from this [of "rw_states R" "save_states A"] assms show ?thesis by (simp add: rows_show_def row_latest_data_id_def latest_data_id_def)
qed

lemma save_shown:
  assumes keep: "keeps_members keep" and d: "distinct (map fst (sv_tallies save))" and R: "rows_show R A"
  shows "rows_show (row_save_state keep save merged R) (save_state save merged A)"
proof -
  obtain read where "load_tallies (keep (dump_tallies (sv_tallies save))) = Inr read" "map_of read = map_of (sv_tallies save)"
    using load_kept [OF keep d] by blast
  with R show ?thesis
    by (cases save) (auto simp: rows_show_def row_save_state_def save_state_def Let_def shows_state_def to_save_def same_save_def
        intro!: update_shown split: option.splits dest: lookup_shown [of _ _ "sv_npid save"])
qed

lemma event_shown:
  assumes "rows_show R A"
  shows "rows_show (row_add_event save m now R) (add_event save m now A)"
proof -
  have "map (\<lambda>e. (se_npid e, se_data_id e)) (map stored_event_of es) = map (\<lambda>e. (me_npid e, me_data_id e)) es" for es
    by (simp add: stored_event_of_def)
  with assms show ?thesis
    by (simp add: rows_show_def row_add_event_def add_event_def Let_def stored_event_of_def del: set_map map_map)
qed

lemma answer_distinct:
  "from_answer fromisoformat a = Inr save \<Longrightarrow> distinct (map fst (sv_tallies save))"
proof -
  have "distinct (map fst ys) \<Longrightarrow> distinct (map fst (fold (\<lambda>c. AList.update (ac_id c) (f c)) xs ys))"
    for xs :: "answer_char list" and ys :: "(nat \<times> char_tally) list" and f
    by (induction xs arbitrary: ys) (auto simp: AList.distinct_update)
  thus "from_answer fromisoformat a = Inr save \<Longrightarrow> distinct (map fst (sv_tallies save))"
    by (auto simp: from_answer_def)
qed

lemma row_rest_shown:
  assumes "rows_show R A"
  shows "rows_show (row_finish_event i R) (finish_event i A)"
    and "rows_show (row_fail_event (match_event_of e) msg now R) (fail_event e msg now A)"
    and "rel_prod (=) rows_show (row_fill_side (match_event_of e) room s winner R) (fill_side e room s winner A)"
    and "rows_show (row_add_match (match_event_of e) room' s winner R) (add_match e room' s winner A)"
proof -
  have update: "update_where (\<lambda>e. se_id e = i) f (map stored_event_of es) = map stored_event_of (update_where (\<lambda>e. me_id e = i) g es)"
    if "\<And>e. f (stored_event_of e) = stored_event_of (g e)" for f g i es
    using that by (induction es) simp_all
  show "rows_show (row_finish_event i R) (finish_event i A)"
    using assms by (simp add: rows_show_def row_finish_event_def finish_event_def) (rule update, simp add: stored_event_of_def)
  show "rows_show (row_fail_event (match_event_of e) msg now R) (fail_event e msg now A)"
    using assms by (simp add: rows_show_def row_fail_event_def fail_event_def Let_def)
      (intro conjI impI update, simp_all add: stored_event_of_def failed_def)
  show "rel_prod (=) rows_show (row_fill_side (match_event_of e) room s winner R) (fill_side e room s winner A)"
    using assms by (simp add: rows_show_def row_fill_side_def fill_side_def fillable_def [abs_def] Let_def split: list.split)
  show "rows_show (row_add_match (match_event_of e) room' s winner R) (add_match e room' s winner A)"
    using assms by (simp add: rows_show_def row_add_match_def add_match_def new_match_def Let_def split: option.split)
qed

lemma row_list:
  assumes "rows_show R A"
  shows "row_list_matches npid q before limit h R = repo_list_matches npid q before limit h A"
proof -
  have "find (\<lambda>e. se_id e = i) (map stored_event_of es) = map_option stored_event_of (find (\<lambda>e. me_id e = i) es)" for i es
    by (induction es) (simp_all add: stored_event_of_def)
  hence "row_find_event i R = map_option stored_event_of (find_event i A)" for i
    using assms by (simp add: row_find_event_def find_event_def rows_show_def split: option.split)
  moreover have "row_player n s m (map_option stored_event_of e) room = match_player_of n s m e room" for n s m e room
    by (cases e) (simp_all add: row_player_def match_player_of_def stored_event_of_def)
  ultimately have "row_recorded_match h R = recorded_match_of h A"
    by (simp add: fun_eq_iff row_recorded_match_def recorded_match_of_def)
  thus ?thesis using assms by (simp add: row_list_matches_def repo_list_matches_def rows_show_def)
qed

end
