(* ===== verification/Records_Port.thy ===== *)
theory Records_Port
  imports Records_Rows
begin

text \<open>
  The contract of \<open>src/records/ports.py\<close>: the operations the records service is handed, and the service of
  \<open>src/records/service.py\<close> over any repository that has them.  What the operations promise is a simulation of the
  saves, events and matches of \<open>Records_Repo\<close>; the rows of \<open>Records_Rows\<close> keep it.
\<close>

section \<open>The port\<close>

text \<open>The history's tables, which the reading operations join, are an argument of theirs.\<close>

record 's records_port =
  rp_latest_data_id :: "'s \<Rightarrow> nat"
  rp_lock_state :: "string \<Rightarrow> 's \<Rightarrow> py_exc + player_save option"
  rp_save_state :: "player_save \<Rightarrow> bool \<Rightarrow> 's \<Rightarrow> 's"
  rp_add_event :: "player_save \<Rightarrow> player_match \<Rightarrow> instant \<Rightarrow> 's \<Rightarrow> 's"
  rp_claim_event :: "instant \<Rightarrow> 's \<Rightarrow> py_exc + match_event option"
  rp_finish_event :: "nat \<Rightarrow> 's \<Rightarrow> 's"
  rp_fail_event :: "match_event \<Rightarrow> string \<Rightarrow> instant \<Rightarrow> 's \<Rightarrow> 's"
  rp_lock_room :: "nat \<Rightarrow> 's \<Rightarrow> 's"
  rp_fill_side :: "match_event \<Rightarrow> rank_room \<Rightarrow> side \<Rightarrow> side \<Rightarrow> 's \<Rightarrow> bool \<times> 's"
  rp_add_match :: "match_event \<Rightarrow> rank_room option \<Rightarrow> side \<Rightarrow> side \<Rightarrow> 's \<Rightarrow> 's"
  rp_list_matches :: "string option \<Rightarrow> string option \<Rightarrow> nat option \<Rightarrow> nat \<Rightarrow> hdb \<Rightarrow> 's \<Rightarrow> recorded_match list"
  rp_weekly_top_players :: "instant \<Rightarrow> nat \<Rightarrow> string list \<Rightarrow> hdb \<Rightarrow> 's \<Rightarrow> player_tally list"
  rp_frequent_opponents :: "string \<Rightarrow> instant \<Rightarrow> nat \<Rightarrow> hdb \<Rightarrow> 's \<Rightarrow> player_tally list"

text \<open>The two tallies read the matches alone.\<close>

definition postgres_records :: "(jsonb \<Rightarrow> jsonb) \<Rightarrow> rowdb records_port" where
  "postgres_records keep =
     \<lparr>rp_latest_data_id = row_latest_data_id, rp_lock_state = row_lock_state, rp_save_state = row_save_state keep,
      rp_add_event = row_add_event, rp_claim_event = row_claim_event, rp_finish_event = row_finish_event,
      rp_fail_event = row_fail_event, rp_lock_room = row_lock_room, rp_fill_side = row_fill_side,
      rp_add_match = row_add_match, rp_list_matches = row_list_matches,
      rp_weekly_top_players = (\<lambda>since_at limit excluded h db.
        weekly_top_players since_at limit excluded h (empty_recdb\<lparr>matches := rw_matches db\<rparr>)),
      rp_frequent_opponents = (\<lambda>npid since_at limit h db.
        frequent_opponents npid since_at limit h (empty_recdb\<lparr>matches := rw_matches db\<rparr>))\<rparr>"

section \<open>The service over the port\<close>

definition port_compare :: "'s records_port \<Rightarrow> instant \<Rightarrow> player_save \<Rightarrow> 's \<Rightarrow> py_exc + (unit \<times> 's)" where
  "port_compare P now save s =
     bindR (rp_lock_state P (sv_npid save) s) (\<lambda>locked. case locked of
        None \<Rightarrow> Inr ((), rp_save_state P save False s)
      | Some before \<Rightarrow>
          if sv_data_id save \<le> sv_data_id before then Inr ((), s)
          else case compare before save of
            Inl Key_Error \<Rightarrow> Inl KeyError
          | Inr c \<Rightarrow>
              let s1 = rp_save_state P save (cp_merged c) s in
              Inr ((), case cp_match c of None \<Rightarrow> s1 | Some m \<Rightarrow> rp_add_event P save m now s1))"

definition port_capture_one :: "'s records_port \<Rightarrow> (string \<Rightarrow> 'x + instant) \<Rightarrow> instant \<Rightarrow> save_answer \<Rightarrow> 's \<Rightarrow> 's" where
  "port_capture_one P fromisoformat now a s =
     (case from_answer fromisoformat a of Inl _ \<Rightarrow> s | Inr save \<Rightarrow> snd (transact (port_compare P now save) s))"

definition port_capture ::
  "'s records_port \<Rightarrow> (nat \<Rightarrow> nat \<Rightarrow> 'e + save_answer list) \<Rightarrow> (string \<Rightarrow> 'x + instant) \<Rightarrow> instant \<Rightarrow> 's \<Rightarrow> 'e + 's" where
  "port_capture P read_changed fromisoformat now s =
     bindR (read_changed (rp_latest_data_id P s - capture_overlap) capture_limit) (\<lambda>answers.
     Inr (fold (port_capture_one P fromisoformat now) answers s))"

definition port_resolve :: "'s records_port \<Rightarrow> match_event \<Rightarrow> (string + rank_room option) \<Rightarrow> 's \<Rightarrow> string + (unit \<times> 's)" where
  "port_resolve P ev looked_up s =
     bindR looked_up (\<lambda>room.
     let sd = side_of room (ev_npid ev); winner = winner_of sd (ev_outcome ev) in
     case room of
       None \<Rightarrow> Inr ((), rp_add_match P ev None sd winner s)
     | Some r \<Rightarrow>
         (case rp_fill_side P ev r sd winner (rp_lock_room P (rr_room_snapshot_id r) s) of
            (True, s1) \<Rightarrow> Inr ((), s1)
          | (False, s1) \<Rightarrow> Inr ((), rp_add_match P ev (Some r) sd winner s1)))"

definition port_attempt :: "'s records_port \<Rightarrow> match_event \<Rightarrow> instant \<Rightarrow> (string + rank_room option) \<Rightarrow> 's \<Rightarrow> 's" where
  "port_attempt P ev now looked_up s =
     (case transact (\<lambda>d. bindR (port_resolve P ev looked_up d) (\<lambda>(u, d1). Inr (u, rp_finish_event P (ev_id ev) d1))) s of
        (Inl msg, s1) \<Rightarrow> rp_fail_event P ev msg now s1
      | (Inr _, s1) \<Rightarrow> s1)"

definition port_process_next ::
  "'s records_port \<Rightarrow> instant \<Rightarrow> (match_event \<Rightarrow> string + rank_room option) \<Rightarrow> 's \<Rightarrow> py_exc + (bool \<times> 's)" where
  "port_process_next P now look_up s =
     bindR (rp_claim_event P now s) (\<lambda>claimed. case claimed of
       None \<Rightarrow> Inr (False, s)
     | Some ev \<Rightarrow> Inr (True, port_attempt P ev now (look_up ev) s))"

section \<open>The workers' turns\<close>

text \<open>One round of the capture worker or one event of the consumer; a failure leaves the tables alone.\<close>

datatype 'e turn =
    Capturing "nat \<Rightarrow> nat \<Rightarrow> 'e + save_answer list" instant
  | Processing instant "match_event \<Rightarrow> string + rank_room option"

fun port_turn :: "'s records_port \<Rightarrow> (string \<Rightarrow> 'x + instant) \<Rightarrow> 'e turn \<Rightarrow> 's \<Rightarrow> 's" where
  "port_turn P fromisoformat (Capturing read now) s =
     (case port_capture P read fromisoformat now s of Inl _ \<Rightarrow> s | Inr s' \<Rightarrow> s')"
| "port_turn P fromisoformat (Processing now look_up) s =
     (case port_process_next P now look_up s of Inl _ \<Rightarrow> s | Inr (_, s') \<Rightarrow> s')"

fun table_turn :: "(string \<Rightarrow> 'x + instant) \<Rightarrow> 'e turn \<Rightarrow> recdb \<Rightarrow> recdb" where
  "table_turn fromisoformat (Capturing read now) A =
     (case capture read fromisoformat now A of Inl _ \<Rightarrow> A | Inr A' \<Rightarrow> A')"
| "table_turn fromisoformat (Processing now look_up) A = snd (process_next now (look_up \<circ> match_event_of) A)"

section \<open>The contract\<close>

text \<open>\<open>shows s A\<close>: the repository's state holds the saves, events and matches of \<open>A\<close>.\<close>

locale records_contract =
  fixes P :: "'s records_port" and shows_tables :: "'s \<Rightarrow> recdb \<Rightarrow> bool"
  assumes latest: "shows_tables s A \<Longrightarrow> rp_latest_data_id P s = latest_data_id A"
    and lock: "shows_tables s A \<Longrightarrow> \<exists>locked. rp_lock_state P npid s = Inr locked \<and> rel_option same_save locked (lock_state npid A)"
    and save: "shows_tables s A \<Longrightarrow> distinct (map fst (sv_tallies sv)) \<Longrightarrow>
      shows_tables (rp_save_state P sv merged s) (save_state sv merged A)"
    and add_event: "shows_tables s A \<Longrightarrow> shows_tables (rp_add_event P sv m now s) (add_event sv m now A)"
    and claim: "shows_tables s A \<Longrightarrow> rp_claim_event P now s = Inr (map_option match_event_of (claim_event now A))"
    and finish: "shows_tables s A \<Longrightarrow> shows_tables (rp_finish_event P i s) (finish_event i A)"
    and fail: "shows_tables s A \<Longrightarrow> shows_tables (rp_fail_event P (match_event_of e) msg now s) (fail_event e msg now A)"
    and lock_room: "shows_tables s A \<Longrightarrow> shows_tables (rp_lock_room P i s) A"
    and fill: "shows_tables s A \<Longrightarrow>
      rel_prod (=) shows_tables (rp_fill_side P (match_event_of e) r sd winner s) (fill_side e r sd winner A)"
    and add_match: "shows_tables s A \<Longrightarrow>
      shows_tables (rp_add_match P (match_event_of e) room sd winner s) (add_match e room sd winner A)"
    and listing: "shows_tables s A \<Longrightarrow> rp_list_matches P n q b k h s = repo_list_matches n q b k h A"
    and weekly: "shows_tables s A \<Longrightarrow> rp_weekly_top_players P t k xs h s = weekly_top_players t k xs h A"
    and opponents: "shows_tables s A \<Longrightarrow> rp_frequent_opponents P npid t k h s = frequent_opponents npid t k h A"
begin

lemma compare_shown:
  assumes d: "distinct (map fst (sv_tallies sv))" and R: "shows_tables s A"
  shows "shows_tables (snd (transact (port_compare P now sv) s)) (snd (transact (compare_save now sv) A))"
proof -
  obtain locked where l: "rp_lock_state P (sv_npid sv) s = Inr locked" "rel_option same_save locked (lock_state (sv_npid sv) A)"
    using lock [OF R] by blast
  show ?thesis
  proof (cases "lock_state (sv_npid sv) A")
    case None
    with l save [OF R d] show ?thesis by (simp add: transact_def port_compare_def compare_save_def)
  next
    case (Some kept)
    with l obtain before where b: "locked = Some before" "same_save before kept" by (cases locked) auto
    obtain c where "compare kept sv = Inr c" using compare_eq by blast
    with l b Some same_saveD [OF b(2)] R save [OF R d, of "cp_merged c"] show ?thesis
      by (auto simp: transact_def port_compare_def compare_save_def Let_def intro!: add_event split: option.split)
  qed
qed

lemma capture_one_shown:
  "shows_tables s A \<Longrightarrow> shows_tables (port_capture_one P fromisoformat now a s) (capture_one fromisoformat now a A)"
  by (auto simp: port_capture_one_def capture_one_def compare_shown answer_distinct split: sum.split)

lemma capture_shown:
  assumes "shows_tables s A"
  shows "rel_sum (=) shows_tables (port_capture P read fromisoformat now s) (capture read fromisoformat now A)"
proof -
  have "shows_tables (fold (port_capture_one P fromisoformat now) answers s) (fold (capture_one fromisoformat now) answers A)" for answers
    using assms by (induction answers arbitrary: s A) (simp_all add: capture_one_shown)
  thus ?thesis
    by (cases "read (latest_data_id A - capture_overlap) capture_limit")
      (simp_all add: port_capture_def capture_def latest [OF assms])
qed

lemma resolve_shown:
  assumes "shows_tables s A"
  shows "rel_sum (=) (rel_prod (=) shows_tables) (port_resolve P (match_event_of e) looked_up s) (resolve e looked_up A)"
proof (cases looked_up)
  case (Inr room)
  show ?thesis
  proof (cases room)
    case None
    with Inr add_match [OF assms] show ?thesis by (simp add: port_resolve_def resolve_def Let_def)
  next
    case (Some r)
    let ?sd = "side_of room (me_npid e)"
    have "rel_prod (=) shows_tables
        (rp_fill_side P (match_event_of e) r ?sd (winner_of ?sd (me_result e)) (rp_lock_room P (rr_room_snapshot_id r) s))
        (fill_side e r ?sd (winner_of ?sd (me_result e)) A)"
      by (rule fill [OF lock_room [OF assms]])
    with Inr Some show ?thesis
      by (auto simp: port_resolve_def resolve_def Let_def rel_prod_sel add_match
          split: prod.split bool.split)
  qed
qed (simp add: port_resolve_def resolve_def)

lemma attempt_shown:
  assumes "shows_tables s A"
  shows "shows_tables (port_attempt P (match_event_of e) now looked_up s) (attempt e now looked_up A)"
  using resolve_shown [OF assms, of e looked_up] fail [OF assms] finish
  by (auto simp: port_attempt_def attempt_def transact_def elim!: rel_sum.cases)

lemma process_next_shown:
  assumes "shows_tables s A"
  shows "rel_sum (=) (rel_prod (=) shows_tables) (port_process_next P now look_up s)
    (Inr (process_next now (look_up \<circ> match_event_of) A))"
  by (cases "claim_event now A") (simp_all add: port_process_next_def process_next_def claim [OF assms] attempt_shown assms)

lemma turn_shown:
  assumes "shows_tables s A"
  shows "shows_tables (port_turn P fromisoformat t s) (table_turn fromisoformat t A)"
proof (cases t)
  case (Capturing read now)
  with capture_shown [OF assms, of read fromisoformat now] assms show ?thesis by (auto elim: rel_sum.cases)
next
  case (Processing now look_up)
  with process_next_shown [OF assms, of now look_up] show ?thesis by (auto elim: rel_sum.cases)
qed

lemma turns_shown:
  "shows_tables s A \<Longrightarrow>
     shows_tables (fold (port_turn P fromisoformat) ts s) (fold (table_turn fromisoformat) ts A)"
  by (induction ts arbitrary: s A) (simp_all add: turn_shown)

end

section \<open>The rows keep the contract\<close>

lemma tallies_shown:
  assumes "rows_show R A"
  shows "weekly_top_players t k xs h (empty_recdb\<lparr>matches := rw_matches R\<rparr>) = weekly_top_players t k xs h A"
    and "frequent_opponents npid t k h (empty_recdb\<lparr>matches := rw_matches R\<rparr>) = frequent_opponents npid t k h A"
proof -
  have "players (empty_recdb\<lparr>matches := rw_matches R\<rparr>) = players A" using assms by (simp add: rows_show_def players_def)
  thus "weekly_top_players t k xs h (empty_recdb\<lparr>matches := rw_matches R\<rparr>) = weekly_top_players t k xs h A"
    and "frequent_opponents npid t k h (empty_recdb\<lparr>matches := rw_matches R\<rparr>) = frequent_opponents npid t k h A"
    by (simp_all only: weekly_top_players_def frequent_opponents_def tally_by_def)
qed

lemma postgres_contract:
  assumes keep: "keeps_members keep"
  shows "records_contract (postgres_records keep) rows_show"
proof (unfold_locales, goal_cases latest lock save add_event claim finish fail lock_room fill add_match listing weekly opponents)
  case (latest s A)
  then show ?case by (simp add: postgres_records_def latest_shown)
next
  case (lock s A)
  then show ?case by (simp add: postgres_records_def lock_shown)
next
  case (save s A)
  then show ?case using save_shown [OF keep] by (simp add: postgres_records_def)
next
  case (add_event s A)
  then show ?case by (simp add: postgres_records_def event_shown)
next
  case (claim s A)
  then show ?case by (simp add: postgres_records_def row_claim)
next
  case (finish s A)
  then show ?case by (simp add: postgres_records_def row_rest_shown(1))
next
  case (fail s A)
  then show ?case by (simp add: postgres_records_def row_rest_shown(2))
next
  case (lock_room s A)
  then show ?case by (simp add: postgres_records_def row_lock_room_def)
next
  case (fill s A)
  then show ?case by (simp add: postgres_records_def row_rest_shown(3))
next
  case (add_match s A)
  then show ?case by (simp add: postgres_records_def row_rest_shown(4))
next
  case (listing s A)
  then show ?case by (simp add: postgres_records_def row_list)
next
  case (weekly s A)
  then show ?case by (simp add: postgres_records_def tallies_shown(1))
next
  case (opponents s A)
  then show ?case by (simp add: postgres_records_def tallies_shown(2))
qed

definition demo_keep :: "jsonb \<Rightarrow> jsonb" where
  "demo_keep = sort_key (\<lambda>m. (length (fst m), fst m))"

lemma demo_keep: "keeps_members demo_keep"
proof -
  have "map fst (demo_keep j) = sort_key (\<lambda>k. (length k, k)) (map fst j)" for j
    by (simp add: demo_keep_def sort_key_map comp_def)
  thus ?thesis by (simp add: keeps_members_def) (simp add: demo_keep_def)
qed

interpretation by_length: records_contract "postgres_records demo_keep" rows_show
  by (rule postgres_contract [OF demo_keep])

definition demo_answer :: "nat \<Rightarrow> int \<Rightarrow> save_answer" where
  "demo_answer i w = \<lparr>sa_npid = ''kim'', sa_data_id = i, sa_saved_utc = [], sa_wins = w, sa_losses = 0,
     sa_chars = [\<lparr>ac_id = 12, ac_wins = w, ac_losses = 0, ac_rank = Some 3\<rparr>, \<lparr>ac_id = 4, ac_wins = w, ac_losses = 0, ac_rank = None\<rparr>],
     sa_own_chars = [12, 4]\<rparr>"

definition demo_turns :: "unit turn list" where
  "demo_turns = [Capturing (\<lambda>_ _. Inr [demo_answer 5 1]) 0, Capturing (\<lambda>_ _. Inl ()) 1,
     Capturing (\<lambda>_ _. Inr [demo_answer 6 2]) 2, Processing 3 (\<lambda>_. Inr None)]"

text \<open>C3: The repository over its rows implements the tables of saves, events and matches: whatever order the database
  keeps a stored save's characters in, after any turns of the capture worker and the queue's consumer, taken through
  the port, the next event to resolve, the list of matches and both tallies of players are those of the tables, and
  reading a stored save or event never fails.\<close>

theorem rows_implement_records:
  assumes "keeps_members keep"
  shows "let R = fold (port_turn (postgres_records keep) fromisoformat) ts empty_rowdb;
             A = fold (table_turn fromisoformat) ts empty_recdb
         in rp_claim_event (postgres_records keep) now R = Inr (map_option match_event_of (claim_event now A)) \<and>
            rp_list_matches (postgres_records keep) npid q before k h R = repo_list_matches npid q before k h A \<and>
            rp_weekly_top_players (postgres_records keep) t k excluded h R = weekly_top_players t k excluded h A \<and>
            rp_frequent_opponents (postgres_records keep) me t k h R = frequent_opponents me t k h A"
proof -
  note contract = postgres_contract [OF assms]
  note shown = records_contract.turns_shown [OF contract rows_show_empty, of fromisoformat ts]
  show ?thesis
    using records_contract.claim [OF contract shown] records_contract.listing [OF contract shown]
      records_contract.weekly [OF contract shown] records_contract.opponents [OF contract shown]
    by (simp add: Let_def)
qed

theorem rows_implement_records_witness:
  "rp_list_matches (postgres_records demo_keep) None None None 5 empty_hdb
      (fold (port_turn (postgres_records demo_keep) (\<lambda>_. Inr 7 :: unit + instant)) demo_turns empty_rowdb) =
    [\<lparr>rec_id = 1, rec_played_at = 7,
      rec_p1 = \<lparr>mp_npid = ''kim'', mp_online_name = None, mp_outcome = WIN, mp_chars = Some [12, 4], mp_ranks = Some [Some 3, None]\<rparr>,
      rec_p2 = None\<rparr>]"
proof -
  have "repo_list_matches None None None 5 empty_hdb (fold (table_turn (\<lambda>_. Inr 7 :: unit + instant)) demo_turns empty_recdb) =
    [\<lparr>rec_id = 1, rec_played_at = 7,
      rec_p1 = \<lparr>mp_npid = ''kim'', mp_online_name = None, mp_outcome = WIN, mp_chars = Some [12, 4], mp_ranks = Some [Some 3, None]\<rparr>,
      rec_p2 = None\<rparr>]"
    by code_simp
  with rows_implement_records [OF demo_keep, where fromisoformat = "\<lambda>_. Inr 7 :: unit + instant" and ts = demo_turns and npid = None and q = None and before = None and k = 5 and h = empty_hdb]
  show ?thesis by (simp add: Let_def)
qed

end
