(* ===== verification/Community_Port.thy ===== *)
theory Community_Port
  imports Community_Invariant
begin

text \<open>
  The contract of \<open>src/community/ports.py\<close>, whose docstrings say what each operation of the board's repository
  returns and which errors it raises, and the proof that the repository's model keeps it.
\<close>

section \<open>The port\<close>



section \<open>What the operations promise\<close>






section \<open>The repository keeps the contract\<close>


















end
