(* ===== verification/Store_Ports.thy ===== *)
theory Store_Ports
  imports Popup_Service Streaming_Service
begin

text \<open>
  The contracts of two small stores, \<open>src/popup/ports.py\<close> and the channels of \<open>src/streaming/ports.py\<close>, told through their
  own reads, and the proof that the repositories' models keep them.
\<close>

section \<open>Popups\<close>

record 's popup_port =
  up_list_popups :: "bool \<Rightarrow> 's \<Rightarrow> popup list"
  up_get_image :: "nat \<Rightarrow> 's \<Rightarrow> popup_image option"
  up_create :: "instant \<Rightarrow> popup_content \<Rightarrow> popup_image option \<Rightarrow> string \<Rightarrow> 's \<Rightarrow> popup \<times> 's"
  up_update :: "instant \<Rightarrow> nat \<Rightarrow> popup_content \<Rightarrow> popup_image option \<Rightarrow> bool \<Rightarrow> 's \<Rightarrow> popup option \<times> 's"
  up_delete :: "nat \<Rightarrow> 's \<Rightarrow> bool \<times> 's"

definition postgres_popups :: "popup_db popup_port" where
  "postgres_popups = \<lparr>up_list_popups = list_popups, up_get_image = popup_get_image, up_create = popup_create,
     up_update = popup_update, up_delete = popup_delete\<rparr>"

text \<open>The list is newest first, the visitors' list is its active part; an image outlives an edit that gives no other and
  does not remove it; and an edit or removal tells whether there was such a popup.\<close>

definition popup_contract :: "'s popup_port \<Rightarrow> ('s \<Rightarrow> bool) \<Rightarrow> bool" where
  "popup_contract P ok \<longleftrightarrow>
     (\<forall>s. ok s \<longrightarrow> sorted_wrt (>) (map pp_id (up_list_popups P False s)) \<and>
        up_list_popups P True s = filter (\<lambda>p. ct_active (pp_content p)) (up_list_popups P False s)) \<and>
     (\<forall>s t c img who. ok s \<longrightarrow> (case up_create P t c img who s of (p, s') \<Rightarrow> ok s' \<and> pp_content p = c \<and>
        up_list_popups P False s' = p # up_list_popups P False s \<and> up_get_image P (pp_id p) s' = img)) \<and>
     (\<forall>s t i c img away. ok s \<longrightarrow> (case up_update P t i c img away s of
        (None, s') \<Rightarrow> s' = s \<and> i \<notin> set (map pp_id (up_list_popups P False s))
      | (Some p, s') \<Rightarrow> ok s' \<and> pp_id p = i \<and> pp_content p = c \<and> p \<in> set (up_list_popups P False s') \<and>
          map pp_id (up_list_popups P False s') = map pp_id (up_list_popups P False s) \<and>
          up_get_image P i s' = (if img \<noteq> None then img else if away then None else up_get_image P i s))) \<and>
     (\<forall>s i. ok s \<longrightarrow> (case up_delete P i s of (found, s') \<Rightarrow> ok s' \<and>
        (found \<longleftrightarrow> i \<in> set (map pp_id (up_list_popups P False s))) \<and>
        up_list_popups P False s' = filter (\<lambda>p. pp_id p \<noteq> i) (up_list_popups P False s)))"

text \<open>Rows whose numbers differ and were all given out.\<close>

definition popups_ok :: "popup_db \<Rightarrow> bool" where
  "popups_ok db \<longleftrightarrow> distinct (map pw_id (popups db)) \<and> (\<forall>r\<in>set (popups db). pw_id r < next_popup_id db)"

section \<open>Channels\<close>

record 's channel_port =
  hp_get :: "string \<Rightarrow> string \<Rightarrow> 's \<Rightarrow> stream_channel option"
  hp_list_all :: "'s \<Rightarrow> stream_channel list"
  hp_upsert :: "string \<Rightarrow> string \<Rightarrow> platform_channel \<Rightarrow> instant \<Rightarrow> 's \<Rightarrow> streaming_error + (stream_channel \<times> 's)"
  hp_delete :: "string \<Rightarrow> string \<Rightarrow> 's \<Rightarrow> bool \<times> 's"

definition postgres_channels :: "stream_row list channel_port" where
  "postgres_channels = \<lparr>hp_get = stream_get, hp_list_all = stream_list_all, hp_upsert = stream_upsert, hp_delete = stream_delete\<rparr>"

text \<open>The channel set is the one read back; it is refused exactly when another account holds it; and a removal takes
  every row of the username in whatever case.\<close>

definition channel_contract :: "'s channel_port \<Rightarrow> ('s \<Rightarrow> bool) \<Rightarrow> bool" where
  "channel_contract P ok \<longleftrightarrow>
     (\<forall>s u p. ok s \<longrightarrow> (case hp_get P u p s of
        None \<Rightarrow> \<not> (\<exists>c\<in>set (hp_list_all P s). sm_username c = u \<and> sm_platform c = p)
      | Some c \<Rightarrow> c \<in> set (hp_list_all P s) \<and> sm_username c = u \<and> sm_platform c = p)) \<and>
     (\<forall>s u p ch t. ok s \<longrightarrow> (case hp_upsert P u p ch t s of
        Inl e \<Rightarrow> e = Channel_Taken \<and> (\<exists>c\<in>set (hp_list_all P s). sm_platform c = p \<and> sm_channel_id c = pl_channel_id ch \<and> sm_username c \<noteq> u)
      | Inr (c, s') \<Rightarrow> ok s' \<and> hp_get P u p s' = Some c \<and> sm_channel_id c = pl_channel_id ch \<and>
          (\<forall>v q. (v, q) \<noteq> (u, p) \<longrightarrow> hp_get P v q s' = hp_get P v q s))) \<and>
     (\<forall>s u p. ok s \<longrightarrow> (case hp_delete P u p s of (found, s') \<Rightarrow> ok s' \<and>
        (found \<longleftrightarrow> (\<exists>c\<in>set (hp_list_all P s). casefold (sm_username c) = casefold u \<and> sm_platform c = p)) \<and>
        (\<forall>v q. hp_get P v q s' = (if casefold v = casefold u \<and> q = p then None else hp_get P v q s))))"

section \<open>The channels' repository keeps its contract\<close>

lemma channel_fields [simp]:
  "sm_username (to_stream_channel r) = sw_username r" "sm_platform (to_stream_channel r) = sw_platform r"
  "sm_channel_id (to_stream_channel r) = sw_channel_id r"
  by (simp_all add: to_stream_channel_def)

lemma get_deleted:
  "stream_get v q (snd (stream_delete u p rows)) = (if casefold v = casefold u \<and> q = p then None else stream_get v q rows)"
  by (auto simp: stream_get_def stream_delete_def Let_def row_key_def find_eq_None intro!: arg_cong [where f = "map_option _"] find_filter_weaker)

lemma get_upserted:
  assumes run: "stream_upsert u p ch t rows = Inr (c, rows')"
  shows "stream_get u p rows' = Some c \<and> sm_channel_id c = pl_channel_id ch \<and>
    ((v, q) \<noteq> (u, p) \<longrightarrow> stream_get v q rows' = stream_get v q rows)"
proof (cases "find (\<lambda>r. row_key r = (u, p)) rows")
  case None
  from None run show ?thesis
    by (auto simp: stream_upsert_def stream_get_def Let_def find_append row_key_def split: if_splits option.split)
next
  case (Some old)
  define new where "new = old\<lparr>sw_channel_id := pl_channel_id ch, sw_channel_name := pl_channel_name ch, sw_updated_at := t\<rparr>"
  have key: "row_key new = (u, p)" using find_Some_set [OF Some] by (simp add: new_def row_key_def)
  have run': "c = to_stream_channel new" "rows' = update_where (\<lambda>r. row_key r = (u, p)) (\<lambda>_. new) rows"
    using run Some by (auto simp: stream_upsert_def Let_def new_def split: if_splits)
  have "find (\<lambda>r. row_key r = (u, p)) (update_where (\<lambda>r. row_key r = (u, p)) (\<lambda>_. new) xs) =
      map_option (\<lambda>_. new) (find (\<lambda>r. row_key r = (u, p)) xs)" for xs
    using key by (induction xs) auto
  moreover have "find (\<lambda>r. row_key r = (v, q)) (update_where (\<lambda>r. row_key r = (u, p)) (\<lambda>_. new) xs) =
      find (\<lambda>r. row_key r = (v, q)) xs" if "(v, q) \<noteq> (u, p)" for xs
    using key that by (induction xs) auto
  ultimately show ?thesis using Some by (simp add: run' stream_get_def) (simp add: new_def)
qed

lemma upsert_refused:
  "stream_upsert u p ch t rows = Inl e \<Longrightarrow> e = Channel_Taken \<and>
     (\<exists>r\<in>set rows. sw_platform r = p \<and> sw_channel_id r = pl_channel_id ch \<and> sw_username r \<noteq> u)"
  by (auto simp: stream_upsert_def Let_def channel_key_def row_key_def split: if_splits option.splits)

lemma channels_kept: "channel_contract postgres_channels streams_ok"
  unfolding channel_contract_def postgres_channels_def channel_port.simps
proof (intro conjI allI impI, goal_cases get upsert delete)
  case (get rows u p)
  then show ?case
    by (auto simp: stream_get_def stream_list_all_def row_key_def find_eq_None split: option.split dest: find_Some_set)
next
  case (upsert rows u p ch t)
  then show ?case
    by (auto simp: stream_list_all_def get_upserted upsert_streams_ok dest!: upsert_refused split: sum.split)
next
  case (delete rows u p)
  then show ?case using delete_streams_ok get_deleted
    by (auto simp: stream_delete_def stream_list_all_def Let_def list_ex_iff)
qed

section \<open>The popups' repository keeps its contract\<close>

abbreviation newest_first :: "popup_row list \<Rightarrow> popup_row list" where
  "newest_first \<equiv> sort_key (\<lambda>r. - int (pw_id r))"

lemma popup_fields [simp]: "pp_id (to_popup r) = pw_id r" "pp_content (to_popup r) = pw_content r"
  by (simp_all add: to_popup_def)

lemma listed_all: "list_popups False db = map to_popup (newest_first (popups db))"
  by (simp add: list_popups_def)

lemma newest_first_desc:
  assumes "distinct (map pw_id rows)"
  shows "sorted_wrt (>) (map pw_id (newest_first rows))"
proof -
  have "sorted_wrt (<) (map pw_id (sort_key pw_id rows))"
    using assms by (simp add: strict_sorted_iff distinct_map)
  thus ?thesis by (simp add: newest_first [OF assms] rev_map [symmetric] sorted_wrt_rev)
qed

lemma image_found:
  assumes "distinct (map pw_id (popups db))"
  shows "popup_get_image i db = (case find (\<lambda>r. pw_id r = i) (popups db) of None \<Rightarrow> None | Some r \<Rightarrow> row_image r)"
proof (cases "find (\<lambda>r. pw_id r = i) (popups db)")
  case None
  hence "find (\<lambda>r. pw_id r = i \<and> pw_image r \<noteq> None) (popups db) = None" by (auto simp: find_eq_None)
  with None show ?thesis by (simp add: popup_get_image_def)
next
  case (Some r)
  hence "r \<in> set (popups db)" "pw_id r = i" using find_Some_set by fastforce+
  with Some find_key_and [OF assms, of r "\<lambda>x. pw_image x \<noteq> None"] show ?thesis
    by (cases "pw_image r") (simp_all add: popup_get_image_def row_image_def)
qed

lemma created_popup:
  assumes ok: "popups_ok db" and run: "popup_create t c img who db = (p, db')"
  shows "popups_ok db' \<and> pp_content p = c \<and> list_popups False db' = p # list_popups False db \<and> popup_get_image (pp_id p) db' = img"
proof -
  from run obtain row where row: "pw_id row = next_popup_id db" "pw_content row = c" "row_image row = img" "p = to_popup row"
      "db' = \<lparr>popups = popups db @ [row], next_popup_id = Suc (next_popup_id db)\<rparr>"
    by (cases img) (force simp: popup_create_def Let_def image_values_def row_image_def)+
  have fresh: "pw_id r < next_popup_id db" if "r \<in> set (popups db)" for r using ok that by (simp add: popups_ok_def)
  have ok': "popups_ok db'" using ok row(1,5) by (force simp: popups_ok_def less_Suc_eq)
  have "newest_first (popups db @ [row]) = row # newest_first (popups db)"
    by (rule sort_key_last_least) (simp add: fresh row(1))
  moreover have "find (\<lambda>r. pw_id r = next_popup_id db) (popups db) = None" using fresh by (fastforce simp: find_eq_None)
  ultimately show ?thesis using ok' row image_found [of db'] by (simp add: listed_all find_append popups_ok_def)
qed

lemma updated_popup_shown:
  assumes ok: "popups_ok db" and run: "popup_update t i c img away db = (Some p, db')"
  shows "popups_ok db' \<and> pp_id p = i \<and> pp_content p = c \<and> p \<in> set (list_popups False db') \<and>
    map pp_id (list_popups False db') = map pp_id (list_popups False db) \<and>
    popup_get_image i db' = (if img \<noteq> None then img else if away then None else popup_get_image i db)"
proof -
  let ?f = "updated_popup t c img away"
  from run obtain r where r: "find (\<lambda>r. pw_id r = i) (popups db) = Some r" "p = to_popup (?f r)"
    and db': "db' = db\<lparr>popups := update_where (\<lambda>r. pw_id r = i) ?f (popups db)\<rparr>"
    by (auto simp: popup_update_def Let_def)
  have ids: "map pw_id (popups db') = map pw_id (popups db)" by (simp add: db' map_update_where_frame)
  have r': "r \<in> set (popups db)" "pw_id r = i" using find_Some_set [OF r(1)] by auto
  have ok': "popups_ok db'"
    using ok ids by (auto simp: popups_ok_def db' set_update_where)
  define g where "g x = (if pw_id x = i then ?f x else x)" for x
  have "(\<lambda>x. - int (pw_id x)) \<circ> g = (\<lambda>x. - int (pw_id x))" by (simp add: fun_eq_iff g_def)
  hence "newest_first (map g (popups db)) = map g (newest_first (popups db))" by (simp add: sort_key_map)
  hence "map pp_id (list_popups False db') = map pp_id (list_popups False db)"
    by (simp add: listed_all db' update_where_def g_def [symmetric] comp_def) (simp add: g_def)
  moreover have "p \<in> set (list_popups False db')"
    using r r' by (auto simp: listed_all db' set_update_where intro!: image_eqI [of _ _ "?f r"])
  moreover have "popup_get_image i db' = row_image (?f r)"
    using ok' r(1) by (simp add: image_found popups_ok_def) (simp add: db' find_update_where)
  moreover have "popup_get_image i db = row_image r"
    using ok r(1) by (simp add: image_found popups_ok_def)
  ultimately show ?thesis using ok' r r' by (simp add: row_image_updated split: option.split)
qed

lemma popups_kept: "popup_contract postgres_popups popups_ok"
  unfolding popup_contract_def postgres_popups_def popup_port.simps
proof (intro conjI allI impI, goal_cases order active create update delete)
  case (order db)
  then show ?case using newest_first_desc [of "popups db"] by (simp add: listed_all popups_ok_def comp_def)
next
  case (active db)
  then show ?case by (simp add: list_popups_def filter_map filter_sort comp_def)
next
  case (create db t c img who)
  then show ?case using created_popup by (auto split: prod.split)
next
  case (update db t i c img away)
  show ?case
  proof (cases "popup_update t i c img away db")
    case (Pair found db')
    show ?thesis
    proof (cases found)
      case None
      have "db' = db" using Pair None popup_update_none [of t i c img away db] by simp
      moreover have "i \<notin> set (map pp_id (list_popups False db))"
        using Pair None by (auto simp: popup_update_def Let_def find_eq_None listed_all)
      ultimately show ?thesis using Pair None by simp
    next
      case (Some p)
      with Pair updated_popup_shown [OF update] show ?thesis by simp
    qed
  qed
next
  case (delete db i)
  then show ?case
    by (auto simp: popup_delete_def popups_ok_def distinct_map_filter listed_all list_ex_iff filter_map filter_sort comp_def)
qed

text \<open>C13: The small stores keep their ports' promises.  Popups are listed newest first, the visitors' list being its active
  part; an edit keeps the stored image unless it is given another or told to remove it, and answers none exactly when
  there is no such popup, changing nothing.  A channel that is set is read back, it is refused only while another
  account holds it, and a removal takes the username in any case.\<close>

theorem store_ports_kept:
  "popup_contract postgres_popups popups_ok \<and> popups_ok empty_popup_db \<and>
   channel_contract postgres_channels streams_ok \<and> streams_ok []"
  by (simp add: popups_kept channels_kept) (simp add: popups_ok_def empty_popup_db_def streams_ok_def)

end
