(* ===== verification/Server_Ports.thy ===== *)
theory Server_Ports
  imports Saves_Admin Admin
begin

text \<open>
  The contracts of the servers the application asks: \<open>src/auth/ports.py\<close>, \<open>src/admin/ports.py\<close> and the admin's call of
  \<open>src/saves/ports.py\<close>, whose docstrings list every error a call may raise, and how far the adapters keep to the list.
\<close>

section \<open>The ports\<close>

record account_verifier =
  av_verify :: "string \<Rightarrow> string \<Rightarrow> verified_account auth_result"

record account_admin =
  aa_lookup :: "string \<Rightarrow> string \<Rightarrow> string \<Rightarrow> account_status admin_result"
  aa_ban :: "string \<Rightarrow> string \<Rightarrow> string \<Rightarrow> ban_result admin_result"

record save_caller =
  sp_call :: "string \<Rightarrow> string \<Rightarrow> string \<Rightarrow> (string \<times> json) list \<Rightarrow> (string \<times> json) list saves_result"

text \<open>The adapters, each over the client it was built with.\<close>

definition rpcn_verifier :: "pbkdf2 \<Rightarrow> transport \<Rightarrow> api_client \<Rightarrow> account_verifier" where
  "rpcn_verifier pbkdf2 transport api = \<lparr>av_verify = verify pbkdf2 transport api\<rparr>"

definition rpcn_account_admin :: "pbkdf2 \<Rightarrow> transport \<Rightarrow> api_client \<Rightarrow> account_admin" where
  "rpcn_account_admin pbkdf2 transport api =
     \<lparr>aa_lookup = (\<lambda>u p n. fst (account_lookup pbkdf2 transport api u p n)),
      aa_ban = (\<lambda>u p n. fst (account_ban pbkdf2 transport api u p n))\<rparr>"

definition save_admin_server :: "pbkdf2 \<Rightarrow> transport \<Rightarrow> api_client \<Rightarrow> save_caller" where
  "save_admin_server pbkdf2 transport api = \<lparr>sp_call = (\<lambda>a u p m. fst (save_call pbkdf2 transport api a u p m))\<rparr>"

section \<open>The errors they list\<close>

definition raises_only :: "'e set \<Rightarrow> py_exc set \<Rightarrow> 'e raised + 'a \<Rightarrow> bool" where
  "raises_only listed beyond r \<longleftrightarrow>
     (case r of Inr _ \<Rightarrow> True | Inl (Raises e) \<Rightarrow> e \<in> listed | Inl (Escapes x) \<Rightarrow> x \<in> beyond)"

definition verify_errors :: "auth_error set" where
  "verify_errors = {Invalid_Credentials, Auth_Unavailable}"

definition moderation_errors :: "admin_error set" where
  "moderation_errors = {Admin_Password, Not_Admin, Account_Not_Found, Admin_Unavailable}"

definition save_call_errors :: "saves_error set" where
  "save_call_errors = {Saves.Admin_Password, Saves.Not_Admin, Saves.Account_Not_Found, Save_Not_Found, Backup_Not_Found,
     Save_Conflict, Save_Request, Saves_Unavailable}"

lemma raises_only_bind:
  "raises_only listed beyond r \<Longrightarrow> (\<And>a. raises_only listed beyond (k a)) \<Longrightarrow> raises_only listed beyond (bindR r k)"
  by (cases r) (auto simp: raises_only_def)

lemma catching_raises_only:
  assumes "e \<in> listed" and "\<And>x. r = Inl x \<Longrightarrow> x \<in> caught \<union> beyond"
  shows "raises_only listed beyond (catching caught e r)"
  using assms by (cases r) (auto simp: raises_only_def catching_def)

lemma ban_result_exc: "to_ban_result body = Inl x \<Longrightarrow> x \<in> {KeyError, TypeError}"
  by (auto simp: to_ban_result_def bindR_Inl_iff dest: getitem_exc)

lemma timestamp_exc: "from_timestamp v = Inl x \<Longrightarrow> x \<in> {ValueError, TypeError, OverflowError, OSError}"
  by (cases v rule: from_timestamp.cases) (auto simp: utc_moment_def Let_def split: if_splits)

lemma status_exc: "to_status body = Inl x \<Longrightarrow> x \<in> {KeyError, TypeError, ValueError, OverflowError, OSError}"
  using timestamp_exc
  by (fastforce simp: to_status_def getitem_def get_or_def from_epoch_def bindR_Inl_iff split: json.splits option.splits if_splits)

lemma refusal_listed: "refusal r \<in> save_call_errors"
proof -
  have "map_of refusals code = Some e \<Longrightarrow> e \<in> save_call_errors" for code e
    by (auto simp: refusals_def save_call_errors_def split: if_splits)
  thus ?thesis by (auto simp: refusal_def save_call_errors_def split: option.split)
qed

lemma verify_listed:
  assumes "ac_open api"
  shows "raises_only verify_errors {} (verify pbkdf2 transport api u p)"
proof -
  have "raises_only verify_errors {} (read_verification response)" for response
    using read_account_exc
    by (auto simp: read_verification_def raises_only_def verify_errors_def catching_def split: option.split sum.split)
  thus ?thesis using assms
    by (auto simp: verify_def api_post_def split: sum.split) (simp_all add: raises_only_def verify_errors_def)
qed

lemma admin_post_listed:
  assumes "ac_open api" and "\<And>body. raises_only moderation_errors beyond (k body)"
  shows "raises_only moderation_errors beyond (bindR (fst (admin_post pbkdf2 transport api path u p n)) k)"
proof -
  have "raises_only moderation_errors beyond (fst (admin_post pbkdf2 transport api path u p n))"
    using assms(1)
    by (auto simp: admin_post_def api_post_def raise_for_status_def Let_def raises_only_def moderation_errors_def
        split: sum.split option.split)
  with assms(2) show ?thesis by (rule raises_only_bind [rotated])
qed

lemma save_call_listed:
  assumes "ac_open api"
  shows "raises_only save_call_errors {TypeError} (fst (save_call pbkdf2 transport api a u p m))"
proof -
  have "Saves_Unavailable \<in> save_call_errors" by (simp add: save_call_errors_def)
  with assms refusal_listed show ?thesis
    by (auto simp: save_call_def save_send_def refused_def Let_def raises_only_def split: sum.split option.split)
qed

section \<open>An answer beyond the list\<close>

definition answers :: "int \<Rightarrow> json \<Rightarrow> transport" where
  "answers status body = (\<lambda>_ _ _. Inr \<lparr>rs_status = status, rs_json = Some body\<rparr>)"

definition demo_account :: "int \<Rightarrow> json" where
  "demo_account creation = JObj [(''username'', JStr ''kim''), (''online_name'', JStr ''Kim''), (''admin'', JBool False),
     (''banned'', JBool True), (''online'', JBool False), (''creation'', JInt creation)]"

definition some_api :: api_client where
  "some_api = api_init (make_api_client ''http://rpcn'' ''key'')"

lemma some_api: "ac_open some_api" "ac_base_url some_api \<noteq> []" "ac_api_key some_api \<noteq> []"
  by code_simp+

text \<open>C29: Asked through an open client, the servers' adapters raise only what their ports list, whatever is answered: a
  login's check always, a ban always, and a lookup and an admin's call on a save but for one kind of answer each.
  A banned account is still returned, as its port asks.  A lookup lets the error of a time beyond the calendar's
  machine range out, and a call on a save a \<open>TypeError\<close>, when the error code of a refusal is a list or an object.\<close>

theorem servers_raise_as_listed:
  assumes "ac_open api"
  shows "raises_only verify_errors {} (av_verify (rpcn_verifier pbkdf2 transport api) u p) \<and>
    raises_only moderation_errors {} (aa_ban (rpcn_account_admin pbkdf2 transport api) u p n) \<and>
    raises_only moderation_errors {OverflowError, OSError} (aa_lookup (rpcn_account_admin pbkdf2 transport api) u p n) \<and>
    raises_only save_call_errors {TypeError} (sp_call (save_admin_server pbkdf2 transport api) action u p m) \<and>
    map_sum id va_banned (av_verify (rpcn_verifier pbkdf2 (answers 200 (demo_account 0)) some_api) u p) = Inr True \<and>
    aa_lookup (rpcn_account_admin pbkdf2 (answers 200 (demo_account (2 ^ 64))) some_api) u p n = Inl (Escapes OverflowError) \<and>
    sp_call (save_admin_server pbkdf2 (answers 409 (JObj [(''error'', JArr [])])) some_api) action u p m = Inl (Escapes TypeError)"
proof (intro conjI)
  show "raises_only verify_errors {} (av_verify (rpcn_verifier pbkdf2 transport api) u p)"
    using verify_listed [OF assms] by (simp add: rpcn_verifier_def)
  have unavailable: "Admin_Unavailable \<in> moderation_errors" by (simp add: moderation_errors_def)
  have "raises_only moderation_errors {} (read_admin to_ban_result body)" for body
    unfolding read_admin_def using ban_result_exc by (fast intro: catching_raises_only [OF unavailable])
  from admin_post_listed [OF assms this]
  show "raises_only moderation_errors {} (aa_ban (rpcn_account_admin pbkdf2 transport api) u p n)"
    by (simp add: rpcn_account_admin_def account_ban_def split_beta)
  have "raises_only moderation_errors {OverflowError, OSError} (read_admin to_status body)" for body
    unfolding read_admin_def using status_exc by (fast intro: catching_raises_only [OF unavailable])
  from admin_post_listed [OF assms this]
  show "raises_only moderation_errors {OverflowError, OSError} (aa_lookup (rpcn_account_admin pbkdf2 transport api) u p n)"
    by (simp add: rpcn_account_admin_def account_lookup_def split_beta)
  show "raises_only save_call_errors {TypeError} (sp_call (save_admin_server pbkdf2 transport api) action u p m)"
    using save_call_listed [OF assms] by (simp add: save_admin_server_def)
qed (simp_all add: rpcn_verifier_def verify_def rpcn_account_admin_def account_lookup_def admin_post_def save_admin_server_def
  save_call_def save_send_def api_post_def some_api answers_def demo_account_def read_verification_def read_account_def
  getitem_def get_or_def catching_def raise_for_status_def read_admin_def to_status_def from_epoch_def utc_moment_def
  json_dict_def refused_def claim_or_def)

theorem servers_raise_as_listed_witness:
  "raises_only verify_errors {} (av_verify (rpcn_verifier (\<lambda>_ _ _ _ _. []) (answers 401 JNull) some_api) ''kim'' ''pw'') \<and>
   av_verify (rpcn_verifier (\<lambda>_ _ _ _ _. []) (answers 401 JNull) some_api) ''kim'' ''pw'' = Inl (Raises Invalid_Credentials)"
  using servers_raise_as_listed [OF some_api(1), of "\<lambda>_ _ _ _ _. []" "answers 401 JNull" "''kim''" "''pw''" "[]" "[]" "[]"]
  by (simp add: rpcn_verifier_def verify_def api_post_def some_api answers_def read_verification_def)

end
