(* ===== verification/Cache_Json.thy ===== *)
theory Cache_Json
  imports Cache Account_Api "HOL-Library.AList"
begin

text \<open>
  What \<open>src/shared/cache.py\<close> makes of a value: \<open>json.dumps\<close> with its \<open>_DataclassEncoder\<close> on the way in and
  \<open>json.loads\<close> on the way out.  \<open>Cache\<close> keeps a value as it is given; the lemmas here say for which values that is so
  and what a service gets back of the others.
\<close>

section \<open>Values\<close>

text \<open>\<open>Py_Other\<close> stands for whatever the encoder does not know; a dataclass is its fields, a named tuple a tuple.\<close>

datatype py =
    Py_None
  | Py_Bool bool
  | Py_Int int
  | Py_Float py_float
  | Py_Str string
  | Py_List "py list"
  | Py_Tuple "py list"
  | Py_Dict "(py \<times> py) list"
  | Py_Datetime instant
  | Py_Dataclass "(string \<times> py) list"
  | Py_Other

text \<open>\<open>datetime.isoformat\<close> and \<open>float.__repr__\<close> are arguments.\<close>

type_synonym writers = "(instant \<Rightarrow> string) \<times> (py_float \<Rightarrow> string)"

definition int_digits :: "int \<Rightarrow> string" where
  "int_digits i = (if i < 0 then ''-'' else []) @ decimal (nat \<bar>i\<bar>)"

text \<open>JSON keys are texts: numbers, truth values and \<open>None\<close> are written as one, anything else is a \<open>TypeError\<close>.\<close>

fun key_text :: "writers \<Rightarrow> py \<Rightarrow> py_exc + string" where
  "key_text w (Py_Str s) = Inr s"
| "key_text w Py_None = Inr ''null''"
| "key_text w (Py_Bool b) = Inr (if b then ''true'' else ''false'')"
| "key_text w (Py_Int i) = Inr (int_digits i)"
| "key_text w (Py_Float x) = Inr (snd w x)"
| "key_text w _ = Inl TypeError"

fun dumps :: "writers \<Rightarrow> py \<Rightarrow> py_exc + json"
and dumps_all :: "writers \<Rightarrow> py list \<Rightarrow> py_exc + json list"
and dumps_items :: "writers \<Rightarrow> (py \<times> py) list \<Rightarrow> py_exc + (string \<times> json) list"
and dumps_fields :: "writers \<Rightarrow> (string \<times> py) list \<Rightarrow> py_exc + (string \<times> json) list" where
  "dumps w Py_None = Inr JNull"
| "dumps w (Py_Bool b) = Inr (JBool b)"
| "dumps w (Py_Int i) = Inr (JInt i)"
| "dumps w (Py_Float x) = Inr (JFloat x)"
| "dumps w (Py_Str s) = Inr (JStr s)"
| "dumps w (Py_List xs) = bindR (dumps_all w xs) (\<lambda>js. Inr (JArr js))"
| "dumps w (Py_Tuple xs) = bindR (dumps_all w xs) (\<lambda>js. Inr (JArr js))"
| "dumps w (Py_Dict ps) = bindR (dumps_items w ps) (\<lambda>m. Inr (JObj m))"
| "dumps w (Py_Datetime t) = Inr (JStr (fst w t))"
| "dumps w (Py_Dataclass fs) = bindR (dumps_fields w fs) (\<lambda>m. Inr (JObj m))"
| "dumps w Py_Other = Inl TypeError"
| "dumps_all w [] = Inr []"
| "dumps_all w (x # xs) = bindR (dumps w x) (\<lambda>j. bindR (dumps_all w xs) (\<lambda>js. Inr (j # js)))"
| "dumps_items w [] = Inr []"
| "dumps_items w ((k, x) # ps) =
     bindR (key_text w k) (\<lambda>s. bindR (dumps w x) (\<lambda>j. bindR (dumps_items w ps) (\<lambda>m. Inr ((s, j) # m))))"
| "dumps_fields w [] = Inr []"
| "dumps_fields w ((s, x) # fs) = bindR (dumps w x) (\<lambda>j. bindR (dumps_fields w fs) (\<lambda>m. Inr ((s, j) # m)))"

text \<open>A key that comes twice is kept where it first stood with its last value.\<close>

fun loads :: "json \<Rightarrow> py"
and loads_all :: "json list \<Rightarrow> py list"
and loads_members :: "(string \<times> json) list \<Rightarrow> (py \<times> py) list" where
  "loads JNull = Py_None"
| "loads (JBool b) = Py_Bool b"
| "loads (JInt i) = Py_Int i"
| "loads (JFloat x) = Py_Float x"
| "loads (JStr s) = Py_Str s"
| "loads (JArr js) = Py_List (loads_all js)"
| "loads (JObj m) = Py_Dict (fold (\<lambda>(k, x). AList.update k x) (loads_members m) [])"
| "loads_all [] = []"
| "loads_all (j # js) = loads j # loads_all js"
| "loads_members [] = []"
| "loads_members ((s, j) # m) = (Py_Str s, loads j) # loads_members m"

section \<open>The two caches\<close>

text \<open>The text that is stored is the JSON value it stands for.  An encoding that fails leaves the cache alone: under
  \<open>DictCache\<close> the exception is the caller's, under \<open>RedisCache\<close> it is logged.\<close>

definition json_dict_set :: "writers \<Rightarrow> string \<Rightarrow> py \<Rightarrow> int \<Rightarrow> instant \<Rightarrow> json dict_cache \<Rightarrow> py_exc + json dict_cache" where
  "json_dict_set w key v ttl now c = bindR (dumps w v) (\<lambda>j. Inr (dict_set key j ttl now c))"

definition json_dict_get :: "string \<Rightarrow> instant \<Rightarrow> json dict_cache \<Rightarrow> py option \<times> json dict_cache" where
  "json_dict_get key now c = map_prod (map_option loads) id (dict_get key now c)"

definition json_redis_set :: "writers \<Rightarrow> (json \<Rightarrow> 'r \<Rightarrow> py_exc + 'r) \<Rightarrow> py \<Rightarrow> 'r \<Rightarrow> 'r" where
  "json_redis_set w setex v r = redis_write (\<lambda>r. bindR (dumps w v) (\<lambda>j. setex j r)) r"

section \<open>Which values come back\<close>

text \<open>Values whose dictionaries have distinct texts for keys; and those that are JSON already.\<close>

fun text_keyed :: "py \<Rightarrow> bool"
and text_keyed_all :: "py list \<Rightarrow> bool"
and text_keyed_items :: "(py \<times> py) list \<Rightarrow> bool"
and text_keyed_fields :: "(string \<times> py) list \<Rightarrow> bool" where
  "text_keyed (Py_List xs) \<longleftrightarrow> text_keyed_all xs"
| "text_keyed (Py_Tuple xs) \<longleftrightarrow> text_keyed_all xs"
| "text_keyed (Py_Dict ps) \<longleftrightarrow> distinct (map fst ps) \<and> text_keyed_items ps"
| "text_keyed (Py_Dataclass fs) \<longleftrightarrow> distinct (map fst fs) \<and> text_keyed_fields fs"
| "text_keyed _ \<longleftrightarrow> True"
| "text_keyed_all [] \<longleftrightarrow> True"
| "text_keyed_all (x # xs) \<longleftrightarrow> text_keyed x \<and> text_keyed_all xs"
| "text_keyed_items [] \<longleftrightarrow> True"
| "text_keyed_items ((k, x) # ps) \<longleftrightarrow> (\<exists>s. k = Py_Str s) \<and> text_keyed x \<and> text_keyed_items ps"
| "text_keyed_fields [] \<longleftrightarrow> True"
| "text_keyed_fields ((s, x) # fs) \<longleftrightarrow> text_keyed x \<and> text_keyed_fields fs"

fun bare :: "py \<Rightarrow> bool"
and bare_all :: "py list \<Rightarrow> bool"
and bare_items :: "(py \<times> py) list \<Rightarrow> bool" where
  "bare (Py_List xs) \<longleftrightarrow> bare_all xs"
| "bare (Py_Dict ps) \<longleftrightarrow> distinct (map fst ps) \<and> bare_items ps"
| "bare (Py_Tuple xs) \<longleftrightarrow> False"
| "bare (Py_Datetime t) \<longleftrightarrow> False"
| "bare (Py_Dataclass fs) \<longleftrightarrow> False"
| "bare Py_Other \<longleftrightarrow> False"
| "bare _ \<longleftrightarrow> True"
| "bare_all [] \<longleftrightarrow> True"
| "bare_all (x # xs) \<longleftrightarrow> bare x \<and> bare_all xs"
| "bare_items [] \<longleftrightarrow> True"
| "bare_items ((k, x) # ps) \<longleftrightarrow> (\<exists>s. k = Py_Str s) \<and> bare x \<and> bare_items ps"

lemma fold_update_distinct: "distinct (map fst ps) \<Longrightarrow> fold (\<lambda>(k, x). AList.update k x) ps [] = ps"
proof -
  have "distinct (map fst (acc @ ps)) \<Longrightarrow> fold (\<lambda>(k, x). AList.update k x) ps acc = acc @ ps" for acc
  proof (induction ps arbitrary: acc)
    case (Cons p ps)
    have "fst p \<notin> fst ` set acc \<Longrightarrow> AList.update (fst p) (snd p) acc = acc @ [p]"
      by (induction acc) auto
    with Cons show ?case by (auto simp: split_beta)
  qed simp
  from this [of "[]"] show "distinct (map fst ps) \<Longrightarrow> fold (\<lambda>(k, x). AList.update k x) ps [] = ps" by simp
qed

lemma bare_roundtrip:
  "bare v \<Longrightarrow> \<exists>j. dumps w v = Inr j \<and> loads j = v"
  "bare_all xs \<Longrightarrow> \<exists>js. dumps_all w xs = Inr js \<and> loads_all js = xs"
  "bare_items ps \<Longrightarrow> \<exists>m. dumps_items w ps = Inr m \<and> loads_members m = ps"
  by (induction v and xs and ps rule: bare_bare_all_bare_items.induct) (force simp: fold_update_distinct)+

lemma dumps_stable:
  "text_keyed v \<Longrightarrow> dumps w v = Inr j \<Longrightarrow> bare (loads j) \<and> dumps w (loads j) = Inr j"
  "text_keyed_all xs \<Longrightarrow> dumps_all w xs = Inr js \<Longrightarrow> bare_all (loads_all js) \<and> dumps_all w (loads_all js) = Inr js"
  "text_keyed_items ps \<Longrightarrow> dumps_items w ps = Inr m \<Longrightarrow>
     map fst (loads_members m) = map fst ps \<and> bare_items (loads_members m) \<and> dumps_items w (loads_members m) = Inr m"
  "text_keyed_fields fs \<Longrightarrow> dumps_fields w fs = Inr m \<Longrightarrow>
     map fst (loads_members m) = map (Py_Str \<circ> fst) fs \<and> bare_items (loads_members m) \<and> dumps_items w (loads_members m) = Inr m"
proof (induction v and xs and ps and fs arbitrary: j and js and m and m
    rule: text_keyed_text_keyed_all_text_keyed_items_text_keyed_fields.induct)
  case (4 fs)
  then obtain m where m: "dumps_fields w fs = Inr m" "j = JObj m" by auto
  have "distinct (map (Py_Str \<circ> fst) fs)" using 4(2) by (simp add: distinct_map inj_on_def comp_def)
  moreover have "map fst (loads_members m) = map (Py_Str \<circ> fst) fs" using 4 m by simp
  ultimately have "distinct (map fst (loads_members m))" by metis
  with 4 m show ?case by (simp add: fold_update_distinct)
qed (auto simp: fold_update_distinct)

lemma set_then_get:
  assumes "json_dict_set w key v ttl now c = Inr c'" and "t < now + ttl * second"
  shows "\<exists>j. dumps w v = Inr j \<and> json_dict_get key t c' = (Some (loads j), c')"
  using assms by (auto simp: json_dict_set_def json_dict_get_def dict_get_def dict_set_def)

text \<open>C19: What a service puts in the cache under distinct texts for keys, it gets back, until its time is up, as a value
  that is JSON through and through and that is written exactly as the first one was, so an answer served from the
  cache reads like the one that filled it; a value that was JSON already comes back as it is.  What the encoder does
  not know is never stored.  The worlds of a server come back under the text of its number, which is why they are
  cached under texts: under numbers, a hit would differ from a miss.\<close>

theorem cached_as_json:
  assumes "text_keyed v" "json_dict_set w key v ttl now c = Inr c'" "t < now + ttl * second"
  shows "(\<exists>back. fst (json_dict_get key t c') = Some back \<and> bare back \<and> dumps w back = dumps w v \<and> (bare v \<longrightarrow> back = v)) \<and>
    json_dict_set w key Py_Other ttl now c = Inl TypeError \<and> json_redis_set w setex Py_Other r = r \<and>
    (\<forall>i x. bare x \<longrightarrow> map_sum id loads (dumps w (Py_Dict [(Py_Int i, x)])) = Inr (Py_Dict [(Py_Str (int_digits i), x)]))"
proof -
  obtain j where j: "dumps w v = Inr j" "json_dict_get key t c' = (Some (loads j), c')"
    using set_then_get [OF assms(2,3)] by blast
  have "bare v \<longrightarrow> loads j = v" using bare_roundtrip(1) [of v w] j(1) by auto
  moreover have "map_sum id loads (dumps w (Py_Dict [(Py_Int i, x)])) = Inr (Py_Dict [(Py_Str (int_digits i), x)])"
    if "bare x" for i x using bare_roundtrip(1) [OF that, of w] by auto
  ultimately show ?thesis
    using j dumps_stable(1) [OF assms(1) j(1)] by (simp add: json_dict_set_def json_redis_set_def redis_write_def)
qed

definition demo_writers :: writers where
  "demo_writers = ((\<lambda>t. ''2026-01-01T00:00:00+00:00''), (\<lambda>_. ''0.5''))"

definition demo_value :: py where
  "demo_value = Py_List [Py_Dataclass [(''npid'', Py_Str ''kim''), (''saved_at'', Py_Datetime 0), (''chars'', Py_Tuple [Py_Int 3, Py_None])]]"

theorem cached_as_json_witness:
  "\<exists>c'. json_dict_set demo_writers ''k'' demo_value 10 0 Map.empty = Inr c' \<and>
    fst (json_dict_get ''k'' 5 c') = Some (Py_List [Py_Dict [(Py_Str ''npid'', Py_Str ''kim''),
      (Py_Str ''saved_at'', Py_Str ''2026-01-01T00:00:00+00:00''), (Py_Str ''chars'', Py_List [Py_Int 3, Py_None])]]) \<and>
    (\<exists>back. fst (json_dict_get ''k'' 5 c') = Some back \<and> dumps demo_writers back = dumps demo_writers demo_value)"
proof -
  obtain c' where set: "json_dict_set demo_writers ''k'' demo_value 10 0 Map.empty = Inr c'"
      "c' ''k'' = Some (JArr [JObj [(''npid'', JStr ''kim''), (''saved_at'', JStr ''2026-01-01T00:00:00+00:00''),
         (''chars'', JArr [JInt 3, JNull])]], 10 * second)"
    by (simp add: json_dict_set_def demo_value_def demo_writers_def dict_set_def)
  have keyed: "text_keyed demo_value" by (simp add: demo_value_def)
  from cached_as_json [OF keyed set(1), of 5 "\<lambda>_. Inr" "()"] show ?thesis
    using set by (simp add: json_dict_get_def dict_get_def)
qed

end
