(* ===== verification/Wiring.thy ===== *)
theory Wiring
  imports Container Lifespan Chat_System Event
begin

text \<open>
  Which object is handed which: the \<open>Container\<close> of \<open>src/container.py\<close> and the constructors it calls, over a heap of the
  objects built.  An object is its number in the heap, so that two services that share a client are told from two that
  have one each.  The repositories that keep nothing but their queries are left out.
\<close>

section \<open>Objects\<close>

record rpcn_account =
  ra_host :: string
  ra_port :: int
  ra_user :: string
  ra_password :: string
  ra_token :: string
  ra_metric :: bool

type_synonym ref = nat

datatype obj =
    Session_Factory string
  | Rpcn_Api_Client api_client rat
  | Save_Admin_Client api_client rat
  | Chzzk_Client string rat
  | Shared_Rpcn rpcn_account int
  | Game_Server_Adapter ref
  | Matching_Object ref
  | History_Object ref
  | Records_Object ref ref ref
  | Idempotency_Object
  | Collector_Object ref ref
  | Capture_Object ref
  | Consumer_Object ref
  | Verifier_Object ref
  | Auth_Object ref
  | Account_Admin_Object ref
  | Admin_Object ref
  | Chat_Store ref nat
  | Event_Bus nat
  | Chat_Object ref ref
  | Community_Object ref ref
  | Event_Object "baseline list" ref
  | Popup_Object ref
  | Reservation_Object ref ref
  | Saves_Object ref
  | Streaming_Object ref ref

type_synonym heap = "obj list"

definition build :: "obj \<Rightarrow> heap \<Rightarrow> ref \<times> heap" where
  "build ob h = (length h, h @ [ob])"

section \<open>The container\<close>

record container =
  cn_collector :: ref
  cn_save_capture :: ref
  cn_event_consumer :: ref
  cn_auth :: ref
  cn_admin :: ref
  cn_chat :: ref
  cn_community :: ref
  cn_event :: ref
  cn_history :: ref
  cn_matching :: ref
  cn_popups :: ref
  cn_records :: ref
  cn_reservations :: ref
  cn_saves :: ref
  cn_streaming :: ref

definition rpcn_account_of :: "settings \<Rightarrow> rpcn_account" where
  "rpcn_account_of st = \<lparr>ra_host = st_rpcn_host st, ra_port = st_rpcn_port st, ra_user = st_rpcn_user st,
     ra_password = st_rpcn_password st, ra_token = st_rpcn_token st, ra_metric = st_rpcn_metric_enable st\<rparr>"

text \<open>\<open>open_database\<close> gives the session factory of the engine it has just made.\<close>

definition open_database :: "settings \<Rightarrow> database \<Rightarrow> py_exc + obj \<times> database" where
  "open_database st db =
     (let db1 = fst (init_database st db) in bindR (get_session_factory db1) (\<lambda>dsn. Inr (Session_Factory dsn, db1)))"

definition rpcn_cooldown :: int where "rpcn_cooldown = 5 * second"

definition rpcn :: "settings \<Rightarrow> obj" where
  "rpcn st = Shared_Rpcn (rpcn_account_of st) rpcn_cooldown"

definition opened_clients :: "settings \<Rightarrow> obj list" where
  "opened_clients st =
     [Rpcn_Api_Client (api_init (rpcn_api st)) (st_rpcn_api_timeout st),
      Save_Admin_Client (api_init (save_server st)) (st_save_admin_timeout st),
      Chzzk_Client (chzzk_base st) (st_chzzk_timeout st), rpcn st]"

text \<open>The constructors' calls, in the order Python evaluates them.\<close>

definition build_services :: "baseline list \<Rightarrow> ref \<Rightarrow> ref \<Rightarrow> ref \<Rightarrow> ref \<Rightarrow> ref \<Rightarrow> heap \<Rightarrow> container \<times> heap" where
  "build_services baselines sessions rpcn_api_ref save_server_ref chzzk_ref game_server h0 =
     (let (matching, h1) = build (Matching_Object game_server) h0;
          (history, h2) = build (History_Object sessions) h1;
          (records, h3) = build (Records_Object sessions save_server_ref history) h2;
          (idempotency, h4) = build Idempotency_Object h3;
          (collector, h5) = build (Collector_Object matching history) h4;
          (capture, h6) = build (Capture_Object records) h5;
          (consumer, h7) = build (Consumer_Object records) h6;
          (verifier, h8) = build (Verifier_Object rpcn_api_ref) h7;
          (auth, h9) = build (Auth_Object verifier) h8;
          (account_admin, h10) = build (Account_Admin_Object rpcn_api_ref) h9;
          (admin, h11) = build (Admin_Object account_admin) h10;
          (chat_store, h12) = build (Chat_Store sessions max_listed_messages) h11;
          (bus, h13) = build (Event_Bus queue_size) h12;
          (chat, h14) = build (Chat_Object chat_store bus) h13;
          (community, h15) = build (Community_Object sessions idempotency) h14;
          (event, h16) = build (Event_Object baselines save_server_ref) h15;
          (popups, h17) = build (Popup_Object sessions) h16;
          (reservations, h18) = build (Reservation_Object sessions idempotency) h17;
          (saves, h19) = build (Saves_Object save_server_ref) h18;
          (streaming, h20) = build (Streaming_Object chzzk_ref sessions) h19
      in (\<lparr>cn_collector = collector, cn_save_capture = capture, cn_event_consumer = consumer, cn_auth = auth,
           cn_admin = admin, cn_chat = chat, cn_community = community, cn_event = event, cn_history = history,
           cn_matching = matching, cn_popups = popups, cn_records = records, cn_reservations = reservations,
           cn_saves = saves, cn_streaming = streaming\<rparr>, h20))"

definition wire :: "settings \<Rightarrow> ('x + baseline_row list) \<Rightarrow> database \<Rightarrow> py_exc + (container \<times> heap)" where
  "wire st file db =
     bindR (open_database st db) (\<lambda>(factory, _).
     let (sessions, h1) = build factory [];
         (api, h2) = build (opened_clients st ! 0) h1;
         (saves, h3) = build (opened_clients st ! 1) h2;
         (chzzk_ref, h4) = build (opened_clients st ! 2) h3;
         (shared, h5) = build (opened_clients st ! 3) h4;
         (game, h6) = build (Game_Server_Adapter shared) h5
     in Inr (build_services (load_baselines (st_event_baseline_path st) file) sessions api saves chzzk_ref game h6))"

section \<open>What an object can get at\<close>

fun refs :: "obj \<Rightarrow> ref list" where
  "refs (Game_Server_Adapter a) = [a]"
| "refs (Matching_Object a) = [a]"
| "refs (History_Object a) = [a]"
| "refs (Records_Object a b c) = [a, b, c]"
| "refs (Collector_Object a b) = [a, b]"
| "refs (Capture_Object a) = [a]"
| "refs (Consumer_Object a) = [a]"
| "refs (Verifier_Object a) = [a]"
| "refs (Auth_Object a) = [a]"
| "refs (Account_Admin_Object a) = [a]"
| "refs (Admin_Object a) = [a]"
| "refs (Chat_Store a n) = [a]"
| "refs (Chat_Object a b) = [a, b]"
| "refs (Community_Object a b) = [a, b]"
| "refs (Event_Object bs a) = [a]"
| "refs (Popup_Object a) = [a]"
| "refs (Reservation_Object a b) = [a, b]"
| "refs (Saves_Object a) = [a]"
| "refs (Streaming_Object a b) = [a, b]"
| "refs _ = []"

text \<open>References go from younger objects to older ones, so as many rounds as there are objects follow every one.\<close>

fun reach :: "nat \<Rightarrow> heap \<Rightarrow> ref \<Rightarrow> ref list" where
  "reach 0 h a = [a]"
| "reach (Suc n) h a = a # concat (map (reach n h) (refs (h ! a)))"

fun resource_of :: "obj \<Rightarrow> resource option" where
  "resource_of (Session_Factory dsn) = Some Database"
| "resource_of (Rpcn_Api_Client api t) = Some Rpcn_Api"
| "resource_of (Save_Admin_Client api t) = Some Save_Server"
| "resource_of (Chzzk_Client base t) = Some Chzzk_Platform"
| "resource_of (Shared_Rpcn account cooldown) = Some Game_Server"
| "resource_of _ = None"

definition touches :: "heap \<Rightarrow> ref \<Rightarrow> resource list" where
  "touches h a = filter (\<lambda>s. s \<in> set (List.map_filter (\<lambda>b. resource_of (h ! b)) (reach (length h) h a))) resources"

section \<open>The graph\<close>

lemma reach_numeral: "reach (numeral k) h a = a # concat (map (reach (pred_numeral k) h) (refs (h ! a)))"
  by (simp add: numeral_eq_Suc)

lemma wire_eq:
  "wire st file db = Inr
     (\<lparr>cn_collector = 10, cn_save_capture = 11, cn_event_consumer = 12, cn_auth = 14, cn_admin = 16, cn_chat = 19,
       cn_community = 20, cn_event = 21, cn_history = 7, cn_matching = 6, cn_popups = 22, cn_records = 8,
       cn_reservations = 23, cn_saves = 24, cn_streaming = 25\<rparr>,
      [Session_Factory (build_dsn ''asyncpg'' st), Rpcn_Api_Client (api_init (rpcn_api st)) (st_rpcn_api_timeout st),
       Save_Admin_Client (api_init (save_server st)) (st_save_admin_timeout st), Chzzk_Client (chzzk_base st) (st_chzzk_timeout st),
       rpcn st, Game_Server_Adapter 4, Matching_Object 5, History_Object 0, Records_Object 0 2 7, Idempotency_Object,
       Collector_Object 6 7, Capture_Object 8, Consumer_Object 8, Verifier_Object 1, Auth_Object 13,
       Account_Admin_Object 1, Admin_Object 15, Chat_Store 0 max_listed_messages, Event_Bus queue_size, Chat_Object 17 18,
       Community_Object 0 9, Event_Object (load_baselines (st_event_baseline_path st) file) 2, Popup_Object 0,
       Reservation_Object 0 9, Saves_Object 2, Streaming_Object 3 0])"
  by (simp add: wire_def open_database_def init_database_def get_session_factory_def Let_def build_def opened_clients_def
      build_services_def)

text \<open>Each server is reached through one object only, built from its own settings, and each service gets at the servers
  it needs and no other: the admin key of the RPCN API only through login and moderation, the save server only through
  the saves, the event and the match records, the RPCN connection only through the rooms and their collector.  The
  collector watches through the matching service that the routes ask, so that there is one tracker and one
  connection; both workers of the match records share the records service, it dates rooms by the collector's history,
  and reservations and posts keep their idempotency keys in one service.\<close>

theorem wired_apart:
  "\<exists>c h. wire st file db = Inr (c, h) \<and>
    (\<forall>s. length (filter (\<lambda>ob. resource_of ob = Some s) h) = 1) \<and>
    Rpcn_Api_Client (api_init (rpcn_api st)) (st_rpcn_api_timeout st) \<in> set h \<and>
    Save_Admin_Client (api_init (save_server st)) (st_save_admin_timeout st) \<in> set h \<and>
    Session_Factory (build_dsn ''asyncpg'' st) \<in> set h \<and>
    map (\<lambda>f. touches h (f c)) [cn_auth, cn_admin] = [[Rpcn_Api], [Rpcn_Api]] \<and>
    map (\<lambda>f. touches h (f c)) [cn_saves, cn_event] = [[Save_Server], [Save_Server]] \<and>
    map (\<lambda>f. touches h (f c)) [cn_chat, cn_community, cn_popups, cn_reservations, cn_history] = replicate 5 [Database] \<and>
    map (\<lambda>f. touches h (f c)) [cn_records, cn_save_capture, cn_event_consumer] = replicate 3 [Database, Save_Server] \<and>
    touches h (cn_streaming c) = [Database, Chzzk_Platform] \<and>
    touches h (cn_matching c) = [Game_Server] \<and> touches h (cn_collector c) = [Database, Game_Server] \<and>
    h ! cn_collector c = Collector_Object (cn_matching c) (cn_history c) \<and>
    h ! cn_save_capture c = Capture_Object (cn_records c) \<and> h ! cn_event_consumer c = Consumer_Object (cn_records c) \<and>
    (\<exists>sessions saves. h ! cn_records c = Records_Object sessions saves (cn_history c)) \<and>
    (\<exists>sessions keys. h ! cn_reservations c = Reservation_Object sessions keys \<and> h ! cn_community c = Community_Object sessions keys)"
proof -
  have one: "length (filter (\<lambda>ob. resource_of ob = Some s) h) = 1"
    if "List.map_filter resource_of h = resources" for s h
  proof -
    have "length (filter (\<lambda>ob. resource_of ob = Some s) h) = count_list (List.map_filter resource_of h) s"
      by (induction h) (auto simp: List.map_filter_simps split: option.split)
    with that show ?thesis by (cases s) (simp_all add: resources_def)
  qed
  show ?thesis
    unfolding wire_eq
    by (intro exI conjI allI, rule refl, rule one)
      (simp_all add: touches_def reach_numeral resources_def List.map_filter_simps rpcn_def eval_nat_numeral)
qed

end
