(* ===== verification/Saves_Pages.thy ===== *)
theory Saves_Pages
  imports Saves_Admin
begin

text \<open>
  The public pages of \<open>src/saves/router.py\<close>: the current-rank leaderboard and the players who play at a rank, from the
  request's bounds to the declared answer.  The abstract pages keep one read of every save and its time; the lemmas
  show that the board and the 33 lists in the cache are that one read.  All entries of one filling are set at the same
  moment, where the code takes the clock anew for each.
\<close>

section \<open>The answers\<close>

text \<open>\<open>SaveCharOut\<close> and \<open>CurrentRankLeaderboardEntryOut\<close> declare the fields of \<open>ranked_char\<close> and \<open>board_entry\<close>.\<close>

record leaderboard_out =
  lp_total :: nat
  lp_entries :: "board_entry list"

record holder_char_out =
  hc_id :: nat
  hc_character :: string

record holder_out =
  hx_username :: string
  hx_saved_at :: instant
  hx_account_rank :: int
  hx_chars :: "holder_char_out list"

record holders_out =
  hp_rank :: int
  hp_rank_name :: string
  hp_total :: nat
  hp_entries :: "holder_out list"

definition holder_char :: "nat \<Rightarrow> saves_error + holder_char_out" where
  "holder_char i = (case map_of ttt2_characters i of
     None \<Rightarrow> Inl Key_Missing | Some name \<Rightarrow> Inr \<lparr>hc_id = i, hc_character = name\<rparr>)"

definition holder_row :: "holder \<Rightarrow> saves_error + holder_out" where
  "holder_row h = bindR (mapR holder_char (ho_chars h)) (\<lambda>chars. Inr
     \<lparr>hx_username = ho_npid h, hx_saved_at = ho_saved_at h, hx_account_rank = ho_account_rank h, hx_chars = chars\<rparr>)"

definition asked_rank_name :: "int \<Rightarrow> saves_error + string" where
  "asked_rank_name r = (if r < 0 then Inl Key_Missing
     else case map_of tekken_ranks (nat r) of None \<Rightarrow> Inl Key_Missing | Some (name, _) \<Rightarrow> Inr name)"

definition holders_answer :: "int \<Rightarrow> nat \<Rightarrow> holder list \<Rightarrow> saves_error + holders_out" where
  "holders_answer r number shown =
     bindR (asked_rank_name r) (\<lambda>name. bindR (mapR holder_row shown) (\<lambda>rows. Inr
       \<lparr>hp_rank = r, hp_rank_name = name, hp_total = number, hp_entries = rows\<rparr>))"

section \<open>The requests\<close>

datatype page_query = Leaderboard nat "int option" | Rank_Holders int nat int

fun query_ok :: "page_query \<Rightarrow> bool" where
  "query_ok (Leaderboard n days) \<longleftrightarrow> 1 \<le> n \<and> n \<le> 1000 \<and> (case days of None \<Rightarrow> True | Some d \<Rightarrow> 1 \<le> d \<and> d \<le> 365)"
| "query_ok (Rank_Holders r n days) \<longleftrightarrow>
     hd holder_ranks \<le> r \<and> r \<le> last holder_ranks \<and> 1 \<le> n \<and> n \<le> 1000 \<and> 1 \<le> days \<and> days \<le> 365"

datatype page = Board_Page leaderboard_out | Holders_Page holders_out

datatype page_reply = Page page | Unprocessable | Fails saves_error

fun page_status :: "page_reply \<Rightarrow> int" where
  "page_status (Page _) = 200"
| "page_status Unprocessable = 422"
| "page_status (Fails e) = saves_status e"

definition reply_of :: "saves_error + page \<Rightarrow> page_reply" where
  "reply_of r = (case r of Inl e \<Rightarrow> Fails e | Inr p \<Rightarrow> Page p)"

text \<open>\<open>vs_clock\<close> is what the cache reads, \<open>vs_now\<close> the service's clock, \<open>vs_read\<close> what the save server would answer.\<close>

record visit =
  vs_query :: page_query
  vs_clock :: instant
  vs_now :: instant
  vs_read :: "saves_error + player_ranks list"

fun asked_page :: "(int \<Rightarrow> string) \<Rightarrow> int \<Rightarrow> string list \<Rightarrow> page_query \<Rightarrow> visit \<Rightarrow> saves_cache \<Rightarrow> (saves_error + page) \<times> saves_cache" where
  "asked_page str ttl excluded (Leaderboard n days) v c =
     (let (r, c') = get_current_rank_leaderboard str ttl excluded n days (vs_clock v) (vs_now v) (vs_read v) c in
      (bindR r (\<lambda>(number, entries). Inr (Board_Page \<lparr>lp_total = number, lp_entries = entries\<rparr>)), c'))"
| "asked_page str ttl excluded (Rank_Holders r n days) v c =
     (let (found, c') = get_current_rank_holders str ttl excluded r n days (vs_clock v) (vs_now v) (vs_read v) c in
      (bindR found (\<lambda>(number, shown). bindR (holders_answer r number shown) (\<lambda>h. Inr (Holders_Page h))), c'))"

definition serve_page :: "(int \<Rightarrow> string) \<Rightarrow> int \<Rightarrow> string list \<Rightarrow> visit \<Rightarrow> saves_cache \<Rightarrow> page_reply \<times> saves_cache" where
  "serve_page str ttl excluded v c =
     (if query_ok (vs_query v) then let (r, c') = asked_page str ttl excluded (vs_query v) v c in (reply_of r, c')
      else (Unprocessable, c))"

fun serve_pages :: "(int \<Rightarrow> string) \<Rightarrow> int \<Rightarrow> string list \<Rightarrow> visit list \<Rightarrow> saves_cache \<Rightarrow> page_reply list" where
  "serve_pages str ttl excluded [] c = []"
| "serve_pages str ttl excluded (v # vs) c =
     (let (r, c') = serve_page str ttl excluded v c in r # serve_pages str ttl excluded vs c')"

section \<open>Pages of one read\<close>

definition trimmed :: "player_ranks list \<Rightarrow> player_ranks list" where
  "trimmed ps = map (\<lambda>p. p\<lparr>pk_chars := top_two (pk_chars p)\<rparr>) ps"

definition rank_places :: "player_ranks list \<Rightarrow> (string \<times> nat) list" where
  "rank_places ps = fold (\<lambda>e. AList.update (be_username e) (be_rank e)) (current_rank_board (trimmed ps)) []"

definition listed_at :: "int \<Rightarrow> player_ranks list \<Rightarrow> holder list" where
  "listed_at r ps = concat (map (holder_of (rank_places ps) r) ps)"

fun page_of :: "string list \<Rightarrow> page_query \<Rightarrow> instant \<Rightarrow> player_ranks list \<Rightarrow> saves_error + page" where
  "page_of excluded (Leaderboard n days) now ps =
     (let board = current_rank_board (saved_within pk_saved_at days now (not_excluded excluded pk_npid (trimmed ps))) in
      Inr (Board_Page \<lparr>lp_total = length board, lp_entries = take n board\<rparr>))"
| "page_of excluded (Rank_Holders r n days) now ps =
     (let found = sort_key (\<lambda>h. (- int (ho_place h), casefold (ho_npid h)))
                    (saved_within ho_saved_at (Some days) now (not_excluded excluded ho_npid (listed_at r ps))) in
      bindR (holders_answer r (length found) (take n found)) (\<lambda>h. Inr (Holders_Page h)))"

type_synonym kept_read = "(player_ranks list \<times> instant) option"

definition kept :: "instant \<Rightarrow> kept_read \<Rightarrow> player_ranks list option" where
  "kept t k = (case k of None \<Rightarrow> None | Some (ps, until) \<Rightarrow> if t < until then Some ps else None)"

definition page_from_read :: "int \<Rightarrow> string list \<Rightarrow> visit \<Rightarrow> kept_read \<Rightarrow> page_reply \<times> kept_read" where
  "page_from_read ttl excluded v k =
     (if \<not> query_ok (vs_query v) then (Unprocessable, k)
      else case kept (vs_clock v) k of
        Some ps \<Rightarrow> (reply_of (page_of excluded (vs_query v) (vs_now v) ps), k)
      | None \<Rightarrow> (case vs_read v of
          Inl e \<Rightarrow> (Fails e, k)
        | Inr ps \<Rightarrow> (reply_of (page_of excluded (vs_query v) (vs_now v) ps), Some (ps, vs_clock v + ttl * second))))"

fun pages_from_read :: "int \<Rightarrow> string list \<Rightarrow> visit list \<Rightarrow> kept_read \<Rightarrow> page_reply list" where
  "pages_from_read ttl excluded [] k = []"
| "pages_from_read ttl excluded (v # vs) k =
     (let (r, k') = page_from_read ttl excluded v k in r # pages_from_read ttl excluded vs k')"

section \<open>The cache holds one read\<close>

definition holds_read :: "(int \<Rightarrow> string) \<Rightarrow> instant \<Rightarrow> saves_cache \<Rightarrow> kept_read \<Rightarrow> bool" where
  "holds_read str now c k \<longleftrightarrow>
     (\<forall>t\<ge>now. fst (dict_get current_rank_key t (sc_board c)) = map_option trimmed (kept t k) \<and>
       (\<forall>r\<in>set holder_ranks. fst (dict_get (holders_key str r) t (sc_holders c)) = map_option (listed_at r) (kept t k)))"

lemma foldR_keeps: "foldR f xs s = Inr s' \<Longrightarrow> P s \<Longrightarrow> (\<And>x s s'. P s \<Longrightarrow> f x s = Inr s' \<Longrightarrow> P s') \<Longrightarrow> P s'"
  by (induction xs arbitrary: s) auto

lemma by_rank_distinct:
  assumes "holders_by_rank ps places = Inr m"
  shows "distinct (map fst m)"
proof -
  have add: "distinct (map fst s')" if "distinct (map fst s)" "add_holder places p ri s = Inr s'" for p ri s s'
    using that by (auto simp: add_holder_def distinct_update split: option.splits)
  let ?P = "\<lambda>s. distinct (map fst s)"
  have inner: "distinct (map fst s')"
    if "distinct (map fst s)" "foldR (add_holder places p) (played_ids_by_rank (pk_chars p)) s = Inr s'" for p s s'
    using foldR_keeps [where P = ?P, OF that(2) that(1)] add by blast
  have start: "distinct (map fst (map (\<lambda>r. (r, [] :: holder list)) holder_ranks))"
    by (simp add: holder_ranks_def comp_def)
  show ?thesis
    using foldR_keeps [where P = ?P, OF assms [unfolded holders_by_rank_def] start] inner by blast
qed

lemma set_lists:
  assumes "inj str" and "distinct (map fst m)"
  shows "fst (dict_get (holders_key str r) t (fold (\<lambda>(r, hs). dict_set (holders_key str r) hs ttl now) m c)) =
    (case map_of m r of None \<Rightarrow> fst (dict_get (holders_key str r) t c) | Some hs \<Rightarrow> if t < now + ttl * second then Some hs else None)"
  using assms(2)
proof (induction m arbitrary: c)
  case (Cons x m)
  obtain r' hs where x: "x = (r', hs)" by (cases x)
  have key: "holders_key str r = holders_key str r' \<longleftrightarrow> r = r'" using assms(1) by (auto simp: holders_key_def inj_def)
  have "r = r' \<Longrightarrow> map_of m r = None" using Cons.prems x by (simp add: map_of_eq_None_iff)
  then show ?case using Cons by (auto simp: x key dict.get_after_set dict.get_set_other split: option.splits)
qed simp

lemma filled:
  assumes "inj str"
  obtains by_rank c' where
    "fill_current_rank_cache str ttl now (Inr ps) c = (Inr (trimmed ps, by_rank), c')"
    "\<forall>r\<in>set holder_ranks. map_of by_rank r = Some (listed_at r ps)"
    "holds_read str t c' (Some (ps, now + ttl * second))"
proof -
  have ball: "\<forall>p\<in>set ps. pk_chars p \<noteq> [] \<longrightarrow> map_of (rank_places ps) (pk_npid p) \<noteq> None"
  proof (intro ballI impI)
    fix p
    assume "p \<in> set ps" "pk_chars p \<noteq> []"
    then have "pk_npid p \<in> pk_npid ` {p \<in> set (trimmed ps). pk_chars p \<noteq> []}"
      unfolding trimmed_def by (intro image_eqI [of _ _ "p\<lparr>pk_chars := top_two (pk_chars p)\<rparr>"]) auto
    then have "pk_npid p \<in> dom (map_of (rank_places ps))"
      unfolding rank_places_def keys_fold_update board_usernames [symmetric] by simp
    then show "map_of (rank_places ps) (pk_npid p) \<noteq> None" by auto
  qed
  from holders_by_rank_lists [OF this] obtain m where m: "holders_by_rank ps (rank_places ps) = Inr m"
    "\<forall>r\<in>set holder_ranks. map_of m r = Some (listed_at r ps)"
    unfolding listed_at_def by auto
  let ?c = "c\<lparr>sc_board := dict_set current_rank_key (trimmed ps) ttl now (sc_board c),
              sc_holders := fold (\<lambda>(r, hs). dict_set (holders_key str r) hs ttl now) m (sc_holders c)\<rparr>"
  have "fill_current_rank_cache str ttl now (Inr ps) c = (Inr (trimmed ps, m), ?c)"
    using m(1) by (simp add: fill_current_rank_cache_def Let_def trimmed_def rank_places_def)
  moreover have "holds_read str t ?c (Some (ps, now + ttl * second))"
    using m(2) by (simp add: holds_read_def kept_def dict.get_after_set set_lists [OF assms by_rank_distinct [OF m(1)]])
  ultimately show ?thesis using that m(2) by blast
qed

lemma holds_read_later: "holds_read str now c k \<Longrightarrow> now \<le> now' \<Longrightarrow> holds_read str now' c k"
  by (auto simp: holds_read_def)

lemma looked_up_holds:
  assumes "holds_read str now c k"
  shows "holds_read str now (c\<lparr>sc_board := snd (dict_get key now (sc_board c))\<rparr>) k"
    and "holds_read str now (c\<lparr>sc_holders := snd (dict_get key now (sc_holders c))\<rparr>) k"
  using assms by (simp_all add: holds_read_def dict.get_after_get)

lemma asked_holder_rank: "query_ok (Rank_Holders r n days) \<Longrightarrow> r \<in> set holder_ranks"
proof -
  have "hd holder_ranks = 10" "last holder_ranks = 42" by code_simp+
  then show "query_ok (Rank_Holders r n days) \<Longrightarrow> r \<in> set holder_ranks" by (simp add: holder_ranks_def del: upto_rec_numeral)
qed

lemma leaderboard_served:
  assumes str: "inj str" and holds: "holds_read str now c k" and "now \<le> vs_clock v"
    and q: "vs_query v = Leaderboard n days" "query_ok (vs_query v)"
  shows "fst (serve_page str ttl excluded v c) = fst (page_from_read ttl excluded v k)"
    and "holds_read str (vs_clock v) (snd (serve_page str ttl excluded v c)) (snd (page_from_read ttl excluded v k))"
proof -
  let ?t = "vs_clock v" and ?c = "c\<lparr>sc_board := snd (dict_get current_rank_key (vs_clock v) (sc_board c))\<rparr>"
  have h: "holds_read str ?t c k" using holds_read_later [OF holds assms(3)] .
  note keep = looked_up_holds(1) [OF h, of current_rank_key]
  have got: "fst (dict_get current_rank_key ?t (sc_board c)) = map_option trimmed (kept ?t k)" using h by (simp add: holds_read_def)
  note defs = serve_page_def page_from_read_def get_current_rank_leaderboard_def split_beta Let_def reply_of_def q
  show "fst (serve_page str ttl excluded v c) = fst (page_from_read ttl excluded v k)"
  proof (cases "vs_read v")
    case (Inr ps)
    from filled [OF str, of ttl ?t ps ?c] obtain m c' where "fill_current_rank_cache str ttl ?t (Inr ps) ?c = (Inr (trimmed ps, m), c')" .
    then show ?thesis using q(2) got Inr by (cases "kept ?t k") (simp_all add: defs)
  qed (use q(2) got in \<open>cases "kept ?t k", simp_all add: defs fill_current_rank_cache_def\<close>)
  show "holds_read str ?t (snd (serve_page str ttl excluded v c)) (snd (page_from_read ttl excluded v k))"
  proof (cases "vs_read v")
    case (Inr ps)
    from filled [OF str, of ttl ?t ps ?c ?t] obtain m c' where "fill_current_rank_cache str ttl ?t (Inr ps) ?c = (Inr (trimmed ps, m), c')"
      "holds_read str ?t c' (Some (ps, ?t + ttl * second))" .
    then show ?thesis using q(2) got Inr keep by (cases "kept ?t k") (simp_all add: defs)
  qed (use q(2) got keep in \<open>cases "kept ?t k", simp_all add: defs fill_current_rank_cache_def\<close>)
qed

lemma holders_served:
  assumes str: "inj str" and holds: "holds_read str now c k" and "now \<le> vs_clock v"
    and q: "vs_query v = Rank_Holders r n days" "query_ok (vs_query v)"
  shows "fst (serve_page str ttl excluded v c) = fst (page_from_read ttl excluded v k)"
    and "holds_read str (vs_clock v) (snd (serve_page str ttl excluded v c)) (snd (page_from_read ttl excluded v k))"
proof -
  let ?t = "vs_clock v" and ?c = "c\<lparr>sc_holders := snd (dict_get (holders_key str r) (vs_clock v) (sc_holders c))\<rparr>"
  have r: "r \<in> set holder_ranks" using asked_holder_rank q by metis
  have h: "holds_read str ?t c k" using holds_read_later [OF holds assms(3)] .
  note keep = looked_up_holds(2) [OF h, of "holders_key str r"]
  have got: "fst (dict_get (holders_key str r) ?t (sc_holders c)) = map_option (listed_at r) (kept ?t k)"
    using h r by (simp add: holds_read_def)
  have ok: "query_ok (Rank_Holders r n days)" using q by simp
  note defs = serve_page_def page_from_read_def get_current_rank_holders_def split_beta Let_def reply_of_def q(1) ok
  show "fst (serve_page str ttl excluded v c) = fst (page_from_read ttl excluded v k)"
  proof (cases "vs_read v")
    case (Inr ps)
    from filled [OF str, of ttl ?t ps ?c] obtain m c' where "fill_current_rank_cache str ttl ?t (Inr ps) ?c = (Inr (trimmed ps, m), c')"
      "\<forall>r\<in>set holder_ranks. map_of m r = Some (listed_at r ps)" .
    then show ?thesis using r got Inr by (cases "kept ?t k") (simp_all add: defs del: query_ok.simps)
  qed (use got in \<open>cases "kept ?t k", simp_all add: defs fill_current_rank_cache_def del: query_ok.simps\<close>)
  show "holds_read str ?t (snd (serve_page str ttl excluded v c)) (snd (page_from_read ttl excluded v k))"
  proof (cases "vs_read v")
    case (Inr ps)
    from filled [OF str, of ttl ?t ps ?c ?t] obtain m c' where "fill_current_rank_cache str ttl ?t (Inr ps) ?c = (Inr (trimmed ps, m), c')"
      "holds_read str ?t c' (Some (ps, ?t + ttl * second))" .
    then show ?thesis using got Inr keep by (cases "kept ?t k") (simp_all add: defs del: query_ok.simps)
  qed (use got keep in \<open>cases "kept ?t k", simp_all add: defs fill_current_rank_cache_def del: query_ok.simps\<close>)
qed

lemma page_served:
  assumes "inj str" and "holds_read str now c k" and "now \<le> vs_clock v"
  shows "fst (serve_page str ttl excluded v c) = fst (page_from_read ttl excluded v k)"
    and "holds_read str (vs_clock v) (snd (serve_page str ttl excluded v c)) (snd (page_from_read ttl excluded v k))"
proof -
  have "fst (serve_page str ttl excluded v c) = fst (page_from_read ttl excluded v k) \<and>
    holds_read str (vs_clock v) (snd (serve_page str ttl excluded v c)) (snd (page_from_read ttl excluded v k))"
  proof (cases "query_ok (vs_query v)")
    case True
    then show ?thesis using leaderboard_served [OF assms] holders_served [OF assms] by (cases "vs_query v") metis+
  next
    case False
    then show ?thesis using holds_read_later [OF assms(2,3)] by (simp add: serve_page_def page_from_read_def)
  qed
  then show "fst (serve_page str ttl excluded v c) = fst (page_from_read ttl excluded v k)"
    "holds_read str (vs_clock v) (snd (serve_page str ttl excluded v c)) (snd (page_from_read ttl excluded v k))" by auto
qed

lemma pages_served:
  "inj str \<Longrightarrow> holds_read str now c k \<Longrightarrow> sorted (now # map vs_clock vs) \<Longrightarrow>
    serve_pages str ttl excluded vs c = pages_from_read ttl excluded vs k"
proof (induction vs arbitrary: now c k)
  case (Cons v vs)
  then have now: "now \<le> vs_clock v" and later: "sorted (vs_clock v # map vs_clock vs)" by auto
  note step = page_served [OF Cons.prems(1,2) now, of ttl excluded]
  show ?case using Cons.IH [OF Cons.prems(1) step(2) later] step(1) by (simp add: split_beta)
qed simp

lemma empty_holds_nothing: "holds_read str now empty_saves_cache None"
  by (simp add: holds_read_def empty_saves_cache_def dict_get_def kept_def)

section \<open>Pages of known characters\<close>

definition known_chars :: "player_ranks list \<Rightarrow> bool" where
  "known_chars ps \<longleftrightarrow> (\<forall>p\<in>set ps. \<forall>c\<in>set (pk_chars p). map_of ttt2_characters (kc_id c) \<noteq> None)"

lemma listed_known:
  assumes "known_chars ps" and "h \<in> set (listed_at r ps)" and "i \<in> set (ho_chars h)"
  shows "map_of ttt2_characters i \<noteq> None"
  using assms by (auto simp: known_chars_def listed_at_def holder_of_def holds_at_def split: if_splits)

lemma holder_row_known:
  assumes "\<forall>i\<in>set (ho_chars h). map_of ttt2_characters i \<noteq> None"
  shows "\<exists>row. holder_row h = Inr row"
proof -
  have "holder_char i = Inr \<lparr>hc_id = i, hc_character = the (map_of ttt2_characters i)\<rparr>" if "i \<in> set (ho_chars h)" for i
    using assms that by (auto simp: holder_char_def)
  from mapR_pure [of "ho_chars h" holder_char, OF this] show ?thesis by (simp add: holder_row_def)
qed

lemma asked_rank_named: "query_ok (Rank_Holders r n days) \<Longrightarrow> \<exists>name. asked_rank_name r = Inr name"
proof -
  assume "query_ok (Rank_Holders r n days)"
  then have r: "10 \<le> r" "r \<le> 42" using asked_holder_rank [of r n days] by (auto simp: holder_ranks_def simp del: query_ok.simps upto_rec_numeral)
  then have "map_of tekken_ranks (nat r) \<noteq> None" unfolding rank_known by simp
  then show "\<exists>name. asked_rank_name r = Inr name" using r by (auto simp: asked_rank_name_def split: option.splits prod.splits)
qed

lemma page_known:
  assumes ok: "query_ok q" and ps: "known_chars ps"
  shows "\<exists>p. page_of excluded q now ps = Inr p"
proof (cases q)
  case (Rank_Holders r n days)
  let ?found = "sort_key (\<lambda>h. (- int (ho_place h), casefold (ho_npid h)))
    (saved_within ho_saved_at (Some days) now (not_excluded excluded ho_npid (listed_at r ps)))"
  have "set (take n ?found) \<subseteq> set (listed_at r ps)"
    using set_take_subset [of n ?found] by (auto simp: saved_within_def not_excluded_def)
  then have "holder_row h = Inr (projr (holder_row h))" if "h \<in> set (take n ?found)" for h
    using holder_row_known [of h] listed_known [OF ps, of h r] that by fastforce
  from mapR_pure [of "take n ?found" holder_row, OF this]
  have "mapR holder_row (take n ?found) = Inr (map (\<lambda>h. projr (holder_row h)) (take n ?found))" .
  moreover obtain name where "asked_rank_name r = Inr name" using asked_rank_named ok unfolding Rank_Holders by blast
  ultimately have "\<exists>h. holders_answer r (length ?found) (take n ?found) = Inr h" unfolding holders_answer_def by simp
  then show ?thesis unfolding Rank_Holders page_of.simps Let_def by fastforce
qed (simp add: Let_def)

lemma pages_known:
  assumes "\<forall>v\<in>set vs. query_ok (vs_query v) \<and> (\<exists>ps. vs_read v = Inr ps \<and> known_chars ps)"
    and "\<forall>ps until. k = Some (ps, until) \<longrightarrow> known_chars ps"
  shows "\<forall>r\<in>set (pages_from_read ttl excluded vs k). page_status r = 200"
  using assms
proof (induction vs arbitrary: k)
  case (Cons v vs)
  then obtain ps where v: "query_ok (vs_query v)" "vs_read v = Inr ps" "known_chars ps" by auto
  obtain r k' where step: "page_from_read ttl excluded v k = (r, k')" by (cases "page_from_read ttl excluded v k")
  have known: "\<exists>p. page_of excluded (vs_query v) now qs = Inr p" if "known_chars qs" for now qs
    using page_known v(1) that by blast
  have "page_status r = 200 \<and> (\<forall>ps until. k' = Some (ps, until) \<longrightarrow> known_chars ps)"
  proof (cases "kept (vs_clock v) k")
    case None
    then show ?thesis using step v known [OF v(3), of "vs_now v"] by (auto simp: page_from_read_def reply_of_def)
  next
    case (Some qs)
    then have "known_chars qs" using Cons.prems(2) by (auto simp: kept_def split: option.splits if_splits)
    from known [OF this, of "vs_now v"] show ?thesis
      using step v Some Cons.prems(2) by (auto simp: page_from_read_def reply_of_def)
  qed
  then show ?case using Cons.IH [of k'] Cons.prems(1) step by simp
qed simp

section \<open>Properties\<close>

text \<open>C31: The leaderboard and every rank's list are pages of one read: whatever pages are asked in whatever order and
  whatever the save server would have answered in between, each is what the last read kept gives, read anew exactly
  when its time is up, so the leaderboard and the lists never come from different reads.  While the server answers and its
  characters are the game's, every page within the declared bounds is answered with 200.\<close>

theorem pages_of_one_read:
  assumes "inj str" and "sorted (map vs_clock vs)"
  shows "serve_pages str ttl excluded vs empty_saves_cache = pages_from_read ttl excluded vs None \<and>
    ((\<forall>v\<in>set vs. query_ok (vs_query v) \<and> (\<exists>ps. vs_read v = Inr ps \<and> known_chars ps)) \<longrightarrow>
      (\<forall>r\<in>set (serve_pages str ttl excluded vs empty_saves_cache). page_status r = 200))"
proof -
  have "serve_pages str ttl excluded vs empty_saves_cache = pages_from_read ttl excluded vs None"
  proof (cases vs)
    case (Cons v vs')
    then have "sorted (vs_clock v # map vs_clock vs)" using assms(2) by auto
    from pages_served [OF assms(1) empty_holds_nothing this] show ?thesis .
  qed simp
  then show ?thesis using pages_known [of vs None] by simp
qed

abbreviation demo_jin :: player_ranks where
  "demo_jin \<equiv> \<lparr>pk_npid = ''jin'', pk_saved_at = 0, pk_account_rank = 20, pk_chars =
     [\<lparr>kc_id = 0, kc_character = ''Paul'', kc_rank = 20, kc_rank_name = ''r'', kc_tier = ''t'', kc_points = 0, kc_streak = 0,
       kc_wins = 3, kc_losses = 1\<rparr>]\<rparr>"

abbreviation demo_visits :: "visit list" where
  "demo_visits \<equiv> [\<lparr>vs_query = Leaderboard 5 None, vs_clock = 1, vs_now = 1, vs_read = Inr [demo_jin]\<rparr>,
     \<lparr>vs_query = Rank_Holders 20 5 30, vs_clock = 2, vs_now = 2, vs_read = Inl Saves_Unavailable\<rparr>]"

abbreviation "unary r \<equiv> replicate (nat r) CHR ''i'' @ (if r < 0 then ''-'' @ replicate (nat (- r)) CHR ''i'' else [])"

theorem pages_of_one_read_witness:
  "map page_status (serve_pages unary 300 [] demo_visits empty_saves_cache) = [200, 200]"
proof -
  have "inj unary" by (rule injI) (auto split: if_splits dest: arg_cong [of _ _ length] arg_cong [of _ _ "\<lambda>s. CHR ''-'' \<in> set s"])
  moreover have "sorted (map vs_clock demo_visits)" by simp
  moreover have "map page_status (pages_from_read 300 [] demo_visits None) = [200, 200]" by code_simp
  ultimately show ?thesis using pages_of_one_read [of unary demo_visits 300 "[]"] by simp
qed

end
