(* ===== verification/Chat_Wire.thy ===== *)
theory Chat_Wire
  imports Chat_System Account_Api
begin

text \<open>
  What the chat's stream sends over HTTP (\<open>chat/router.py\<close>, the answers of \<open>chat/models.py\<close>): the snapshot first, then
  one server-sent event for every event of the bus.  \<open>isoformat\<close> is how pydantic writes a moment.
\<close>

record sse =
  se_event :: string
  se_data :: json

definition chat_message_out :: "(instant \<Rightarrow> string) \<Rightarrow> message \<Rightarrow> json" where
  "chat_message_out isoformat m = JObj
     [(''id'', JInt (int (ms_id m))), (''author_username'', JStr (ms_author m)), (''author_online_name'', JStr (ms_online_name m)),
      (''body'', JStr (ms_body m)), (''created_at'', JStr (isoformat (ms_created m))), (''author_admin'', JBool (ms_admin m))]"

definition deleted_out :: "nat \<Rightarrow> json" where
  "deleted_out i = JObj [(''id'', JInt (int i))]"

fun to_sse :: "(instant \<Rightarrow> string) \<Rightarrow> chat_event \<Rightarrow> sse" where
  "to_sse isoformat (Posted m) = \<lparr>se_event = ''message'', se_data = chat_message_out isoformat m\<rparr>"
| "to_sse isoformat (Deleted i) = \<lparr>se_event = ''delete'', se_data = deleted_out i\<rparr>"

definition snapshot_sse :: "(instant \<Rightarrow> string) \<Rightarrow> message list \<Rightarrow> sse" where
  "snapshot_sse isoformat ms = \<lparr>se_event = ''snapshot'', se_data = JArr (map (chat_message_out isoformat) ms)\<rparr>"

definition frames :: "(instant \<Rightarrow> string) \<Rightarrow> message list \<Rightarrow> chat_event list \<Rightarrow> sse list" where
  "frames isoformat ms events = snapshot_sse isoformat ms # map (to_sse isoformat) events"

text \<open>Nothing is lost on the wire: the frames tell the messages and the events apart.\<close>

lemma chat_message_out_inj:
  assumes "inj isoformat" and "chat_message_out isoformat m = chat_message_out isoformat m'"
  shows "m = m'"
  using assms by (auto simp: chat_message_out_def inj_eq intro: message.equality)

lemma to_sse_inj: "inj isoformat \<Longrightarrow> inj (to_sse isoformat)"
proof (rule injI)
  fix e e'
  assume "inj isoformat" "to_sse isoformat e = to_sse isoformat e'"
  then show "e = e'" by (cases e; cases e') (auto simp: deleted_out_def dest: chat_message_out_inj)
qed

lemma frames_tell_all:
  assumes "inj isoformat" and "frames isoformat ms events = frames isoformat ms' events'"
  shows "ms = ms' \<and> events = events'"
proof -
  have "inj (chat_message_out isoformat)" using chat_message_out_inj [OF assms(1)] by (auto intro: injI)
  then show ?thesis using assms(2) inj_map_eq_map [OF to_sse_inj [OF assms(1)]]
    by (simp add: frames_def snapshot_sse_def inj_map_eq_map)
qed

end
