(* ===== verification/Spec2Isabelle.thy ===== *)
theory Spec2Isabelle
  imports Prelude Errors Idempotency Cache
    Reservation_Domain Reservation_Repo Reservation_Invariant Reservation_Service Reservation_System
    Rpcn_Client Rpcn_Lifecycle Ttt2 Matching Matching_Service History Collector
    Records_Domain Records_Repo Records_Invariant Records_Reading Records_System
    Places Saves Event Community Community_Invariant Community_System Chat Chat_System Cached_View Streaming Streaming_Service
    Popup Popup_Service Account_Api Auth Admin Saves_Admin Request_Errors Rooms_Page Workers Lifespan
    Saves_Shapes Container Rpcn_Metrics
    Schema Migrations Entities Entity_Schema Migration_Data Routes Seed Startup Community_Race Reservation_Api Idempotency_Race
    Records_Rows Records_Port Community_Port Store_Ports Server_Ports Cache_Json Wiring Saves_Pages Chat_Wire
begin

text \<open>
  A model of the tag2now backend: the service behind a site for players of Tekken Tag Tournament 2 on
  the RPCS3 network.  The code is Python under \<open>src/\<close>; each package there is one component with its own
  domain rules, a port, adapters over PostgreSQL, Redis or another server, and a service.

  \<^bold>\<open>What the program does.\<close>  \<open>rpcn_client/\<close> speaks the binary protocol of the game's lobby server
  (RPCN).  \<open>matching/\<close> asks it for rooms and the leaderboard over one shared connection and infers from
  successive room lists who is waiting for an opponent.  \<open>history/\<close> samples those rooms and keeps who met
  whom.  \<open>saves/\<close> reads the players' save files from another server, and \<open>records/\<close> compares successive
  saves of a player: a win or loss added is a match, which is joined to the room the player was in.
  \<open>event/\<close> judges the saves against a baseline.  \<open>reservation/\<close> books matches for a time of day,
  \<open>community/\<close> is a board of posts, comments and votes, \<open>chat/\<close> a live chat.  \<open>idempotency/\<close> and
  \<open>shared/\<close> (cache, exceptions, character tables) serve them all.

  \<^bold>\<open>How the model follows the code.\<close>  A table is the list of its rows with the counter its next id comes
  from; a repository method is a function on the tables that returns an error or the answer and the new
  tables, and \<open>transact\<close> undoes a method that fails, as the session's rollback does.  An exception is
  \<open>Inl\<close>, and its class and reason are constructors; \<open>Errors\<close> gives each class its HTTP status.  Time is
  a whole number of microseconds since the epoch, passed in where the code reads a clock.  Text is a list
  of characters; Python's \<open>strip\<close> is modelled on the code points below 256, \<open>casefold\<close> on the ASCII letters.  Code that is
  not in the repository is a parameter: the protobuf parser and serialiser, SHA-256 and the canonical
  JSON text, the decoding of UTF-8, PBKDF2, the JWT library, the answers of RPCN, of the save server, of Chzzk
  and of Redis.

  \<^bold>\<open>Theories.\<close>
  \<^item> \<open>Prelude\<close>: errors as sums, transactions, filtered updates, text, time and the Seoul wall clock.
  \<^item> \<open>Errors\<close>: \<open>shared/exceptions.py\<close> and the statuses of \<open>shared/error_handlers.py\<close>.
  \<^item> \<open>Idempotency\<close>: \<open>idempotency/\<close>.  The locale \<open>idempotency_store\<close> is the port; the service's lemmas
    (a write runs once per key, a replay answers what was stored, a key used again for another request is
    refused) are proved in it and interpreted on the PostgreSQL store.
  \<^item> \<open>Cache\<close>: \<open>shared/cache.py\<close>.  The locale of the cache port is interpreted on \<open>DictCache\<close>;
    \<open>RedisCache\<close>, which answers nothing when Redis is away, and the health check are modelled too.
    \<open>Cached_View\<close>: the locale of an answer kept in the cache until a write deletes it.
  \<^item> \<open>Reservation_Domain\<close>, \<open>Reservation_Repo\<close>, \<open>Reservation_Service\<close>: \<open>reservation/\<close>, rules, tables and use
    cases.  \<open>Reservation_Invariant\<close> has the invariant of the tables and its preservation by every
    method; \<open>Reservation_System\<close> the runs: calls one after another (\<open>run_calls\<close>), edits whose unlocked
    check and locked write are split by other transactions (\<open>interleaved\<close>), and the refinement of
    joining and leaving to an abstract booking, a set of seats.
  \<^item> \<open>Rpcn_Client\<close>: \<open>rpcn_client/\<close>, bytes as 8-bit words, the socket as the pieces that arrive;
    \<open>Rpcn_Lifecycle\<close>: the shared connection of \<open>matching/rpcn_lifecycle.py\<close> and its pause after a failure.
  \<^item> \<open>Ttt2\<close>: the tables of \<open>shared/ttt2.py\<close>.  \<open>Matching\<close>: the models and the tracker of
    \<open>matching/matchmaking_tracker.py\<close>; \<open>Matching_Service\<close>: the adapter over the client and the service.
  \<^item> \<open>History\<close>, \<open>Collector\<close>: \<open>history/\<close>, the statistics day, the tables and queries, the collector's cycle.
  \<^item> \<open>Records_Domain\<close>, \<open>Records_Repo\<close>: \<open>records/\<close>.  \<open>Records_Invariant\<close>: the invariant of the match
    tables; \<open>Records_Reading\<close>: name queries and pages; \<open>Records_System\<close>: the room watch, the capture
    and the queue taking their turns in any order, with whatever failures (\<open>recording\<close>).
  \<^item> \<open>Places\<close>: competition places (1, 2, 2, 4), shared by the two boards; \<open>Saves\<close>: \<open>saves/\<close>;
    \<open>Event\<close>: \<open>event/\<close>, whose service is proved over the cache's locale.
  \<^item> \<open>Community\<close>: \<open>community/\<close>; \<open>Community_Invariant\<close>: the board's invariant and the coherence of the
    cached posts; \<open>Community_System\<close>: the comment tree and runs of calls.
  \<^item> \<open>Chat\<close>: the play day and the two stores, each an instance of the locale \<open>chat_repository\<close>;
    \<open>Chat_System\<close>: bus, service and streams as one step relation, requests cut at each \<open>await\<close>.
  \<^item> \<open>Streaming\<close>, \<open>Streaming_Service\<close>: \<open>streaming/\<close>: channel ids, the platform's answers, the table and
    the service; its table of channels is an instance of \<open>cached_view\<close>.
  \<^item> \<open>Popup\<close>, \<open>Popup_Service\<close>: \<open>popup/\<close>: form, image, table and service, then runs of the routes.
  \<^item> \<open>Account_Api\<close>: \<open>shared/rpcn_api.py\<close>, \<open>shared/rpcn_password.py\<close>, and JSON values with the exceptions
    Python raises on reading them; \<open>Auth\<close>: \<open>auth/\<close>; \<open>Admin\<close>: \<open>admin/\<close>; \<open>Saves_Admin\<close>: the admin's
    side of \<open>saves/\<close>.  Their operations also list what was sent, and a result is a domain error, an
    exception that escapes (500) or the answer.
  \<^item> \<open>Request_Errors\<close>: how \<open>shared/error_handlers.py\<close> describes a refused request, in code points.
  \<^item> \<open>Rooms_Page\<close>: the cached part of \<open>matching/service.py\<close> and the room page, which composes matching and
    streaming.  \<open>Workers\<close>: the loops of \<open>records/workers.py\<close>.  \<open>Lifespan\<close>: start-up and shut-down.
  \<^item> \<open>Saves_Shapes\<close>: the answers the save routes declare.  \<open>Container\<close>: \<open>shared/settings.py\<close>, the connection string
    of \<open>shared/database.py\<close> and what \<open>container.py\<close> makes of the settings for login, moderation and the saves.
    \<open>Rpcn_Metrics\<close>: the tracking proxy around an RPCN client.
  \<^item> \<open>Schema\<close>: a database schema, what an \<open>alembic.op\<close> call does to one and what it asks of the rows that are there;
    \<open>Migrations\<close>: the eighteen revisions of \<open>src/alembic/versions/\<close>, upgrade and downgrade, and the path through them;
    \<open>Entities\<close>: the tables that the
    classes of every \<open>entities.py\<close> declare; \<open>Entity_Schema\<close>: the revisions build those tables and can be undone;
    \<open>Migration_Data\<close>: what the data statements of the revisions do to the rows that are there.
  \<^item> \<open>Routes\<close>: every route of every \<open>router.py\<close> with its gate and its parameters, in the order of \<open>app.py\<close>, and the
    way of a request to a handler: dispatch, body, who is calling, values.
  \<^item> \<open>Startup\<close>: what \<open>app.py\<close> logs and waits for before it serves.  \<open>Community_Race\<close>: requests of the board cut at
    their awaits: a read between the cache, its two queries and the filling, a write between its commit and each drop of
    an entry, and a Redis that fails.  \<open>Seed\<close>: \<open>scripts/seed_local_activity.py\<close>.
  \<^item> \<open>Reservation_Api\<close>: the reservations over HTTP, a request through \<open>Routes\<close> to its call of the
    service and back as a status.
  \<^item> \<open>Idempotency_Race\<close>: requests under one key at the same time, as interleaved transactions that wait for each
    other at the unique index, and their refinement to calls of \<open>run_once\<close> one after the other.
  \<^item> \<open>Records_Rows\<close>: how \<open>records/adapters/postgresql.py\<close> keeps saves and events in rows, JSON and texts.
    \<open>Records_Port\<close>: the operations of \<open>records/ports.py\<close>, the service over any repository that has them, the locale
    of what they promise, and its interpretation on the rows.
  \<^item> \<open>Community_Port\<close>, \<open>Store_Ports\<close>, \<open>Server_Ports\<close>: what the docstrings of the ports of the board, of popups and channels, and
    of the servers promise, and that the adapters keep it.
  \<^item> \<open>Cache_Json\<close>: what the cache's JSON makes of a value.  \<open>Wiring\<close>: which object of the container is handed which.
  \<^item> \<open>Saves_Pages\<close>: the public pages of \<open>saves/router.py\<close> and their refinement to one read kept for a time.
    \<open>Chat_Wire\<close>: the frames of the chat's stream.
  \<^bold>\<open>What is shown.\<close>  Each component has its invariant, kept by every operation and so true in every
  reachable state; the functional behaviour of its operations, errors included; and, where the code
  promises more, the specification it meets: joining refines taking a seat of an abstract booking, a
  cached post is the stored post, the tracker holds exactly the players the definition of searching
  names, a stream misses nothing, the encoders and parsers are inverse, the boards assign competition
  places, requests under one key refine calls one after the other, stored rows implement the saves and events they
  stand for, adapters keep what their ports promise, the revisions build the tables the
  entities declare, and a request over HTTP acts in nobody's name but the caller's.  The properties C1, C2, ... stand at the end of the theories of their components, each after
  the text that names it.  Some of them state what the code does where that is not what its documents
  say: an edit that is lost between its check and its write, an outage that reads as players searching, a deleted post
  that a late read brings back; some of these are theorems beside the properties: ids that no column holds, revisions
  that date a night's rooms by midnight.

  \<^bold>\<open>Bounds and termination.\<close>  Every loop is a total function, but for the consumer of \<open>Workers\<close>, whose value is \<open>None\<close>
  where it would not end and which is shown to end.  Reading from the socket shortens the list
  of pieces still to arrive, which is its measure; an empty list is the connection's end, so the loop
  ends.  The health check's attempts are a list, one entry per ping, with the clock after it, and a theorem
  says it ends once a ping succeeds or the clock passes the deadline.  The nesting of comments follows
  references to the depth of the number of comments, which no chain of parents exceeds; the path through the revisions
  has their number as its fuel, and building the head from it is shown to succeed.  Python's
  integers are \<open>int\<close> or \<open>nat\<close>; only bytes, of the protocol, of images and of keys, have a width.

  \<^bold>\<open>What is not modelled.\<close>  The HTTP framework beyond its order of dispatch, body, dependencies and values (CORS, its
  own documentation pages, response headers); the forms of \<open>__main__.py\<close>; the ports that promise
  no more than their types; the environment, the SQL toolkit and its connections, logging,
  TLS and the Redis client.  Concurrency is modelled where the code's correctness depends on it: reservation edits, the
  recording's workers, the chat's awaits, reads that fill the cache, requests under one key; elsewhere a transaction is one step, as its row locks make it.  A revision's
  statements are run on the schema and, where they touch rows, on the rows; locks and time spent in them are not.
\<close>

section \<open>One day for all\<close>

text \<open>
  Three components count days from six in the morning in Seoul, each with its own arithmetic: bookings
  end with the day (\<open>window_end\<close>), the chat shows today and yesterday (\<open>day_start\<close>, \<open>history_start\<close>), and
  the statistics are kept by date (\<open>stat_day\<close>).
\<close>

lemma stat_day_start_step: "stat_day_start (d + 1) = stat_day_start d + day"
  by (simp add: stat_day_start_def algebra_simps)

lemma stat_day_start_mono: "d \<le> d' \<Longrightarrow> stat_day_start d \<le> stat_day_start d'"
  by (simp add: stat_day_start_def)

lemma stat_day_ge: "d \<le> stat_day t \<longleftrightarrow> stat_day_start d \<le> t"
proof -
  have b: "stat_day_start (stat_day t) \<le> t" "t < stat_day_start (stat_day t + 1)"
    using stat_day_iff [of t "stat_day t"] by simp_all
  show ?thesis
  proof (cases "d \<le> stat_day t")
    case True then show ?thesis using stat_day_start_mono [OF True] b by simp
  next
    case False
    then have "stat_day_start (stat_day t + 1) \<le> stat_day_start d" by (intro stat_day_start_mono) simp
    with b False show ?thesis by simp
  qed
qed

lemma window_end_day: "window_end now = day_start now + day"
  by (auto simp: window_end_def day_start_def day_start_hour_def at_hour_def Let_def from_kst_wall_def)

lemma day_start_stat_day: "day_start now = stat_day_start (stat_day now)"
proof -
  define D where "D = kst_wall (window_end now) div day"
  have "kst_wall (window_end now) = D * day + 6 * hour"
    using day_split [of "kst_wall (window_end now)"] by (simp add: window_end_dawn D_def)
  then have d: "day_start now = stat_day_start (D - 1)"
    by (simp add: window_end_day stat_day_start_def stat_day_start_hour_def kst_wall_def algebra_simps)
  then have "stat_day_start (D - 1 + 1) = day_start now + day" by (simp only: stat_day_start_step)
  then have "stat_day now = D - 1" unfolding stat_day_iff using day_start_bounds [of now] d by simp
  then show ?thesis by (simp add: d)
qed

text \<open>The three components agree on the day: a booking's window ends where the statistics' next date begins,
  the chat's day begins with the statistics' date, a moment has today's date exactly when it lies between the
  two, and the chat shows exactly what was said on today's date, the date before or later.\<close>

theorem one_day:
  "window_end now = stat_day_start (stat_day now + 1) \<and> day_start now = stat_day_start (stat_day now)
   \<and> (stat_day t = stat_day now \<longleftrightarrow> day_start now \<le> t \<and> t < window_end now)
   \<and> (stat_day now - 1 \<le> stat_day t \<longleftrightarrow> history_start now \<le> t)"
proof -
  have h: "history_start now = stat_day_start (stat_day now - 1)"
    using stat_day_start_step [of "stat_day now - 1"] by (simp add: history_start_def day_start_stat_day)
  show ?thesis
    by (simp only: stat_day_iff [of t] stat_day_ge h window_end_day day_start_stat_day stat_day_start_step simp_thms)
qed

end
